(* ===== verification/Qubox_Prelude.thy ===== *)
theory Qubox_Prelude
  imports "HOL-Library.Word" "HOL-Library.AList" "HOL-Library.Char_ord"
begin

text \<open>
  Shared vocabulary of the development: Rust's fixed-width integers as words, its saturating
  arithmetic, little- and big-endian byte encodings, hash maps as association lists, and the
  result type of fallible operations. The lemmas of this theory are the ones several
  components use; the named collections \<open>map_simps\<close>, \<open>byte_simps\<close> and \<open>result_simps\<close>
  carry them into the component proofs.
\<close>

unbundle bit_operations_syntax

named_theorems map_simps \<open>rewriting of hash-map operations\<close>
named_theorems byte_simps \<open>rewriting of byte encodings\<close>
named_theorems result_simps \<open>inversion of fallible operations\<close>

type_synonym u8 = "8 word"
type_synonym u16 = "16 word"
type_synonym u32 = "32 word"
type_synonym u64 = "64 word"
type_synonym uuid = "128 word"
type_synonym bytes = "u8 list"

text \<open>A Rust \<open>Result\<close> is a sum whose left side is the error.\<close>

type_synonym ('e, 'a) result = "'e + 'a"

abbreviation Err :: "'e \<Rightarrow> ('e, 'a) result" where "Err \<equiv> Inl"
abbreviation Ok :: "'a \<Rightarrow> ('e, 'a) result" where "Ok \<equiv> Inr"

definition is_ok :: "('e, 'a) result \<Rightarrow> bool" where
  "is_ok r = (case r of Inl _ \<Rightarrow> False | Inr _ \<Rightarrow> True)"

lemma is_ok_simps [simp, result_simps]: "is_ok (Inr x)" "\<not> is_ok (Inl e)"
  by (simp_all add: is_ok_def)

text \<open>
  A fallible operation on a state \<open>'s\<close> returns the state together with a result: an early
  return keeps the mutations made before it. \<open>bind_st\<close> is Rust's \<open>?\<close> followed by the rest of the
  function body.
\<close>

definition bind_st ::
    "'s \<times> ('e, 'a) result \<Rightarrow> ('s \<Rightarrow> 'a \<Rightarrow> 's \<times> ('e, 'b) result) \<Rightarrow> 's \<times> ('e, 'b) result" where
  "bind_st r f = (case r of (s, Inl e) \<Rightarrow> (s, Err e) | (s, Inr x) \<Rightarrow> f s x)"

lemma bind_st_simps [simp, result_simps]:
  "bind_st (s, Inl e) f = (s, Err e)" "bind_st (s, Inr x) f = f s x"
  by (simp_all add: bind_st_def)

lemma bind_st_Ok:
  "bind_st r f = (s', Ok y) \<longleftrightarrow> (\<exists>s x. r = (s, Ok x) \<and> f s x = (s', Ok y))"
  by (auto simp: bind_st_def split: prod.splits sum.splits)

text \<open>A property of the state alone that both parts keep is kept by the composition.\<close>

lemma bind_st_inv:
  assumes "P (fst r)" and "\<And>s x. r = (s, Ok x) \<Longrightarrow> P s \<Longrightarrow> P (fst (f s x))"
  shows "P (fst (bind_st r f))"
  using assms by (auto simp: bind_st_def split: prod.splits sum.splits)

subsection \<open>Saturating arithmetic\<close>

definition saturating_add :: "'a::len word \<Rightarrow> 'a word \<Rightarrow> 'a word" where
  "saturating_add a b = (if unat a + unat b < 2 ^ LENGTH('a) then a + b else - 1)"

definition saturating_sub :: "'a::len word \<Rightarrow> 'a word \<Rightarrow> 'a word" where
  "saturating_sub a b = (if b \<le> a then a - b else 0)"

definition saturating_mul :: "'a::len word \<Rightarrow> 'a word \<Rightarrow> 'a word" where
  "saturating_mul a b = (if unat a * unat b < 2 ^ LENGTH('a) then a * b else - 1)"

lemma unat_saturating_add:
  "unat (saturating_add a b) = min (unat a + unat b) (2 ^ LENGTH('a) - 1)"
  for a b :: "'a::len word"
proof (cases "unat a + unat b < 2 ^ LENGTH('a)")
  case True
  then show ?thesis
    by (simp add: saturating_add_def unat_word_ariths)
next
  case False
  then show ?thesis
    by (simp add: saturating_add_def unsigned_minus_1_eq_mask mask_eq_exp_minus_1)
qed

lemma unat_saturating_mul:
  "unat (saturating_mul a b) = min (unat a * unat b) (2 ^ LENGTH('a) - 1)"
  for a b :: "'a::len word"
proof (cases "unat a * unat b < 2 ^ LENGTH('a)")
  case True
  then show ?thesis
    by (simp add: saturating_mul_def unat_word_ariths)
next
  case False
  then show ?thesis
    by (simp add: saturating_mul_def unsigned_minus_1_eq_mask mask_eq_exp_minus_1)
qed

lemma saturating_add_ge: "a \<le> saturating_add a b"
  for a b :: "'a::len word"
proof -
  have "unat a < 2 ^ LENGTH('a)" by (rule unsigned_less)
  then have "unat a \<le> 2 ^ LENGTH('a) - 1" by linarith
  then have "unat a \<le> unat (saturating_add a b)"
    by (simp add: unat_saturating_add)
  then show ?thesis by (simp add: word_le_nat_alt)
qed

subsection \<open>Byte encodings\<close>

definition to_le_bytes :: "nat \<Rightarrow> 'a::len word \<Rightarrow> bytes" where
  "to_le_bytes n w = map (\<lambda>i. ucast (drop_bit (8 * i) w)) [0..<n]"

definition to_be_bytes :: "nat \<Rightarrow> 'a::len word \<Rightarrow> bytes" where
  "to_be_bytes n w = rev (to_le_bytes n w)"

fun from_le_bytes :: "bytes \<Rightarrow> 'a::len word" where
  "from_le_bytes [] = 0"
| "from_le_bytes (b # bs) = ucast b OR push_bit 8 (from_le_bytes bs)"

definition from_be_bytes :: "bytes \<Rightarrow> 'a::len word" where
  "from_be_bytes bs = from_le_bytes (rev bs)"

lemma length_to_bytes [simp, byte_simps]:
  "length (to_le_bytes n w) = n" "length (to_be_bytes n w) = n"
  by (simp_all add: to_le_bytes_def to_be_bytes_def)

lemma bit_from_le_bytes:
  "bit (from_le_bytes bs :: 'a::len word) k \<longleftrightarrow>
     k < LENGTH('a) \<and> k < 8 * length bs \<and> bit (bs ! (k div 8)) (k mod 8)"
proof (induction bs arbitrary: k)
  case Nil
  then show ?case by simp
next
  case (Cons b bs)
  show ?case
  proof (cases "k < 8")
    case True
    then show ?thesis
      by (auto simp: bit_or_iff bit_push_bit_iff bit_unsigned_iff)
  next
    case False
    then have k: "k div 8 = Suc ((k - 8) div 8)" "k mod 8 = (k - 8) mod 8"
      using le_div_geq [of 8 k] le_mod_geq [of 8 k] by simp_all
    have "\<not> bit b k" using False bit_imp_le_length [of b k] by auto
    with False show ?thesis
      by (auto simp: bit_or_iff bit_push_bit_iff bit_unsigned_iff Cons.IH k)
  qed
qed

lemma from_le_to_le_bytes [simp]:
  assumes "LENGTH('a) \<le> 8 * n"
  shows "from_le_bytes (to_le_bytes n w) = (w :: 'a::len word)"
proof (rule bit_word_eqI)
  fix k assume k: "k < LENGTH('a)"
  with assms have "k div 8 < n" by auto
  with k assms show "bit (from_le_bytes (to_le_bytes n w) :: 'a word) k = bit w k"
    by (simp add: bit_from_le_bytes to_le_bytes_def bit_unsigned_iff bit_drop_bit_eq)
qed

lemma from_be_to_be_bytes [simp]:
  "LENGTH('a) \<le> 8 * n \<Longrightarrow> from_be_bytes (to_be_bytes n w) = (w :: 'a::len word)"
  by (simp add: from_be_bytes_def to_be_bytes_def)

lemma to_le_from_le_bytes:
  assumes "LENGTH('a) = 8 * length bs"
  shows "to_le_bytes (length bs) (from_le_bytes bs :: 'a::len word) = bs"
proof (rule nth_equalityI)
  show "length (to_le_bytes (length bs) (from_le_bytes bs :: 'a word)) = length bs" by simp
next
  fix i assume "i < length (to_le_bytes (length bs) (from_le_bytes bs :: 'a word))"
  then have i: "i < length bs" by simp
  show "to_le_bytes (length bs) (from_le_bytes bs :: 'a word) ! i = bs ! i"
  proof (rule bit_word_eqI)
    fix k assume k: "k < LENGTH(8)"
    then have "8 * i + k < 8 * length bs" using i by auto
    moreover have "(8 * i + k) div 8 = i" "(8 * i + k) mod 8 = k" using k by auto
    ultimately show "bit (to_le_bytes (length bs) (from_le_bytes bs :: 'a word) ! i) k =
        bit (bs ! i) k"
      using i k assms
      by (simp add: to_le_bytes_def bit_unsigned_iff bit_drop_bit_eq bit_from_le_bytes)
  qed
qed

lemma to_be_from_be_bytes:
  "LENGTH('a) = 8 * length bs \<Longrightarrow> to_be_bytes (length bs) (from_be_bytes bs :: 'a::len word) = bs"
  using to_le_from_le_bytes [of "rev bs", where 'a = 'a]
  by (simp add: from_be_bytes_def to_be_bytes_def)

lemma to_be_bytes_inject:
  fixes v w :: "'a::len word"
  assumes "LENGTH('a) \<le> 8 * n"
  shows "to_be_bytes n v = to_be_bytes n w \<longleftrightarrow> v = w"
proof
  assume "to_be_bytes n v = to_be_bytes n w"
  then have "(from_be_bytes (to_be_bytes n v) :: 'a word) = from_be_bytes (to_be_bytes n w)"
    by simp
  then show "v = w" using assms by simp
qed simp

subsection \<open>Hash maps\<close>

text \<open>
  A \<open>HashMap\<close> or \<open>BTreeMap\<close> is an association list with distinct keys. The list order is
  the iteration order, which Rust leaves open for a \<open>HashMap\<close>: a theorem about every list is a
  theorem about every iteration order. \<open>insert\<close> is \<open>AList.update\<close>, \<open>remove\<close> is
  \<open>AList.delete\<close>, \<open>get\<close> is \<open>map_of\<close>.
\<close>

type_synonym ('k, 'v) hmap = "('k \<times> 'v) list"

definition wf_map :: "('k, 'v) hmap \<Rightarrow> bool" where
  "wf_map m \<longleftrightarrow> distinct (map fst m)"

definition retain :: "('k \<Rightarrow> 'v \<Rightarrow> bool) \<Rightarrow> ('k, 'v) hmap \<Rightarrow> ('k, 'v) hmap" where
  "retain P m = filter (\<lambda>(k, v). P k v) m"

lemma wf_map_Nil [simp, map_simps]: "wf_map []"
  by (simp add: wf_map_def)

lemma wf_map_update [simp, map_simps]: "wf_map m \<Longrightarrow> wf_map (AList.update k v m)"
  by (simp add: wf_map_def distinct_update)

lemma wf_map_delete [simp, map_simps]: "wf_map m \<Longrightarrow> wf_map (AList.delete k m)"
  by (simp add: wf_map_def distinct_delete)

lemma wf_map_retain [simp, map_simps]: "wf_map m \<Longrightarrow> wf_map (retain P m)"
  by (simp add: wf_map_def retain_def distinct_map_filter)

lemma map_of_update [simp, map_simps]: "map_of (AList.update k v m) = (map_of m)(k \<mapsto> v)"
  by (rule update_conv')

lemma map_of_delete [simp, map_simps]: "map_of (AList.delete k m) = (map_of m)(k := None)"
  by (rule delete_conv')

lemma map_of_in_set: "wf_map m \<Longrightarrow> (k, v) \<in> set m \<longleftrightarrow> map_of m k = Some v"
  by (simp add: wf_map_def map_of_eq_Some_iff)

lemma map_of_retain [map_simps]:
  assumes "wf_map m"
  shows "map_of (retain P m) k =
    (case map_of m k of None \<Rightarrow> None | Some v \<Rightarrow> if P k v then Some v else None)"
proof (cases "map_of (retain P m) k")
  case None
  then have "\<forall>v. (k, v) \<notin> set (retain P m)"
    using wf_map_retain [OF assms, of P] by (auto simp: map_of_in_set)
  with None assms show ?thesis
    by (auto simp: retain_def map_of_in_set split: option.split)
next
  case (Some v)
  then have "(k, v) \<in> set (retain P m)" by (rule map_of_SomeD)
  then have "(k, v) \<in> set m" "P k v" by (auto simp: retain_def)
  with Some assms show ?thesis by (simp add: map_of_in_set)
qed

lemma set_retain [map_simps]: "set (retain P m) = {(k, v). (k, v) \<in> set m \<and> P k v}"
  by (auto simp: retain_def)

lemma length_update: "length (AList.update k v m) =
    (if k \<in> fst ` set m then length m else Suc (length m))"
  by (induction m) auto

lemma length_delete_le [simp]: "length (AList.delete k m) \<le> length m"
  by (simp add: AList.delete_eq)

lemma length_retain_le [simp]: "length (retain P m) \<le> length m"
  by (simp add: retain_def)

lemma in_set_update: "(k, v) \<in> set (AList.update k' v' m) \<Longrightarrow> (k, v) = (k', v') \<or> (k, v) \<in> set m"
  by (induction m) (auto split: if_splits)

lemma in_set_delete: "(k, v) \<in> set (AList.delete k' m) \<longleftrightarrow> k \<noteq> k' \<and> (k, v) \<in> set m"
  by (auto simp: AList.delete_eq)

subsection \<open>Transition systems\<close>

inductive reach :: "('s \<Rightarrow> bool) \<Rightarrow> ('s \<Rightarrow> 's \<Rightarrow> bool) \<Rightarrow> 's \<Rightarrow> bool" for init step where
  reach_init: "init s \<Longrightarrow> reach init step s"
| reach_step: "reach init step s \<Longrightarrow> step s s' \<Longrightarrow> reach init step s'"

text \<open>The interface of an inductive invariant: it holds initially and every step keeps it.\<close>

locale invariant_system =
  fixes init :: "'s \<Rightarrow> bool" and step :: "'s \<Rightarrow> 's \<Rightarrow> bool" and inv :: "'s \<Rightarrow> bool"
  assumes inv_init: "init s \<Longrightarrow> inv s"
    and inv_step: "inv s \<Longrightarrow> step s s' \<Longrightarrow> inv s'"
begin

lemma reach_inv: "reach init step s \<Longrightarrow> inv s"
  by (induction rule: reach.induct) (auto intro: inv_init inv_step)

end

end
