(* ===== verification/Jti_Cache.thy ===== *)
theory Jti_Cache
  imports Qubox_Prelude
begin

text \<open>
  The single-use token cache of \<open>crates/qubox-signaling/src/jti_cache.rs\<close>: the record
  \<open>jti_cache\<close> is the struct, \<open>validate_jti\<close>, \<open>prune_expired\<close>, \<open>check_and_mark\<close> and
  \<open>denylist\<close> are its methods in state-passing style. Strings are the UTF-8 bytes of the Rust
  string, so \<open>length\<close> is Rust's \<open>len\<close>. The interface the relay relies on is the locale
  \<open>replay_guard\<close>; it is interpreted on this cache at the end, and the single-use property of
  the relay rests on that interpretation.
\<close>

datatype jti_error = Replay | Killed | Capacity | Invalid

record jti_entry =
  exp_unix_ms :: u64

record jti_cache =
  seen :: "(string, jti_entry) hmap"
  denied :: "(string, jti_entry) hmap"
  max_entries :: nat
  lru :: "string list"

definition DEFAULT_MAX_ENTRIES :: nat where
  "DEFAULT_MAX_ENTRIES = 100000"

definition jti_with_capacity :: "nat \<Rightarrow> jti_cache" where
  "jti_with_capacity n = \<lparr>seen = [], denied = [], max_entries = max n 1, lru = []\<rparr>"

definition jti_new :: jti_cache where
  "jti_new = jti_with_capacity DEFAULT_MAX_ENTRIES"

text \<open>
  \<open>char::is_control\<close> holds for U+0000--U+001F and U+007F--U+009F; the latter C1 range is the
  two-byte sequence \<open>C2 80\<close>--\<open>C2 9F\<close> in UTF-8.
\<close>

fun contains_control :: "string \<Rightarrow> bool" where
  "contains_control [] = False"
| "contains_control (c # cs) =
     (of_char c < (32 :: nat) \<or> of_char c = (127 :: nat) \<or>
      (of_char c = (194 :: nat) \<and>
        (case cs of [] \<Rightarrow> False | d # _ \<Rightarrow> (128 :: nat) \<le> of_char d \<and> of_char d \<le> (159 :: nat))) \<or>
      contains_control cs)"

definition validate_jti :: "string \<Rightarrow> (jti_error, unit) result" where
  "validate_jti jti =
     (if jti = [] then Err Invalid
      else if length jti > 256 then Err Invalid
      else if contains_control jti then Err Invalid
      else Ok ())"

definition prune_expired :: "jti_cache \<Rightarrow> u64 \<Rightarrow> jti_cache \<times> nat" where
  "prune_expired c now =
     (let seen' = retain (\<lambda>_ e. exp_unix_ms e > now) (seen c);
          denied' = retain (\<lambda>_ e. exp_unix_ms e > now) (denied c)
      in (c\<lparr>seen := seen', denied := denied',
            lru := filter (\<lambda>jti. jti \<in> fst ` set seen') (lru c)\<rparr>,
          (length (seen c) - length seen') + (length (denied c) - length denied')))"

definition is_denied :: "jti_cache \<Rightarrow> string \<Rightarrow> u64 \<Rightarrow> bool" where
  "is_denied c jti now =
     (case map_of (denied c) jti of None \<Rightarrow> False | Some e \<Rightarrow> exp_unix_ms e > now)"

definition is_seen :: "jti_cache \<Rightarrow> string \<Rightarrow> u64 \<Rightarrow> bool" where
  "is_seen c jti now =
     (case map_of (seen c) jti of None \<Rightarrow> False | Some e \<Rightarrow> exp_unix_ms e > now)"

text \<open>
  \<open>check_and_mark\<close>, statement by statement: the two \<open>if let\<close> blocks drop an expired record of
  the bucket they look at, and an early return keeps the cache as mutated so far.
\<close>

definition drop_denied :: "jti_cache \<Rightarrow> string \<Rightarrow> jti_cache" where
  "drop_denied c jti = c\<lparr>denied := AList.delete jti (denied c)\<rparr>"

definition drop_seen :: "jti_cache \<Rightarrow> string \<Rightarrow> jti_cache" where
  "drop_seen c jti =
     c\<lparr>seen := AList.delete jti (seen c), lru := filter (\<lambda>s. s \<noteq> jti) (lru c)\<rparr>"

definition mark_seen :: "jti_cache \<Rightarrow> string \<Rightarrow> u64 \<Rightarrow> jti_cache" where
  "mark_seen c jti exp =
     c\<lparr>seen := AList.update jti \<lparr>exp_unix_ms = exp\<rparr> (seen c), lru := lru c @ [jti]\<rparr>"

definition check_and_mark ::
    "jti_cache \<Rightarrow> string \<Rightarrow> u64 \<Rightarrow> u64 \<Rightarrow> jti_cache \<times> (jti_error, unit) result" where
  "check_and_mark c jti exp now =
     (case validate_jti jti of
        Inl e \<Rightarrow> (c, Err e)
      | Inr _ \<Rightarrow>
          let c1 = fst (prune_expired c now) in
          if is_denied c1 jti now then (c1, Err Killed)
          else let c2 = (if map_of (denied c1) jti \<noteq> None then drop_denied c1 jti else c1) in
          if is_seen c2 jti now then (c2, Err Replay)
          else let c3 = (if map_of (seen c2) jti \<noteq> None then drop_seen c2 jti else c2) in
          if length (seen c3) + length (denied c3) \<ge> max_entries c3 then (c3, Err Capacity)
          else (mark_seen c3 jti exp, Ok ()))"

definition denylist :: "jti_cache \<Rightarrow> string \<Rightarrow> u64 \<Rightarrow> jti_cache \<times> (jti_error, unit) result" where
  "denylist c jti exp =
     (case validate_jti jti of
        Inl e \<Rightarrow> (c, Err e)
      | Inr _ \<Rightarrow>
          let c1 = drop_seen c jti
          in (c1\<lparr>denied := AList.update jti \<lparr>exp_unix_ms = exp\<rparr> (denied c1)\<rparr>, Ok ()))"

subsection \<open>Well-formedness\<close>

definition wf_jti :: "jti_cache \<Rightarrow> bool" where
  "wf_jti c \<longleftrightarrow> wf_map (seen c) \<and> wf_map (denied c) \<and> 1 \<le> max_entries c \<and>
     distinct (lru c) \<and> set (lru c) = fst ` set (seen c) \<and>
     fst ` set (seen c) \<inter> fst ` set (denied c) = {}"

lemma wf_jti_with_capacity: "wf_jti (jti_with_capacity n)"
  by (simp add: wf_jti_def jti_with_capacity_def)

lemma keys_update: "fst ` set (AList.update k v m) = insert k (fst ` set m)"
  by (simp add: dom_update)

lemma keys_delete: "fst ` set (AList.delete k m) = fst ` set m - {k}"
  by (auto simp: AList.delete_eq)

lemma map_of_None_keys: "map_of m k = None \<longleftrightarrow> k \<notin> fst ` set m"
  by (simp add: map_of_eq_None_iff)

lemma wf_jti_prune: "wf_jti c \<Longrightarrow> wf_jti (fst (prune_expired c now))"
proof -
  assume c: "wf_jti c"
  let ?s = "retain (\<lambda>_ e. exp_unix_ms e > now) (seen c)" and ?d = "retain (\<lambda>_ e. exp_unix_ms e > now) (denied c)"
  have keys: "fst ` set ?s \<subseteq> fst ` set (seen c)" "fst ` set ?d \<subseteq> fst ` set (denied c)" by (auto simp: set_retain)
  then have "fst ` set ?s \<inter> fst ` set ?d = {}" using c unfolding wf_jti_def by blast
  moreover have "set (filter (\<lambda>j. j \<in> fst ` set ?s) (lru c)) = fst ` set ?s"
    using keys(1) c unfolding wf_jti_def set_filter by blast
  ultimately show ?thesis using c unfolding wf_jti_def prune_expired_def Let_def fst_conv by (simp del: set_filter)
qed

lemma wf_jti_drop_denied: "wf_jti c \<Longrightarrow> wf_jti (drop_denied c jti)"
  by (auto simp: wf_jti_def drop_denied_def keys_delete)

lemma wf_jti_drop_seen: "wf_jti c \<Longrightarrow> wf_jti (drop_seen c jti)"
  by (auto simp: wf_jti_def drop_seen_def keys_delete)

lemma wf_jti_mark_seen:
  "wf_jti c \<Longrightarrow> jti \<notin> fst ` set (seen c) \<Longrightarrow> jti \<notin> fst ` set (denied c) \<Longrightarrow>
   wf_jti (mark_seen c jti exp)"
  by (auto simp: wf_jti_def mark_seen_def keys_update)

lemma wf_jti_denylist: "wf_jti c \<Longrightarrow> wf_jti (fst (denylist c jti exp))"
  by (auto simp: wf_jti_def denylist_def drop_seen_def Let_def keys_update keys_delete
      split: sum.split)

text \<open>
  After pruning, every record left is live, so the two branches of \<open>check_and_mark\<close> that drop
  an expired record are never taken: the operation has a closed form.
\<close>

lemma pruned_live:
  assumes "wf_jti c"
  shows "map_of (seen (fst (prune_expired c now))) j =
           (if is_seen c j now then map_of (seen c) j else None)"
    and "map_of (denied (fst (prune_expired c now))) j =
           (if is_denied c j now then map_of (denied c) j else None)"
  using assms
  by (auto simp: prune_expired_def Let_def wf_jti_def map_of_retain is_seen_def is_denied_def
      split: option.split)

lemma pruned_is_seen:
  "wf_jti c \<Longrightarrow> is_seen (fst (prune_expired c now)) j now = is_seen c j now"
  using pruned_live(1) [of c now j] by (auto simp: is_seen_def split: option.splits)

lemma pruned_is_denied:
  "wf_jti c \<Longrightarrow> is_denied (fst (prune_expired c now)) j now = is_denied c j now"
  using pruned_live(2) [of c now j] by (auto simp: is_denied_def split: option.splits)

lemma check_and_mark_closed_form:
  assumes "wf_jti c"
  shows "check_and_mark c jti exp now =
     (let c1 = fst (prune_expired c now) in
      if validate_jti jti \<noteq> Ok () then (c, Err Invalid)
      else if is_denied c jti now then (c1, Err Killed)
      else if is_seen c jti now then (c1, Err Replay)
      else if max_entries c \<le> length (seen c1) + length (denied c1) then (c1, Err Capacity)
      else (mark_seen c1 jti exp, Ok ()))"
proof -
  have v: "validate_jti jti = Ok () \<or> validate_jti jti = Err Invalid"
    by (simp add: validate_jti_def)
  have m: "max_entries (fst (prune_expired c now)) = max_entries c"
    by (simp add: prune_expired_def Let_def)
  from v show ?thesis
    by (auto simp: check_and_mark_def Let_def pruned_is_seen pruned_is_denied pruned_live m
        assms)
qed

lemma wf_jti_check_and_mark:
  assumes "wf_jti c"
  shows "wf_jti (fst (check_and_mark c jti exp now))"
proof -
  let ?c1 = "fst (prune_expired c now)"
  have wf1: "wf_jti ?c1" using assms by (rule wf_jti_prune)
  have "wf_jti (mark_seen ?c1 jti exp)"
    if "\<not> is_denied c jti now" "\<not> is_seen c jti now"
  proof (rule wf_jti_mark_seen [OF wf1])
    show "jti \<notin> fst ` set (seen ?c1)" "jti \<notin> fst ` set (denied ?c1)"
      using pruned_live [OF assms, of now jti] that by (simp_all add: map_of_eq_None_iff)
  qed
  with wf1 assms show ?thesis
    by (auto simp: check_and_mark_closed_form [OF assms] Let_def)
qed

subsection \<open>The interface: a replay guard\<close>

text \<open>
  What a verifier needs of such a cache. \<open>blocked c j e\<close> says that token \<open>j\<close> is remembered
  until \<open>e\<close>: it is set by an accepted check, it makes every check before \<open>e\<close> fail, and other
  traffic before \<open>e\<close> keeps it, a denial of the same token only if it lasts until \<open>e\<close>.
\<close>

datatype ('j, 't) guard_op = GCheck 'j 't 't | GDeny 'j 't

fun guard_step ::
    "('c \<Rightarrow> 'j \<Rightarrow> 't \<Rightarrow> 't \<Rightarrow> 'c \<times> 'r) \<Rightarrow> ('c \<Rightarrow> 'j \<Rightarrow> 't \<Rightarrow> 'c \<times> 'r) \<Rightarrow> 'c \<Rightarrow>
     ('j, 't) guard_op \<Rightarrow> 'c" where
  "guard_step check deny c (GCheck j e now) = fst (check c j e now)"
| "guard_step check deny c (GDeny j e) = fst (deny c j e)"

fun op_before :: "'j \<Rightarrow> 't::linorder \<Rightarrow> ('j, 't) guard_op \<Rightarrow> bool" where
  "op_before j e (GCheck j' e' now) = (now < e)"
| "op_before j e (GDeny j' e') = (j' = j \<longrightarrow> e \<le> e')"

locale replay_guard =
  fixes check :: "'c \<Rightarrow> 'j \<Rightarrow> 't::linorder \<Rightarrow> 't \<Rightarrow> 'c \<times> ('e, unit) result"
    and deny :: "'c \<Rightarrow> 'j \<Rightarrow> 't \<Rightarrow> 'c \<times> ('e, unit) result"
    and blocked :: "'c \<Rightarrow> 'j \<Rightarrow> 't \<Rightarrow> bool"
    and inv :: "'c \<Rightarrow> bool"
  assumes inv_check: "inv c \<Longrightarrow> inv (fst (check c j e now))"
    and inv_deny: "inv c \<Longrightarrow> inv (fst (deny c j e))"
    and accepted_blocks: "inv c \<Longrightarrow> check c j e now = (c', Ok ()) \<Longrightarrow> blocked c' j e"
    and blocked_rejects: "inv c \<Longrightarrow> blocked c j e \<Longrightarrow> now < e \<Longrightarrow>
      \<not> is_ok (snd (check c j e' now))"
    and blocked_check: "inv c \<Longrightarrow> blocked c j e \<Longrightarrow> now < e \<Longrightarrow>
      blocked (fst (check c j' e' now)) j e"
    and blocked_deny: "inv c \<Longrightarrow> blocked c j e \<Longrightarrow> (j' = j \<longrightarrow> e \<le> e') \<Longrightarrow>
      blocked (fst (deny c j' e')) j e"
begin

lemma blocked_step:
  assumes "inv c" "blocked c j e" "op_before j e op"
  shows "inv (guard_step check deny c op) \<and> blocked (guard_step check deny c op) j e"
  using assms by (cases op) (auto intro: inv_check inv_deny blocked_check blocked_deny)

lemma blocked_run:
  assumes "inv c" "blocked c j e" "\<forall>op \<in> set ops. op_before j e op"
  shows "inv (foldl (guard_step check deny) c ops) \<and>
         blocked (foldl (guard_step check deny) c ops) j e"
  using assms
proof (induction ops arbitrary: c)
  case (Cons op ops)
  then have "inv (guard_step check deny c op) \<and> blocked (guard_step check deny c op) j e"
    using blocked_step [of c j e op] by simp
  with Cons show ?case by simp
qed simp

lemma single_use:
  assumes "inv c" "check c j e now = (c', Ok ())" "\<forall>op \<in> set ops. op_before j e op" "now' < e"
  shows "\<not> is_ok (snd (check (foldl (guard_step check deny) c' ops) j e' now'))"
proof -
  have "inv c'" using inv_check [OF assms(1), of j e now] assms(2) by simp
  moreover have "blocked c' j e" using assms(1,2) by (rule accepted_blocks)
  ultimately show ?thesis using assms(3,4) blocked_run blocked_rejects by blast
qed

end

definition jti_blocked :: "jti_cache \<Rightarrow> string \<Rightarrow> u64 \<Rightarrow> bool" where
  "jti_blocked c j e \<longleftrightarrow>
     (\<exists>en. map_of (seen c) j = Some en \<and> e \<le> exp_unix_ms en) \<or>
     (\<exists>en. map_of (denied c) j = Some en \<and> e \<le> exp_unix_ms en)"

lemma jti_blocked_live: "jti_blocked c j e \<Longrightarrow> now < e \<Longrightarrow> is_seen c j now \<or> is_denied c j now"
  by (auto simp: jti_blocked_def is_seen_def is_denied_def)

lemma jti_blocked_pruned:
  assumes "wf_jti c" "jti_blocked c j e" "now < e"
  shows "jti_blocked (fst (prune_expired c now)) j e"
  using assms pruned_live [OF assms(1), of now j]
  by (auto simp: jti_blocked_def is_seen_def is_denied_def split: option.splits)

lemma jti_blocked_check:
  assumes "wf_jti c" "jti_blocked c j e" "now < e"
  shows "jti_blocked (fst (check_and_mark c j' e' now)) j e"
proof -
  have p: "jti_blocked (fst (prune_expired c now)) j e"
    using assms by (rule jti_blocked_pruned)
  have "jti_blocked (mark_seen (fst (prune_expired c now)) j' e') j e"
    if "\<not> is_denied c j' now" "\<not> is_seen c j' now"
    using p that jti_blocked_live [OF assms(2,3)]
    by (auto simp: jti_blocked_def mark_seen_def)
  with p assms(2) show ?thesis
    by (auto simp: check_and_mark_closed_form [OF assms(1)] Let_def)
qed

interpretation jti: replay_guard check_and_mark denylist jti_blocked wf_jti
proof
  fix c c' j j' e e' now
  show "wf_jti c \<Longrightarrow> wf_jti (fst (check_and_mark c j e now))"
    by (rule wf_jti_check_and_mark)
  show "wf_jti c \<Longrightarrow> wf_jti (fst (denylist c j e))"
    by (rule wf_jti_denylist)
  show "wf_jti c \<Longrightarrow> check_and_mark c j e now = (c', Ok ()) \<Longrightarrow> jti_blocked c' j e"
    by (auto simp: check_and_mark_closed_form Let_def jti_blocked_def mark_seen_def
        split: if_splits)
  show "wf_jti c \<Longrightarrow> jti_blocked c j e \<Longrightarrow> now < e \<Longrightarrow>
      \<not> is_ok (snd (check_and_mark c j e' now))"
    using jti_blocked_live [of c j e now]
    by (auto simp: check_and_mark_closed_form Let_def)
  show "wf_jti c \<Longrightarrow> jti_blocked c j e \<Longrightarrow> now < e \<Longrightarrow>
      jti_blocked (fst (check_and_mark c j' e' now)) j e"
    by (rule jti_blocked_check)
  show "wf_jti c \<Longrightarrow> jti_blocked c j e \<Longrightarrow> (j' = j \<longrightarrow> e \<le> e') \<Longrightarrow>
      jti_blocked (fst (denylist c j' e')) j e"
    by (auto simp: denylist_def Let_def drop_seen_def jti_blocked_def split: sum.splits)
qed

subsection \<open>Properties\<close>

text \<open>The bundle-verification outcome as a decision table over the cache before the call.\<close>

definition live_entries :: "jti_cache \<Rightarrow> u64 \<Rightarrow> nat" where
  "live_entries c now =
     length (filter (\<lambda>(_, e). now < exp_unix_ms e) (seen c)) +
     length (filter (\<lambda>(_, e). now < exp_unix_ms e) (denied c))"

lemma pruned_entries:
  "length (seen (fst (prune_expired c now))) + length (denied (fst (prune_expired c now))) =
     live_entries c now"
  by (simp add: prune_expired_def live_entries_def retain_def Let_def)

text \<open>C14: A token accepted once with expiry \<open>e\<close> is rejected by every later check made before
  \<open>e\<close>, whatever checks and denials of other tokens happen in between, and whatever denials of
  the same token happen provided they last at least until \<open>e\<close>.\<close>

theorem jti_single_use:
  assumes "wf_jti c" and "check_and_mark c j e now = (c', Ok ())"
    and "\<forall>op \<in> set ops. op_before j e op" and "now' < e"
  shows "\<not> is_ok (snd (check_and_mark (foldl (guard_step check_and_mark denylist) c' ops) j e' now'))"
  using assms by (rule jti.single_use)

theorem jti_single_use_witness:
  "\<not> is_ok (snd (check_and_mark
      (foldl (guard_step check_and_mark denylist)
        (fst (check_and_mark (jti_with_capacity 4) ''a'' 100 10))
        [GCheck ''b'' 50 20, GDeny ''c'' 5]) ''a'' 100 60))"
proof -
  have ok: "check_and_mark (jti_with_capacity 4) ''a'' 100 10 =
      (mark_seen (jti_with_capacity 4) ''a'' 100, Ok ())"
    by (simp add: check_and_mark_def validate_jti_def jti_with_capacity_def prune_expired_def
        is_denied_def is_seen_def retain_def)
  show ?thesis
    using jti_single_use [OF wf_jti_with_capacity ok, of "[GCheck ''b'' 50 20, GDeny ''c'' 5]" 60 100]
    by (simp add: ok)
qed

text \<open>The verdict of \<open>check_and_mark\<close> is the decision table of its documentation: a malformed
  token is \<open>Invalid\<close>, a live denial wins over everything else, then a live record is a replay,
  then a full cache of live entries refuses (fail-closed), and only otherwise is the token
  accepted.\<close>

theorem jti_check_verdict:
  assumes "wf_jti c"
  shows "snd (check_and_mark c j e now) =
    (if validate_jti j \<noteq> Ok () then Err Invalid
     else if is_denied c j now then Err Killed
     else if is_seen c j now then Err Replay
     else if max_entries c \<le> live_entries c now then Err Capacity
     else Ok ())"
  by (simp add: check_and_mark_closed_form [OF assms] Let_def pruned_entries)

theorem jti_check_verdict_witness:
  "snd (check_and_mark (jti_with_capacity 2) ''a'' 100 10) = Ok ()"
  using jti_check_verdict [OF wf_jti_with_capacity [of 2], of "''a''" 100 10]
  by (simp add: validate_jti_def is_denied_def is_seen_def live_entries_def jti_with_capacity_def)

text \<open>Every sequence of checks and denials keeps the cache well formed: distinct keys, the
  touch order lists exactly the seen tokens once each, and no token is both seen and denied.\<close>

lemma guard_run_wf:
  "wf_jti c \<Longrightarrow> wf_jti (foldl (guard_step check_and_mark denylist) c ops)"
proof (induction ops arbitrary: c)
  case (Cons op ops)
  then have "wf_jti (guard_step check_and_mark denylist c op)"
    by (cases op) (simp_all add: wf_jti_check_and_mark wf_jti_denylist)
  with Cons show ?case by simp
qed simp

lemma jti_run_wf:
  "wf_jti (foldl (guard_step check_and_mark denylist) (jti_with_capacity n) ops)"
  by (rule guard_run_wf [OF wf_jti_with_capacity])

text \<open>A check never lets the two buckets together grow beyond the configured capacity: the
  entry count afterwards is at most the larger of the count before and the capacity.\<close>

theorem jti_check_bounded:
  assumes "wf_jti c"
  shows "length (seen (fst (check_and_mark c j e now))) +
         length (denied (fst (check_and_mark c j e now)))
       \<le> max (length (seen c) + length (denied c)) (max_entries c)"
proof -
  let ?c1 = "fst (prune_expired c now)"
  have p: "length (seen ?c1) + length (denied ?c1) \<le> length (seen c) + length (denied c)"
    by (simp add: prune_expired_def Let_def add_mono)
  have "length (seen (mark_seen ?c1 j e)) \<le> Suc (length (seen ?c1))"
    by (simp add: mark_seen_def length_update)
  moreover have "denied (mark_seen ?c1 j e) = denied ?c1"
    by (simp add: mark_seen_def)
  ultimately show ?thesis
    using p by (auto simp: check_and_mark_closed_form [OF assms] Let_def)
qed

theorem jti_check_bounded_witness:
  "length (seen (fst (check_and_mark (jti_with_capacity 2) ''a'' 100 10))) +
   length (denied (fst (check_and_mark (jti_with_capacity 2) ''a'' 100 10))) \<le> 2"
  using jti_check_bounded [OF wf_jti_with_capacity [of 2], of "''a''" 100 10]
  by (simp add: jti_with_capacity_def)

text \<open>A kill only lasts as long as the kill envelope itself. If a token accepted until
  \<open>e\<close> is denied by a kill that expires at \<open>k\<close>, the seen record is gone and from \<open>k\<close> on the same
  token is accepted a second time although its own expiry \<open>e\<close> is still ahead.\<close>

theorem jti_short_kill_reopens:
  assumes "validate_jti j = Ok ()" and "now \<le> later" and "k \<le> later" and "later < e"
  shows "\<exists>c1 c2 c3. check_and_mark (jti_with_capacity 1) j e now = (c1, Ok ()) \<and>
           denylist c1 j k = (c2, Ok ()) \<and> check_and_mark c2 j e later = (c3, Ok ())"
proof -
  let ?c1 = "mark_seen (jti_with_capacity 1) j e"
  have 1: "check_and_mark (jti_with_capacity 1) j e now = (?c1, Ok ())"
    using assms(1) by (simp add: check_and_mark_def prune_expired_def jti_with_capacity_def
        is_denied_def is_seen_def retain_def)
  let ?c2 = "fst (denylist ?c1 j k)"
  have 2: "denylist ?c1 j k = (?c2, Ok ())"
    using assms(1) by (simp add: denylist_def Let_def)
  have c2: "?c2 = \<lparr>seen = [], denied = [(j, \<lparr>exp_unix_ms = k\<rparr>)], max_entries = 1, lru = []\<rparr>"
    using assms(1) by (simp add: denylist_def Let_def drop_seen_def mark_seen_def
        jti_with_capacity_def)
  have "\<not> later < k" using assms(3) by simp
  then have "snd (check_and_mark ?c2 j e later) = Ok ()"
    unfolding c2 using assms(1)
    by (simp add: check_and_mark_def prune_expired_def is_denied_def is_seen_def retain_def)
  then show ?thesis using 1 2 by (metis prod.collapse)
qed

theorem jti_short_kill_reopens_witness:
  "\<exists>c1 c2 c3. check_and_mark (jti_with_capacity 1) ''t'' 100 10 = (c1, Ok ()) \<and>
     denylist c1 ''t'' 20 = (c2, Ok ()) \<and> check_and_mark c2 ''t'' 100 30 = (c3, Ok ())"
  by (rule jti_short_kill_reopens) (simp_all add: validate_jti_def)

end
