(* ===== verification/Proto_Types.thy ===== *)
theory Proto_Types
  imports Qubox_Prelude
begin

text \<open>
  The control-plane vocabulary of \<open>crates/qubox-proto/src/lib.rs\<close>: peer descriptors,
  pairing, session and bundle types, and the client and server messages.
  A fixed array \<open>[u8; n]\<close> is a byte list, its length being part of the well-formedness
  predicates. The functions of other crates that this code calls (HMAC-SHA256, Ed25519, base64,
  serde\_json, uuid text) are the fields of the record \<open>ext\<close>; every definition that uses one
  takes the record as an argument.
\<close>

subsection \<open>Peers and capabilities\<close>

datatype peer_role = Host | Client
datatype platform_os = Linux | Windows | Macos | Android
datatype transport_kind = NativeQuic | WebRtc | RelayQuic | WebTransport
datatype video_codec = H264 | H265 | Av1
datatype scale_mode = Fit | Fill | Crop | Native
datatype capture_kind = Pipewire | X11 | DesktopDuplication | ScreenCaptureKit | MediaProjection
datatype color_space = Bt709 | Bt2020 | Bt2100Pq | Bt2100Hlg | ScRgb

record display_descriptor =
  dd_id :: u32
  dd_name :: string
  dd_width :: u32
  dd_height :: u32
  dd_x :: "32 word"
  dd_y :: "32 word"
  dd_primary :: bool
  dd_active :: bool

record capability_profile =
  transports :: "transport_kind list"
  capture :: "capture_kind list"
  encoders :: "video_codec list"
  decoders :: "video_codec list"
  cap_notes :: "string list"
  displays :: "display_descriptor list"

definition supports_transport :: "capability_profile \<Rightarrow> transport_kind \<Rightarrow> bool" where
  "supports_transport c t = (t \<in> set (transports c))"

definition supports_codec :: "capability_profile \<Rightarrow> video_codec \<Rightarrow> bool" where
  "supports_codec c v = (v \<in> set (encoders c) \<or> v \<in> set (decoders c))"

definition display_of :: "capability_profile \<Rightarrow> u32 option \<Rightarrow> display_descriptor option" where
  "display_of c oid =
     (case oid of
        Some i \<Rightarrow> find (\<lambda>d. dd_id d = i) (displays c)
      | None \<Rightarrow> (case displays c of [] \<Rightarrow> None | d # _ \<Rightarrow> Some d))"

record peer_descriptor =
  device_id :: uuid
  peer_id :: uuid
  device_name :: string
  role :: peer_role
  os :: platform_os
  capabilities :: capability_profile

subsection \<open>Pairing and sessions\<close>

record pairing_request =
  pr_request_id :: uuid
  pr_host_peer_id :: uuid
  pr_client_label :: string

record pairing_decision =
  pdec_request_id :: uuid
  pdec_approved :: bool

record pairing_requested =
  prq_request_id :: uuid
  prq_host_peer_id :: uuid
  prq_client :: peer_descriptor
  prq_client_label :: string

record pairing_grant =
  pg_host :: uuid
  pg_client :: uuid

record session_permissions =
  perm_input :: bool
  perm_clipboard :: bool
  perm_mic :: bool
  perm_gamepad :: bool
  perm_keyboard :: bool
  perm_mouse :: bool

definition coop_guest :: session_permissions where
  "coop_guest = \<lparr>perm_input = True, perm_clipboard = False, perm_mic = True,
     perm_gamepad = True, perm_keyboard = False, perm_mouse = False\<rparr>"

definition default_permissions :: session_permissions where
  "default_permissions = \<lparr>perm_input = True, perm_clipboard = True, perm_mic = True,
     perm_gamepad = True, perm_keyboard = True, perm_mouse = True\<rparr>"

record capture_region =
  cr_x :: u32
  cr_y :: u32
  cr_width :: u32
  cr_height :: u32

record video_stream_preferences =
  vp_codec :: "video_codec option"
  vp_width :: "u32 option"
  vp_height :: "u32 option"
  vp_framerate :: "u32 option"
  vp_bitrate_kbps :: "u32 option"
  vp_scale_mode :: "scale_mode option"
  vp_display_index :: "u32 option"
  vp_capture_region :: "capture_region option"
  vp_encoder :: "string option"
  vp_color_space :: "color_space option"
  vp_bit_depth :: u8
  vp_max_framerate :: "u32 option"
  vp_target_framerate :: "u32 option"

record start_session_request =
  sr_session_id :: uuid
  sr_target_host_id :: uuid
  sr_requested_transport :: "transport_kind option"
  sr_preferred_codec :: "video_codec option"
  sr_video :: "video_stream_preferences option"
  sr_permissions :: session_permissions
  sr_sync_only :: bool
  sr_consent_id :: "uuid option"

record ice_server =
  ice_urls :: "string list"
  ice_username :: "string option"
  ice_credential :: "string option"

record session_credential =
  cred_token :: string
  cred_expires :: u64
  cred_session_id :: uuid
  cred_host_pubkey :: bytes
  cred_client_pubkey :: bytes
  cred_issued :: u64
  cred_hmac :: bytes

record signed_hello =
  sh_descriptor :: peer_descriptor
  sh_public_key :: bytes
  sh_signature :: bytes

record session_plan =
  sp_session_id :: uuid
  sp_target_host_id :: uuid
  sp_transport :: transport_kind
  sp_codec :: video_codec
  sp_client_credential :: session_credential
  sp_ice_servers :: "ice_server list"
  sp_permissions :: session_permissions
  sp_sync_only :: bool

record session_requested =
  sq_session_id :: uuid
  sq_client :: peer_descriptor
  sq_transport :: transport_kind
  sq_codec :: video_codec
  sq_host_credential :: session_credential
  sq_client_credential :: session_credential
  sq_ice_servers :: "ice_server list"
  sq_video :: "video_stream_preferences option"
  sq_permissions :: session_permissions
  sq_sync_only :: bool

datatype session_signal =
    SdpOffer string
  | SdpAnswer string
  | IceCandidate string "string option" "u16 option"
  | NativeQuicTicket string string
  | WebTransportTicket string
  | Ready

record relay_signal =
  rs_session_id :: uuid
  rs_from :: uuid
  rs_to :: uuid
  rs_signal :: session_signal

subsection \<open>Cloud-signed bundles\<close>

record turn_creds =
  tc_username :: string
  tc_credential :: string

record session_caps =
  caps_input :: bool
  caps_clipboard :: bool
  caps_mic :: bool
  caps_files :: bool
  caps_audio :: bool

text \<open>\<open>iat\<close> and \<open>exp\<close> are \<open>i64\<close>; a 64-bit word holds the two's-complement bits, so Rust's
  \<open>exp as u64\<close> is the same word read unsigned.\<close>

record viewer_to_host =
  vh_v :: u8
  vh_jti :: string
  vh_sid :: string
  vh_sub :: string
  vh_aud :: string
  vh_iat :: "64 word"
  vh_exp :: "64 word"
  vh_caps :: session_caps
  vh_viewer_dtls_fp :: string
  vh_selected_display_id :: "u32 option"

record ice_allowlist =
  ia_v :: u8
  ia_jti :: string
  ia_exp :: "64 word"
  ia_urls :: "string list"
  ia_creds :: "turn_creds option"

record signed_kill =
  sk_v :: u8
  sk_jti :: string
  sk_sid :: string
  sk_aud :: string
  sk_sub :: string
  sk_iat :: "64 word"
  sk_exp :: "64 word"
  sk_reason :: string

record signed_bundle =
  sb_kid :: string
  sb_v :: u8
  sb_payload :: string
  sb_sig :: string

record pin_proof =
  pin_hash_match :: bool

record session_bundle_info =
  bi_session_id :: uuid
  bi_jti :: string
  bi_viewer_dtls_fp :: string
  bi_exp_unix_ms :: u64
  bi_caps :: session_caps
  bi_sub :: string
  bi_pin_proof :: "pin_proof option"
  bi_selected_display_id :: "u32 option"

record signed_kill_envelope =
  ke_payload :: signed_kill
  ke_envelope :: signed_bundle

record start_session_bundle_request =
  bq_request :: start_session_request
  bq_viewer_bundle :: signed_bundle
  bq_ice_allowlist :: "signed_bundle option"

datatype signed_bundle_error =
  MalformedEnvelope | BadBase64 | BadSignatureLength | SignatureMismatch | BadPayload

subsection \<open>Functions of other crates\<close>

record ext =
  hmac_sha256 :: "bytes \<Rightarrow> bytes \<Rightarrow> bytes"
  ed_key_ok :: "bytes \<Rightarrow> bool"
  ed_verify :: "bytes \<Rightarrow> bytes \<Rightarrow> bytes \<Rightarrow> bool"
  b64url_decode :: "string \<Rightarrow> bytes option"
  descriptor_json :: "peer_descriptor \<Rightarrow> bytes"
  json_version :: "bytes \<Rightarrow> nat option option"
  viewer_of_json :: "bytes \<Rightarrow> viewer_to_host option"
  allowlist_of_json :: "bytes \<Rightarrow> ice_allowlist option"
  kill_of_json :: "bytes \<Rightarrow> signed_kill option"
  uuid_text :: "uuid \<Rightarrow> string"
  uuid_parse :: "string \<Rightarrow> uuid option"
  credential_of_token :: "string \<Rightarrow> session_credential option"
  hex_encode :: "bytes \<Rightarrow> string"

text \<open>The documented behaviour relied on: uuid text parses back, HMAC-SHA256 tags have 32 bytes.\<close>

definition uuid_text_ok :: "ext \<Rightarrow> bool" where
  "uuid_text_ok E \<longleftrightarrow> (\<forall>u. uuid_parse E (uuid_text E u) = Some u)"

abbreviation nil_uuid :: uuid where "nil_uuid \<equiv> 0"

definition zero_key :: bytes where
  "zero_key = replicate 32 0"

subsection \<open>Messages\<close>

record welcome_payload =
  wl_self_id :: uuid
  wl_message :: string

record presence_event =
  pe_peer :: peer_descriptor
  pe_connected :: bool

datatype client_message =
    Hello peer_descriptor
  | SignedHello signed_hello
  | ListHosts
  | RequestPairing pairing_request
  | PairingDecision pairing_decision
  | StartSession start_session_request
  | StartSessionWithBundle start_session_bundle_request
  | RelaySignal relay_signal
  | Heartbeat
  | RevokePairing uuid uuid
  | KickSession uuid string
  | CreateShareLink u64 session_permissions
  | RedeemShareLink string string
  | SignedKill signed_bundle
  | OperatorDecision uuid bool

text \<open>
  In an \<open>Error\<close> message the code string is kept; the human-readable text, which the code
  renders from an error value, is kept as that value (type \<open>'err\<close>).
\<close>

datatype 'err server_message =
    Welcome welcome_payload
  | Hosts "peer_descriptor list"
  | PairingRequested pairing_requested
  | PairingEstablished pairing_grant
  | PairingRejected uuid string
  | SessionPlanned session_plan
  | SessionRequested session_requested
  | Signal relay_signal
  | Presence presence_event
  | HeartbeatAck
  | Error string 'err
  | ShareLinkCreated string u64 string
  | SessionKicked uuid string
  | PairingRevoked uuid uuid
  | SessionConsentPending uuid uuid uuid u64 string
  | SessionBundleAccepted session_bundle_info
  | SignedKillReceived signed_kill_envelope
  | SessionActivity uuid

end
