(* ===== verification/Proto_Trust.thy ===== *)
theory Proto_Trust
  imports Proto_Types
begin

text \<open>
  The trust primitives of \<open>crates/qubox-proto/src/lib.rs\<close>: \<open>SessionCredential\<close> (issued and
  verified under the server's HMAC secret), \<open>SignedHello\<close>, the cloud-signed \<open>SignedBundle\<close>
  envelope with its compact text form, and the scheme check of ICE URLs. The lemmas show what an
  accepted credential or envelope proves, and that the compact form parses back.
\<close>

subsection \<open>Session credentials\<close>

definition credential_message :: "uuid \<Rightarrow> bytes \<Rightarrow> bytes \<Rightarrow> u64 \<Rightarrow> u64 \<Rightarrow> bytes" where
  "credential_message sid hpk cpk issued expires =
     to_be_bytes 16 sid @ hpk @ cpk @ to_be_bytes 8 issued @ to_be_bytes 8 expires"

definition credential_issue ::
    "ext \<Rightarrow> bytes \<Rightarrow> uuid \<Rightarrow> bytes \<Rightarrow> bytes \<Rightarrow> u64 \<Rightarrow> u64 \<Rightarrow> session_credential" where
  "credential_issue E secret sid hpk cpk issued expires =
     \<lparr>cred_token = uuid_text E sid, cred_expires = expires, cred_session_id = sid,
      cred_host_pubkey = hpk, cred_client_pubkey = cpk, cred_issued = issued,
      cred_hmac = hmac_sha256 E secret (credential_message sid hpk cpk issued expires)\<rparr>"

definition credential_verify :: "ext \<Rightarrow> session_credential \<Rightarrow> bytes \<Rightarrow> u64 \<Rightarrow> bool" where
  "credential_verify E c secret now =
     (if cred_host_pubkey c = zero_key \<or> cred_client_pubkey c = zero_key then False
      else if cred_hmac c = zero_key then False
      else if now \<ge> cred_expires c then False
      else hmac_sha256 E secret (credential_message (cred_session_id c) (cred_host_pubkey c)
             (cred_client_pubkey c) (cred_issued c) (cred_expires c)) = cred_hmac c)"

text \<open>The message a credential's tag is computed over.\<close>

definition credential_bytes :: "session_credential \<Rightarrow> bytes" where
  "credential_bytes c = credential_message (cred_session_id c) (cred_host_pubkey c)
     (cred_client_pubkey c) (cred_issued c) (cred_expires c)"

definition new_legacy_token :: "ext \<Rightarrow> uuid \<Rightarrow> u64 \<Rightarrow> session_credential" where
  "new_legacy_token E fresh expires =
     \<lparr>cred_token = uuid_text E fresh, cred_expires = expires, cred_session_id = nil_uuid,
      cred_host_pubkey = zero_key, cred_client_pubkey = zero_key, cred_issued = 0,
      cred_hmac = zero_key\<rparr>"

definition wf_credential :: "session_credential \<Rightarrow> bool" where
  "wf_credential c \<longleftrightarrow> length (cred_host_pubkey c) = 32 \<and> length (cred_client_pubkey c) = 32"

subsection \<open>Signed hello and signed bundles\<close>

definition SIGNED_HELLO_CONTEXT :: bytes where
  "SIGNED_HELLO_CONTEXT = map of_char ''qubox-hello-v1''"

definition hello_verify :: "ext \<Rightarrow> signed_hello \<Rightarrow> bool" where
  "hello_verify E h =
     (if \<not> ed_key_ok E (sh_public_key h) then False
      else if length (sh_signature h) \<noteq> 64 then False
      else ed_verify E (sh_public_key h)
             (SIGNED_HELLO_CONTEXT @ descriptor_json E (sh_descriptor h)) (sh_signature h))"

definition verify_signature :: "ext \<Rightarrow> signed_bundle \<Rightarrow> bytes \<Rightarrow> (signed_bundle_error, unit) result" where
  "verify_signature E b pk =
     (case b64url_decode E (sb_payload b) of
        None \<Rightarrow> Err BadBase64
      | Some payload \<Rightarrow>
         (case b64url_decode E (sb_sig b) of
            None \<Rightarrow> Err BadBase64
          | Some sig \<Rightarrow>
             if length sig \<noteq> 64 then Err BadSignatureLength
             else if ed_verify E pk payload sig then Ok () else Err SignatureMismatch))"

definition bundle_decode ::
    "ext \<Rightarrow> (bytes \<Rightarrow> 'a option) \<Rightarrow> signed_bundle \<Rightarrow> bytes \<Rightarrow> (signed_bundle_error, 'a) result" where
  "bundle_decode E parse b pk =
     (case verify_signature E b pk of
        Inl e \<Rightarrow> Err e
      | Inr _ \<Rightarrow>
         (case b64url_decode E (sb_payload b) of
            None \<Rightarrow> Err BadBase64
          | Some payload \<Rightarrow>
             (case parse payload of None \<Rightarrow> Err BadPayload | Some v \<Rightarrow> Ok v)))"

fun split_once :: "char \<Rightarrow> string \<Rightarrow> (string \<times> string) option" where
  "split_once d [] = None"
| "split_once d (c # cs) =
     (if c = d then Some ([], cs) else map_option (\<lambda>(a, b). (c # a, b)) (split_once d cs))"

definition from_compact :: "ext \<Rightarrow> string \<Rightarrow> string \<Rightarrow> (signed_bundle_error, signed_bundle) result" where
  "from_compact E token kid =
     (case split_once CHR ''.'' token of
        None \<Rightarrow> Err MalformedEnvelope
      | Some (payload, sig) \<Rightarrow>
         if payload = [] \<or> sig = [] \<or> CHR ''.'' \<in> set sig then Err MalformedEnvelope
         else (case b64url_decode E payload of
            None \<Rightarrow> Err BadBase64
          | Some payload_bytes \<Rightarrow>
             (case b64url_decode E sig of
                None \<Rightarrow> Err BadBase64
              | Some sig_bytes \<Rightarrow>
                 if length sig_bytes \<noteq> 64 then Err BadSignatureLength
                 else (case json_version E payload_bytes of
                    None \<Rightarrow> Err BadPayload
                  | Some v \<Rightarrow>
                     Ok \<lparr>sb_kid = kid,
                         sb_v = (case v of None \<Rightarrow> 0 | Some n \<Rightarrow> if n < 256 then of_nat n else 0),
                         sb_payload = payload, sb_sig = sig\<rparr>))))"

definition to_compact :: "signed_bundle \<Rightarrow> string" where
  "to_compact b = sb_payload b @ ''.'' @ sb_sig b"

subsection \<open>ICE server URLs\<close>

text \<open>
  \<open>str::trim\<close> removes Unicode white space at both ends. \<open>ws_len\<close> is the number of bytes of a
  white-space character at the head of a UTF-8 string, 0 if there is none.
\<close>

definition byte_at :: "string \<Rightarrow> nat \<Rightarrow> nat" where
  "byte_at s i = (if i < length s then of_char (s ! i) else 0)"

definition ws_len :: "string \<Rightarrow> nat" where
  "ws_len s =
     (let a = byte_at s 0; b = byte_at s 1; c = byte_at s 2 in
      if s = [] then 0
      else if (9 \<le> a \<and> a \<le> 13) \<or> a = 32 then 1
      else if a = 194 \<and> (b = 133 \<or> b = 160) then 2
      else if a = 225 \<and> b = 154 \<and> c = 128 then 3
      else if a = 226 \<and> b = 128 \<and> ((128 \<le> c \<and> c \<le> 138) \<or> c = 168 \<or> c = 169 \<or> c = 175) then 3
      else if a = 226 \<and> b = 129 \<and> c = 159 then 3
      else if a = 227 \<and> b = 128 \<and> c = 128 then 3
      else 0)"

function trim_start :: "string \<Rightarrow> string" where
  "trim_start s = (if ws_len s = 0 then s else trim_start (drop (ws_len s) s))"
  by pat_completeness auto
termination
proof (relation "measure length")
  fix s :: string
  assume w: "ws_len s \<noteq> 0"
  then have "s \<noteq> []" by (auto simp: ws_len_def Let_def)
  with w show "(drop (ws_len s) s, s) \<in> measure length" by simp
qed simp

declare trim_start.simps [simp del]

definition ws_tail :: "string \<Rightarrow> nat" where
  "ws_tail s =
     (if 1 \<le> length s \<and> ws_len (drop (length s - 1) s) = 1 then 1
      else if 2 \<le> length s \<and> ws_len (drop (length s - 2) s) = 2 then 2
      else if 3 \<le> length s \<and> ws_len (drop (length s - 3) s) = 3 then 3
      else 0)"

function trim_end :: "string \<Rightarrow> string" where
  "trim_end s = (if ws_tail s = 0 then s else trim_end (take (length s - ws_tail s) s))"
  by pat_completeness auto
termination
  by (relation "measure length") (auto simp: ws_tail_def split: if_splits)

declare trim_end.simps [simp del]

definition to_ascii_lowercase :: "string \<Rightarrow> string" where
  "to_ascii_lowercase s =
     map (\<lambda>c. if (65 :: nat) \<le> of_char c \<and> of_char c \<le> (90 :: nat)
              then char_of (of_char c + 32 :: nat) else c) s"

definition starts_with :: "string \<Rightarrow> string \<Rightarrow> bool" where
  "starts_with s p = (take (length p) s = p)"

definition ice_url_is_valid :: "string \<Rightarrow> bool" where
  "ice_url_is_valid url =
     (let lower = to_ascii_lowercase (trim_end (trim_start url))
      in starts_with lower ''stun:'' \<or> starts_with lower ''turn:'' \<or> starts_with lower ''turns:'')"

subsection \<open>Properties\<close>

lemma credential_message_inject:
  assumes "length h = 32" "length c = 32" "length h' = 32" "length c' = 32"
    and "credential_message s h c i e = credential_message s' h' c' i' e'"
  shows "s = s' \<and> h = h' \<and> c = c' \<and> i = i' \<and> e = e'"
  using assms by (simp add: credential_message_def to_be_bytes_inject)

lemma credential_verify_iff:
  "credential_verify E c secret now \<longleftrightarrow>
     cred_host_pubkey c \<noteq> zero_key \<and> cred_client_pubkey c \<noteq> zero_key \<and>
     cred_hmac c \<noteq> zero_key \<and> now < cred_expires c \<and>
     cred_hmac c = hmac_sha256 E secret (credential_message (cred_session_id c)
       (cred_host_pubkey c) (cred_client_pubkey c) (cred_issued c) (cred_expires c))"
  by (auto simp: credential_verify_def not_le)

text \<open>An issued credential verifies under the issuing secret exactly until its expiry, provided
  both public keys and the tag differ from the all-zero value; a legacy token never verifies.\<close>

theorem credential_issue_verifies:
  "(credential_verify E (credential_issue E secret sid h c issued expires) secret now \<longleftrightarrow>
     h \<noteq> zero_key \<and> c \<noteq> zero_key \<and> now < expires \<and>
     hmac_sha256 E secret (credential_message sid h c issued expires) \<noteq> zero_key) \<and>
   \<not> credential_verify E (new_legacy_token E u expires) secret now"
  by (auto simp: credential_verify_iff credential_issue_def new_legacy_token_def)

text \<open>The tag of a credential covers everything it grants: two credentials that verify under one
  secret with the same tag, and whose signed messages do not collide under HMAC-SHA256, name the
  same session, the same two device keys and the same issue and expiry times.\<close>

theorem credential_binding:
  assumes "hmac_sha256 E secret (credential_bytes c) = hmac_sha256 E secret (credential_bytes c') \<Longrightarrow>
      credential_bytes c = credential_bytes c'"
    and "wf_credential c" and "wf_credential c'"
    and "credential_verify E c secret now" and "credential_verify E c' secret now'"
    and "cred_hmac c = cred_hmac c'"
  shows "cred_session_id c = cred_session_id c' \<and> cred_host_pubkey c = cred_host_pubkey c' \<and>
    cred_client_pubkey c = cred_client_pubkey c' \<and> cred_issued c = cred_issued c' \<and>
    cred_expires c = cred_expires c'"
proof -
  have "hmac_sha256 E secret (credential_bytes c) = hmac_sha256 E secret (credential_bytes c')"
    using assms(4-6) by (simp add: credential_verify_iff credential_bytes_def)
  then have "credential_bytes c = credential_bytes c'" by (rule assms(1))
  then show ?thesis
    using assms(2,3) unfolding credential_bytes_def
    by (intro credential_message_inject) (simp_all add: wf_credential_def)
qed

text \<open>A concrete environment for the witnesses: the tag is the message itself, every key is
  accepted, a signature verifies when it is 64 copies of the payload length, base64 is the byte
  view of the text and uuid text is the big-endian bytes.\<close>

definition demo_ext :: ext where
  "demo_ext = \<lparr>hmac_sha256 = (\<lambda>_ m. m), ed_key_ok = (\<lambda>_. True),
     ed_verify = (\<lambda>_ m s. s = replicate 64 (of_nat (length m))),
     b64url_decode = (\<lambda>s. Some (map of_char s)),
     descriptor_json = (\<lambda>_. []), json_version = (\<lambda>_. Some (Some 1)),
     viewer_of_json = (\<lambda>_. None), allowlist_of_json = (\<lambda>_. None), kill_of_json = (\<lambda>_. None),
     uuid_text = (\<lambda>u. map (\<lambda>b. char_of (unat b)) (to_be_bytes 16 u)),
     uuid_parse = (\<lambda>s. Some (from_be_bytes (map of_char s))),
     credential_of_token = (\<lambda>_. None), hex_encode = (\<lambda>bs. map (\<lambda>b. char_of (unat b)) bs)\<rparr>"

lemma of_char_char_of_byte: "of_char (char_of (unat b)) = (b :: u8)"
proof -
  have "(of_char (char_of (unat b)) :: u8) = of_nat (of_char (char_of (unat b)))"
    by (rule of_nat_of_char [symmetric])
  also have "\<dots> = of_nat (unat b mod 256)" by simp
  also have "\<dots> = b" using unsigned_less [of b, where 'a = nat] by simp
  finally show ?thesis .
qed

lemma demo_uuid_text_ok: "uuid_text_ok demo_ext"
  by (simp add: uuid_text_ok_def demo_ext_def comp_def of_char_char_of_byte)

theorem credential_binding_witness:
  "let c = credential_issue demo_ext [] 7 (replicate 32 1) (replicate 32 2) 5 100;
       c' = c\<lparr>cred_token := ''relabelled''\<rparr>
   in credential_verify demo_ext c [] 50 \<and> credential_verify demo_ext c' [] 60 \<and>
      cred_session_id c = cred_session_id c' \<and> cred_expires c = cred_expires c'"
proof -
  let ?c = "credential_issue demo_ext [] 7 (replicate 32 1) (replicate 32 2) 5 100"
  let ?c' = "?c\<lparr>cred_token := ''relabelled''\<rparr>"
  have ne: "credential_message 7 (replicate 32 1) (replicate 32 2) 5 100 \<noteq> zero_key"
    by (rule notI, drule arg_cong [where f = length])
      (simp add: credential_message_def zero_key_def)
  have k: "replicate 32 1 \<noteq> zero_key" "replicate 32 2 \<noteq> zero_key"
    by (simp_all add: zero_key_def)
  have v: "credential_verify demo_ext ?c [] 50" "credential_verify demo_ext ?c' [] 60"
    using ne k by (simp_all add: credential_verify_iff credential_issue_def demo_ext_def)
  have w: "wf_credential ?c" "wf_credential ?c'"
    by (simp_all add: wf_credential_def credential_issue_def)
  have inj: "hmac_sha256 demo_ext [] m = hmac_sha256 demo_ext [] m' \<Longrightarrow> m = m'" for m m'
    by (simp add: demo_ext_def)
  from credential_binding [OF inj w v] v show ?thesis by (simp add: Let_def)
qed

lemma split_once_Some:
  "split_once d s = Some (a, b) \<longleftrightarrow> s = a @ d # b \<and> d \<notin> set a"
proof (induction s arbitrary: a)
  case (Cons c cs)
  show ?case
    by (cases a) (auto simp: Cons.IH)
qed simp

text \<open>The compact form is a round trip: a token that parses prints back to itself, and its
  parse re-parses from the printed text to the same envelope.\<close>

theorem compact_roundtrip:
  assumes "from_compact E token kid = Ok b"
  shows "to_compact b = token \<and> sb_kid b = kid \<and> from_compact E (to_compact b) (sb_kid b) = Ok b"
proof -
  obtain payload sig where s: "split_once CHR ''.'' token = Some (payload, sig)"
    using assms by (auto simp: from_compact_def split: option.splits)
  then have t: "token = payload @ CHR ''.'' # sig" by (simp add: split_once_Some)
  have "sb_payload b = payload \<and> sb_sig b = sig \<and> sb_kid b = kid"
    using assms s by (auto simp: from_compact_def split: option.splits if_splits)
  with t have "to_compact b = token \<and> sb_kid b = kid" by (simp add: to_compact_def)
  with assms show ?thesis by simp
qed

theorem compact_roundtrip_witness:
  "to_compact \<lparr>sb_kid = ''k'', sb_v = 1, sb_payload = ''p'', sb_sig = replicate 64 CHR ''s''\<rparr> =
     ''p.'' @ replicate 64 CHR ''s''"
proof -
  have "from_compact demo_ext (''p.'' @ replicate 64 CHR ''s'') ''k'' =
     Ok \<lparr>sb_kid = ''k'', sb_v = 1, sb_payload = ''p'', sb_sig = replicate 64 CHR ''s''\<rparr>"
    by (simp add: from_compact_def demo_ext_def)
  from compact_roundtrip [OF this] show ?thesis by simp
qed

text \<open>Decoding an envelope yields a payload only when the signature verifies: whatever value
  is returned was parsed from bytes on which a 64-byte signature verifies under the given key.\<close>

theorem bundle_decode_sound:
  assumes "bundle_decode E parse b pk = Ok v"
  shows "\<exists>payload sig. b64url_decode E (sb_payload b) = Some payload \<and>
    b64url_decode E (sb_sig b) = Some sig \<and> length sig = 64 \<and>
    ed_verify E pk payload sig \<and> parse payload = Some v"
  using assms
  by (auto simp: bundle_decode_def verify_signature_def split: option.splits if_splits sum.splits)

theorem bundle_decode_sound_witness:
  "\<exists>payload sig. b64url_decode demo_ext ''p'' = Some payload \<and>
    b64url_decode demo_ext (replicate 64 CHR 0x01) = Some sig \<and> length sig = 64 \<and>
    ed_verify demo_ext [] payload sig \<and> (\<lambda>bs. Some (length bs)) payload = Some 1"
proof -
  have "bundle_decode demo_ext (\<lambda>bs. Some (length bs))
      \<lparr>sb_kid = ''k'', sb_v = 1, sb_payload = ''p'', sb_sig = replicate 64 CHR 0x01\<rparr> []
      = Ok 1"
    by (simp add: bundle_decode_def verify_signature_def demo_ext_def)
  from bundle_decode_sound [OF this] show ?thesis by simp
qed

end
