(* ===== verification/Jwks_Client.thy ===== *)
theory Jwks_Client
  imports Proto_Trust
begin

text \<open>
  The JWKS client of \<open>crates/qubox-signaling/src/jwks.rs\<close>: the key cache with its freshness
  policy, \<open>lookup\<close> (fast path, forced refetch, fallback within \<open>max_stale\<close>, fail-closed),
  \<open>verify_bundle\<close>, and the document parser. An \<open>Instant\<close> is a number of milliseconds on the
  monotonic clock, passed in; the outcome of the HTTP fetch is passed in as well. JSON and base64
  decoding are parameters.
\<close>

record jwks_policy =
  ttl :: nat
  max_stale :: nat
  strict :: bool

definition default_jwks_policy :: jwks_policy where
  "default_jwks_policy = \<lparr>ttl = 5 * 60 * 1000, max_stale = 60 * 60 * 1000, strict = True\<rparr>"

record jwk_entry =
  jwk_kid :: string
  jwk_public_key :: bytes

record cache_snapshot =
  fetched_at :: nat
  snap_keys :: "(string, bytes) hmap"

record jwks_client =
  jc_policy :: jwks_policy
  jc_cache :: "cache_snapshot option"

definition jwks_client_new :: "jwks_policy \<Rightarrow> jwks_client" where
  "jwks_client_new p = \<lparr>jc_policy = p, jc_cache = None\<rparr>"

subsection \<open>The document parser\<close>

record jwk_raw =
  raw_kid :: "string option"
  raw_kty :: "string option"
  raw_crv :: "string option"
  raw_x :: "string option"

datatype jwks_doc_error = DocJson | DocBase64 nat | DocKeyLength | DocEmpty | DocNoMatch

record jwks_decoders =
  doc_of_json :: "bytes \<Rightarrow> jwk_raw list option"
  url_safe_no_pad :: "string \<Rightarrow> bytes option"
  standard_b64 :: "string \<Rightarrow> bytes option"

fun nat_digits :: "nat \<Rightarrow> string" where
  "nat_digits n =
     (if n < 10 then [char_of (48 + n)] else nat_digits (n div 10) @ [char_of (48 + n mod 10)])"

declare nat_digits.simps [simp del]

fun parse_jwk_entries ::
    "jwks_decoders \<Rightarrow> nat \<Rightarrow> jwk_raw list \<Rightarrow> (jwks_doc_error, jwk_entry list) result" where
  "parse_jwk_entries D idx [] = Ok []"
| "parse_jwk_entries D idx (e # es) =
     (if raw_kty e \<noteq> Some ''OKP'' then parse_jwk_entries D (Suc idx) es
      else if raw_crv e \<noteq> Some ''Ed25519'' then parse_jwk_entries D (Suc idx) es
      else (case raw_x e of
         None \<Rightarrow> parse_jwk_entries D (Suc idx) es
       | Some x \<Rightarrow>
          (case (case url_safe_no_pad D x of Some bs \<Rightarrow> Some bs | None \<Rightarrow> standard_b64 D x) of
             None \<Rightarrow> Err (DocBase64 idx)
           | Some pk \<Rightarrow>
              if length pk \<noteq> 32 then Err DocKeyLength
              else (case parse_jwk_entries D (Suc idx) es of
                 Inl err \<Rightarrow> Err err
               | Inr out \<Rightarrow>
                   Ok (\<lparr>jwk_kid = (case raw_kid e of Some k \<Rightarrow> k | None \<Rightarrow> ''entry-'' @ nat_digits idx),
                        jwk_public_key = pk\<rparr> # out)))))"

definition parse_jwks :: "jwks_decoders \<Rightarrow> bytes \<Rightarrow> (jwks_doc_error, jwk_entry list) result" where
  "parse_jwks D bs =
     (case doc_of_json D bs of
        None \<Rightarrow> Err DocJson
      | Some keys \<Rightarrow>
         (case parse_jwk_entries D 0 keys of
            Inl e \<Rightarrow> Err e
          | Inr out \<Rightarrow>
             if out = [] then (if keys = [] then Err DocEmpty else Err DocNoMatch) else Ok out))"

subsection \<open>Lookup\<close>

datatype jwks_error =
  UnknownKid string | Unreachable | UnreachableAndStale | JwkBadKey | JwkSignatureMismatch

text \<open>The result of one HTTP fetch: an error, or the body.\<close>

type_synonym fetch_result = "bytes option"

definition fetch_now ::
    "jwks_decoders \<Rightarrow> jwks_client \<Rightarrow> fetch_result \<Rightarrow> nat \<Rightarrow> jwks_client \<times> bool" where
  "fetch_now D c body now =
     (case body of
        None \<Rightarrow> (c, False)
      | Some bs \<Rightarrow>
         (case parse_jwks D bs of
            Inl _ \<Rightarrow> (c, False)
          | Inr parsed \<Rightarrow>
             (c\<lparr>jc_cache := Some \<lparr>fetched_at = now,
                  snap_keys = foldl (\<lambda>m e. AList.update (jwk_kid e) (jwk_public_key e) m) [] parsed\<rparr>\<rparr>,
              True)))"

definition jwks_lookup ::
    "jwks_decoders \<Rightarrow> jwks_client \<Rightarrow> string \<Rightarrow> fetch_result \<Rightarrow> nat \<Rightarrow> nat \<Rightarrow>
     jwks_client \<times> (jwks_error, bytes) result" where
  "jwks_lookup D c kid body now later =
     (let fast = (case jc_cache c of
            None \<Rightarrow> None
          | Some s \<Rightarrow> if now - fetched_at s < ttl (jc_policy c) then map_of (snap_keys s) kid else None)
      in case fast of
        Some pk \<Rightarrow> (c, Ok pk)
      | None \<Rightarrow>
         (case fetch_now D c body later of
            (c', True) \<Rightarrow>
              (c', case jc_cache c' of
                 None \<Rightarrow> Err (UnknownKid kid)
               | Some s \<Rightarrow> (case map_of (snap_keys s) kid of
                    None \<Rightarrow> Err (UnknownKid kid) | Some pk \<Rightarrow> Ok pk))
          | (c', False) \<Rightarrow>
              (c', case jc_cache c' of
                 None \<Rightarrow> Err Unreachable
               | Some s \<Rightarrow>
                  if later - fetched_at s \<le> max_stale (jc_policy c')
                  then (case map_of (snap_keys s) kid of
                     Some pk \<Rightarrow> Ok pk | None \<Rightarrow> Err (UnknownKid kid))
                  else if strict (jc_policy c') then Err UnreachableAndStale
                  else Err Unreachable)))"

definition verify_bundle ::
    "ext \<Rightarrow> jwks_decoders \<Rightarrow> jwks_client \<Rightarrow> signed_bundle \<Rightarrow> fetch_result \<Rightarrow> nat \<Rightarrow> nat \<Rightarrow>
     jwks_client \<times> (jwks_error, bytes) result" where
  "verify_bundle E D c b body now later =
     (case jwks_lookup D c (sb_kid b) body now later of
        (c', Inl e) \<Rightarrow> (c', Err e)
      | (c', Inr pk) \<Rightarrow>
         (c', if \<not> ed_key_ok E pk then Err JwkBadKey
              else (case verify_signature E b pk of
                 Inl _ \<Rightarrow> Err JwkSignatureMismatch | Inr _ \<Rightarrow> Ok pk)))"

subsection \<open>Properties\<close>

lemma fetch_now_policy [simp]: "jc_policy (fst (fetch_now D c body t)) = jc_policy c"
  by (auto simp: fetch_now_def split: option.split sum.split)

lemma fetch_now_failed: "fetch_now D c body t = (c', False) \<Longrightarrow> c' = c"
  by (auto simp: fetch_now_def split: option.splits sum.splits)

lemma fetch_now_done:
  "fetch_now D c body t = (c', True) \<Longrightarrow> \<exists>s. jc_cache c' = Some s \<and> fetched_at s = t"
  by (auto simp: fetch_now_def split: option.splits sum.splits)

text \<open>The client fails closed. Whenever \<open>lookup\<close> returns a key, the cache it leaves behind holds
  that key for that \<open>kid\<close> in a snapshot that is younger than the TTL or at most \<open>max_stale\<close> old;
  a snapshot past \<open>max_stale\<close> never yields a key once the endpoint cannot be reached.\<close>

theorem jwks_lookup_fresh:
  assumes "jwks_lookup D c kid body now later = (c', Ok pk)"
  shows "\<exists>s. jc_cache c' = Some s \<and> map_of (snap_keys s) kid = Some pk \<and>
    (now - fetched_at s < ttl (jc_policy c) \<or> later - fetched_at s \<le> max_stale (jc_policy c))"
proof (cases "fetch_now D c body later")
  case (Pair c1 ok)
  have "jc_policy c1 = jc_policy c" using fetch_now_policy [of D c body later] Pair by simp
  then show ?thesis
    using assms Pair fetch_now_failed [of D c body later] fetch_now_done [of D c body later]
    by (cases ok)
      (auto simp: jwks_lookup_def Let_def split: option.splits if_splits)
qed

theorem jwks_lookup_fresh_witness:
  "\<exists>s. jc_cache \<lparr>jc_policy = default_jwks_policy,
        jc_cache = Some \<lparr>fetched_at = 0, snap_keys = [(''k'', [7])]\<rparr>\<rparr> = Some s \<and>
     map_of (snap_keys s) ''k'' = Some [7] \<and>
     (1000 - fetched_at s < ttl default_jwks_policy \<or> 1000 - fetched_at s \<le> max_stale default_jwks_policy)"
proof -
  let ?c = "\<lparr>jc_policy = default_jwks_policy,
        jc_cache = Some \<lparr>fetched_at = 0, snap_keys = [(''k'', [7])]\<rparr>\<rparr>"
  have "jwks_lookup D ?c ''k'' None 1000 1000 = (?c, Ok [7])" for D
    by (simp add: jwks_lookup_def default_jwks_policy_def)
  from jwks_lookup_fresh [OF this] show ?thesis by simp
qed

lemma map_of_foldl_update:
  "map_of (foldl (\<lambda>m e. AList.update (f e) (g e) m) m0 es) k =
     (case find (\<lambda>e. f e = k) (rev es) of Some e \<Rightarrow> Some (g e) | None \<Rightarrow> map_of m0 k)"
  by (induction es rule: rev_induct) auto

text \<open>An unknown or stale \<open>kid\<close> forces a refetch: when the fetch delivers a parsable document,
  \<open>lookup\<close> answers from that document alone, with the last entry that lists the key, or with
  \<open>UnknownKid\<close> when none does.\<close>

theorem jwks_lookup_refetches:
  assumes "case jc_cache c of None \<Rightarrow> True | Some s \<Rightarrow>
      map_of (snap_keys s) kid = None \<or> ttl (jc_policy c) \<le> now - fetched_at s"
    and "parse_jwks D bs = Ok entries"
  shows "snd (jwks_lookup D c kid (Some bs) now later) =
    (case find (\<lambda>e. jwk_kid e = kid) (rev entries) of
       Some e \<Rightarrow> Ok (jwk_public_key e) | None \<Rightarrow> Err (UnknownKid kid))"
  using assms
  by (auto simp: jwks_lookup_def Let_def fetch_now_def map_of_foldl_update split: option.splits)

definition demo_jwks :: jwks_decoders where
  "demo_jwks = \<lparr>doc_of_json = (\<lambda>_. Some [\<lparr>raw_kid = Some ''k'', raw_kty = Some ''OKP'',
       raw_crv = Some ''Ed25519'', raw_x = Some ''x''\<rparr>]),
     url_safe_no_pad = (\<lambda>_. Some (replicate 32 9)), standard_b64 = (\<lambda>_. None)\<rparr>"

lemma demo_jwks_parse:
  "parse_jwks demo_jwks bs = Ok [\<lparr>jwk_kid = ''k'', jwk_public_key = replicate 32 9\<rparr>]"
  by (simp add: parse_jwks_def demo_jwks_def)

theorem jwks_lookup_refetches_witness:
  "snd (jwks_lookup demo_jwks (jwks_client_new default_jwks_policy) ''k'' (Some []) 5 6) =
     Ok (replicate 32 9)"
  by (subst jwks_lookup_refetches [OF _ demo_jwks_parse]) (simp_all add: jwks_client_new_def)

lemma parse_jwk_entries_sound:
  "parse_jwk_entries D idx raws = Ok out \<Longrightarrow> e \<in> set out \<Longrightarrow>
     length (jwk_public_key e) = 32 \<and>
     (\<exists>r \<in> set raws. raw_kty r = Some ''OKP'' \<and> raw_crv r = Some ''Ed25519'' \<and>
        (\<exists>x. raw_x r = Some x \<and>
          (url_safe_no_pad D x = Some (jwk_public_key e) \<or>
           standard_b64 D x = Some (jwk_public_key e))))"
  by (induction D idx raws arbitrary: out rule: parse_jwk_entries.induct)
    (fastforce split: if_splits option.splits sum.splits)+

text \<open>The parser only admits Ed25519 keys: every entry it returns comes from an \<open>OKP\<close>/\<open>Ed25519\<close>
  element of the document, carries exactly 32 bytes, and a successful parse is never empty.\<close>

theorem parse_jwks_sound:
  assumes "parse_jwks D bs = Ok out"
  shows "out \<noteq> [] \<and> (\<exists>raws. doc_of_json D bs = Some raws \<and>
    list_all (\<lambda>e. length (jwk_public_key e) = 32 \<and>
      (\<exists>r \<in> set raws. raw_kty r = Some ''OKP'' \<and> raw_crv r = Some ''Ed25519'' \<and>
        (\<exists>x. raw_x r = Some x \<and> (url_safe_no_pad D x = Some (jwk_public_key e) \<or>
                                 standard_b64 D x = Some (jwk_public_key e))))) out)"
  using assms parse_jwk_entries_sound [of D 0]
  by (fastforce simp: parse_jwks_def list_all_iff split: option.splits sum.splits if_splits)

theorem parse_jwks_sound_witness:
  "\<exists>raws. doc_of_json demo_jwks [] = Some raws \<and>
    list_all (\<lambda>e. length (jwk_public_key e) = 32 \<and>
      (\<exists>r \<in> set raws. raw_kty r = Some ''OKP'' \<and> raw_crv r = Some ''Ed25519'' \<and>
        (\<exists>x. raw_x r = Some x \<and> (url_safe_no_pad demo_jwks x = Some (jwk_public_key e) \<or>
                                 standard_b64 demo_jwks x = Some (jwk_public_key e)))))
      [\<lparr>jwk_kid = ''k'', jwk_public_key = replicate 32 9\<rparr>]"
  using parse_jwks_sound [OF demo_jwks_parse] by (rule conjunct2)

end
