(* ===== verification/Pairing_Store.thy ===== *)
theory Pairing_Store
  imports Proto_Types
begin

text \<open>
  The pair-grant store of \<open>crates/qubox-signaling/src/lib.rs\<close> (\<open>PairingStore\<close>): an in-memory list
  of grants, optionally backed by a file that is replaced atomically. The file is the list it
  was last written with (\<open>None\<close>: no file yet); whether the write sequence of one call succeeds is
  an input. The locale \<open>grant_store\<close> is the interface the signaling operations use.
\<close>

datatype store_error = PersistFailed | StoreUnreadable

record pairing_store =
  ps_path :: "string option"
  pairings :: "pairing_grant list"
  ps_file :: "pairing_grant list option"

definition store_memory :: pairing_store where
  "store_memory = \<lparr>ps_path = None, pairings = [], ps_file = None\<rparr>"

text \<open>\<open>from_path\<close>: \<open>file\<close> is \<open>None\<close> when the path does not exist, \<open>Some None\<close> when it holds text that
  does not parse, \<open>Some (Some gs)\<close> when it parses. \<open>dir_ok\<close> is the outcome of creating the
  parent directory.\<close>

definition store_from_path ::
    "bool \<Rightarrow> string \<Rightarrow> pairing_grant list option option \<Rightarrow> (store_error, pairing_store) result" where
  "store_from_path dir_ok path file =
     (if \<not> dir_ok then Err PersistFailed
      else case file of
        None \<Rightarrow> Ok \<lparr>ps_path = Some path, pairings = [], ps_file = None\<rparr>
      | Some None \<Rightarrow> Err StoreUnreadable
      | Some (Some gs) \<Rightarrow> Ok \<lparr>ps_path = Some path, pairings = gs, ps_file = Some gs\<rparr>)"

definition load_pairings_from_path ::
    "pairing_grant list option option \<Rightarrow> (store_error, pairing_grant list) result" where
  "load_pairings_from_path file =
     (case file of None \<Rightarrow> Ok [] | Some None \<Rightarrow> Err StoreUnreadable | Some (Some gs) \<Rightarrow> Ok gs)"

definition persist :: "bool \<Rightarrow> pairing_store \<Rightarrow> pairing_store \<times> (store_error, unit) result" where
  "persist write_ok s =
     (case ps_path s of
        None \<Rightarrow> (s, Ok ())
      | Some _ \<Rightarrow> if write_ok then (s\<lparr>ps_file := Some (pairings s)\<rparr>, Ok ()) else (s, Err PersistFailed))"

definition is_paired :: "pairing_store \<Rightarrow> uuid \<Rightarrow> uuid \<Rightarrow> bool" where
  "is_paired s host client = list_ex (\<lambda>g. pg_host g = host \<and> pg_client g = client) (pairings s)"

definition add_pairing ::
    "bool \<Rightarrow> pairing_store \<Rightarrow> pairing_grant \<Rightarrow> pairing_store \<times> (store_error, unit) result" where
  "add_pairing write_ok s g =
     persist write_ok (if g \<in> set (pairings s) then s else s\<lparr>pairings := pairings s @ [g]\<rparr>)"

definition remove_pairing ::
    "bool \<Rightarrow> pairing_store \<Rightarrow> uuid \<Rightarrow> uuid \<Rightarrow> pairing_store \<times> (store_error, bool) result" where
  "remove_pairing write_ok s host client =
     (let kept = filter (\<lambda>g. \<not> (pg_host g = host \<and> pg_client g = client)) (pairings s);
          removed = (length kept \<noteq> length (pairings s));
          s1 = s\<lparr>pairings := kept\<rparr>
      in if removed
         then (case persist write_ok s1 of
                 (s2, Inl e) \<Rightarrow> (s2, Err e) | (s2, Inr _) \<Rightarrow> (s2, Ok removed))
         else (s1, Ok removed))"

subsection \<open>The interface\<close>

lemma persist_state [simp]:
  "pairings (fst (persist w s)) = pairings s" "ps_path (fst (persist w s)) = ps_path s"
  by (simp_all add: persist_def split: option.split)

lemma persist_pairings: "persist w s = (s', r) \<Longrightarrow> pairings s' = pairings s"
  using persist_state(1) [of w s] by simp

lemma filter_shorter: "length (filter P xs) \<noteq> length xs \<longleftrightarrow> (\<exists>x \<in> set xs. \<not> P x)"
proof
  assume "length (filter P xs) \<noteq> length xs"
  then show "\<exists>x \<in> set xs. \<not> P x" by (metis filter_True)
next
  assume "\<exists>x \<in> set xs. \<not> P x"
  then show "length (filter P xs) \<noteq> length xs"
    by (metis length_filter_less less_irrefl)
qed

lemma is_paired_add:
  "is_paired (fst (add_pairing w s g)) h c \<longleftrightarrow> is_paired s h c \<or> (pg_host g = h \<and> pg_client g = c)"
  by (auto simp: is_paired_def add_pairing_def list_ex_iff)

lemma remove_pairing_pairings:
  "pairings (fst (remove_pairing w s h c)) =
     filter (\<lambda>g. \<not> (pg_host g = h \<and> pg_client g = c)) (pairings s)"
  by (auto simp: remove_pairing_def Let_def dest: persist_pairings split: prod.splits sum.splits)

lemma is_paired_remove:
  "is_paired (fst (remove_pairing w s h c)) h' c' \<longleftrightarrow> is_paired s h' c' \<and> (h', c') \<noteq> (h, c)"
  by (auto simp: is_paired_def remove_pairing_pairings list_ex_iff)

lemma remove_pairing_reports:
  assumes "snd (remove_pairing w s h c) = Ok r"
  shows "r \<longleftrightarrow> is_paired s h c"
proof -
  have "r \<longleftrightarrow> length (filter (\<lambda>g. \<not> (pg_host g = h \<and> pg_client g = c)) (pairings s)) \<noteq>
      length (pairings s)"
    using assms by (auto simp: remove_pairing_def Let_def split: prod.splits sum.splits if_splits)
  then show ?thesis by (auto simp: filter_shorter is_paired_def list_ex_iff)
qed

locale grant_store =
  fixes paired :: "'s \<Rightarrow> 'p \<Rightarrow> 'p \<Rightarrow> bool"
    and add :: "'s \<Rightarrow> 'p \<Rightarrow> 'p \<Rightarrow> 's"
    and remove :: "'s \<Rightarrow> 'p \<Rightarrow> 'p \<Rightarrow> 's"
  assumes paired_add: "paired (add s h c) h' c' \<longleftrightarrow> paired s h' c' \<or> (h', c') = (h, c)"
    and paired_remove: "paired (remove s h c) h' c' \<longleftrightarrow> paired s h' c' \<and> (h', c') \<noteq> (h, c)"
begin

lemma add_then_remove: "\<not> paired (remove (add s h c) h c) h c"
  by (simp add: paired_remove)

lemma frame: "(h', c') \<noteq> (h, c) \<Longrightarrow>
    paired (add s h c) h' c' = paired s h' c' \<and> paired (remove s h c) h' c' = paired s h' c'"
  by (auto simp: paired_add paired_remove)

text \<open>The pairs after a run of additions and removals are decided by the last one for each pair.\<close>

lemma run_last:
  "paired (foldl (\<lambda>s (grant, h, c). if grant then add s h c else remove s h c) s ops) h' c' =
     (case find (\<lambda>(_, h, c). (h, c) = (h', c')) (rev ops) of
        None \<Rightarrow> paired s h' c' | Some (grant, _) \<Rightarrow> grant)"
  by (induction ops rule: rev_induct) (auto simp: paired_add paired_remove split: prod.splits)

end

definition store_add :: "bool \<Rightarrow> pairing_store \<Rightarrow> uuid \<Rightarrow> uuid \<Rightarrow> pairing_store" where
  "store_add w s h c = fst (add_pairing w s \<lparr>pg_host = h, pg_client = c\<rparr>)"

definition store_remove :: "bool \<Rightarrow> pairing_store \<Rightarrow> uuid \<Rightarrow> uuid \<Rightarrow> pairing_store" where
  "store_remove w s h c = fst (remove_pairing w s h c)"

interpretation pstore: grant_store is_paired "store_add w" "store_remove w" for w
  by unfold_locales (auto simp: store_add_def store_remove_def is_paired_add is_paired_remove)

subsection \<open>Properties\<close>

text \<open>After any sequence of grants and revocations, a pair is paired exactly when the last
  operation that named it was a grant (or it was paired before and never named), whatever the
  outcome of the individual file writes.\<close>

theorem pairing_last_writer:
  "is_paired (foldl (\<lambda>s (grant, h, c). if grant then store_add w s h c else store_remove w s h c) s ops) h' c' =
     (case find (\<lambda>(_, h, c). (h, c) = (h', c')) (rev ops) of
        None \<Rightarrow> is_paired s h' c' | Some (grant, _) \<Rightarrow> grant)"
  by (rule pstore.run_last)

text \<open>A file-backed store never holds on disk anything but the list in memory after a call that
  reports success, and a failed write still leaves the new grant active in memory while the file
  keeps its old content.\<close>

theorem add_pairing_persistence:
  "add_pairing w s g = (s', r) \<longrightarrow>
     is_paired s' (pg_host g) (pg_client g) \<and>
     (ps_path s \<noteq> None \<and> r = Ok () \<longrightarrow> ps_file s' = Some (pairings s')) \<and>
     (r \<noteq> Ok () \<longrightarrow> ps_file s' = ps_file s)"
  by (auto simp: add_pairing_def persist_def is_paired_def list_ex_iff split: option.splits if_splits)

theorem add_pairing_persistence_witness:
  "is_paired (fst (add_pairing False (store_memory\<lparr>ps_path := Some ''f''\<rparr>)
      \<lparr>pg_host = 1, pg_client = 2\<rparr>)) 1 2"
  using add_pairing_persistence [of False "store_memory\<lparr>ps_path := Some ''f''\<rparr>"
      "\<lparr>pg_host = 1, pg_client = 2\<rparr>"
      "fst (add_pairing False (store_memory\<lparr>ps_path := Some ''f''\<rparr>) \<lparr>pg_host = 1, pg_client = 2\<rparr>)"
      "snd (add_pairing False (store_memory\<lparr>ps_path := Some ''f''\<rparr>) \<lparr>pg_host = 1, pg_client = 2\<rparr>)"]
  by simp

end
