(* ===== verification/Cluster_Bus.thy ===== *)
theory Cluster_Bus
  imports Proto_Types
begin

text \<open>
  The Redis coordination layer of \<open>crates/qubox-signaling/src/cluster.rs\<close>. Redis itself is a
  service outside the repository: its commands are the fields of the record \<open>redis\<close>, over an
  arbitrary server state \<open>'r\<close>, each able to fail. Keys and channels are datatypes instead of the
  formatted strings, and a stored JSON text is the value it encodes, so reading a key of another
  shape is the decoding error.
\<close>

record remote_peer =
  rp_instance_id :: string
  rp_tenant_id :: uuid
  rp_descriptor :: peer_descriptor
  rp_public_key :: "bytes option"

record remote_session =
  rss_host :: uuid
  rss_client :: uuid
  rss_expires :: u64

datatype redis_key = PeerKey uuid | HostsKey uuid | SessionKey uuid | PairKey uuid uuid
datatype redis_value = VPeer remote_peer | VSession remote_session | VOne
datatype redis_channel = InstChannel string | PresenceChannel
datatype redis_error = RedisFailed | RedisDecode | NotInRegistry uuid

record ('r, 'err) redis =
  rd_get :: "'r \<Rightarrow> redis_key \<Rightarrow> (redis_error, redis_value option) result"
  rd_set_ex :: "'r \<Rightarrow> redis_key \<Rightarrow> redis_value \<Rightarrow> nat \<Rightarrow> 'r \<times> (redis_error, unit) result"
  rd_expire :: "'r \<Rightarrow> redis_key \<Rightarrow> nat \<Rightarrow> 'r \<times> (redis_error, bool) result"
  rd_del :: "'r \<Rightarrow> redis_key \<Rightarrow> 'r \<times> (redis_error, unit) result"
  rd_sadd :: "'r \<Rightarrow> redis_key \<Rightarrow> string \<Rightarrow> 'r \<times> (redis_error, unit) result"
  rd_srem :: "'r \<Rightarrow> redis_key \<Rightarrow> string \<Rightarrow> 'r \<times> (redis_error, unit) result"
  rd_smembers :: "'r \<Rightarrow> redis_key \<Rightarrow> (redis_error, string list) result"
  rd_publish :: "'r \<Rightarrow> redis_channel \<Rightarrow> uuid \<times> 'err server_message \<Rightarrow> 'r \<times> (redis_error, unit) result"

definition PEER_TTL_SECS :: nat where "PEER_TTL_SECS = 90"
definition SESSION_TTL_SECS :: nat where "SESSION_TTL_SECS = 600"

record 'r cluster_bus =
  instance_id :: string
  conn :: 'r

definition with_conn :: "'r cluster_bus \<Rightarrow> 'r \<times> 'x \<Rightarrow> 'r cluster_bus \<times> 'x" where
  "with_conn b r = (b\<lparr>conn := fst r\<rparr>, snd r)"

definition bus_register_peer ::
    "ext \<Rightarrow> ('r, 'err) redis \<Rightarrow> 'r cluster_bus \<Rightarrow> uuid \<Rightarrow> uuid \<Rightarrow> peer_descriptor \<Rightarrow> bytes option \<Rightarrow>
     'r cluster_bus \<times> (redis_error, unit) result" where
  "bus_register_peer E R b pid tenant d pk =
     (let rec = \<lparr>rp_instance_id = instance_id b, rp_tenant_id = tenant, rp_descriptor = d,
                 rp_public_key = pk\<rparr>
      in case with_conn b (rd_set_ex R (conn b) (PeerKey pid) (VPeer rec) PEER_TTL_SECS) of
        (b1, Inl e) \<Rightarrow> (b1, Err e)
      | (b1, Inr _) \<Rightarrow>
         if role d = Host
         then with_conn b1 (rd_sadd R (conn b1) (HostsKey tenant) (uuid_text E pid))
         else (b1, Ok ()))"

definition bus_touch_peer ::
    "('r, 'err) redis \<Rightarrow> 'r cluster_bus \<Rightarrow> uuid \<Rightarrow> 'r cluster_bus \<times> (redis_error, unit) result" where
  "bus_touch_peer R b pid =
     (case with_conn b (rd_expire R (conn b) (PeerKey pid) PEER_TTL_SECS) of
        (b1, Inl e) \<Rightarrow> (b1, Err e) | (b1, Inr _) \<Rightarrow> (b1, Ok ()))"

definition bus_unregister_peer ::
    "ext \<Rightarrow> ('r, 'err) redis \<Rightarrow> 'r cluster_bus \<Rightarrow> uuid \<Rightarrow> uuid \<Rightarrow> bool \<Rightarrow>
     'r cluster_bus \<times> (redis_error, unit) result" where
  "bus_unregister_peer E R b pid tenant was_host =
     (case with_conn b (rd_del R (conn b) (PeerKey pid)) of
        (b1, Inl e) \<Rightarrow> (b1, Err e)
      | (b1, Inr _) \<Rightarrow>
         if was_host
         then with_conn b1 (rd_srem R (conn b1) (HostsKey tenant) (uuid_text E pid))
         else (b1, Ok ()))"

definition bus_get_peer ::
    "('r, 'err) redis \<Rightarrow> 'r cluster_bus \<Rightarrow> uuid \<Rightarrow> (redis_error, remote_peer option) result" where
  "bus_get_peer R b pid =
     (case rd_get R (conn b) (PeerKey pid) of
        Inl e \<Rightarrow> Err e
      | Inr None \<Rightarrow> Ok None
      | Inr (Some (VPeer p)) \<Rightarrow> Ok (Some p)
      | Inr (Some _) \<Rightarrow> Err RedisDecode)"

fun bus_list_hosts_loop ::
    "ext \<Rightarrow> ('r, 'err) redis \<Rightarrow> 'r cluster_bus \<Rightarrow> uuid \<Rightarrow> string list \<Rightarrow>
     'r cluster_bus \<times> (redis_error, peer_descriptor list) result" where
  "bus_list_hosts_loop E R b tenant [] = (b, Ok [])"
| "bus_list_hosts_loop E R b tenant (t # ts) =
     (case uuid_parse E t of
        None \<Rightarrow> bus_list_hosts_loop E R b tenant ts
      | Some pid \<Rightarrow>
         (case bus_get_peer R b pid of
            Inl e \<Rightarrow> (b, Err e)
          | Inr (Some p) \<Rightarrow>
             (case bus_list_hosts_loop E R b tenant ts of
                (b', Inl e) \<Rightarrow> (b', Err e)
              | (b', Inr out) \<Rightarrow>
                 (b', Ok (if role (rp_descriptor p) = Host \<and> rp_tenant_id p = tenant
                          then rp_descriptor p # out else out)))
          | Inr None \<Rightarrow>
             (case with_conn b (rd_srem R (conn b) (HostsKey tenant) t) of
                (b1, Inl e) \<Rightarrow> (b1, Err e)
              | (b1, Inr _) \<Rightarrow> bus_list_hosts_loop E R b1 tenant ts)))"

definition bus_list_hosts ::
    "ext \<Rightarrow> ('r, 'err) redis \<Rightarrow> 'r cluster_bus \<Rightarrow> uuid \<Rightarrow>
     'r cluster_bus \<times> (redis_error, peer_descriptor list) result" where
  "bus_list_hosts E R b tenant =
     (case rd_smembers R (conn b) (HostsKey tenant) of
        Inl e \<Rightarrow> (b, Err e)
      | Inr ids \<Rightarrow> bus_list_hosts_loop E R b tenant ids)"

definition bus_put_session ::
    "('r, 'err) redis \<Rightarrow> 'r cluster_bus \<Rightarrow> uuid \<Rightarrow> remote_session \<Rightarrow>
     'r cluster_bus \<times> (redis_error, unit) result" where
  "bus_put_session R b sid s =
     with_conn b (rd_set_ex R (conn b) (SessionKey sid) (VSession s) SESSION_TTL_SECS)"

definition bus_get_session ::
    "('r, 'err) redis \<Rightarrow> 'r cluster_bus \<Rightarrow> uuid \<Rightarrow> (redis_error, remote_session option) result" where
  "bus_get_session R b sid =
     (case rd_get R (conn b) (SessionKey sid) of
        Inl e \<Rightarrow> Err e
      | Inr None \<Rightarrow> Ok None
      | Inr (Some (VSession s)) \<Rightarrow> Ok (Some s)
      | Inr (Some _) \<Rightarrow> Err RedisDecode)"

definition bus_put_pairing ::
    "('r, 'err) redis \<Rightarrow> 'r cluster_bus \<Rightarrow> uuid \<Rightarrow> uuid \<Rightarrow>
     'r cluster_bus \<times> (redis_error, unit) result" where
  "bus_put_pairing R b h c = with_conn b (rd_set_ex R (conn b) (PairKey h c) VOne 86400)"

definition bus_is_paired ::
    "('r, 'err) redis \<Rightarrow> 'r cluster_bus \<Rightarrow> uuid \<Rightarrow> uuid \<Rightarrow> (redis_error, bool) result" where
  "bus_is_paired R b h c =
     (case rd_get R (conn b) (PairKey h c) of Inl e \<Rightarrow> Err e | Inr v \<Rightarrow> Ok (v \<noteq> None))"

definition bus_remove_pairing ::
    "('r, 'err) redis \<Rightarrow> 'r cluster_bus \<Rightarrow> uuid \<Rightarrow> uuid \<Rightarrow>
     'r cluster_bus \<times> (redis_error, unit) result" where
  "bus_remove_pairing R b h c = with_conn b (rd_del R (conn b) (PairKey h c))"

definition bus_deliver ::
    "('r, 'err) redis \<Rightarrow> 'r cluster_bus \<Rightarrow> uuid \<Rightarrow> 'err server_message \<Rightarrow>
     'r cluster_bus \<times> (redis_error, unit) result" where
  "bus_deliver R b pid m =
     (case bus_get_peer R b pid of
        Inl e \<Rightarrow> (b, Err e)
      | Inr None \<Rightarrow> (b, Err (NotInRegistry pid))
      | Inr (Some p) \<Rightarrow> with_conn b (rd_publish R (conn b) (InstChannel (rp_instance_id p)) (pid, m)))"

definition bus_publish_presence ::
    "('r, 'err) redis \<Rightarrow> 'r cluster_bus \<Rightarrow> 'err server_message \<Rightarrow>
     'r cluster_bus \<times> (redis_error, unit) result" where
  "bus_publish_presence R b m = with_conn b (rd_publish R (conn b) PresenceChannel (nil_uuid, m))"

subsection \<open>What is relied on of Redis\<close>

text \<open>Publishing does not write keys; removing a set member does not write other keys.\<close>

definition redis_publish_frame :: "('r, 'err) redis \<Rightarrow> bool" where
  "redis_publish_frame R \<longleftrightarrow>
     (\<forall>r ch p k. rd_get R (fst (rd_publish R r ch p)) k = rd_get R r k)"

subsection \<open>Properties\<close>

lemma with_conn_simps [simp]:
  "conn (fst (with_conn b r)) = fst r" "snd (with_conn b r) = snd r"
  "instance_id (fst (with_conn b r)) = instance_id b"
  by (simp_all add: with_conn_def)

lemma bus_deliver_frame:
  assumes "redis_publish_frame R"
  shows "rd_get R (conn (fst (bus_deliver R b pid m))) k = rd_get R (conn b) k"
  using assms
  by (auto simp: bus_deliver_def redis_publish_frame_def split: sum.split option.split)

lemma bus_list_hosts_loop_tenant:
  "snd (bus_list_hosts_loop E R b tenant ts) = Ok out \<Longrightarrow> d \<in> set out \<Longrightarrow>
     role d = Host \<and> (\<exists>b' pid p. bus_get_peer R b' pid = Ok (Some p) \<and> rp_descriptor p = d \<and>
       rp_tenant_id p = tenant)"
proof (induction E R b tenant ts arbitrary: out rule: bus_list_hosts_loop.induct)
  case (2 E R b tenant t ts)
  show ?case
  proof (cases "uuid_parse E t")
    case None
    with 2 show ?thesis by simp
  next
    case (Some pid)
    show ?thesis
    proof (cases "bus_get_peer R b pid")
      case (Inl e)
      with 2 Some show ?thesis by simp
    next
      case (Inr po)
      show ?thesis
      proof (cases po)
        case None
        with 2 Some Inr show ?thesis
          by (auto split: prod.splits sum.splits)
      next
        case (Some p)
        obtain b' r where l: "bus_list_hosts_loop E R b tenant ts = (b', r)" by fastforce
        then obtain out' where r: "r = Ok out'"
          using "2.prems" \<open>uuid_parse E t = Some pid\<close> Inr Some by (cases r) auto
        have IH: "d \<in> set out' \<Longrightarrow> role d = Host \<and> (\<exists>b' pid p. bus_get_peer R b' pid = Ok (Some p) \<and>
            rp_descriptor p = d \<and> rp_tenant_id p = tenant)"
          using "2.IH"(3) [OF \<open>uuid_parse E t = Some pid\<close> Inr Some, of out'] l r by simp
        show ?thesis
        proof (cases "d \<in> set out'")
          case True
          then show ?thesis by (rule IH)
        next
          case False
          with "2.prems" \<open>uuid_parse E t = Some pid\<close> Inr Some l r
          have "role d = Host \<and> rp_descriptor p = d \<and> rp_tenant_id p = tenant"
            by (auto split: if_splits)
          with Inr Some show ?thesis by blast
        qed
      qed
    qed
  qed
qed simp

end
