(* ===== verification/Signaling_State.thy ===== *)
theory Signaling_State
  imports Jti_Cache Jwks_Client Pairing_Store Cluster_Bus
begin

text \<open>
  The state of the signaling relay and the operations on connected peers
  (\<open>crates/qubox-signaling/src/lib.rs\<close>, \<open>SignalingState\<close>). The record \<open>signaling_state\<close> has the
  struct's fields. A peer's \<open>mpsc\<close> sender is a channel number: \<open>closed\<close> lists the channels
  whose receiver is gone, \<open>outbox\<close> is the log of messages the channels accepted, oldest first.
  What the code obtains from outside during one call (clock readings, HTTP fetches, the outcome
  of file writes, random bytes) is the record \<open>io\<close>; the functions of other crates and the two
  pluggable traits are the record \<open>env\<close>. Each operation is one step: the interleaving of the lock
  sections of two concurrent calls is not modelled.
\<close>

datatype bundle_verify_error =
    JwksNotConfigured
  | BvJwks jwks_error
  | BvBadKey
  | BvDecode signed_bundle_error
  | AudienceMismatch string string
  | Expired u64 u64
  | BvJti jti_error
  | MalformedSid string

datatype sig_error =
    AlreadyConnected uuid
  | EnrollmentLookupFailed string
  | NotEnrolled uuid
  | DeviceRevoked uuid
  | ClientNotConnected uuid
  | TargetNotHost uuid
  | TenantMismatch
  | HostNotConnected uuid
  | NotWritable uuid
  | UnknownPeer uuid
  | ClusterError redis_error
  | PairingUnknown uuid
  | OnlyHostsApprove
  | OtherHost uuid
  | PairingDenied string
  | AuthorizeFailed string
  | PersistError store_error
  | NeedsConsent uuid
  | SessionDenied string
  | NotPaired uuid uuid
  | NoSharedTransport
  | NoSharedCodec
  | HostNotSigned uuid
  | ClientNotSigned uuid
  | RevokeForbidden uuid
  | NoPairing uuid uuid
  | SessionNotFound uuid
  | NotParticipant uuid
  | ShareForbidden
  | ShareUnknown
  | ShareExpired
  | RelaySourceMismatch
  | SessionInactive uuid
  | SessionExpired uuid
  | RelayNotParticipant uuid uuid
  | RelayNotPaired uuid uuid
  | IceNotAllowed "string list"
  | IceBadScheme
  | BundleError bundle_verify_error
  | MessageText string

type_synonym smsg = "sig_error server_message"

subsection \<open>Policies supplied by the integrator\<close>

datatype enrollment_policy = EnrollOpen | EnrollManaged

record enrolled_device =
  ed_tenant_id :: uuid
  ed_account_id :: uuid
  ed_revoked :: bool

record session_authz_request =
  az_client_device_id :: uuid
  az_client_account_id :: "uuid option"
  az_host_device_id :: uuid
  az_consent_id :: "uuid option"
  az_share_link_redemption :: bool

datatype session_authz_decision =
    AuthzAllow session_permissions bool
  | AuthzPending uuid u64
  | AuthzDeny string

record 'r env =
  ev_ext :: ext
  ev_redis :: "('r, sig_error) redis"
  ev_jwks :: jwks_decoders
  ev_lookup :: "uuid \<Rightarrow> bytes \<Rightarrow> (string, enrolled_device option) result"
  ev_authorize :: "session_authz_request \<Rightarrow> (string, session_authz_decision) result"

record io =
  io_unix :: "nat \<Rightarrow> u64"
  io_mono :: "nat \<Rightarrow> nat"
  io_fetch :: "nat \<Rightarrow> fetch_result"
  io_write :: bool
  io_random :: bytes

subsection \<open>The state\<close>

record connected_peer =
  cp_descriptor :: peer_descriptor
  cp_outbound :: nat
  cp_public_key :: "bytes option"
  cp_tenant_id :: uuid
  cp_account_id :: uuid
  cp_heartbeat_count :: u64

record pending_pairing =
  pp_request_id :: uuid
  pp_host_peer_id :: uuid
  pp_client :: peer_descriptor
  pp_client_label :: string
  pp_client_account_id :: uuid

record active_session =
  as_host_peer_id :: uuid
  as_client_peer_id :: uuid
  as_transport :: transport_kind
  as_codec :: video_codec
  as_host_credential :: session_credential
  as_client_credential :: session_credential
  as_expires :: u64
  as_permissions :: session_permissions

record share_link_entry =
  sl_host_peer_id :: uuid
  sl_host_label :: string
  sl_permissions :: session_permissions
  sl_expires_unix_ms :: u64

record turn_relay_entry =
  tr_relay_address :: string
  tr_updated_at :: u64

record 'r signaling_state =
  peers :: "(uuid, connected_peer) hmap"
  pending_pairings :: "(uuid, pending_pairing) hmap"
  sessions :: "(uuid, active_session) hmap"
  ice_servers :: "ice_server list"
  pstore :: pairing_store
  turn_relays :: "(uuid, turn_relay_entry) hmap"
  server_secret :: bytes
  allow_unsigned_hello :: bool
  share_links :: "(string, share_link_entry) hmap"
  enrollment :: enrollment_policy
  session_authorizer :: bool
  cluster :: "'r cluster_bus option"
  jwks :: "jwks_client option"
  jtis :: jti_cache
  closed :: "nat list"
  outbox :: "(nat \<times> smsg) list"

definition PRESENCE_HEARTBEAT_INTERVAL :: u64 where
  "PRESENCE_HEARTBEAT_INTERVAL = 3"

definition SESSION_TOKEN_TTL_MILLIS :: u64 where
  "SESSION_TOKEN_TTL_MILLIS = 10 * 60 * 1000"

text \<open>\<open>env_bool\<close> on the value of an environment variable (\<open>None\<close>: unset).\<close>

definition env_bool :: "string option \<Rightarrow> bool option" where
  "env_bool raw =
     (case raw of
        None \<Rightarrow> None
      | Some r \<Rightarrow>
         let v = to_ascii_lowercase (trim_end (trim_start r)) in
         if v \<in> {'''', ''0'', ''false'', ''no'', ''off''} then Some False
         else if v \<in> {''1'', ''true'', ''yes'', ''on''} then Some True
         else None)"

definition with_policy ::
    "pairing_store \<Rightarrow> ice_server list \<Rightarrow> bytes \<Rightarrow> bool \<Rightarrow> 'r signaling_state" where
  "with_policy store ice secret allow =
     \<lparr>peers = [], pending_pairings = [], sessions = [], ice_servers = ice, pstore = store,
      turn_relays = [], server_secret = secret, allow_unsigned_hello = allow, share_links = [],
      enrollment = EnrollOpen, session_authorizer = False, cluster = None, jwks = None,
      jtis = jti_new, closed = [], outbox = []\<rparr>"

text \<open>\<open>with_options_and_secret_and_policy\<close>: the store is opened from a path or kept in memory.\<close>

definition with_options_and_secret_and_policy ::
    "(string \<times> bool \<times> pairing_grant list option option) option \<Rightarrow> ice_server list \<Rightarrow> bytes \<Rightarrow> bool \<Rightarrow>
     (store_error, 'r signaling_state) result" where
  "with_options_and_secret_and_policy store_path ice secret allow =
     (case store_path of
        None \<Rightarrow> Ok (with_policy store_memory ice secret allow)
      | Some (path, dir_ok, file) \<Rightarrow>
         (case store_from_path dir_ok path file of
            Inl e \<Rightarrow> Err e
          | Inr store \<Rightarrow> Ok (with_policy store ice secret allow)))"

definition with_options_and_secret ::
    "string option \<Rightarrow> (string \<times> bool \<times> pairing_grant list option option) option \<Rightarrow> ice_server list \<Rightarrow>
     bytes \<Rightarrow> (store_error, 'r signaling_state) result" where
  "with_options_and_secret require_var store_path ice secret =
     with_options_and_secret_and_policy store_path ice secret
       (\<not> (case env_bool require_var of None \<Rightarrow> True | Some b \<Rightarrow> b))"

definition default_state :: "string option \<Rightarrow> 'r signaling_state" where
  "default_state require_var =
     with_policy store_memory [] (map of_char ''unit-test-signaling-secret-do-not-use-in-prod'')
       (\<not> (case env_bool require_var of None \<Rightarrow> False | Some b \<Rightarrow> b))"

text \<open>The builder methods.\<close>

definition with_enrollment :: "'r signaling_state \<Rightarrow> enrollment_policy \<Rightarrow> 'r signaling_state" where
  "with_enrollment s e = s\<lparr>enrollment := e\<rparr>"

definition with_session_authorizer :: "'r signaling_state \<Rightarrow> 'r signaling_state" where
  "with_session_authorizer s = s\<lparr>session_authorizer := True\<rparr>"

definition with_cluster :: "'r signaling_state \<Rightarrow> 'r cluster_bus \<Rightarrow> 'r signaling_state" where
  "with_cluster s bus = s\<lparr>cluster := Some bus\<rparr>"

definition with_jwks :: "'r signaling_state \<Rightarrow> jwks_client \<Rightarrow> 'r signaling_state" where
  "with_jwks s c = s\<lparr>jwks := Some c\<rparr>"

definition set_allow_unsigned_hello :: "'r signaling_state \<Rightarrow> bool \<Rightarrow> 'r signaling_state" where
  "set_allow_unsigned_hello s allow = s\<lparr>allow_unsigned_hello := allow\<rparr>"

subsection \<open>Channels and delivery\<close>

definition chan_send :: "'r signaling_state \<Rightarrow> nat \<Rightarrow> smsg \<Rightarrow> 'r signaling_state \<times> bool" where
  "chan_send s ch m =
     (if ch \<in> set (closed s) then (s, False) else (s\<lparr>outbox := outbox s @ [(ch, m)]\<rparr>, True))"

definition send_to ::
    "'r env \<Rightarrow> 'r signaling_state \<Rightarrow> uuid \<Rightarrow> smsg \<Rightarrow> 'r signaling_state \<times> (sig_error, unit) result" where
  "send_to V s pid m =
     (case map_of (peers s) pid of
        Some p \<Rightarrow> (case chan_send s (cp_outbound p) m of
            (s', True) \<Rightarrow> (s', Ok ()) | (s', False) \<Rightarrow> (s', Err (NotWritable pid)))
      | None \<Rightarrow>
         (case cluster s of
            Some bus \<Rightarrow> (case bus_deliver (ev_redis V) bus pid m of
                (bus', Inl e) \<Rightarrow> (s\<lparr>cluster := Some bus'\<rparr>, Err (ClusterError e))
              | (bus', Inr _) \<Rightarrow> (s\<lparr>cluster := Some bus'\<rparr>, Ok ()))
          | None \<Rightarrow> (s, Err (UnknownPeer pid))))"

abbreviation post :: "'r env \<Rightarrow> 'r signaling_state \<Rightarrow> uuid \<Rightarrow> smsg \<Rightarrow> 'r signaling_state" where
  "post V s pid m \<equiv> fst (send_to V s pid m)"

abbreviation reply :: "'r signaling_state \<Rightarrow> nat \<Rightarrow> smsg \<Rightarrow> 'r signaling_state" where
  "reply s ch m \<equiv> fst (chan_send s ch m)"

definition broadcast_presence ::
    "'r env \<Rightarrow> 'r signaling_state \<Rightarrow> peer_descriptor \<Rightarrow> uuid \<Rightarrow> bool \<Rightarrow> 'r signaling_state" where
  "broadcast_presence V s d tenant connected =
     (let m = Presence \<lparr>pe_peer = d, pe_connected = connected\<rparr>;
          s1 = foldl (\<lambda>s (pid, p).
                 if pid = peer_id d then s
                 else if cp_tenant_id p \<noteq> tenant then s
                 else reply s (cp_outbound p) m) s (peers s)
      in case cluster s1 of
           None \<Rightarrow> s1
         | Some bus \<Rightarrow> s1\<lparr>cluster := Some (fst (bus_publish_presence (ev_redis V) bus m))\<rparr>)"

text \<open>The cluster listener: a presence message (nil id) goes to every local peer, any other to
  the addressed one.\<close>

definition cluster_receive :: "'r signaling_state \<Rightarrow> uuid \<Rightarrow> smsg \<Rightarrow> 'r signaling_state" where
  "cluster_receive s pid m =
     (if pid = nil_uuid then foldl (\<lambda>s (_, p). reply s (cp_outbound p) m) s (peers s)
      else case map_of (peers s) pid of None \<Rightarrow> s | Some p \<Rightarrow> reply s (cp_outbound p) m)"

subsection \<open>Registration\<close>

definition peer_pubkey :: "'r signaling_state \<Rightarrow> uuid \<Rightarrow> bytes option" where
  "peer_pubkey s pid = (case map_of (peers s) pid of None \<Rightarrow> None | Some p \<Rightarrow> cp_public_key p)"

definition register ::
    "'r env \<Rightarrow> 'r signaling_state \<Rightarrow> peer_descriptor \<Rightarrow> bytes option \<Rightarrow> uuid \<Rightarrow> uuid \<Rightarrow> nat \<Rightarrow>
     'r signaling_state \<times> (sig_error, unit) result" where
  "register V s d pk tenant account ch =
     (if map_of (peers s) (peer_id d) \<noteq> None then (s, Err (AlreadyConnected (peer_id d)))
      else let s1 = s\<lparr>peers := AList.update (peer_id d)
               \<lparr>cp_descriptor = d, cp_outbound = ch, cp_public_key = pk, cp_tenant_id = tenant,
                cp_account_id = account, cp_heartbeat_count = 0\<rparr> (peers s)\<rparr>
      in (case cluster s1 of
            None \<Rightarrow> (s1, Ok ())
          | Some bus \<Rightarrow>
              (s1\<lparr>cluster := Some (fst (bus_register_peer (ev_ext V) (ev_redis V) bus
                   (peer_id d) tenant d pk))\<rparr>, Ok ())))"

definition resolve_enrollment_full ::
    "'r env \<Rightarrow> 'r signaling_state \<Rightarrow> uuid \<Rightarrow> bytes \<Rightarrow> (sig_error, uuid \<times> uuid) result" where
  "resolve_enrollment_full V s dev pk =
     (case enrollment s of
        EnrollOpen \<Rightarrow> Ok (nil_uuid, nil_uuid)
      | EnrollManaged \<Rightarrow>
         (case ev_lookup V dev pk of
            Inl e \<Rightarrow> Err (EnrollmentLookupFailed e)
          | Inr None \<Rightarrow> Err (NotEnrolled dev)
          | Inr (Some info) \<Rightarrow>
             if ed_revoked info then Err (DeviceRevoked dev)
             else Ok (ed_tenant_id info, ed_account_id info)))"

definition unregister ::
    "'r env \<Rightarrow> 'r signaling_state \<Rightarrow> uuid \<Rightarrow> 'r signaling_state \<times> peer_descriptor option" where
  "unregister V s pid =
     (case map_of (peers s) pid of
        None \<Rightarrow> (s, None)
      | Some p \<Rightarrow>
         let s1 = s\<lparr>peers := AList.delete pid (peers s)\<rparr> in
         (case cluster s1 of
            None \<Rightarrow> s1
          | Some bus \<Rightarrow> s1\<lparr>cluster := Some (fst (bus_unregister_peer (ev_ext V) (ev_redis V) bus pid
                (cp_tenant_id p) (role (cp_descriptor p) = Host)))\<rparr>,
          Some (cp_descriptor p)))"

definition peer_tenant :: "'r signaling_state \<Rightarrow> uuid \<Rightarrow> uuid option" where
  "peer_tenant s pid = map_option cp_tenant_id (map_of (peers s) pid)"

definition peer_tenant_account :: "'r signaling_state \<Rightarrow> uuid \<Rightarrow> (uuid \<times> uuid) option" where
  "peer_tenant_account s pid =
     map_option (\<lambda>p. (cp_tenant_id p, cp_account_id p)) (map_of (peers s) pid)"

definition find_host_peer_for_device :: "'r signaling_state \<Rightarrow> uuid \<Rightarrow> uuid option" where
  "find_host_peer_for_device s dev =
     map_option (\<lambda>(_, p). peer_id (cp_descriptor p))
       (find (\<lambda>(_, p). role (cp_descriptor p) = Host \<and> device_id (cp_descriptor p) = dev) (peers s))"

definition handle_heartbeat :: "'r env \<Rightarrow> 'r signaling_state \<Rightarrow> uuid \<Rightarrow> 'r signaling_state" where
  "handle_heartbeat V s pid =
     (case map_of (peers s) pid of
        None \<Rightarrow> s
      | Some p \<Rightarrow>
         let n = cp_heartbeat_count p + 1;
             s1 = s\<lparr>peers := AList.update pid (p\<lparr>cp_heartbeat_count := n\<rparr>) (peers s)\<rparr>
         in if n mod PRESENCE_HEARTBEAT_INTERVAL = 0
            then broadcast_presence V s1 (cp_descriptor p) (cp_tenant_id p) True
            else s1)"

definition list_hosts ::
    "'r env \<Rightarrow> 'r signaling_state \<Rightarrow> uuid \<Rightarrow> 'r signaling_state \<times> peer_descriptor list" where
  "list_hosts V s tenant =
     (let local = map (\<lambda>(_, p). cp_descriptor p)
            (filter (\<lambda>(_, p). role (cp_descriptor p) = Host \<and> cp_tenant_id p = tenant) (peers s))
      in case cluster s of
           None \<Rightarrow> (s, local)
         | Some bus \<Rightarrow>
            (case bus_list_hosts (ev_ext V) (ev_redis V) bus tenant of
               (bus', Inl _) \<Rightarrow> (s\<lparr>cluster := Some bus'\<rparr>, local)
             | (bus', Inr remote) \<Rightarrow>
                (s\<lparr>cluster := Some bus'\<rparr>,
                 foldl (\<lambda>hosts d. if list_ex (\<lambda>h. peer_id h = peer_id d) hosts then hosts
                                  else hosts @ [d]) local remote)))"

subsection \<open>Sessions and TURN relay addresses\<close>

definition remove_sessions_for :: "'r signaling_state \<Rightarrow> uuid \<Rightarrow> 'r signaling_state" where
  "remove_sessions_for s pid =
     s\<lparr>sessions := retain (\<lambda>_ a. as_host_peer_id a \<noteq> pid \<and> as_client_peer_id a \<noteq> pid) (sessions s)\<rparr>"

definition prune_expired_sessions :: "'r signaling_state \<Rightarrow> u64 \<Rightarrow> 'r signaling_state" where
  "prune_expired_sessions s now =
     s\<lparr>sessions := retain (\<lambda>_ a. as_expires a > now) (sessions s)\<rparr>"

definition set_turn_relay :: "'r signaling_state \<Rightarrow> uuid \<Rightarrow> string \<Rightarrow> u64 \<Rightarrow> 'r signaling_state" where
  "set_turn_relay s pid addr now =
     s\<lparr>turn_relays := AList.update pid \<lparr>tr_relay_address = addr, tr_updated_at = now\<rparr> (turn_relays s)\<rparr>"

definition get_turn_relay :: "'r signaling_state \<Rightarrow> uuid \<Rightarrow> string option" where
  "get_turn_relay s pid = map_option tr_relay_address (map_of (turn_relays s) pid)"

definition remove_turn_relay :: "'r signaling_state \<Rightarrow> uuid \<Rightarrow> 'r signaling_state" where
  "remove_turn_relay s pid = s\<lparr>turn_relays := AList.delete pid (turn_relays s)\<rparr>"

definition prune_turn_relays :: "'r signaling_state \<Rightarrow> u64 \<Rightarrow> nat \<Rightarrow> 'r signaling_state" where
  "prune_turn_relays s now max_age_ms =
     (let cutoff = saturating_sub now (if max_age_ms < 2 ^ 64 then of_nat max_age_ms else - 1)
      in s\<lparr>turn_relays := retain (\<lambda>_ e. tr_updated_at e > cutoff) (turn_relays s)\<rparr>)"

definition is_paired_cluster :: "'r env \<Rightarrow> 'r signaling_state \<Rightarrow> uuid \<Rightarrow> uuid \<Rightarrow> bool" where
  "is_paired_cluster V s h c =
     (if is_paired (pstore s) h c then True
      else case cluster s of
        None \<Rightarrow> False
      | Some bus \<Rightarrow>
         (case bus_is_paired (ev_redis V) bus h c of Inl _ \<Rightarrow> False | Inr b \<Rightarrow> b))"

end
