(* ===== verification/Signaling_Ops.thy ===== *)
theory Signaling_Ops
  imports Signaling_State
begin

text \<open>
  The operations of the relay (\<open>impl SignalingState\<close>): pairing requests and decisions, session
  start with negotiation and credential issue, revocation, kicks, share codes, signal relaying,
  the verification of cloud-signed bundles, and the bearer checks of the TURN endpoints. Every
  \<open>bail!\<close> and \<open>?\<close> is an error branch; sends whose result the code discards are \<open>post\<close>.
\<close>

subsection \<open>Negotiation\<close>

definition negotiate_transport ::
    "peer_descriptor \<Rightarrow> peer_descriptor \<Rightarrow> transport_kind option \<Rightarrow> transport_kind option" where
  "negotiate_transport client host requested =
     (case requested of
        Some t \<Rightarrow>
          if supports_transport (capabilities client) t \<and> supports_transport (capabilities host) t
          then Some t else None
      | None \<Rightarrow>
          find (\<lambda>t. supports_transport (capabilities client) t \<and> supports_transport (capabilities host) t)
            [NativeQuic, WebRtc, RelayQuic])"

definition negotiate_codec ::
    "peer_descriptor \<Rightarrow> peer_descriptor \<Rightarrow> video_codec option \<Rightarrow> video_codec option" where
  "negotiate_codec client host preferred =
     (let fallback = find (\<lambda>c. c \<in> set (encoders (capabilities host)) \<and>
            c \<in> set (decoders (capabilities client))) [Av1, H265, H264]
      in case preferred of
           None \<Rightarrow> fallback
         | Some c \<Rightarrow>
            let client_ok = (c \<in> set (decoders (capabilities client)) \<or> c \<in> set (encoders (capabilities client)));
                host_ok = (c \<in> set (encoders (capabilities host)) \<or> c \<in> set (decoders (capabilities host)))
            in if client_ok \<and> host_ok then Some c else fallback)"

subsection \<open>ICE allowlist\<close>

fun filter_ice_loop :: "string list \<Rightarrow> ice_server list \<Rightarrow> (sig_error, ice_server list) result" where
  "filter_ice_loop allow [] = Ok []"
| "filter_ice_loop allow (srv # rest) =
     (let offending = filter (\<lambda>u. u \<notin> set allow) (ice_urls srv) in
      if offending \<noteq> [] then Err (IceNotAllowed offending)
      else if \<not> ice_url_is_valid (case ice_urls srv of [] \<Rightarrow> [] | u # _ \<Rightarrow> u) then Err IceBadScheme
      else (case filter_ice_loop allow rest of Inl e \<Rightarrow> Err e | Inr out \<Rightarrow> Ok (srv # out)))"

definition filter_ice_servers_to_allowlist ::
    "ice_server list \<Rightarrow> ice_allowlist \<Rightarrow> (sig_error, ice_server list) result" where
  "filter_ice_servers_to_allowlist candidates allowlist = filter_ice_loop (ia_urls allowlist) candidates"

subsection \<open>Pairing\<close>

text \<open>Whether \<open>host\<close> is a host of tenant \<open>tenant\<close>, here or on another instance.\<close>

definition check_pair_target ::
    "'r env \<Rightarrow> 'r signaling_state \<Rightarrow> uuid \<Rightarrow> uuid \<Rightarrow> (sig_error, unit) result" where
  "check_pair_target V s host tenant =
     (case map_of (peers s) host of
        Some p \<Rightarrow>
          if role (cp_descriptor p) \<noteq> Host then Err (TargetNotHost host)
          else if cp_tenant_id p \<noteq> tenant then Err TenantMismatch
          else Ok ()
      | None \<Rightarrow>
         (case cluster s of
            None \<Rightarrow> Err (HostNotConnected host)
          | Some bus \<Rightarrow>
             (case bus_get_peer (ev_redis V) bus host of
                Inl e \<Rightarrow> Err (ClusterError e)
              | Inr None \<Rightarrow> Err (HostNotConnected host)
              | Inr (Some remote) \<Rightarrow>
                 if role (rp_descriptor remote) \<noteq> Host then Err (TargetNotHost host)
                 else if rp_tenant_id remote \<noteq> tenant then Err TenantMismatch
                 else Ok ())))"

definition request_pairing ::
    "'r env \<Rightarrow> 'r signaling_state \<Rightarrow> peer_descriptor \<Rightarrow> pairing_request \<Rightarrow>
     'r signaling_state \<times> (sig_error, unit) result" where
  "request_pairing V s client rq =
     (case peer_tenant_account s (peer_id client) of
        None \<Rightarrow> (s, Err (ClientNotConnected (peer_id client)))
      | Some (tenant, account) \<Rightarrow>
         (case check_pair_target V s (pr_host_peer_id rq) tenant of
            Inl e \<Rightarrow> (s, Err e)
          | Inr _ \<Rightarrow>
             let pending = \<lparr>pp_request_id = pr_request_id rq, pp_host_peer_id = pr_host_peer_id rq,
                   pp_client = client, pp_client_label = pr_client_label rq,
                   pp_client_account_id = account\<rparr>;
                 s1 = s\<lparr>pending_pairings := AList.update (pr_request_id rq) pending (pending_pairings s)\<rparr>
             in send_to V s1 (pr_host_peer_id rq)
                  (PairingRequested \<lparr>prq_request_id = pr_request_id rq,
                     prq_host_peer_id = pr_host_peer_id rq, prq_client = client,
                     prq_client_label = pr_client_label rq\<rparr>)))"

text \<open>Inserting a grant: the local store (whose error is returned), then the cluster.\<close>

definition put_grant ::
    "'r env \<Rightarrow> io \<Rightarrow> 'r signaling_state \<Rightarrow> uuid \<Rightarrow> uuid \<Rightarrow> 'r signaling_state \<times> (sig_error, unit) result" where
  "put_grant V I s h c =
     (case add_pairing (io_write I) (pstore s) \<lparr>pg_host = h, pg_client = c\<rparr> of
        (st, Inl e) \<Rightarrow> (s\<lparr>pstore := st\<rparr>, Err (PersistError e))
      | (st, Inr _) \<Rightarrow>
         let s1 = s\<lparr>pstore := st\<rparr> in
         (case cluster s1 of
            None \<Rightarrow> s1
          | Some bus \<Rightarrow> s1\<lparr>cluster := Some (fst (bus_put_pairing (ev_redis V) bus h c))\<rparr>, Ok ()))"

text \<open>The policy gate of a pairing decision: only a \<open>Deny\<close> or a failed authorizer stops it.\<close>

definition gate_pairing ::
    "'r env \<Rightarrow> 'r signaling_state \<Rightarrow> peer_descriptor \<Rightarrow> pending_pairing \<Rightarrow> uuid \<Rightarrow>
     'r signaling_state \<times> (sig_error, unit) result" where
  "gate_pairing V s host pending rid =
     (if \<not> session_authorizer s then (s, Ok ())
      else case ev_authorize V \<lparr>az_client_device_id = device_id (pp_client pending),
             az_client_account_id = (if pp_client_account_id pending = nil_uuid then None
                                     else Some (pp_client_account_id pending)),
             az_host_device_id = device_id host, az_consent_id = None,
             az_share_link_redemption = False\<rparr> of
        Inr (AuthzDeny reason) \<Rightarrow>
          (post V s (peer_id (pp_client pending)) (PairingRejected rid reason),
           Err (PairingDenied reason))
      | Inr (AuthzPending _ _) \<Rightarrow> (s, Ok ())
      | Inr (AuthzAllow _ _) \<Rightarrow> (s, Ok ())
      | Inl e \<Rightarrow> (s, Err (AuthorizeFailed e)))"

definition decide_pairing ::
    "'r env \<Rightarrow> io \<Rightarrow> 'r signaling_state \<Rightarrow> peer_descriptor \<Rightarrow> pairing_decision \<Rightarrow>
     'r signaling_state \<times> (sig_error, pairing_grant option) result" where
  "decide_pairing V I s host d =
     (let rid = pdec_request_id d in
      case map_of (pending_pairings s) rid of
        None \<Rightarrow> (s, Err (PairingUnknown rid))
      | Some pending \<Rightarrow>
         let s1 = s\<lparr>pending_pairings := AList.delete rid (pending_pairings s)\<rparr> in
         if role host \<noteq> Host then (s1, Err OnlyHostsApprove)
         else if pp_host_peer_id pending \<noteq> peer_id host then (s1, Err (OtherHost rid))
         else if \<not> pdec_approved d then
           (post V s1 (peer_id (pp_client pending)) (PairingRejected rid ''host rejected pairing''),
            Ok None)
         else bind_st (gate_pairing V s1 host pending rid) (\<lambda>s2 _.
           let h = pp_host_peer_id pending; c = peer_id (pp_client pending) in
           bind_st (put_grant V I s2 h c) (\<lambda>s3 _.
             (post V s3 c (PairingEstablished \<lparr>pg_host = h, pg_client = c\<rparr>),
              Ok (Some \<lparr>pg_host = h, pg_client = c\<rparr>)))))"

definition revoke_pairing ::
    "'r env \<Rightarrow> io \<Rightarrow> 'r signaling_state \<Rightarrow> peer_descriptor \<Rightarrow> uuid \<Rightarrow> uuid \<Rightarrow>
     'r signaling_state \<times> (sig_error, unit) result" where
  "revoke_pairing V I s actor h c =
     (let is_host = (peer_id actor = h);
          host_device = (case map_of (peers s) h of None \<Rightarrow> nil_uuid | Some p \<Rightarrow> device_id (cp_descriptor p));
          is_device_owner = (role actor = Client \<and> device_id actor = host_device)
      in if \<not> is_host \<and> \<not> is_device_owner then (s, Err (RevokeForbidden h))
         else case remove_pairing (io_write I) (pstore s) h c of
           (st, Inl e) \<Rightarrow> (s\<lparr>pstore := st\<rparr>, Err (PersistError e))
         | (st, Inr removed) \<Rightarrow>
            let s1 = s\<lparr>pstore := st\<rparr> in
            if \<not> removed then (s1, Err (NoPairing h c))
            else let s2 = s1\<lparr>sessions := retain (\<lambda>_ a. \<not> (as_host_peer_id a = h \<and> as_client_peer_id a = c))
                     (sessions s1)\<rparr>
            in (post V (post V s2 c (PairingRevoked h c)) h (PairingRevoked h c), Ok ()))"

subsection \<open>Starting a session\<close>

text \<open>The target host's descriptor and key, from this instance or from the registry.\<close>

definition locate_host ::
    "'r env \<Rightarrow> 'r signaling_state \<Rightarrow> uuid \<Rightarrow> uuid \<Rightarrow> (sig_error, peer_descriptor \<times> bytes option) result" where
  "locate_host V s target tenant =
     (case map_of (peers s) target of
        Some p \<Rightarrow>
          if role (cp_descriptor p) \<noteq> Host then Err (TargetNotHost target)
          else if cp_tenant_id p \<noteq> tenant then Err TenantMismatch
          else Ok (cp_descriptor p, cp_public_key p)
      | None \<Rightarrow>
         (case cluster s of
            None \<Rightarrow> Err (HostNotConnected target)
          | Some bus \<Rightarrow>
             (case bus_get_peer (ev_redis V) bus target of
                Inl e \<Rightarrow> Err (ClusterError e)
              | Inr None \<Rightarrow> Err (HostNotConnected target)
              | Inr (Some remote) \<Rightarrow>
                 if role (rp_descriptor remote) \<noteq> Host then Err (TargetNotHost target)
                 else if rp_tenant_id remote \<noteq> tenant then Err TenantMismatch
                 else Ok (rp_descriptor remote, rp_public_key remote))))"

definition authorize_session ::
    "'r env \<Rightarrow> 'r signaling_state \<Rightarrow> peer_descriptor \<Rightarrow> peer_descriptor \<Rightarrow> start_session_request \<Rightarrow>
     'r signaling_state \<times> (sig_error, session_permissions \<times> bool) result" where
  "authorize_session V s client host rq =
     (if \<not> session_authorizer s then (s, Ok (sr_permissions rq, False))
      else case ev_authorize V \<lparr>az_client_device_id = device_id client, az_client_account_id = None,
             az_host_device_id = device_id host, az_consent_id = sr_consent_id rq,
             az_share_link_redemption = False\<rparr> of
        Inr (AuthzAllow p auto) \<Rightarrow> (s, Ok (p, auto))
      | Inr (AuthzPending consent expires) \<Rightarrow>
          (post V s (sr_target_host_id rq)
             (SessionConsentPending consent (peer_id client) (sr_target_host_id rq) expires
                (device_name client)),
           Err (NeedsConsent consent))
      | Inr (AuthzDeny reason) \<Rightarrow> (s, Err (SessionDenied reason))
      | Inl e \<Rightarrow> (s, Err (AuthorizeFailed e)))"

definition ensure_paired ::
    "'r env \<Rightarrow> io \<Rightarrow> 'r signaling_state \<Rightarrow> uuid \<Rightarrow> uuid \<Rightarrow> bool \<Rightarrow>
     'r signaling_state \<times> (sig_error, unit) result" where
  "ensure_paired V I s h c auto =
     (let paired = is_paired_cluster V s h c in
      bind_st (if \<not> paired \<and> auto
               then bind_st (put_grant V I s h c) (\<lambda>s1 _.
                      (post V s1 c (PairingEstablished \<lparr>pg_host = h, pg_client = c\<rparr>), Ok True))
               else (s, Ok paired))
        (\<lambda>s2 ok. if \<not> ok then (s2, Err (NotPaired c h)) else (s2, Ok ())))"

definition start_session ::
    "'r env \<Rightarrow> io \<Rightarrow> 'r signaling_state \<Rightarrow> peer_descriptor \<Rightarrow> start_session_request \<Rightarrow>
     'r signaling_state \<times> (sig_error, session_plan) result" where
  "start_session V I s0 client rq =
     (let s = prune_expired_sessions s0 (io_unix I 0); target = sr_target_host_id rq in
      case map_of (peers s) (peer_id client) of
        None \<Rightarrow> (s, Err (ClientNotConnected (peer_id client)))
      | Some c \<Rightarrow>
      bind_st (s, locate_host V s target (cp_tenant_id c)) (\<lambda>s (host, host_key).
      bind_st (authorize_session V s client host rq) (\<lambda>s (permissions, auto).
      bind_st (ensure_paired V I s target (peer_id client) auto) (\<lambda>s _.
      case negotiate_transport client host (sr_requested_transport rq) of
        None \<Rightarrow> (s, Err NoSharedTransport)
      | Some transport \<Rightarrow>
      (case negotiate_codec client host (sr_preferred_codec rq) of
        None \<Rightarrow> (s, Err NoSharedCodec)
      | Some codec \<Rightarrow>
      (case host_key of
        None \<Rightarrow> (s, Err (HostNotSigned target))
      | Some hk \<Rightarrow>
      (case cp_public_key c of
        None \<Rightarrow> (s, Err (ClientNotSigned (peer_id client)))
      | Some ck \<Rightarrow>
        let issued = io_unix I 1;
            expires = saturating_add issued SESSION_TOKEN_TTL_MILLIS;
            cred = credential_issue (ev_ext V) (server_secret s) (sr_session_id rq) hk ck issued expires
        in bind_st (send_to V s target (SessionRequested
              \<lparr>sq_session_id = sr_session_id rq, sq_client = client, sq_transport = transport,
               sq_codec = codec, sq_host_credential = cred, sq_client_credential = cred,
               sq_ice_servers = ice_servers s, sq_video = sr_video rq, sq_permissions = permissions,
               sq_sync_only = sr_sync_only rq\<rparr>)) (\<lambda>s _.
           let s1 = s\<lparr>sessions := AList.update (sr_session_id rq)
                 \<lparr>as_host_peer_id = target, as_client_peer_id = peer_id client,
                  as_transport = transport, as_codec = codec, as_host_credential = cred,
                  as_client_credential = cred, as_expires = expires, as_permissions = permissions\<rparr>
                 (sessions s)\<rparr>;
               s2 = (case cluster s1 of
                  None \<Rightarrow> s1
                | Some bus \<Rightarrow> s1\<lparr>cluster := Some (fst (bus_put_session (ev_redis V) bus (sr_session_id rq)
                     \<lparr>rss_host = target, rss_client = peer_id client, rss_expires = expires\<rparr>))\<rparr>)
           in (s2, Ok \<lparr>sp_session_id = sr_session_id rq, sp_target_host_id = target,
                 sp_transport = transport, sp_codec = codec, sp_client_credential = cred,
                 sp_ice_servers = ice_servers s, sp_permissions = permissions,
                 sp_sync_only = sr_sync_only rq\<rparr>)))))))))"

subsection \<open>Ending and relaying\<close>

definition kick_session ::
    "'r env \<Rightarrow> 'r signaling_state \<Rightarrow> peer_descriptor \<Rightarrow> uuid \<Rightarrow> string \<Rightarrow>
     'r signaling_state \<times> (sig_error, unit) result" where
  "kick_session V s actor sid reason =
     (case map_of (sessions s) sid of
        None \<Rightarrow> (s, Err (SessionNotFound sid))
      | Some a \<Rightarrow>
         let s1 = s\<lparr>sessions := AList.delete sid (sessions s)\<rparr> in
         if peer_id actor \<noteq> as_host_peer_id a \<and> peer_id actor \<noteq> as_client_peer_id a
         then (s1\<lparr>sessions := AList.update sid a (sessions s1)\<rparr>, Err (NotParticipant sid))
         else let m = SessionKicked sid (if reason = [] then ''kicked'' else reason)
         in (post V (post V s1 (as_host_peer_id a) m) (as_client_peer_id a) m, Ok ()))"

definition create_share_link ::
    "'r env \<Rightarrow> io \<Rightarrow> 'r signaling_state \<Rightarrow> peer_descriptor \<Rightarrow> u64 \<Rightarrow> session_permissions \<Rightarrow>
     'r signaling_state \<times> (sig_error, string \<times> u64 \<times> string) result" where
  "create_share_link V I s actor ttl_secs permissions =
     (let owner = (if role actor = Host then Some (peer_id actor, device_name actor)
            else map_option (\<lambda>(_, p). (peer_id (cp_descriptor p), device_name (cp_descriptor p)))
              (find (\<lambda>(_, p). role (cp_descriptor p) = Host \<and>
                 device_id (cp_descriptor p) = device_id actor) (peers s)))
      in case owner of
        None \<Rightarrow> (s, Err ShareForbidden)
      | Some (host, label) \<Rightarrow>
         let ttl = (if ttl_secs = 0 then 900 else min ttl_secs 86400);
             expires = saturating_add (io_unix I 0) (saturating_mul ttl 1000);
             code = hex_encode (ev_ext V) (io_random I)
         in (s\<lparr>share_links := AList.update code
                 \<lparr>sl_host_peer_id = host, sl_host_label = label, sl_permissions = permissions,
                  sl_expires_unix_ms = expires\<rparr> (share_links s)\<rparr>,
             Ok (code, expires, ''qubox://pair?code='' @ code)))"

definition redeem_share_link ::
    "'r env \<Rightarrow> io \<Rightarrow> 'r signaling_state \<Rightarrow> peer_descriptor \<Rightarrow> string \<Rightarrow> string \<Rightarrow>
     'r signaling_state \<times> (sig_error, unit) result" where
  "redeem_share_link V I s client code label =
     (case map_of (share_links s) code of
        None \<Rightarrow> (s, Err ShareUnknown)
      | Some e \<Rightarrow>
         if sl_expires_unix_ms e \<le> io_unix I 0
         then (s\<lparr>share_links := AList.delete code (share_links s)\<rparr>, Err ShareExpired)
         else let g = \<lparr>pg_host = sl_host_peer_id e, pg_client = peer_id client\<rparr> in
           (case add_pairing (io_write I) (pstore s) g of
              (st, Inl err) \<Rightarrow> (s\<lparr>pstore := st\<rparr>, Err (PersistError err))
            | (st, Inr _) \<Rightarrow>
               let s1 = post V (s\<lparr>pstore := st\<rparr>) (sl_host_peer_id e) (PairingEstablished g)
               in send_to V s1 (peer_id client) (PairingEstablished g)))"

definition relay_signal_op ::
    "'r env \<Rightarrow> io \<Rightarrow> 'r signaling_state \<Rightarrow> peer_descriptor \<Rightarrow> relay_signal \<Rightarrow>
     'r signaling_state \<times> (sig_error, unit) result" where
  "relay_signal_op V I s0 peer sg =
     (if rs_from sg \<noteq> peer_id peer then (s0, Err RelaySourceMismatch)
      else let s = prune_expired_sessions s0 (io_unix I 0); sid = rs_session_id sg in
      case (case map_of (sessions s) sid of
              Some a \<Rightarrow> Ok (as_host_peer_id a, as_client_peer_id a, as_expires a)
            | None \<Rightarrow>
               (case cluster s of
                  None \<Rightarrow> Err (SessionInactive sid)
                | Some bus \<Rightarrow>
                   (case bus_get_session (ev_redis V) bus sid of
                      Inl e \<Rightarrow> Err (ClusterError e)
                    | Inr None \<Rightarrow> Err (SessionInactive sid)
                    | Inr (Some r) \<Rightarrow> Ok (rss_host r, rss_client r, rss_expires r)))) of
        Inl e \<Rightarrow> (s, Err e)
      | Inr (h, c, expires) \<Rightarrow>
         if expires \<le> io_unix I 1
         then (s\<lparr>sessions := AList.delete sid (sessions s)\<rparr>, Err (SessionExpired sid))
         else if \<not> (peer_id peer = c \<and> rs_to sg = h) \<and> \<not> (peer_id peer = h \<and> rs_to sg = c)
         then (s, Err (RelayNotParticipant (peer_id peer) sid))
         else if \<not> is_paired_cluster V s h c
         then (s, Err (RelayNotPaired (peer_id peer) (rs_to sg)))
         else send_to V s (rs_to sg) (Signal sg))"

subsection \<open>Cloud-signed bundles\<close>

text \<open>
  The common prefix of the three bundle checks: verify the envelope through the JWKS client,
  look the key up once more and build the verifying key. Fetches and monotonic clock readings
  are numbered from \<open>k\<close>.
\<close>

definition resolve_bundle_key ::
    "'r env \<Rightarrow> io \<Rightarrow> nat \<Rightarrow> 'r signaling_state \<Rightarrow> signed_bundle \<Rightarrow>
     'r signaling_state \<times> (bundle_verify_error, bytes) result" where
  "resolve_bundle_key V I k s b =
     (case jwks s of
        None \<Rightarrow> (s, Err JwksNotConfigured)
      | Some c \<Rightarrow>
         (case verify_bundle (ev_ext V) (ev_jwks V) c b (io_fetch I (2 * k)) (io_mono I (4 * k))
                (io_mono I (4 * k + 1)) of
            (c1, Inl e) \<Rightarrow> (s\<lparr>jwks := Some c1\<rparr>, Err (BvJwks e))
          | (c1, Inr _) \<Rightarrow>
             (case jwks_lookup (ev_jwks V) c1 (sb_kid b) (io_fetch I (2 * k + 1))
                    (io_mono I (4 * k + 2)) (io_mono I (4 * k + 3)) of
                (c2, Inl e) \<Rightarrow> (s\<lparr>jwks := Some c2\<rparr>, Err (BvJwks e))
              | (c2, Inr pk) \<Rightarrow>
                 (s\<lparr>jwks := Some c2\<rparr>, if ed_key_ok (ev_ext V) pk then Ok pk else Err BvBadKey))))"

definition verify_viewer_to_host ::
    "'r env \<Rightarrow> io \<Rightarrow> 'r signaling_state \<Rightarrow> signed_bundle \<Rightarrow> uuid \<Rightarrow> u64 \<Rightarrow>
     'r signaling_state \<times> (bundle_verify_error, viewer_to_host) result" where
  "verify_viewer_to_host V I s b host_device now =
     bind_st (resolve_bundle_key V I 0 s b) (\<lambda>s pk.
       case bundle_decode (ev_ext V) (viewer_of_json (ev_ext V)) b pk of
         Inl e \<Rightarrow> (s, Err (BvDecode e))
       | Inr payload \<Rightarrow>
          if vh_aud payload \<noteq> uuid_text (ev_ext V) host_device
          then (s, Err (AudienceMismatch (uuid_text (ev_ext V) host_device) (vh_aud payload)))
          else if vh_exp payload \<le> now then (s, Err (Expired (vh_exp payload) now))
          else (case check_and_mark (jtis s) (vh_jti payload) (vh_exp payload) now of
             (j, Inl e) \<Rightarrow> (s\<lparr>jtis := j\<rparr>, Err (BvJti e))
           | (j, Inr _) \<Rightarrow> (s\<lparr>jtis := j\<rparr>, Ok payload)))"

definition verify_ice_allowlist ::
    "'r env \<Rightarrow> io \<Rightarrow> nat \<Rightarrow> 'r signaling_state \<Rightarrow> signed_bundle \<Rightarrow> u64 \<Rightarrow>
     'r signaling_state \<times> (bundle_verify_error, ice_allowlist) result" where
  "verify_ice_allowlist V I k s b now =
     bind_st (resolve_bundle_key V I k s b) (\<lambda>s pk.
       case bundle_decode (ev_ext V) (allowlist_of_json (ev_ext V)) b pk of
         Inl e \<Rightarrow> (s, Err (BvDecode e))
       | Inr payload \<Rightarrow>
          if ia_exp payload \<le> now then (s, Err (Expired (ia_exp payload) now))
          else (s, Ok payload))"

definition apply_signed_kill ::
    "'r env \<Rightarrow> io \<Rightarrow> 'r signaling_state \<Rightarrow> signed_bundle \<Rightarrow> u64 \<Rightarrow>
     'r signaling_state \<times> (bundle_verify_error, signed_kill) result" where
  "apply_signed_kill V I s b now =
     bind_st (resolve_bundle_key V I 0 s b) (\<lambda>s pk.
       case bundle_decode (ev_ext V) (kill_of_json (ev_ext V)) b pk of
         Inl e \<Rightarrow> (s, Err (BvDecode e))
       | Inr payload \<Rightarrow>
          if sk_exp payload \<le> now then (s, Err (Expired (sk_exp payload) now))
          else (case uuid_parse (ev_ext V) (sk_sid payload) of
             None \<Rightarrow> (s, Err (MalformedSid (sk_sid payload)))
           | Some sid \<Rightarrow>
              let s1 = s\<lparr>sessions := AList.delete sid (sessions s)\<rparr>;
                  m = SessionKicked sid (''signed_kill: '' @
                        (if sk_reason payload = [] then ''killed'' else sk_reason payload));
                  s2 = (case map_of (sessions s) sid of
                     None \<Rightarrow> s1
                   | Some a \<Rightarrow> post V (post V s1 (as_host_peer_id a) m) (as_client_peer_id a) m)
              in (s2\<lparr>jtis := fst (denylist (jtis s2) (sk_jti payload) (sk_exp payload))\<rparr>, Ok payload)))"

subsection \<open>Bearer checks of the TURN relay endpoints\<close>

datatype http_status = Unauthorized | Forbidden | NotFound

text \<open>\<open>header\<close> is the \<open>Authorization\<close> header as text, if present and readable.\<close>

definition bearer_token :: "string option \<Rightarrow> string option" where
  "bearer_token header =
     (case header of
        None \<Rightarrow> None
      | Some v \<Rightarrow>
         if starts_with v ''Bearer '' \<and> drop 7 v \<noteq> [] then Some (drop 7 v) else None)"

definition cred_has_nonzero_pubkeys :: "session_credential \<Rightarrow> bool" where
  "cred_has_nonzero_pubkeys c \<longleftrightarrow> cred_host_pubkey c \<noteq> zero_key \<or> cred_client_pubkey c \<noteq> zero_key"

definition validate_relay_publish_bearer ::
    "'r env \<Rightarrow> 'r signaling_state \<Rightarrow> string option \<Rightarrow> uuid \<Rightarrow> u64 \<Rightarrow> (http_status, unit) result" where
  "validate_relay_publish_bearer V s header expected now =
     (let legacy = (\<lambda>token. case uuid_parse (ev_ext V) token of
            None \<Rightarrow> Err Unauthorized
          | Some pid \<Rightarrow> if pid \<noteq> expected then Err Forbidden else Ok ())
      in case bearer_token header of
        None \<Rightarrow> Err Unauthorized
      | Some token \<Rightarrow>
         (case credential_of_token (ev_ext V) token of
            None \<Rightarrow> legacy token
          | Some cred \<Rightarrow>
             if credential_verify (ev_ext V) cred (server_secret s) now \<and> cred_has_nonzero_pubkeys cred
             then (case peer_pubkey s expected of
                 Some pk \<Rightarrow> if pk = cred_host_pubkey cred \<or> pk = cred_client_pubkey cred then Ok ()
                            else Err Forbidden
               | None \<Rightarrow> Err Forbidden)
             else legacy token))"

definition validate_get_relay_bearer ::
    "'r env \<Rightarrow> 'r signaling_state \<Rightarrow> string option \<Rightarrow> uuid \<Rightarrow> u64 \<Rightarrow> (http_status, unit) result" where
  "validate_get_relay_bearer V s header target now =
     (case bearer_token header of
        None \<Rightarrow> Err Unauthorized
      | Some token \<Rightarrow>
         (case credential_of_token (ev_ext V) token of
            None \<Rightarrow> Err Unauthorized
          | Some cred \<Rightarrow>
             if \<not> credential_verify (ev_ext V) cred (server_secret s) now \<or> \<not> cred_has_nonzero_pubkeys cred
             then Err Forbidden
             else (case peer_pubkey s target of
                None \<Rightarrow> Err NotFound
              | Some pk \<Rightarrow>
                 if pk \<noteq> cred_host_pubkey cred \<and> pk \<noteq> cred_client_pubkey cred then Err Forbidden
                 else Ok ())))"

definition publish_relay_address_handler ::
    "'r env \<Rightarrow> io \<Rightarrow> 'r signaling_state \<Rightarrow> string option \<Rightarrow> uuid \<Rightarrow> string \<Rightarrow>
     'r signaling_state \<times> (http_status, unit) result" where
  "publish_relay_address_handler V I s header pid addr =
     (case validate_relay_publish_bearer V s header pid (io_unix I 0) of
        Inl e \<Rightarrow> (s, Err e)
      | Inr _ \<Rightarrow> (set_turn_relay s pid addr (io_unix I 1), Ok ()))"

definition get_relay_address_handler ::
    "'r env \<Rightarrow> io \<Rightarrow> 'r signaling_state \<Rightarrow> string option \<Rightarrow> uuid \<Rightarrow> (http_status, string) result" where
  "get_relay_address_handler V I s header pid =
     (case validate_get_relay_bearer V s header pid (io_unix I 0) of
        Inl e \<Rightarrow> Err e
      | Inr _ \<Rightarrow> (case get_turn_relay s pid of None \<Rightarrow> Err NotFound | Some a \<Rightarrow> Ok a))"

subsection \<open>The status endpoint\<close>

record status_details =
  sd_ice_servers :: nat
  sd_allow_unsigned_hello :: bool
  sd_peers :: nat
  sd_hosts :: nat
  sd_clients :: nat
  sd_signed_peers :: nat
  sd_active_sessions :: nat
  sd_share_links :: nat

record status_report =
  sr_enrollment_managed :: bool
  sr_cluster :: bool
  sr_ts_unix_ms :: u64
  sr_details :: "status_details option"

text \<open>\<open>admin\<close> is the value of \<open>QUBOX_ADMIN_TOKEN\<close>, \<open>header\<close> the readable \<open>Authorization\<close> header.\<close>

definition status_handler :: "io \<Rightarrow> 'r signaling_state \<Rightarrow> string option \<Rightarrow> string option \<Rightarrow> status_report" where
  "status_handler I s admin header =
     (let is_admin = (case (admin, header) of
            (Some token, Some auth) \<Rightarrow>
              (let check = (if starts_with auth ''Bearer '' then drop 7 auth else auth)
               in check \<noteq> [] \<and> check = token)
          | _ \<Rightarrow> False);
          count = (\<lambda>P. length (filter (\<lambda>(_, p). P p) (peers s)))
      in \<lparr>sr_enrollment_managed = (enrollment s = EnrollManaged), sr_cluster = (cluster s \<noteq> None),
          sr_ts_unix_ms = io_unix I 0,
          sr_details = (if is_admin
            then Some \<lparr>sd_ice_servers = length (ice_servers s), sd_allow_unsigned_hello = allow_unsigned_hello s,
              sd_peers = length (peers s), sd_hosts = count (\<lambda>p. role (cp_descriptor p) = Host),
              sd_clients = count (\<lambda>p. role (cp_descriptor p) = Client),
              sd_signed_peers = count (\<lambda>p. cp_public_key p \<noteq> None),
              sd_active_sessions = length (sessions s), sd_share_links = length (share_links s)\<rparr>
            else None)\<rparr>)"

end
