(* ===== verification/Signaling_Socket.thy ===== *)
theory Signaling_Socket
  imports Signaling_Ops
begin

text \<open>
  The WebSocket connection of the relay (\<open>handle_socket\<close>). A connection owns one outbound
  channel and, after the handshake, one peer. \<open>handle_frame\<close> is the body of the read loop, with
  one definition per arm of the message match; it yields \<open>Next\<close> (next iteration), \<open>Break\<close> (leave
  the loop and clean up) or \<open>Return\<close> (leave the function at once). \<open>handle_socket\<close> runs a whole
  connection; \<open>sys_step\<close> interleaves the frames of many connections and the HTTP endpoints.
\<close>

subsection \<open>Frames and control flow\<close>

text \<open>A text frame is one that decodes to a message, or one that does not, with the decoder's
  complaint.\<close>

datatype ws_frame =
    FrText client_message
  | FrUndecodable string
  | FrBinary
  | FrPing
  | FrPong
  | FrClose
  | FrReadError

datatype flow = Next | Break | Return

type_synonym 'r outcome = "'r signaling_state \<times> peer_descriptor option \<times> flow"

abbreviation err_text :: "string \<Rightarrow> string \<Rightarrow> smsg" where
  "err_text code txt \<equiv> Error code (MessageText txt)"

subsection \<open>The handshake\<close>

definition on_registered ::
    "'r env \<Rightarrow> 'r signaling_state \<Rightarrow> nat \<Rightarrow> peer_descriptor \<Rightarrow> bytes option \<Rightarrow> uuid \<Rightarrow> uuid \<Rightarrow> string \<Rightarrow>
     'r outcome" where
  "on_registered V s ch d pk tenant account greeting =
     (case register V s d pk tenant account ch of
        (s1, Inr _) \<Rightarrow>
          (broadcast_presence V
             (reply s1 ch (Welcome \<lparr>wl_self_id = peer_id d, wl_message = greeting\<rparr>)) d tenant True,
           Some d, Next)
      | (s1, Inl e) \<Rightarrow> (reply s1 ch (Error ''registration_failed'' e), None, Break))"

definition handle_hello ::
    "'r env \<Rightarrow> 'r signaling_state \<Rightarrow> nat \<Rightarrow> peer_descriptor \<Rightarrow> 'r outcome" where
  "handle_hello V s ch d =
     (if \<not> allow_unsigned_hello s then
        (reply s ch (err_text ''signed_hello_required''
           ''server requires a SignedHello handshake (set QUBOX_REQUIRE_SIGNED_HELLO=0 to allow legacy peers)''),
         None, Break)
      else if enrollment s = EnrollManaged then
        (reply s ch (err_text ''enrollment_required''
           ''managed signaling requires SignedHello from an enrolled device''),
         None, Break)
      else on_registered V s ch d None nil_uuid nil_uuid ''signaling connected (unsigned)'')"

definition handle_signed_hello ::
    "'r env \<Rightarrow> 'r signaling_state \<Rightarrow> nat \<Rightarrow> signed_hello \<Rightarrow> 'r outcome" where
  "handle_signed_hello V s ch h =
     (let d = sh_descriptor h in
      if \<not> hello_verify (ev_ext V) h then
        (reply s ch (err_text ''signed_hello_invalid''
           ''SignedHello signature did not verify against the embedded public key''), None, Break)
      else
        let admit = (\<lambda>(tenant, account).
              on_registered V s ch d (Some (sh_public_key h)) tenant account
                (if tenant = nil_uuid then ''signaling connected''
                 else ''signaling connected (tenant '' @ uuid_text (ev_ext V) tenant @ '')''))
        in case resolve_enrollment_full V s (device_id d) (sh_public_key h) of
             Inr ids \<Rightarrow> admit ids
           | Inl e \<Rightarrow>
               if role d = Client then admit (nil_uuid, nil_uuid)
               else (reply s ch (Error ''not_enrolled'' e), None, Break))"

subsection \<open>Messages of a registered peer\<close>

definition handle_list_hosts ::
    "'r env \<Rightarrow> 'r signaling_state \<Rightarrow> nat \<Rightarrow> peer_descriptor \<Rightarrow> 'r signaling_state" where
  "handle_list_hosts V s ch peer =
     (let tenant = (case peer_tenant s (peer_id peer) of None \<Rightarrow> nil_uuid | Some t \<Rightarrow> t);
          (s1, hosts) = list_hosts V s tenant
      in reply s1 ch (Hosts hosts))"

definition handle_request_pairing ::
    "'r env \<Rightarrow> 'r signaling_state \<Rightarrow> nat \<Rightarrow> peer_descriptor \<Rightarrow> pairing_request \<Rightarrow> 'r signaling_state" where
  "handle_request_pairing V s ch peer rq =
     (case request_pairing V s peer rq of
        (s1, Inr _) \<Rightarrow> s1
      | (s1, Inl e) \<Rightarrow> reply s1 ch (Error ''pairing_failed'' e))"

definition handle_pairing_decision ::
    "'r env \<Rightarrow> io \<Rightarrow> 'r signaling_state \<Rightarrow> nat \<Rightarrow> peer_descriptor \<Rightarrow> pairing_decision \<Rightarrow>
     'r signaling_state" where
  "handle_pairing_decision V I s ch peer d =
     (case decide_pairing V I s peer d of
        (s1, Inr (Some g)) \<Rightarrow> reply s1 ch (PairingEstablished g)
      | (s1, Inr None) \<Rightarrow> s1
      | (s1, Inl e) \<Rightarrow> reply s1 ch (Error ''pairing_decision_failed'' e))"

definition handle_heartbeat_msg ::
    "'r env \<Rightarrow> 'r signaling_state \<Rightarrow> nat \<Rightarrow> peer_descriptor \<Rightarrow> 'r signaling_state" where
  "handle_heartbeat_msg V s ch peer = reply (handle_heartbeat V s (peer_id peer)) ch HeartbeatAck"

definition handle_start_session ::
    "'r env \<Rightarrow> io \<Rightarrow> 'r signaling_state \<Rightarrow> nat \<Rightarrow> peer_descriptor \<Rightarrow> start_session_request \<Rightarrow>
     'r signaling_state" where
  "handle_start_session V I s ch peer rq =
     (case start_session V I s peer rq of
        (s1, Inr plan) \<Rightarrow> reply s1 ch (SessionPlanned plan)
      | (s1, Inl e) \<Rightarrow> reply s1 ch (Error ''session_rejected'' e))"

text \<open>The bundle summary the relay passes on after verification.\<close>

definition bundle_info :: "start_session_request \<Rightarrow> viewer_to_host \<Rightarrow> session_bundle_info" where
  "bundle_info rq v =
     \<lparr>bi_session_id = sr_session_id rq, bi_jti = vh_jti v, bi_viewer_dtls_fp = vh_viewer_dtls_fp v,
      bi_exp_unix_ms = vh_exp v, bi_caps = vh_caps v, bi_sub = vh_sub v, bi_pin_proof = None,
      bi_selected_display_id = vh_selected_display_id v\<rparr>"

definition start_verified_session ::
    "'r env \<Rightarrow> io \<Rightarrow> 'r signaling_state \<Rightarrow> nat \<Rightarrow> peer_descriptor \<Rightarrow> start_session_request \<Rightarrow>
     viewer_to_host \<Rightarrow> 'r signaling_state" where
  "start_verified_session V I s ch peer rq viewer =
     (let info = bundle_info rq viewer in
      case start_session V I s peer rq of
        (s1, Inr plan) \<Rightarrow>
          let s2 = reply s1 ch (SessionBundleAccepted info);
              s3 = (case find_host_peer_for_device s2 (sr_target_host_id rq) of
                      None \<Rightarrow> s2
                    | Some host \<Rightarrow> post V s2 host (SessionBundleAccepted info))
          in reply s3 ch (SessionPlanned plan)
      | (s1, Inl e) \<Rightarrow> reply s1 ch (Error ''session_rejected'' e))"

text \<open>The clock reading \<open>now\<close> is \<open>io_unix I 2\<close>; \<open>start_session\<close> reads it as 0 and 1.\<close>

definition handle_start_with_bundle ::
    "'r env \<Rightarrow> io \<Rightarrow> 'r signaling_state \<Rightarrow> nat \<Rightarrow> peer_descriptor \<Rightarrow> start_session_bundle_request \<Rightarrow>
     'r signaling_state \<times> flow" where
  "handle_start_with_bundle V I s ch peer bq =
     (let now = io_unix I 2; rq = bq_request bq in
      case verify_viewer_to_host V I s (bq_viewer_bundle bq) (sr_target_host_id rq) now of
        (s1, Inl e) \<Rightarrow> (reply s1 ch (Error ''bundle_rejected'' (BundleError e)), Return)
      | (s1, Inr viewer) \<Rightarrow>
         (case bq_ice_allowlist bq of
            None \<Rightarrow> (start_verified_session V I s1 ch peer rq viewer, Next)
          | Some allow_env \<Rightarrow>
             (case verify_ice_allowlist V I 1 s1 allow_env now of
                (s2, Inl e) \<Rightarrow> (reply s2 ch (Error ''ice_allowlist_rejected'' (BundleError e)), Return)
              | (s2, Inr _) \<Rightarrow> (start_verified_session V I s2 ch peer rq viewer, Next))))"

definition handle_relay_signal ::
    "'r env \<Rightarrow> io \<Rightarrow> 'r signaling_state \<Rightarrow> nat \<Rightarrow> peer_descriptor \<Rightarrow> relay_signal \<Rightarrow> 'r signaling_state" where
  "handle_relay_signal V I s ch peer sg =
     (case relay_signal_op V I s peer sg of
        (s1, Inr _) \<Rightarrow> s1
      | (s1, Inl e) \<Rightarrow> reply s1 ch (Error ''relay_failed'' e))"

definition handle_revoke ::
    "'r env \<Rightarrow> io \<Rightarrow> 'r signaling_state \<Rightarrow> peer_descriptor \<Rightarrow> uuid \<Rightarrow> uuid \<Rightarrow> 'r signaling_state" where
  "handle_revoke V I s peer h c =
     (case revoke_pairing V I s peer h c of
        (s1, Inr _) \<Rightarrow> s1
      | (s1, Inl e) \<Rightarrow> post V s1 (peer_id peer) (Error ''revoke_failed'' e))"

definition handle_kick ::
    "'r env \<Rightarrow> 'r signaling_state \<Rightarrow> peer_descriptor \<Rightarrow> uuid \<Rightarrow> string \<Rightarrow> 'r signaling_state" where
  "handle_kick V s peer sid reason =
     (case kick_session V s peer sid reason of
        (s1, Inr _) \<Rightarrow> s1
      | (s1, Inl e) \<Rightarrow> post V s1 (peer_id peer) (Error ''kick_failed'' e))"

definition handle_signed_kill ::
    "'r env \<Rightarrow> io \<Rightarrow> 'r signaling_state \<Rightarrow> peer_descriptor \<Rightarrow> signed_bundle \<Rightarrow> 'r signaling_state" where
  "handle_signed_kill V I s peer envelope =
     (case apply_signed_kill V I s envelope (io_unix I 2) of
        (s1, Inr kill) \<Rightarrow>
          let s2 = (case uuid_parse (ev_ext V) (sk_aud kill) of
                 None \<Rightarrow> s1
               | Some dev \<Rightarrow>
                  (case find_host_peer_for_device s1 dev of
                     None \<Rightarrow> s1
                   | Some host \<Rightarrow> post V s1 host
                       (SignedKillReceived \<lparr>ke_payload = kill, ke_envelope = envelope\<rparr>)))
          in post V s2 (peer_id peer)
               (err_text ''kill_applied'' (''session '' @ sk_sid kill @ '' killed''))
      | (s1, Inl e) \<Rightarrow> post V s1 (peer_id peer) (Error ''kill_rejected'' (BundleError e)))"

definition handle_create_share_link ::
    "'r env \<Rightarrow> io \<Rightarrow> 'r signaling_state \<Rightarrow> peer_descriptor \<Rightarrow> u64 \<Rightarrow> session_permissions \<Rightarrow>
     'r signaling_state" where
  "handle_create_share_link V I s peer secs perms =
     (case create_share_link V I s peer secs perms of
        (s1, Inr (code, expires, hint)) \<Rightarrow> post V s1 (peer_id peer) (ShareLinkCreated code expires hint)
      | (s1, Inl e) \<Rightarrow> post V s1 (peer_id peer) (Error ''share_link_failed'' e))"

definition handle_redeem_share_link ::
    "'r env \<Rightarrow> io \<Rightarrow> 'r signaling_state \<Rightarrow> peer_descriptor \<Rightarrow> string \<Rightarrow> string \<Rightarrow> 'r signaling_state" where
  "handle_redeem_share_link V I s peer code label =
     (case redeem_share_link V I s peer code label of
        (s1, Inr _) \<Rightarrow> s1
      | (s1, Inl e) \<Rightarrow> post V s1 (peer_id peer) (Error ''redeem_failed'' e))"

subsection \<open>The read loop\<close>

definition handle_registered ::
    "'r env \<Rightarrow> io \<Rightarrow> 'r signaling_state \<Rightarrow> nat \<Rightarrow> peer_descriptor \<Rightarrow> client_message \<Rightarrow>
     'r signaling_state \<times> flow" where
  "handle_registered V I s ch peer m =
     (case m of
        Hello _ \<Rightarrow> (reply s ch (err_text ''duplicate_hello'' ''peer is already registered''), Next)
      | SignedHello _ \<Rightarrow> (reply s ch (err_text ''duplicate_hello'' ''peer is already registered''), Next)
      | ListHosts \<Rightarrow> (handle_list_hosts V s ch peer, Next)
      | RequestPairing rq \<Rightarrow> (handle_request_pairing V s ch peer rq, Next)
      | PairingDecision d \<Rightarrow> (handle_pairing_decision V I s ch peer d, Next)
      | Heartbeat \<Rightarrow> (handle_heartbeat_msg V s ch peer, Next)
      | StartSession rq \<Rightarrow> (handle_start_session V I s ch peer rq, Next)
      | StartSessionWithBundle bq \<Rightarrow> handle_start_with_bundle V I s ch peer bq
      | RelaySignal sg \<Rightarrow> (handle_relay_signal V I s ch peer sg, Next)
      | RevokePairing h c \<Rightarrow> (handle_revoke V I s peer h c, Next)
      | KickSession sid reason \<Rightarrow> (handle_kick V s peer sid reason, Next)
      | SignedKill b \<Rightarrow> (handle_signed_kill V I s peer b, Next)
      | CreateShareLink secs perms \<Rightarrow> (handle_create_share_link V I s peer secs perms, Next)
      | RedeemShareLink code label \<Rightarrow> (handle_redeem_share_link V I s peer code label, Next)
      | OperatorDecision _ _ \<Rightarrow> (s, Next))"

definition handle_message ::
    "'r env \<Rightarrow> io \<Rightarrow> 'r signaling_state \<Rightarrow> nat \<Rightarrow> peer_descriptor option \<Rightarrow> client_message \<Rightarrow> 'r outcome" where
  "handle_message V I s ch reg m =
     (case reg of
        None \<Rightarrow>
          (case m of
             Hello d \<Rightarrow> handle_hello V s ch d
           | SignedHello h \<Rightarrow> handle_signed_hello V s ch h
           | _ \<Rightarrow> (reply s ch (err_text ''handshake_required''
                     ''the first message must be hello or signed_hello''), None, Break))
      | Some peer \<Rightarrow> (case handle_registered V I s ch peer m of (s1, fl) \<Rightarrow> (s1, Some peer, fl)))"

definition handle_frame ::
    "'r env \<Rightarrow> io \<Rightarrow> 'r signaling_state \<Rightarrow> nat \<Rightarrow> peer_descriptor option \<Rightarrow> ws_frame \<Rightarrow> 'r outcome" where
  "handle_frame V I s ch reg fr =
     (case fr of
        FrText m \<Rightarrow> handle_message V I s ch reg m
      | FrUndecodable e \<Rightarrow>
          (reply s ch (err_text ''invalid_message'' (''failed to decode client message: '' @ e)), reg, Next)
      | FrBinary \<Rightarrow>
          (reply s ch (err_text ''unsupported_frame'' ''binary websocket frames are not supported''), reg, Next)
      | FrPing \<Rightarrow> (s, reg, Next)
      | FrPong \<Rightarrow> (s, reg, Next)
      | FrClose \<Rightarrow> (s, reg, Break)
      | FrReadError \<Rightarrow> (s, reg, Break))"

text \<open>After the loop: the peer and its sessions go, the others are told, the writer task is
  aborted (its channel closes).\<close>

definition socket_cleanup ::
    "'r env \<Rightarrow> 'r signaling_state \<Rightarrow> nat \<Rightarrow> peer_descriptor option \<Rightarrow> 'r signaling_state" where
  "socket_cleanup V s ch reg =
     (let s1 = (case reg of
           None \<Rightarrow> s
         | Some peer \<Rightarrow>
             let tenant = (case peer_tenant s (peer_id peer) of None \<Rightarrow> nil_uuid | Some t \<Rightarrow> t);
                 s1 = fst (unregister V s (peer_id peer));
                 s2 = remove_sessions_for s1 (peer_id peer)
             in broadcast_presence V s2 peer tenant False)
      in s1\<lparr>closed := ch # closed s1\<rparr>)"

fun socket_loop ::
    "'r env \<Rightarrow> 'r signaling_state \<Rightarrow> nat \<Rightarrow> peer_descriptor option \<Rightarrow> (ws_frame \<times> io) list \<Rightarrow>
     'r signaling_state" where
  "socket_loop V s ch reg [] = socket_cleanup V s ch reg"
| "socket_loop V s ch reg ((fr, I) # rest) =
     (case handle_frame V I s ch reg fr of
        (s1, reg1, Next) \<Rightarrow> socket_loop V s1 ch reg1 rest
      | (s1, reg1, Break) \<Rightarrow> socket_cleanup V s1 ch reg1
      | (s1, reg1, Return) \<Rightarrow> s1)"

definition handle_socket ::
    "'r env \<Rightarrow> 'r signaling_state \<Rightarrow> nat \<Rightarrow> (ws_frame \<times> io) list \<Rightarrow> 'r signaling_state" where
  "handle_socket V s ch frames = socket_loop V s ch None frames"

subsection \<open>The relay as a transition system\<close>

text \<open>The open connections: channel number and registered peer.\<close>

type_synonym 'r sys = "'r signaling_state \<times> (nat, peer_descriptor option) hmap"

definition conn_step ::
    "'r env \<Rightarrow> io \<Rightarrow> 'r sys \<Rightarrow> nat \<Rightarrow> peer_descriptor option \<Rightarrow> ws_frame \<Rightarrow> 'r sys" where
  "conn_step V I S ch reg fr =
     (case handle_frame V I (fst S) ch reg fr of
        (s1, reg1, Next) \<Rightarrow> (s1, AList.update ch reg1 (snd S))
      | (s1, reg1, Break) \<Rightarrow> (socket_cleanup V s1 ch reg1, AList.delete ch (snd S))
      | (s1, reg1, Return) \<Rightarrow> (s1, AList.delete ch (snd S)))"

text \<open>A new connection takes a channel number no connection, peer or closed channel uses.\<close>

definition fresh_channel :: "'r sys \<Rightarrow> nat \<Rightarrow> bool" where
  "fresh_channel S ch \<longleftrightarrow>
     map_of (snd S) ch = None \<and> ch \<notin> set (closed (fst S)) \<and>
     ch \<notin> cp_outbound ` snd ` set (peers (fst S))"

inductive sys_step :: "'r env \<Rightarrow> 'r sys \<Rightarrow> 'r sys \<Rightarrow> bool" for V :: "'r env" where
  connect: "fresh_channel (s, cs) ch \<Longrightarrow> sys_step V (s, cs) (s, AList.update ch None cs)"
| frame: "map_of cs ch = Some reg \<Longrightarrow> sys_step V (s, cs) (conn_step V I (s, cs) ch reg fr)"
| eof: "map_of cs ch = Some reg \<Longrightarrow>
     sys_step V (s, cs) (socket_cleanup V s ch reg, AList.delete ch cs)"
| writer_gone: "sys_step V (s, cs) (s\<lparr>closed := ch # closed s\<rparr>, cs)"
| publish_relay:
    "sys_step V (s, cs) (fst (publish_relay_address_handler V I s header pid addr), cs)"
| prune_relays: "sys_step V (s, cs) (prune_turn_relays s now age, cs)"
| from_cluster: "sys_step V (s, cs) (cluster_receive s pid m, cs)"

text \<open>A relay that has just been started, with no connection open.\<close>

definition sys_init :: "'r sys \<Rightarrow> bool" where
  "sys_init S \<longleftrightarrow>
     snd S = [] \<and> peers (fst S) = [] \<and> pending_pairings (fst S) = [] \<and> sessions (fst S) = [] \<and>
     turn_relays (fst S) = [] \<and> share_links (fst S) = [] \<and> jtis (fst S) = jti_new \<and>
     closed (fst S) = [] \<and> outbox (fst S) = []"

abbreviation sys_reach :: "'r env \<Rightarrow> 'r sys \<Rightarrow> bool" where
  "sys_reach V \<equiv> reach sys_init (sys_step V)"

end
