(* ===== verification/Signaling_Inv.thy ===== *)
theory Signaling_Inv
  imports Signaling_Socket
begin

text \<open>
  What the relay's operations keep. The locale \<open>relay_predicate\<close> is the contract of a state
  predicate that delivery, pairing, token and session bookkeeping respect; its lemmas lift the
  predicate through every operation of a registered peer. \<open>peer_predicate\<close> adds heartbeats. Both
  are interpreted on the well-formedness of the relay and on the link between open connections
  and registered peers, which gives the invariant of the transition system.
\<close>

subsection \<open>What the operations leave alone\<close>

lemma chan_send_frame [simp]:
  "peers (fst (chan_send s ch m)) = peers s"
  "sessions (fst (chan_send s ch m)) = sessions s"
  "pstore (fst (chan_send s ch m)) = pstore s"
  "cluster (fst (chan_send s ch m)) = cluster s"
  "jtis (fst (chan_send s ch m)) = jtis s"
  "server_secret (fst (chan_send s ch m)) = server_secret s"
  "share_links (fst (chan_send s ch m)) = share_links s"
  "closed (fst (chan_send s ch m)) = closed s"
  by (auto simp: chan_send_def)

lemma post_frame [simp]:
  "peers (post V s pid m) = peers s"
  "sessions (post V s pid m) = sessions s"
  "pstore (post V s pid m) = pstore s"
  "jtis (post V s pid m) = jtis s"
  "server_secret (post V s pid m) = server_secret s"
  "ice_servers (post V s pid m) = ice_servers s"
  "share_links (post V s pid m) = share_links s"
  "closed (post V s pid m) = closed s"
  by (auto simp: send_to_def chan_send_def split: option.splits prod.splits bool.splits sum.splits)

lemma send_to_secret: "send_to V s pid m = (s', r) \<Longrightarrow> server_secret s' = server_secret s"
  using post_frame(5)[of V s pid m] by simp

text \<open>A session as \<open>start_session\<close> records it: one credential, issued for this session under the
  server's secret, with the session's expiry.\<close>

definition session_issued :: "'r env \<Rightarrow> bytes \<Rightarrow> uuid \<Rightarrow> active_session \<Rightarrow> bool" where
  "session_issued V secret sid a \<longleftrightarrow>
     (\<exists>hk ck issued. as_client_credential a =
        credential_issue (ev_ext V) secret sid hk ck issued (as_expires a)) \<and>
     as_host_credential a = as_client_credential a"

subsection \<open>Predicates the operations keep\<close>

locale delivery_predicate =
  fixes P :: "'r signaling_state \<Rightarrow> bool"
  assumes P_outbox: "P s \<Longrightarrow> P (s\<lparr>outbox := x\<rparr>)"
    and P_cluster: "P s \<Longrightarrow> P (s\<lparr>cluster := c\<rparr>)"
begin

lemma keep_reply: "P s \<Longrightarrow> P (reply s ch m)"
  by (simp add: chan_send_def P_outbox)

lemma keep_post: "P s \<Longrightarrow> P (post V s pid m)"
  using keep_reply
  by (auto simp: send_to_def P_cluster split: option.splits prod.splits bool.splits sum.splits)
    (metis fst_conv)+

lemma keep_foldl:
  assumes "\<And>s x. P s \<Longrightarrow> P (f s x)" shows "P s \<Longrightarrow> P (foldl f s xs)"
  by (induction xs arbitrary: s) (auto intro: assms)

lemma keep_broadcast: "P s \<Longrightarrow> P (broadcast_presence V s d t b)"
  by (auto simp: broadcast_presence_def Let_def split: option.split
      intro!: P_cluster keep_foldl keep_reply)

lemma keep_cluster_receive: "P s \<Longrightarrow> P (cluster_receive s pid m)"
  by (auto simp: cluster_receive_def split: option.splits intro!: keep_foldl keep_reply)

lemma keep_list_hosts: "P s \<Longrightarrow> P (fst (list_hosts V s t))"
  by (auto simp: list_hosts_def Let_def P_cluster split: option.splits prod.splits sum.splits)

end

text \<open>Everything but the peers: the stores may change freely, sessions may shrink, be put back,
  and grow by an issued one.\<close>

locale relay_predicate = delivery_predicate P for P :: "'r signaling_state \<Rightarrow> bool" +
  fixes V :: "'r env"
  assumes P_pending: "P s \<Longrightarrow> wf_map x \<or> \<not> wf_map (pending_pairings s) \<Longrightarrow> P (s\<lparr>pending_pairings := x\<rparr>)"
    and P_pstore: "P s \<Longrightarrow> P (s\<lparr>pstore := st\<rparr>)"
    and P_jwks: "P s \<Longrightarrow> P (s\<lparr>jwks := j\<rparr>)"
    and P_jtis: "P s \<Longrightarrow> wf_jti t \<or> \<not> wf_jti (jtis s) \<Longrightarrow> P (s\<lparr>jtis := t\<rparr>)"
    and P_share: "P s \<Longrightarrow> wf_map l \<or> \<not> wf_map (share_links s) \<Longrightarrow> P (s\<lparr>share_links := l\<rparr>)"
    and P_retain: "P s \<Longrightarrow> P (s\<lparr>sessions := retain Q (sessions s)\<rparr>)"
    and P_delete: "P s \<Longrightarrow> P (s\<lparr>sessions := AList.delete k (sessions s)\<rparr>)"
    and P_session: "P s \<Longrightarrow> session_issued V (server_secret s) k a \<or> map_of (sessions s) k = Some a \<Longrightarrow>
          P (s\<lparr>sessions := AList.update k a (sessions s)\<rparr>)"
    and P_reinsert: "P s \<Longrightarrow> map_of (sessions s) k = Some a \<Longrightarrow>
          P (s\<lparr>sessions := AList.update k a (AList.delete k (sessions s))\<rparr>)"
begin

lemmas keep_delivery = keep_reply keep_post keep_broadcast P_cluster

lemma keep_pending:
  "P s \<Longrightarrow> P (s\<lparr>pending_pairings := AList.update k x (pending_pairings s)\<rparr>)"
  "P s \<Longrightarrow> P (s\<lparr>pending_pairings := AList.delete k (pending_pairings s)\<rparr>)"
  by (blast intro: P_pending wf_map_update wf_map_delete)+

lemma keep_share:
  "P s \<Longrightarrow> P (s\<lparr>share_links := AList.update c x (share_links s)\<rparr>)"
  "P s \<Longrightarrow> P (s\<lparr>share_links := AList.delete c (share_links s)\<rparr>)"
  by (blast intro: P_share wf_map_update wf_map_delete)+

lemma keep_prune: "P s \<Longrightarrow> P (prune_expired_sessions s now)"
  by (simp add: prune_expired_sessions_def P_retain)

lemma keep_remove_sessions: "P s \<Longrightarrow> P (remove_sessions_for s pid)"
  by (simp add: remove_sessions_for_def P_retain)

lemma keep_request_pairing: "P s \<Longrightarrow> P (fst (request_pairing V s client rq))"
  by (auto simp: request_pairing_def Let_def split: option.splits sum.splits
      intro!: keep_post keep_pending)

lemma keep_put_grant: "P s \<Longrightarrow> P (fst (put_grant V I s h c))"
  by (auto simp: put_grant_def Let_def split: option.splits sum.splits prod.splits
      intro!: P_pstore P_cluster)

lemma keep_gate_pairing: "P s \<Longrightarrow> P (fst (gate_pairing V s host pending rid))"
  by (auto simp: gate_pairing_def split: sum.splits session_authz_decision.splits intro!: keep_post)

lemma keep_decide_pairing: "P s \<Longrightarrow> P (fst (decide_pairing V I s host d))"
  by (auto simp: decide_pairing_def Let_def split: option.splits
      intro!: keep_post keep_pending bind_st_inv[where P = P] keep_gate_pairing keep_put_grant)

lemma keep_revoke_pairing: "P s \<Longrightarrow> P (fst (revoke_pairing V I s actor h c))"
  by (cases "remove_pairing (io_write I) (pstore s) h c"; cases "snd (remove_pairing (io_write I) (pstore s) h c)")
     (auto simp: revoke_pairing_def Let_def intro!: keep_post P_retain
        P_retain[OF P_pstore, of s _ st for st, simplified] P_pstore)

lemma keep_authorize_session: "P s \<Longrightarrow> P (fst (authorize_session V s client host rq))"
  by (auto simp: authorize_session_def split: sum.splits session_authz_decision.splits
      intro!: keep_post)

lemma keep_ensure_paired: "P s \<Longrightarrow> P (fst (ensure_paired V I s h c auto))"
  by (auto simp: ensure_paired_def Let_def intro!: bind_st_inv[where P = P] keep_put_grant keep_post)

lemma keep_kick_session: "P s \<Longrightarrow> P (fst (kick_session V s actor sid reason))"
  by (auto simp: kick_session_def Let_def split: option.splits
      intro!: keep_post P_delete P_reinsert)

lemma keep_create_share_link: "P s \<Longrightarrow> P (fst (create_share_link V I s actor secs perms))"
  by (auto simp: create_share_link_def Let_def split: option.splits intro!: keep_share)

lemma keep_redeem_share_link: "P s \<Longrightarrow> P (fst (redeem_share_link V I s client code label))"
  by (auto simp: redeem_share_link_def Let_def split: option.splits prod.splits sum.splits
      intro!: keep_share keep_post P_pstore)

lemma keep_start_session: "P s \<Longrightarrow> P (fst (start_session V I s client rq))"
proof -
  assume "P s"
  then have pruned: "P (prune_expired_sessions s (io_unix I 0))" by (rule keep_prune)
  have issued: "server_secret s' = secret \<Longrightarrow> session_issued V (server_secret s') sid
      \<lparr>as_host_peer_id = h, as_client_peer_id = c, as_transport = t, as_codec = co,
       as_host_credential = credential_issue (ev_ext V) secret sid hk ck i e,
       as_client_credential = credential_issue (ev_ext V) secret sid hk ck i e,
       as_expires = e, as_permissions = p\<rparr>" for secret s' sid h c t co hk ck i e p
    by (auto simp: session_issued_def)
  show ?thesis
    using pruned unfolding start_session_def Let_def
    by (auto split: option.split intro!: bind_st_inv[where P = P] keep_authorize_session
        keep_ensure_paired keep_post P_cluster P_session[OF _ disjI1] issued)
       (erule send_to_secret)+
qed

lemma keep_relay_signal: "P s \<Longrightarrow> P (fst (relay_signal_op V I s peer sg))"
  by (auto simp: relay_signal_op_def Let_def split: sum.splits option.splits prod.splits
      intro!: keep_post keep_prune P_delete)

lemma keep_resolve_bundle_key: "P s \<Longrightarrow> P (fst (resolve_bundle_key V I k s b))"
  by (auto simp: resolve_bundle_key_def split: option.splits prod.splits sum.splits intro!: P_jwks)

lemma keep_verify_viewer: "P s \<Longrightarrow> P (fst (verify_viewer_to_host V I s b h now))"
  unfolding verify_viewer_to_host_def
  by (auto split: sum.splits prod.splits intro!: bind_st_inv[where P = P] keep_resolve_bundle_key P_jtis)
     (metis fst_conv wf_jti_check_and_mark)+

lemma keep_verify_allowlist: "P s \<Longrightarrow> P (fst (verify_ice_allowlist V I k s b now))"
  unfolding verify_ice_allowlist_def
  by (auto split: sum.splits intro!: bind_st_inv[where P = P] keep_resolve_bundle_key)

lemma keep_apply_kill: "P s \<Longrightarrow> P (fst (apply_signed_kill V I s b now))"
  unfolding apply_signed_kill_def Let_def
  by (auto simp: wf_jti_denylist split: sum.splits option.splits
      intro!: bind_st_inv[where P = P] keep_resolve_bundle_key P_jtis keep_post P_delete)

end

locale peer_predicate = relay_predicate P V for P :: "'r signaling_state \<Rightarrow> bool" and V :: "'r env" +
  assumes P_heartbeat: "P s \<Longrightarrow> map_of (peers s) pid = Some p \<Longrightarrow>
    P (s\<lparr>peers := AList.update pid (p\<lparr>cp_heartbeat_count := n\<rparr>) (peers s)\<rparr>)"
begin

lemma keep_heartbeat: "P s \<Longrightarrow> P (handle_heartbeat V s pid)"
  by (auto simp: handle_heartbeat_def Let_def split: option.splits
      intro!: keep_broadcast P_heartbeat)

lemma keep_verified_session: "P s \<Longrightarrow> P (start_verified_session V I s ch peer rq viewer)"
  using keep_start_session[of s I peer rq]
  by (auto simp: start_verified_session_def Let_def split: prod.splits sum.splits option.splits
      intro!: keep_reply keep_post)

lemma keep_start_with_bundle: "P s \<Longrightarrow> P (fst (handle_start_with_bundle V I s ch peer bq))"
proof -
  assume "P s"
  let ?r = "verify_viewer_to_host V I s (bq_viewer_bundle bq) (sr_target_host_id (bq_request bq)) (io_unix I 2)"
  have v: "P (fst ?r)" using \<open>P s\<close> by (rule keep_verify_viewer)
  then have "P (fst (verify_ice_allowlist V I 1 (fst ?r) b (io_unix I 2)))" for b
    by (rule keep_verify_allowlist)
  with v show ?thesis
    by (cases ?r; cases "snd ?r")
       (auto simp: handle_start_with_bundle_def Let_def split: prod.splits sum.splits option.splits
         intro!: keep_reply keep_verified_session, (metis fst_conv keep_reply keep_verified_session)+)
qed

lemma keep_signed_kill: "P s \<Longrightarrow> P (handle_signed_kill V I s peer b)"
  using keep_apply_kill[of s I b "io_unix I 2"]
  by (auto simp: handle_signed_kill_def Let_def split: prod.splits sum.splits option.splits
      intro!: keep_post)

lemma keep_registered:
  assumes "P s" shows "P (fst (handle_registered V I s ch peer m))"
proof (cases m)
  case ListHosts
  then show ?thesis using keep_list_hosts[OF assms]
    by (auto simp: handle_registered_def handle_list_hosts_def Let_def split: prod.splits
        intro!: keep_reply) (metis fst_conv)
next
  case (RequestPairing rq)
  then show ?thesis using keep_request_pairing[OF assms, of peer rq]
    by (auto simp: handle_registered_def handle_request_pairing_def split: prod.splits sum.splits
        intro!: keep_reply)
next
  case (PairingDecision d)
  then show ?thesis using keep_decide_pairing[OF assms, of I peer d]
    by (auto simp: handle_registered_def handle_pairing_decision_def
        split: prod.splits sum.splits option.splits intro!: keep_reply)
next
  case (StartSession rq)
  then show ?thesis using keep_start_session[OF assms, of I peer rq]
    by (auto simp: handle_registered_def handle_start_session_def split: prod.splits sum.splits
        intro!: keep_reply)
next
  case (RelaySignal sg)
  then show ?thesis using keep_relay_signal[OF assms, of I peer sg]
    by (auto simp: handle_registered_def handle_relay_signal_def split: prod.splits sum.splits
        intro!: keep_reply)
next
  case (RevokePairing h c)
  then show ?thesis using keep_revoke_pairing[OF assms, of I peer h c]
    by (auto simp: handle_registered_def handle_revoke_def split: prod.splits sum.splits
        intro!: keep_post)
next
  case (KickSession sid reason)
  then show ?thesis using keep_kick_session[OF assms, of peer sid reason]
    by (auto simp: handle_registered_def handle_kick_def split: prod.splits sum.splits
        intro!: keep_post)
next
  case (CreateShareLink secs perms)
  then show ?thesis using keep_create_share_link[OF assms, of I peer secs perms]
    by (auto simp: handle_registered_def handle_create_share_link_def split: prod.splits sum.splits
        intro!: keep_post)
next
  case (RedeemShareLink code label)
  then show ?thesis using keep_redeem_share_link[OF assms, of I peer code label]
    by (auto simp: handle_registered_def handle_redeem_share_link_def split: prod.splits sum.splits
        intro!: keep_post)
qed (auto simp: handle_registered_def handle_heartbeat_msg_def assms
      intro!: keep_reply keep_heartbeat keep_start_with_bundle keep_signed_kill)

end

subsection \<open>The well-formed relay\<close>

text \<open>
  How a peer got in. Without a key it said an unsigned hello to a relay that allows it and has
  no enrollment policy. With a key, that key signed its descriptor, and a host under a managed
  policy is an enrolled, unrevoked device with the recorded tenant and account.
\<close>

definition peer_admitted :: "'r env \<Rightarrow> 'r signaling_state \<Rightarrow> connected_peer \<Rightarrow> bool" where
  "peer_admitted V s p \<longleftrightarrow>
     (case cp_public_key p of
        None \<Rightarrow> allow_unsigned_hello s \<and> enrollment s = EnrollOpen
      | Some pk \<Rightarrow>
          (\<exists>sig. hello_verify (ev_ext V)
             \<lparr>sh_descriptor = cp_descriptor p, sh_public_key = pk, sh_signature = sig\<rparr>) \<and>
          (enrollment s = EnrollManaged \<and> role (cp_descriptor p) = Host \<longrightarrow>
             (\<exists>info. ev_lookup V (device_id (cp_descriptor p)) pk = Ok (Some info) \<and>
                \<not> ed_revoked info \<and> cp_tenant_id p = ed_tenant_id info \<and>
                cp_account_id p = ed_account_id info)))"

definition relay_wf :: "'r env \<Rightarrow> 'r signaling_state \<Rightarrow> bool" where
  "relay_wf V s \<longleftrightarrow>
     wf_map (peers s) \<and> wf_map (pending_pairings s) \<and> wf_map (sessions s) \<and>
     wf_map (turn_relays s) \<and> wf_map (share_links s) \<and> wf_jti (jtis s) \<and>
     (\<forall>k p. map_of (peers s) k = Some p \<longrightarrow> peer_id (cp_descriptor p) = k \<and> peer_admitted V s p) \<and>
     (\<forall>k a. map_of (sessions s) k = Some a \<longrightarrow> session_issued V (server_secret s) k a)"

text \<open>Every open connection that finished its handshake is the peer under its id.\<close>

definition conns_linked :: "(nat, peer_descriptor option) hmap \<Rightarrow> 'r signaling_state \<Rightarrow> bool" where
  "conns_linked cs s \<longleftrightarrow>
     (\<forall>ch d. map_of cs ch = Some (Some d) \<longrightarrow>
        (\<exists>p. map_of (peers s) (peer_id d) = Some p \<and> cp_outbound p = ch \<and> cp_descriptor p = d))"

lemma peer_admitted_cong:
  assumes "enrollment s' = enrollment s" "allow_unsigned_hello s' = allow_unsigned_hello s"
    "cp_descriptor p' = cp_descriptor p" "cp_public_key p' = cp_public_key p"
    "cp_tenant_id p' = cp_tenant_id p" "cp_account_id p' = cp_account_id p"
  shows "peer_admitted V s' p' = peer_admitted V s p"
  using assms by (cases "cp_public_key p") (simp_all add: peer_admitted_def)

lemma peer_admitted_update [simp]:
  "peer_admitted V (s\<lparr>outbox := a\<rparr>) p = peer_admitted V s p"
  "peer_admitted V (s\<lparr>cluster := b\<rparr>) p = peer_admitted V s p"
  "peer_admitted V (s\<lparr>pending_pairings := c\<rparr>) p = peer_admitted V s p"
  "peer_admitted V (s\<lparr>pstore := d\<rparr>) p = peer_admitted V s p"
  "peer_admitted V (s\<lparr>jwks := e\<rparr>) p = peer_admitted V s p"
  "peer_admitted V (s\<lparr>jtis := f\<rparr>) p = peer_admitted V s p"
  "peer_admitted V (s\<lparr>share_links := g\<rparr>) p = peer_admitted V s p"
  "peer_admitted V (s\<lparr>sessions := h\<rparr>) p = peer_admitted V s p"
  "peer_admitted V (s\<lparr>peers := i\<rparr>) p = peer_admitted V s p"
  "peer_admitted V (s\<lparr>turn_relays := j\<rparr>) p = peer_admitted V s p"
  "peer_admitted V (s\<lparr>closed := k\<rparr>) p = peer_admitted V s p"
  by (rule peer_admitted_cong; simp)+

lemma peer_admitted_heartbeat [simp]:
  "peer_admitted V s (p\<lparr>cp_heartbeat_count := n\<rparr>) = peer_admitted V s p"
  by (rule peer_admitted_cong; simp)

interpretation wf: peer_predicate "relay_wf V" V for V
  by unfold_locales
    (auto simp: relay_wf_def map_of_retain split: if_splits option.splits)

interpretation linked: peer_predicate "conns_linked cs" V for cs V
  by unfold_locales (fastforce simp: conns_linked_def)+

subsection \<open>Handshake and teardown\<close>

lemma register_result:
  "register V s d pk tenant account ch = (s', r) \<Longrightarrow>
   (map_of (peers s) (peer_id d) \<noteq> None \<and> s' = s \<and> r = Err (AlreadyConnected (peer_id d))) \<or>
   (map_of (peers s) (peer_id d) = None \<and> r = Ok () \<and>
    (\<exists>c. s' = s\<lparr>peers := AList.update (peer_id d)
        \<lparr>cp_descriptor = d, cp_outbound = ch, cp_public_key = pk, cp_tenant_id = tenant,
         cp_account_id = account, cp_heartbeat_count = 0\<rparr> (peers s), cluster := c\<rparr>))"
  by (cases s; cases "cluster s"; cases "map_of (peers s) (peer_id d)")
     (auto simp: register_def Let_def)

lemma unregister_peers: "peers (fst (unregister V s pid)) = AList.delete pid (peers s)"
  by (auto simp: unregister_def Let_def delete_id map_of_eq_None_iff split: option.splits)

lemma wf_unregister: "relay_wf V s \<Longrightarrow> relay_wf V (fst (unregister V s pid))"
  by (auto simp: unregister_def Let_def relay_wf_def split: option.splits if_splits)

lemma wf_on_registered:
  assumes "relay_wf V s"
    and "peer_admitted V s \<lparr>cp_descriptor = d, cp_outbound = ch, cp_public_key = pk,
      cp_tenant_id = tenant, cp_account_id = account, cp_heartbeat_count = 0\<rparr>"
  shows "relay_wf V (fst (on_registered V s ch d pk tenant account g))"
proof -
  obtain s1 r where r: "register V s d pk tenant account ch = (s1, r)" by fastforce
  have "relay_wf V s1"
    using register_result[OF r] assms by (auto simp: relay_wf_def split: if_splits)
  then show ?thesis
    by (auto simp: on_registered_def r split: sum.split intro!: wf.keep_broadcast wf.keep_reply)
qed

lemma wf_handle_hello: "relay_wf V s \<Longrightarrow> relay_wf V (fst (handle_hello V s ch d))"
  by (cases "enrollment s"; cases "allow_unsigned_hello s") (auto simp: handle_hello_def peer_admitted_def intro!: wf_on_registered wf.keep_reply)

lemma wf_handle_signed_hello:
  assumes "relay_wf V s" shows "relay_wf V (fst (handle_signed_hello V s ch h))"
proof (cases "hello_verify (ev_ext V) h")
  case ok: True
  have sig: "\<exists>sig. hello_verify (ev_ext V)
      \<lparr>sh_descriptor = sh_descriptor h, sh_public_key = sh_public_key h, sh_signature = sig\<rparr>"
    using ok by (intro exI[of _ "sh_signature h"]) (auto simp: hello_verify_def split: if_splits)
  show ?thesis
  proof (cases "resolve_enrollment_full V s (device_id (sh_descriptor h)) (sh_public_key h)")
    case (Inl e)
    then show ?thesis using assms ok sig
      by (auto simp: handle_signed_hello_def Let_def peer_admitted_def
          intro!: wf_on_registered wf.keep_reply)
  next
    case (Inr ids)
    then show ?thesis using assms ok sig
      by (cases ids)
         (auto simp: handle_signed_hello_def Let_def peer_admitted_def resolve_enrollment_full_def
           intro!: wf_on_registered
           split: enrollment_policy.splits sum.splits option.splits if_splits)
  qed
qed (use assms in \<open>simp add: handle_signed_hello_def Let_def wf.keep_reply\<close>)

lemma wf_handle_frame:
  assumes "relay_wf V s" shows "relay_wf V (fst (handle_frame V I s ch reg fr))"
proof -
  have "relay_wf V (fst (handle_message V I s ch reg m))" for m
  proof (cases reg)
    case None
    then show ?thesis using assms
      by (auto simp: handle_message_def split: client_message.split
          intro!: wf.keep_reply wf_handle_hello wf_handle_signed_hello)
  next
    case (Some peer)
    then show ?thesis using wf.keep_registered[OF assms, of I ch peer m]
      by (auto simp: handle_message_def split: prod.split)
  qed
  then show ?thesis using assms
    by (auto simp: handle_frame_def split: ws_frame.split intro!: wf.keep_reply)
qed

lemma wf_socket_cleanup: "relay_wf V s \<Longrightarrow> relay_wf V (socket_cleanup V s ch reg)"
proof -
  have closed: "relay_wf V s \<Longrightarrow> relay_wf V (s\<lparr>closed := x\<rparr>)" for s :: "'a signaling_state" and x
    by (simp add: relay_wf_def)
  show "relay_wf V s \<Longrightarrow> ?thesis"
    by (auto simp: socket_cleanup_def Let_def split: option.split
        intro!: closed wf.keep_broadcast wf.keep_remove_sessions wf_unregister)
qed

lemma linked_on_registered:
  assumes "conns_linked cs s" "map_of cs ch = Some None"
    "on_registered V s ch d pk tenant account g = (s', reg', fl)"
  shows "conns_linked (AList.update ch reg' cs) s' \<and> fl \<noteq> Return \<and> (fl = Break \<longrightarrow> reg' = None)"
proof -
  obtain s1 r where r: "register V s d pk tenant account ch = (s1, r)" by fastforce
  show ?thesis
    using register_result[OF r]
  proof (elim disjE conjE exE)
    assume no: "s1 = s" "r = Err (AlreadyConnected (peer_id d))"
    then have "conns_linked (AList.update ch None cs) (reply s1 ch m)" for m
      using assms(1) by (intro linked.keep_reply) (auto simp: conns_linked_def)
    with no show ?thesis using assms(3) by (auto simp: on_registered_def r)
  next
    fix c assume new: "map_of (peers s) (peer_id d) = None" "r = Ok ()" and s1: "s1 = s\<lparr>peers :=
       AList.update (peer_id d) \<lparr>cp_descriptor = d, cp_outbound = ch, cp_public_key = pk,
         cp_tenant_id = tenant, cp_account_id = account, cp_heartbeat_count = 0\<rparr> (peers s), cluster := c\<rparr>"
    have "conns_linked (AList.update ch (Some d) cs) s1"
      unfolding conns_linked_def
    proof (intro allI impI)
      fix ch' d' assume a: "map_of (AList.update ch (Some d) cs) ch' = Some (Some d')"
      show "\<exists>p. map_of (peers s1) (peer_id d') = Some p \<and> cp_outbound p = ch' \<and> cp_descriptor p = d'"
      proof (cases "ch' = ch")
        case True
        with a show ?thesis by (simp add: s1)
      next
        case False
        with a have "map_of cs ch' = Some (Some d')" by simp
        with assms(1) obtain p where p: "map_of (peers s) (peer_id d') = Some p"
            "cp_outbound p = ch'" "cp_descriptor p = d'"
          by (auto simp: conns_linked_def)
        with new(1) have "peer_id d' \<noteq> peer_id d" by auto
        with p show ?thesis by (simp add: s1)
      qed
    qed
    then show ?thesis using assms(3) new(2)
      by (auto simp: on_registered_def r intro!: linked.keep_broadcast linked.keep_reply)
  qed
qed

lemma linked_reply: "conns_linked cs s \<Longrightarrow> map_of cs ch = Some None \<Longrightarrow>
    conns_linked (AList.update ch None cs) (reply s ch m)"
  by (intro linked.keep_reply) (auto simp: conns_linked_def)

lemma linked_first_message:
  assumes "conns_linked cs s" "map_of cs ch = Some None"
    "handle_message V I s ch None m = (s', reg', fl)"
  shows "conns_linked (AList.update ch reg' cs) s' \<and> fl \<noteq> Return \<and> (fl = Break \<longrightarrow> reg' = None)"
proof (cases "\<exists>d pk tenant account g. on_registered V s ch d pk tenant account g = (s', reg', fl)")
  case True
  then show ?thesis using linked_on_registered[OF assms(1,2)] by blast
next
  case False
  have "s' \<in> range (reply s ch) \<and> reg' = None \<and> fl = Break"
    using assms(3) False
    by (auto simp: handle_message_def handle_hello_def handle_signed_hello_def Let_def
        split: client_message.splits if_splits sum.splits)
  then show ?thesis using linked_reply[OF assms(1,2)] by auto
qed

lemma linked_cleanup_none: "conns_linked (AList.update ch None cs) s \<Longrightarrow>
    conns_linked (AList.delete ch cs) (socket_cleanup V s ch None)"
  by (fastforce simp: conns_linked_def socket_cleanup_def split: if_splits)

lemma linked_delete: "conns_linked cs s \<Longrightarrow> conns_linked (AList.delete ch cs) s"
  by (auto simp: conns_linked_def)

text \<open>Two connections never share a peer id, so a teardown removes nobody else's peer.\<close>

lemma linked_cleanup:
  assumes "conns_linked cs s" "map_of cs ch = Some (Some d)"
  shows "conns_linked (AList.delete ch cs) (socket_cleanup V s ch (Some d))"
proof -
  have "conns_linked (AList.delete ch cs) (fst (unregister V s (peer_id d)))"
    unfolding conns_linked_def
  proof (intro allI impI)
    fix ch' d' assume "map_of (AList.delete ch cs) ch' = Some (Some d')"
    then have c: "ch' \<noteq> ch" "map_of cs ch' = Some (Some d')" by (auto split: if_splits)
    have "\<exists>p. map_of (peers s) (peer_id d) = Some p \<and> cp_outbound p = ch"
      and "\<exists>p. map_of (peers s) (peer_id d') = Some p \<and> cp_outbound p = ch'"
      using assms c(2) by (auto simp: conns_linked_def)
    with c(1) have "peer_id d' \<noteq> peer_id d" by auto
    with c(2) assms(1) show "\<exists>p. map_of (peers (fst (unregister V s (peer_id d)))) (peer_id d') = Some p \<and>
        cp_outbound p = ch' \<and> cp_descriptor p = d'"
      by (auto simp: unregister_peers conns_linked_def)
  qed
  then have "conns_linked (AList.delete ch cs) (broadcast_presence V
      (remove_sessions_for (fst (unregister V s (peer_id d))) (peer_id d)) d t False)" for t
    by (intro linked.keep_broadcast linked.keep_remove_sessions)
  then show ?thesis by (simp add: socket_cleanup_def Let_def conns_linked_def)
qed

subsection \<open>The invariant of the transition system\<close>

definition sys_inv :: "'r env \<Rightarrow> 'r sys \<Rightarrow> bool" where
  "sys_inv V S \<longleftrightarrow> relay_wf V (fst S) \<and> conns_linked (snd S) (fst S)"

lemma linked_conn_step:
  assumes "conns_linked cs s" "map_of cs ch = Some reg"
  shows "conns_linked (snd (conn_step V I (s, cs) ch reg fr)) (fst (conn_step V I (s, cs) ch reg fr))"
proof (cases reg)
  case None
  obtain s' reg' fl where h: "handle_frame V I s ch None fr = (s', reg', fl)" by (metis prod_cases3)
  have "conns_linked (AList.update ch reg' cs) s' \<and> fl \<noteq> Return \<and> (fl = Break \<longrightarrow> reg' = None)"
  proof (cases fr)
    case (FrText m)
    with h linked_first_message[OF assms(1)] assms(2) None show ?thesis
      by (auto simp: handle_frame_def)
  qed (use h linked_reply[OF assms(1)] assms None in \<open>auto simp: handle_frame_def conns_linked_def\<close>)
  with h None show ?thesis
    by (cases fl) (auto simp: conn_step_def intro: linked_cleanup_none)
next
  case (Some d)
  obtain s' reg' fl where h: "handle_frame V I s ch reg fr = (s', reg', fl)" by (metis prod_cases3)
  have reg': "reg' = Some d" using h Some
    by (auto simp: handle_frame_def handle_message_def split: ws_frame.splits prod.splits)
  have "conns_linked cs s'"
  proof (cases fr)
    case (FrText m)
    with h Some linked.keep_registered[OF assms(1), of V I ch d m] show ?thesis
      by (auto simp: handle_frame_def handle_message_def split: prod.splits)
  qed (use h assms(1) in \<open>auto simp: handle_frame_def intro: linked.keep_reply\<close>)
  moreover from this have "conns_linked (AList.update ch (Some d) cs) s'"
    using assms(2) Some by (auto simp: conns_linked_def)
  ultimately show ?thesis using h reg' Some assms(2)
    by (cases fl) (auto simp: conn_step_def intro: linked_cleanup linked_delete)
qed

lemma sys_inv_step:
  assumes "sys_inv V S" "sys_step V S S'" shows "sys_inv V S'"
  using assms(2,1)
proof cases
  case (connect s cs ch)
  with assms(1) show ?thesis by (auto simp: sys_inv_def conns_linked_def)
next
  case (frame cs ch reg s I fr)
  then have "conns_linked (snd S') (fst S')"
    using linked_conn_step[of cs s ch reg V I fr] assms(1) by (simp add: sys_inv_def)
  moreover have "relay_wf V (fst S')"
    using wf_handle_frame[of V s I ch reg fr] assms(1) frame
    by (auto simp: conn_step_def sys_inv_def split: prod.split flow.split
        intro: wf_socket_cleanup)
  ultimately show ?thesis by (simp add: sys_inv_def)
next
  case (eof cs ch reg s)
  then show ?thesis using assms(1) linked_cleanup[of cs s ch] linked_cleanup_none[of ch cs s]
    by (cases reg) (auto simp: sys_inv_def conns_linked_def intro: wf_socket_cleanup)
next
  case (publish_relay s cs I header pid addr)
  with assms(1) show ?thesis
    by (auto simp: sys_inv_def publish_relay_address_handler_def set_turn_relay_def relay_wf_def
        conns_linked_def split: sum.split)
next
  case (from_cluster s cs pid m)
  with assms(1) show ?thesis
    by (auto simp: sys_inv_def intro: wf.keep_cluster_receive linked.keep_cluster_receive)
qed (use assms(1) in \<open>auto simp: sys_inv_def relay_wf_def conns_linked_def prune_turn_relays_def\<close>)

interpretation relay: invariant_system sys_init "sys_step V" "sys_inv V" for V
proof unfold_locales
  show "sys_inv V s" if "sys_init s" for s :: "'a sys"
    using that wf_jti_with_capacity
    by (simp add: sys_init_def sys_inv_def relay_wf_def conns_linked_def jti_new_def)
qed (rule sys_inv_step)

end
