(* ===== verification/Signaling_Demo.thy ===== *)
theory Signaling_Demo
  imports Signaling_Inv
begin

text \<open>
  A small concrete relay on which the theorems about the signaling server are instantiated:
  one host (peer 1) and one client (peer 2) of the same tenant, both with keys, paired, with a
  live session 77 and a JWKS client that knows one key.
\<close>

definition demo_caps :: capability_profile where
  "demo_caps = \<lparr>transports = [NativeQuic, WebRtc], capture = [], encoders = [H264],
     decoders = [H264], cap_notes = [], displays = []\<rparr>"

definition demo_host :: peer_descriptor where
  "demo_host = \<lparr>device_id = 11, peer_id = 1, device_name = ''host'', role = Host, os = Linux,
     capabilities = demo_caps\<rparr>"

definition demo_client :: peer_descriptor where
  "demo_client = \<lparr>device_id = 12, peer_id = 2, device_name = ''client'', role = Client, os = Linux,
     capabilities = demo_caps\<rparr>"

definition demo_viewer :: viewer_to_host where
  "demo_viewer = \<lparr>vh_v = 1, vh_jti = ''jti-1'', vh_sid = ''s'', vh_sub = ''u'',
     vh_aud = uuid_text demo_ext 1, vh_iat = 0, vh_exp = 500,
     vh_caps = \<lparr>caps_input = True, caps_clipboard = True, caps_mic = True, caps_files = True,
       caps_audio = True\<rparr>, vh_viewer_dtls_fp = ''fp'', vh_selected_display_id = None\<rparr>"

definition demo_ext' :: ext where
  "demo_ext' = demo_ext\<lparr>ed_verify := \<lambda>_ _ _. True, viewer_of_json := \<lambda>_. Some demo_viewer,
     credential_of_token := \<lambda>_. Some (credential_issue demo_ext [5] 77 (replicate 32 1)
       (replicate 32 2) 0 1000)\<rparr>"

text \<open>A Redis whose reads all hit a pairing and whose writes are accepted.\<close>

definition demo_redis :: "(unit, sig_error) redis" where
  "demo_redis = \<lparr>rd_get = \<lambda>_ _. Ok (Some VOne), rd_set_ex = \<lambda>r _ _ _. (r, Ok ()),
     rd_expire = \<lambda>r _ _. (r, Ok True), rd_del = \<lambda>r _. (r, Ok ()), rd_sadd = \<lambda>r _ _. (r, Ok ()),
     rd_srem = \<lambda>r _ _. (r, Ok ()), rd_smembers = \<lambda>_ _. Ok [], rd_publish = \<lambda>r _ _. (r, Ok ())\<rparr>"

definition demo_env :: "unit env" where
  "demo_env = \<lparr>ev_ext = demo_ext', ev_redis = demo_redis, ev_jwks = demo_jwks,
     ev_lookup = \<lambda>_ _. Ok None, ev_authorize = \<lambda>_. Err ''no authorizer''\<rparr>"

definition demo_io :: io where
  "demo_io = \<lparr>io_unix = \<lambda>_. 100, io_mono = \<lambda>_. 0, io_fetch = \<lambda>_. Some [], io_write = True,
     io_random = [1]\<rparr>"

definition demo_peer :: "peer_descriptor \<Rightarrow> nat \<Rightarrow> bytes \<Rightarrow> connected_peer" where
  "demo_peer d ch pk = \<lparr>cp_descriptor = d, cp_outbound = ch, cp_public_key = Some pk,
     cp_tenant_id = 0, cp_account_id = 0, cp_heartbeat_count = 0\<rparr>"

definition demo_session :: active_session where
  "demo_session = \<lparr>as_host_peer_id = 1, as_client_peer_id = 2, as_transport = NativeQuic,
     as_codec = H264,
     as_host_credential = credential_issue demo_ext [5] 77 (replicate 32 1) (replicate 32 2) 0 1000,
     as_client_credential = credential_issue demo_ext [5] 77 (replicate 32 1) (replicate 32 2) 0 1000,
     as_expires = 1000, as_permissions = default_permissions\<rparr>"

definition demo_relay :: "unit signaling_state" where
  "demo_relay = (with_policy (fst (add_pairing True store_memory \<lparr>pg_host = 1, pg_client = 2\<rparr>))
      [] [5] False)
     \<lparr>peers := [(1, demo_peer demo_host 10 (replicate 32 1)), (2, demo_peer demo_client 20 (replicate 32 2))],
      sessions := [(77, demo_session)],
      jwks := Some \<lparr>jc_policy = default_jwks_policy,
        jc_cache = Some \<lparr>fetched_at = 0, snap_keys = [(''k'', replicate 32 9)]\<rparr>\<rparr>\<rparr>"

lemmas demo_defs = demo_relay_def demo_session_def demo_peer_def demo_io_def demo_env_def
  demo_redis_def demo_ext'_def demo_host_def demo_client_def demo_caps_def with_policy_def

lemma demo_relay_simps [simp]:
  "peers demo_relay = [(1, demo_peer demo_host 10 (replicate 32 1)), (2, demo_peer demo_client 20 (replicate 32 2))]"
  "sessions demo_relay = [(77, demo_session)]"
  "cluster demo_relay = None" "closed demo_relay = []" "outbox demo_relay = []"
  "server_secret demo_relay = [5]" "session_authorizer demo_relay = False" "ice_servers demo_relay = []"
  "jtis demo_relay = jti_new" "share_links demo_relay = []" "pending_pairings demo_relay = []"
  "enrollment demo_relay = EnrollOpen" "allow_unsigned_hello demo_relay = False"
  by (simp_all add: demo_relay_def with_policy_def)

lemma demo_peers_simps [simp]:
  "peer_id demo_host = 1" "peer_id demo_client = 2" "role demo_host = Host" "role demo_client = Client"
  "device_id demo_host = 11" "device_id demo_client = 12"
  "capabilities demo_host = demo_caps" "capabilities demo_client = demo_caps"
  "cp_descriptor (demo_peer d ch pk) = d" "cp_outbound (demo_peer d ch pk) = ch"
  "cp_public_key (demo_peer d ch pk) = Some pk" "cp_tenant_id (demo_peer d ch pk) = 0"
  "cp_heartbeat_count (demo_peer d ch pk) = 0"
  by (simp_all add: demo_host_def demo_client_def demo_peer_def)

lemma demo_session_simps [simp]:
  "as_host_peer_id demo_session = 1" "as_client_peer_id demo_session = 2"
  "as_expires demo_session = 1000"
  by (simp_all add: demo_session_def)

lemma demo_io_simps [simp]:
  "io_unix demo_io n = 100" "io_write demo_io" "io_random demo_io = [1]"
  by (simp_all add: demo_io_def)

lemma demo_paired [simp]: "is_paired (pstore demo_relay) h c \<longleftrightarrow> h = 1 \<and> c = 2"
proof -
  have "\<not> is_paired store_memory h c" by (simp add: is_paired_def store_memory_def)
  then show ?thesis by (auto simp: demo_relay_def with_policy_def is_paired_add)
qed

definition demo_request :: start_session_request where
  "demo_request = \<lparr>sr_session_id = 78, sr_target_host_id = 1, sr_requested_transport = None,
     sr_preferred_codec = None, sr_video = None, sr_permissions = default_permissions,
     sr_sync_only = False, sr_consent_id = None\<rparr>"

lemma demo_request_simps [simp]:
  "sr_session_id demo_request = 78" "sr_target_host_id demo_request = 1"
  "sr_requested_transport demo_request = None" "sr_preferred_codec demo_request = None"
  by (simp_all add: demo_request_def)

lemma demo_caps_simps [simp]:
  "transports demo_caps = [NativeQuic, WebRtc]" "encoders demo_caps = [H264]" "decoders demo_caps = [H264]"
  by (simp_all add: demo_caps_def)

lemmas start_eval = start_session_def Let_def prune_expired_sessions_def retain_def locate_host_def
  authorize_session_def ensure_paired_def is_paired_cluster_def negotiate_transport_def
  negotiate_codec_def supports_transport_def send_to_def chan_send_def

subsection \<open>A run: two signed hellos and a session\<close>

definition demo_hello :: "peer_descriptor \<Rightarrow> bytes \<Rightarrow> ws_frame" where
  "demo_hello d pk = FrText (SignedHello \<lparr>sh_descriptor = d, sh_public_key = pk, sh_signature = replicate 64 0\<rparr>)"

definition demo_sys0 :: "unit sys" where
  "demo_sys0 = (demo_relay\<lparr>peers := [], sessions := []\<rparr>, [])"

definition demo_sys1 :: "unit sys" where
  "demo_sys1 = conn_step demo_env demo_io (fst demo_sys0, [(10, None)]) 10 None
     (demo_hello demo_host (replicate 32 1))"

definition demo_sys2 :: "unit sys" where
  "demo_sys2 = conn_step demo_env demo_io (fst demo_sys1, AList.update 20 None (snd demo_sys1)) 20 None
     (demo_hello demo_client (replicate 32 2))"

definition demo_sys3 :: "unit sys" where
  "demo_sys3 = conn_step demo_env demo_io demo_sys2 20 (Some demo_client) (FrText (StartSession demo_request))"

lemma demo_hello_verify: "hello_verify (ev_ext demo_env) \<lparr>sh_descriptor = d, sh_public_key = k, sh_signature = replicate 64 0\<rparr>"
  by (simp add: hello_verify_def demo_ext'_def demo_ext_def demo_env_def)

lemmas hello_eval = conn_step_def demo_hello_def handle_frame_def handle_message_def
  handle_signed_hello_def demo_hello_verify resolve_enrollment_full_def on_registered_def register_def chan_send_def
  broadcast_presence_def Let_def

lemma demo_sys1_eq: "demo_sys1 = (demo_relay\<lparr>peers := [(1, demo_peer demo_host 10 (replicate 32 1))], 
   sessions := [], outbox := [(10, Welcome \<lparr>wl_self_id = 1, wl_message = ''signaling connected''\<rparr>)]\<rparr>, [(10, Some demo_host)])"
  by (simp add: demo_sys1_def demo_sys0_def hello_eval demo_peer_def)

lemma demo_sys2_eq: "demo_sys2 = (demo_relay\<lparr>peers := [(1, demo_peer demo_host 10 (replicate 32 1)),
     (2, demo_peer demo_client 20 (replicate 32 2))], sessions := [], outbox := [(10, Welcome \<lparr>wl_self_id = 1, wl_message = ''signaling connected''\<rparr>),
 (20, Welcome \<lparr>wl_self_id = 2, wl_message = ''signaling connected''\<rparr>), (10, Presence \<lparr>pe_peer = demo_client, pe_connected = True\<rparr>)]\<rparr>, [(10, Some demo_host), (20, Some demo_client)])"
  by (simp add: demo_sys2_def demo_sys1_eq hello_eval demo_peer_def)
lemma demo_sys3_simps:
  "snd demo_sys3 = [(10, Some demo_host), (20, Some demo_client)]"
  "map fst (sessions (fst demo_sys3)) = [78]"
  "peers (fst demo_sys3) = [(1, demo_peer demo_host 10 (replicate 32 1)),
     (2, demo_peer demo_client 20 (replicate 32 2))]"
  by (simp_all add: demo_sys3_def demo_sys2_eq conn_step_def handle_frame_def handle_message_def
      handle_registered_def handle_start_session_def start_eval)

lemma demo_reach1: "sys_reach demo_env demo_sys1"
proof -
  have "sys_reach demo_env demo_sys0"
    by (rule reach_init)
       (simp add: demo_sys0_def sys_init_def, simp add: demo_relay_def with_policy_def)
  moreover have "sys_step demo_env demo_sys0 (fst demo_sys0, [(10, None)])"
    using sys_step.connect[of "fst demo_sys0" "[]" 10 demo_env]
    by (simp add: demo_sys0_def fresh_channel_def)
  ultimately have "sys_reach demo_env (fst demo_sys0, [(10, None)])" by (rule reach_step)
  then show ?thesis
    unfolding demo_sys1_def by (rule reach_step) (rule sys_step.frame, simp)
qed

lemma demo_reach3: "sys_reach demo_env demo_sys3"
proof -
  have "sys_step demo_env demo_sys1 (fst demo_sys1, AList.update 20 None (snd demo_sys1))"
    using sys_step.connect[of "fst demo_sys1" "snd demo_sys1" 20 demo_env]
    by (simp add: demo_sys1_eq fresh_channel_def)
  with demo_reach1 have "sys_reach demo_env (fst demo_sys1, AList.update 20 None (snd demo_sys1))"
    by (rule reach_step)
  then have "sys_reach demo_env demo_sys2"
    unfolding demo_sys2_def by (rule reach_step) (rule sys_step.frame, simp)
  moreover have "sys_step demo_env demo_sys2 demo_sys3"
    using sys_step.frame[of "snd demo_sys2" 20 "Some demo_client" demo_env "fst demo_sys2" demo_io]
    by (simp add: demo_sys3_def) (simp add: demo_sys2_eq)
  ultimately show ?thesis by (rule reach_step)
qed

end
