(* ===== verification/Signaling_Safety.thy ===== *)
theory Signaling_Safety
  imports Signaling_Demo
begin

text \<open>
  The guarantees of the relay: what a started session implies, who may receive a relayed signal,
  tenant isolation of presence and of the host list, replay protection of cloud bundles, the
  effect of kicks, revocations, share codes and disconnects, the bearer checks, and the
  invariants of every reachable relay. Where a statement assumes \<open>cluster s = None\<close> it is about
  a single instance; what the others write to Redis is not constrained otherwise.
\<close>

subsection \<open>A single instance\<close>

lemma alone_post [simp]:
  "cluster s = None \<Longrightarrow> cluster (post V s pid m) = None"
  by (auto simp: send_to_def chan_send_def split: option.splits prod.splits bool.splits)

lemma alone_put_grant:
  assumes "cluster s = None" "put_grant V I s h c = (s', r)"
  shows "cluster s' = None \<and> peers s' = peers s \<and> sessions s' = sessions s \<and>
    server_secret s' = server_secret s \<and> ice_servers s' = ice_servers s \<and> outbox s' = outbox s \<and>
    closed s' = closed s \<and> pstore s' = fst (add_pairing (io_write I) (pstore s) \<lparr>pg_host = h, pg_client = c\<rparr>)"
  using assms by (auto simp: put_grant_def Let_def split: prod.splits sum.splits)

lemma alone_is_paired [simp]:
  "cluster s = None \<Longrightarrow> is_paired_cluster V s h c = is_paired (pstore s) h c"
  by (simp add: is_paired_cluster_def)

lemma prune_sessions_frame [simp]:
  "peers (prune_expired_sessions s now) = peers s"
  "cluster (prune_expired_sessions s now) = cluster s"
  "pstore (prune_expired_sessions s now) = pstore s"
  "server_secret (prune_expired_sessions s now) = server_secret s"
  "outbox (prune_expired_sessions s now) = outbox s"
  "closed (prune_expired_sessions s now) = closed s"
  by (simp_all add: prune_expired_sessions_def)

lemma alone_send_to:
  assumes "cluster s = None"
  shows "send_to V s pid m =
    (case map_of (peers s) pid of
       None \<Rightarrow> (s, Err (UnknownPeer pid))
     | Some p \<Rightarrow> if cp_outbound p \<in> set (closed s) then (s, Err (NotWritable pid))
                 else (s\<lparr>outbox := outbox s @ [(cp_outbound p, m)]\<rparr>, Ok ()))"
  using assms by (auto simp: send_to_def chan_send_def split: option.split)

lemma authorize_session_frame:
  "authorize_session V s client host rq = (s', r) \<Longrightarrow>
     peers s' = peers s \<and> sessions s' = sessions s \<and> pstore s' = pstore s \<and>
     server_secret s' = server_secret s \<and> closed s' = closed s \<and> (cluster s = None \<longrightarrow> cluster s' = None)"
  by (auto simp: authorize_session_def split: if_splits sum.splits session_authz_decision.splits)

lemma ensure_paired_ok:
  assumes "cluster s = None" "ensure_paired V I s h c auto = (s', Ok ())"
  shows "is_paired (pstore s') h c \<and> cluster s' = None \<and> peers s' = peers s \<and>
    sessions s' = sessions s \<and> server_secret s' = server_secret s \<and> closed s' = closed s"
proof (cases "is_paired (pstore s) h c \<or> \<not> auto")
  case True
  then show ?thesis using assms by (auto simp: ensure_paired_def Let_def split: if_splits)
next
  case False
  then obtain s1 where "put_grant V I s h c = (s1, Ok ())"
      and "s' = post V s1 c (PairingEstablished \<lparr>pg_host = h, pg_client = c\<rparr>)"
    using assms by (auto simp: ensure_paired_def Let_def bind_st_Ok)
  with alone_put_grant[OF assms(1)] show ?thesis by (auto simp: is_paired_add)
qed

subsection \<open>Sessions\<close>

lemma negotiate_transport_sound:
  "negotiate_transport client host rq = Some t \<Longrightarrow>
     supports_transport (capabilities client) t \<and> supports_transport (capabilities host) t"
  by (auto simp: negotiate_transport_def find_Some_iff split: option.splits if_splits)




definition demo_signal :: relay_signal where
  "demo_signal = \<lparr>rs_session_id = 77, rs_from = 2, rs_to = 1, rs_signal = Ready\<rparr>"


subsection \<open>Tenants\<close>

lemma fold_reply:
  "outbox (foldl (\<lambda>s (k, p). if Q k p then s else if R k p then s else reply s (cp_outbound p) m) s ps) =
     outbox s @ map (\<lambda>(_, p). (cp_outbound p, m))
       (filter (\<lambda>(k, p). \<not> Q k p \<and> \<not> R k p \<and> cp_outbound p \<notin> set (closed s)) ps) \<and>
   cluster (foldl (\<lambda>s (k, p). if Q k p then s else if R k p then s else reply s (cp_outbound p) m) s ps) =
     cluster s"
proof (induction ps arbitrary: s)
  case (Cons x ps)
  obtain k p where x: "x = (k, p)" by fastforce
  show ?case
    by (cases "Q k p"; cases "R k p"; cases "cp_outbound p \<in> set (closed s)")
       (simp_all add: x Cons.IH chan_send_def)
qed simp

text \<open>A presence event reaches exactly the other connected peers of the same tenant whose
  channel is open, once each, in map order; no peer of another tenant sees it.\<close>

theorem presence_tenant_isolation:
  assumes "cluster s = None"
  shows "outbox (broadcast_presence V s d tenant b) = outbox s @
    map (\<lambda>(_, p). (cp_outbound p, Presence \<lparr>pe_peer = d, pe_connected = b\<rparr>))
      (filter (\<lambda>(k, p). k \<noteq> peer_id d \<and> cp_tenant_id p = tenant \<and> cp_outbound p \<notin> set (closed s)) (peers s))"
  using assms fold_reply[where Q = "\<lambda>k _. k = peer_id d" and R = "\<lambda>_ p. cp_tenant_id p \<noteq> tenant"
      and m = "Presence \<lparr>pe_peer = d, pe_connected = b\<rparr>" and s = s and ps = "peers s"]
  by (simp add: broadcast_presence_def Let_def)

theorem presence_tenant_isolation_witness:
  "outbox (broadcast_presence demo_env demo_relay demo_host 0 True) =
     [(20, Presence \<lparr>pe_peer = demo_host, pe_connected = True\<rparr>)] \<and>
   outbox (broadcast_presence demo_env demo_relay demo_host 5 True) = []"
  using presence_tenant_isolation[of demo_relay demo_env demo_host] by simp

lemma fold_reply_all:
  "outbox (foldl (\<lambda>s (_, p). reply s (cp_outbound p) m) s ps) =
     outbox s @ map (\<lambda>(_, p). (cp_outbound p, m)) (filter (\<lambda>(_, p). cp_outbound p \<notin> set (closed s)) ps)"
proof (induction ps arbitrary: s)
  case (Cons x ps)
  obtain k p where x: "x = (k, p)" by fastforce
  show ?case by (simp add: x Cons.IH) (simp add: chan_send_def)
qed simp

text \<open>Between instances the isolation is lost: a presence event arriving over the cluster bus is
  queued for every local peer with an open channel, of whatever tenant.\<close>

theorem cluster_presence_ignores_tenant:
  "outbox (cluster_receive s nil_uuid (Presence ev)) = outbox s @
     map (\<lambda>(_, p). (cp_outbound p, Presence ev)) (filter (\<lambda>(_, p). cp_outbound p \<notin> set (closed s)) (peers s))"
  by (simp add: cluster_receive_def fold_reply_all)

lemma foldl_unseen:
  assumes "distinct (map peer_id ds)"
  shows "set (foldl (\<lambda>hs d. if list_ex (\<lambda>h. peer_id h = peer_id d) hs then hs else hs @ [d]) ds es) \<subseteq> set ds \<union> set es
    \<and> distinct (map peer_id (foldl (\<lambda>hs d. if list_ex (\<lambda>h. peer_id h = peer_id d) hs then hs else hs @ [d]) ds es))"
  using assms
proof (induction es arbitrary: ds)
  case (Cons e es)
  show ?case
  proof (cases "list_ex (\<lambda>h. peer_id h = peer_id e) ds")
    case True
    with Cons show ?thesis by auto
  next
    case False
    then have "distinct (map peer_id (ds @ [e]))" using Cons.prems by (auto simp: list_ex_iff)
    from Cons.IH[OF this] False show ?thesis by auto
  qed
qed simp

lemma local_hosts_distinct:
  assumes "relay_wf V s"
  shows "distinct (map peer_id (map (\<lambda>(_, p). cp_descriptor p) (filter Q (peers s))))"
proof -
  have "map peer_id (map (\<lambda>(_, p). cp_descriptor p) (filter Q (peers s))) = map fst (filter Q (peers s))"
    using assms by (auto simp: relay_wf_def map_of_in_set[symmetric])
  moreover have "distinct (map fst (filter Q (peers s)))"
    using assms by (simp add: relay_wf_def wf_map_def distinct_map_filter)
  ultimately show ?thesis by (simp only:)
qed

text \<open>The host list of a tenant, in a cluster too, has every local host of that tenant and
  otherwise only hosts whose registry record carries that tenant, no peer twice.\<close>

theorem list_hosts_tenant:
  assumes "relay_wf V s" and "list_hosts V s tenant = (s', hosts)"
  shows "distinct (map peer_id hosts) \<and>
    (\<forall>d. d \<in> set hosts \<longrightarrow>
       role d = Host \<and>
       ((\<exists>p. map_of (peers s) (peer_id d) = Some p \<and> cp_descriptor p = d \<and> cp_tenant_id p = tenant) \<or>
        (\<exists>b pid p. bus_get_peer (ev_redis V) b pid = Ok (Some p) \<and> rp_descriptor p = d \<and>
           rp_tenant_id p = tenant))) \<and>
    (\<forall>k p. map_of (peers s) k = Some p \<longrightarrow> role (cp_descriptor p) = Host \<longrightarrow> cp_tenant_id p = tenant \<longrightarrow>
       (\<exists>d \<in> set hosts. peer_id d = k))"
proof -
  let ?loc = "map (\<lambda>(_, p). cp_descriptor p)
      (filter (\<lambda>(_, p). role (cp_descriptor p) = Host \<and> cp_tenant_id p = tenant) (peers s))"
  let ?f = "\<lambda>hs d. if list_ex (\<lambda>h. peer_id h = peer_id d) hs then hs else hs @ [d]"
  have dist: "distinct (map peer_id ?loc)" using assms(1) by (rule local_hosts_distinct)
  have inl: "d \<in> set ?loc \<longleftrightarrow> role d = Host \<and>
      (\<exists>p. map_of (peers s) (peer_id d) = Some p \<and> cp_descriptor p = d \<and> cp_tenant_id p = tenant)" for d
    using assms(1) by (force simp: relay_wf_def map_of_in_set[symmetric])
  have all: "map_of (peers s) k = Some p \<Longrightarrow> role (cp_descriptor p) = Host \<Longrightarrow> cp_tenant_id p = tenant \<Longrightarrow>
      cp_descriptor p \<in> set ?loc \<and> peer_id (cp_descriptor p) = k" for k p
    using assms(1) inl by (auto simp: relay_wf_def)
  have keep: "set ds \<subseteq> set (foldl ?f ds es)" for ds es
    by (induction es arbitrary: ds) fastforce+
  consider "hosts = ?loc" | bus remote b' where "bus_list_hosts (ev_ext V) (ev_redis V) bus tenant = (b', Ok remote)"
      "hosts = foldl ?f ?loc remote"
    using assms(2) by (auto simp: list_hosts_def Let_def split: option.splits prod.splits sum.splits)
  then show ?thesis
  proof cases
    case 1
    show ?thesis using dist inl all unfolding 1 by blast
  next
    case 2
    then obtain ids where ids: "bus_list_hosts_loop (ev_ext V) (ev_redis V) bus tenant ids = (b', Ok remote)"
      by (auto simp: bus_list_hosts_def split: sum.splits)
    have rem: "d \<in> set remote \<Longrightarrow> role d = Host \<and> (\<exists>b pid p. bus_get_peer (ev_redis V) b pid = Ok (Some p) \<and>
        rp_descriptor p = d \<and> rp_tenant_id p = tenant)" for d
      using bus_list_hosts_loop_tenant[of "ev_ext V" "ev_redis V" bus tenant ids remote d] ids by simp
    show ?thesis
      using foldl_unseen[OF dist, of remote] rem inl all keep[of ?loc remote]
      unfolding 2(2) by blast
  qed
qed

lemma demo_relay_wf: "relay_wf demo_env demo_relay"
proof -
  have "hello_verify demo_ext' \<lparr>sh_descriptor = d, sh_public_key = k, sh_signature = replicate 64 0\<rparr>" for d k
    by (simp add: hello_verify_def demo_ext'_def demo_ext_def)
  then have "peer_admitted demo_env demo_relay (demo_peer d ch k)" for d ch k
    by (auto simp: peer_admitted_def demo_env_def)
  moreover have "session_issued demo_env [5] 77 demo_session"
    by (auto simp: session_issued_def demo_session_def demo_env_def demo_ext'_def credential_issue_def
        demo_ext_def)
  ultimately show ?thesis using wf_jti_with_capacity
    by (simp add: relay_wf_def wf_map_def jti_new_def) (simp add: demo_relay_def with_policy_def)
qed

theorem list_hosts_tenant_witness:
  "\<exists>s' hosts. list_hosts demo_env demo_relay 0 = (s', hosts) \<and> (\<exists>d \<in> set hosts. peer_id d = 1)"
proof -
  obtain s' hosts where e: "list_hosts demo_env demo_relay 0 = (s', hosts)" by fastforce
  from list_hosts_tenant[OF demo_relay_wf e] have "\<exists>d \<in> set hosts. peer_id d = 1" by simp
  with e show ?thesis by blast
qed

subsection \<open>Every reachable relay\<close>

text \<open>C3: In every state the relay can reach, each connected peer was admitted by the policy in
  force: under \<open>allow_unsigned_hello = False\<close> it holds a key that signed its descriptor, and under
  a managed policy a host is an enrolled, unrevoked device with the tenant the registry gives.\<close>

theorem reachable_peers_admitted:
  assumes "sys_reach V S" and "map_of (peers (fst S)) k = Some p"
  shows "peer_id (cp_descriptor p) = k \<and> peer_admitted V (fst S) p"
  using relay.reach_inv[OF assms(1)] assms(2) by (auto simp: sys_inv_def relay_wf_def)

theorem reachable_peers_admitted_witness:
  "sys_reach demo_env demo_sys3 \<and> peer_admitted demo_env (fst demo_sys3) (demo_peer demo_client 20 (replicate 32 2))"
proof -
  have "map_of (peers (fst demo_sys3)) 2 = Some (demo_peer demo_client 20 (replicate 32 2))"
    by (simp add: demo_sys3_simps)
  from reachable_peers_admitted[OF demo_reach3 this] demo_reach3 show ?thesis by blast
qed

text \<open>C20: In every reachable state the credentials of a session are the relay's own: the host's
  and the client's copies agree, name the session, expire with it, and verify under the relay's
  secret exactly until that expiry (unless a key or the tag is all zero).\<close>

theorem reachable_session_credentials:
  assumes "sys_reach V S" and "map_of (sessions (fst S)) sid = Some a"
  shows "as_host_credential a = as_client_credential a \<and>
    cred_session_id (as_client_credential a) = sid \<and>
    cred_expires (as_client_credential a) = as_expires a \<and>
    (credential_verify (ev_ext V) (as_client_credential a) (server_secret (fst S)) now \<longleftrightarrow>
       now < as_expires a \<and> cred_host_pubkey (as_client_credential a) \<noteq> zero_key \<and>
       cred_client_pubkey (as_client_credential a) \<noteq> zero_key \<and>
       cred_hmac (as_client_credential a) \<noteq> zero_key)"
proof -
  have "session_issued V (server_secret (fst S)) sid a"
    using relay.reach_inv[OF assms(1)] assms(2) by (auto simp: sys_inv_def relay_wf_def)
  then show ?thesis
    by (auto simp: session_issued_def credential_verify_iff credential_issue_def)
qed

theorem reachable_session_credentials_witness:
  "\<exists>a. map_of (sessions (fst demo_sys3)) 78 = Some a \<and> cred_session_id (as_client_credential a) = 78"
proof -
  obtain a where a: "map_of (sessions (fst demo_sys3)) 78 = Some a"
    using demo_sys3_simps(2) by (auto simp: map_eq_Cons_conv)
  from reachable_session_credentials[OF demo_reach3 a] a show ?thesis by blast
qed

text \<open>In every reachable state a connection that completed its handshake owns the registered
  peer of that id: the entry has the connection's descriptor and channel, so two open connections
  never share a peer id and replies go to the right socket.\<close>

theorem reachable_connections_own_peer:
  assumes "sys_reach V S" and "map_of (snd S) ch = Some (Some d)"
  shows "(\<exists>p. map_of (peers (fst S)) (peer_id d) = Some p \<and> cp_descriptor p = d \<and> cp_outbound p = ch) \<and>
    (\<forall>ch' d'. map_of (snd S) ch' = Some (Some d') \<longrightarrow> peer_id d' = peer_id d \<longrightarrow> ch' = ch)"
proof -
  have l: "conns_linked (snd S) (fst S)"
    using relay.reach_inv[OF assms(1)] by (simp add: sys_inv_def)
  then obtain p where p: "map_of (peers (fst S)) (peer_id d) = Some p" "cp_descriptor p = d" "cp_outbound p = ch"
    using assms(2) unfolding conns_linked_def by blast
  moreover have "ch' = ch" if "map_of (snd S) ch' = Some (Some d')" "peer_id d' = peer_id d" for ch' d'
    using l that p unfolding conns_linked_def by (metis option.inject)
  ultimately show ?thesis by blast
qed

theorem reachable_connections_own_peer_witness:
  "\<exists>p. map_of (peers (fst demo_sys3)) 2 = Some p \<and> cp_outbound p = 20"
proof -
  have "map_of (snd demo_sys3) 20 = Some (Some demo_client)" by (simp add: demo_sys3_simps)
  from reachable_connections_own_peer[OF demo_reach3 this] show ?thesis by (simp only: demo_peers_simps) blast
qed

end
