(* ===== verification/Signaling_Effects.thy ===== *)
theory Signaling_Effects
  imports Signaling_Safety
begin

text \<open>
  What the individual requests achieve: pairing decisions and revocations, kicks, share codes,
  bundle verification with replay protection, relay-address bearers, ICE filtering, and the
  teardown of a connection.
\<close>

subsection \<open>Pairing decisions and revocation\<close>

text \<open>C19: A pairing is granted only by the host the request was addressed to, answering yes to a
  request that was pending; the grant names exactly that host and the requesting client, it is in
  the store afterwards and the request is consumed.\<close>

theorem decide_pairing_authority:
  assumes "decide_pairing V I s host d = (s', Ok (Some g))"
  shows "role host = Host \<and> pdec_approved d \<and>
    (\<exists>pending. map_of (pending_pairings s) (pdec_request_id d) = Some pending \<and>
       pp_host_peer_id pending = peer_id host \<and>
       g = \<lparr>pg_host = peer_id host, pg_client = peer_id (pp_client pending)\<rparr>) \<and>
    is_paired (pstore s') (pg_host g) (pg_client g) \<and>
    map_of (pending_pairings s') (pdec_request_id d) = None"
proof -
  obtain pending where p: "map_of (pending_pairings s) (pdec_request_id d) = Some pending"
    using assms by (auto simp: decide_pairing_def Let_def split: option.splits)
  let ?s1 = "s\<lparr>pending_pairings := AList.delete (pdec_request_id d) (pending_pairings s)\<rparr>"
  from assms p have r: "role host = Host" "pdec_approved d" "pp_host_peer_id pending = peer_id host"
    by (auto simp: decide_pairing_def Let_def split: if_splits)
  with assms p obtain s2 s3 where
    g: "gate_pairing V ?s1 host pending (pdec_request_id d) = (s2, Ok ())" and
    pg: "put_grant V I s2 (peer_id host) (peer_id (pp_client pending)) = (s3, Ok ())" and
    s': "s' = post V s3 (peer_id (pp_client pending)) (PairingEstablished g)" and
    ge: "g = \<lparr>pg_host = peer_id host, pg_client = peer_id (pp_client pending)\<rparr>"
    by (auto simp: decide_pairing_def Let_def bind_st_Ok)
  have "s2 = ?s1"
    using g by (auto simp: gate_pairing_def split: if_splits sum.splits session_authz_decision.splits)
  moreover have "is_paired (pstore s3) (peer_id host) (peer_id (pp_client pending)) \<and>
      pending_pairings s3 = pending_pairings s2"
    using pg is_paired_add[of "io_write I" "pstore s2" g "peer_id host" "peer_id (pp_client pending)"] ge
    by (auto simp: put_grant_def Let_def split: prod.splits sum.splits option.splits)
  ultimately show ?thesis
    using p r ge by (auto simp: s' send_to_def chan_send_def split: option.splits prod.splits sum.splits bool.splits)
qed

definition demo_pending :: "unit signaling_state" where
  "demo_pending = demo_relay\<lparr>pending_pairings := [(5, \<lparr>pp_request_id = 5, pp_host_peer_id = 1,
     pp_client = demo_client\<lparr>peer_id := 3\<rparr>, pp_client_label = ''laptop'', pp_client_account_id = 0\<rparr>)]\<rparr>"

theorem decide_pairing_authority_witness:
  "\<exists>s' g. decide_pairing demo_env demo_io demo_pending demo_host
      \<lparr>pdec_request_id = 5, pdec_approved = True\<rparr> = (s', Ok (Some g)) \<and>
     is_paired (pstore s') (pg_host g) (pg_client g)"
proof -
  obtain s' g where e: "decide_pairing demo_env demo_io demo_pending demo_host
      \<lparr>pdec_request_id = 5, pdec_approved = True\<rparr> = (s', Ok (Some g))"
    by (cases "add_pairing True (pstore demo_relay) \<lparr>pg_host = 1, pg_client = 3\<rparr>")
       (simp add: decide_pairing_def demo_pending_def gate_pairing_def put_grant_def,
        simp add: demo_relay_def with_policy_def add_pairing_def persist_def store_memory_def
          split: if_splits prod.splits sum.splits)
  from decide_pairing_authority[OF e] e show ?thesis by blast
qed

text \<open>A revocation that succeeds leaves the pair unpaired in the store and without any session,
  and touches no other pair and no other session; only the host itself or a client with the host's
  device id (the nil id when the host is not connected here) gets that far.\<close>

theorem revoke_pairing_effect:
  assumes "wf_map (sessions s)" and "revoke_pairing V I s actor h c = (s', Ok ())"
  shows "(peer_id actor = h \<or> role actor = Client \<and> device_id actor =
      (case map_of (peers s) h of None \<Rightarrow> nil_uuid | Some p \<Rightarrow> device_id (cp_descriptor p))) \<and>
    is_paired (pstore s) h c \<and>
    (\<forall>h' c'. is_paired (pstore s') h' c' \<longleftrightarrow> is_paired (pstore s) h' c' \<and> (h', c') \<noteq> (h, c)) \<and>
    (\<forall>sid a. map_of (sessions s') sid = Some a \<longleftrightarrow>
       map_of (sessions s) sid = Some a \<and> \<not> (as_host_peer_id a = h \<and> as_client_peer_id a = c))"
proof -
  obtain st r where rm: "remove_pairing (io_write I) (pstore s) h c = (st, r)" by fastforce
  with assms(2) have r: "r = Ok True" "peer_id actor = h \<or> role actor = Client \<and> device_id actor =
      (case map_of (peers s) h of None \<Rightarrow> nil_uuid | Some p \<Rightarrow> device_id (cp_descriptor p))"
    by (auto simp: revoke_pairing_def Let_def split: sum.splits if_splits)
  then have s': "pstore s' = st" "sessions s' =
      retain (\<lambda>_ a. \<not> (as_host_peer_id a = h \<and> as_client_peer_id a = c)) (sessions s)"
    using assms(2) rm by (auto simp: revoke_pairing_def Let_def split: if_splits)
  show ?thesis
    using r s' rm is_paired_remove[of "io_write I" "pstore s" h c]
      remove_pairing_reports[of "io_write I" "pstore s" h c True] assms(1)
    by (auto simp: map_of_retain split: option.splits)
qed

lemma demo_pstore: "pstore demo_relay = \<lparr>ps_path = None, pairings = [\<lparr>pg_host = 1, pg_client = 2\<rparr>], ps_file = None\<rparr>"
  by (simp add: demo_relay_def with_policy_def add_pairing_def persist_def store_memory_def is_paired_def)

theorem revoke_pairing_effect_witness:
  "\<exists>s'. revoke_pairing demo_env demo_io demo_relay demo_host 1 2 = (s', Ok ()) \<and>
     \<not> is_paired (pstore s') 1 2 \<and> map_of (sessions s') 77 = None"
proof -
  obtain s' where e: "revoke_pairing demo_env demo_io demo_relay demo_host 1 2 = (s', Ok ())"
    by (simp add: revoke_pairing_def demo_pstore remove_pairing_def persist_def)
  have "\<not> is_paired (pstore s') 1 2" "map_of (sessions s') 77 \<noteq> Some a" for a
    using revoke_pairing_effect[OF _ e] by (auto simp: wf_map_def)
  with e show ?thesis by (cases "map_of (sessions s') 77") auto
qed

text \<open>In a cluster the revocation is not seen by the pairing check: the Redis record of the pair
  is not removed, so after a successful revocation (of peers connected here) the relay still
  treats the two as paired.\<close>

theorem revoke_leaves_cluster_pairing:
  assumes "revoke_pairing V I s actor h c = (s', Ok ())"
    and "cluster s = Some bus" and "bus_is_paired (ev_redis V) bus h c = Ok True"
    and "map_of (peers s) h \<noteq> None" and "map_of (peers s) c \<noteq> None"
  shows "is_paired_cluster V s' h c"
proof -
  have post_local: "cluster (post V t pid m) = cluster t" if "map_of (peers t) pid \<noteq> None" for t pid m
    using that by (auto simp: send_to_def chan_send_def split: option.splits prod.splits bool.splits)
  obtain st where "remove_pairing (io_write I) (pstore s) h c = (st, Ok True)"
    using assms(1) by (cases "remove_pairing (io_write I) (pstore s) h c")
      (auto simp: revoke_pairing_def Let_def split: sum.splits if_splits)
  with assms have "cluster s' = Some bus"
    by (auto simp: revoke_pairing_def Let_def post_local split: if_splits)
  with assms(3) show ?thesis by (simp add: is_paired_cluster_def)
qed

theorem revoke_leaves_cluster_pairing_witness:
  "is_paired_cluster demo_env (fst (revoke_pairing demo_env demo_io
     (demo_relay\<lparr>cluster := Some \<lparr>instance_id = ''a'', conn = ()\<rparr>\<rparr>) demo_host 1 2)) 1 2"
proof -
  obtain s' where e: "revoke_pairing demo_env demo_io
     (demo_relay\<lparr>cluster := Some \<lparr>instance_id = ''a'', conn = ()\<rparr>\<rparr>) demo_host 1 2 = (s', Ok ())"
    by (simp add: revoke_pairing_def demo_pstore remove_pairing_def persist_def)
  show ?thesis
    using revoke_leaves_cluster_pairing[OF e, of "\<lparr>instance_id = ''a'', conn = ()\<rparr>"] e
    by (simp add: bus_is_paired_def demo_env_def demo_redis_def)
qed

subsection \<open>Kicks\<close>

text \<open>Only a participant can end a session by a kick. A participant's kick removes exactly that
  session; anybody else's, and a kick of an unknown session, changes no session, pairing or peer
  and delivers nothing.\<close>

theorem kick_session_authority:
  assumes "kick_session V s actor sid reason = (s', r)"
  shows "case map_of (sessions s) sid of
      None \<Rightarrow> s' = s \<and> r = Err (SessionNotFound sid)
    | Some a \<Rightarrow>
        if peer_id actor \<in> {as_host_peer_id a, as_client_peer_id a}
        then r = Ok () \<and> map_of (sessions s') = (map_of (sessions s))(sid := None)
        else r = Err (NotParticipant sid) \<and> map_of (sessions s') = map_of (sessions s) \<and>
          peers s' = peers s \<and> pstore s' = pstore s \<and> outbox s' = outbox s"
  using assms by (auto simp: kick_session_def Let_def fun_upd_idem split: option.split if_splits)

theorem kick_session_authority_witness:
  "map_of (sessions (fst (kick_session demo_env demo_relay demo_client 77 ''bye''))) =
     (map_of (sessions demo_relay))(77 := None)"
proof -
  obtain s' r where e: "kick_session demo_env demo_relay demo_client 77 ''bye'' = (s', r)" by fastforce
  from kick_session_authority[OF e] e show ?thesis by simp
qed

subsection \<open>Share codes\<close>

text \<open>A share code lives at most a day (fifteen minutes when no time to live is given), names
  the host's own peer, and until it expires its redemption pairs the redeeming
  client with that host; from its expiry on, redemption fails and drops the code.\<close>

theorem share_code_lifetime:
  assumes "create_share_link V I s actor secs perms = (s1, Ok (code, expires, hint))"
    and "role actor = Host"
  shows "unat expires \<le> unat (io_unix I 0) + 86400000 \<and> io_unix I 0 \<le> expires \<and>
    (expires \<le> io_unix I' 0 \<longrightarrow>
       (case redeem_share_link V I' s1 client code label of (s2, r) \<Rightarrow>
          r = Err ShareExpired \<and> map_of (share_links s2) code = None \<and> pstore s2 = pstore s)) \<and>
    (io_unix I' 0 < expires \<longrightarrow>
       is_paired (pstore (fst (redeem_share_link V I' s1 client code label))) (peer_id actor) (peer_id client))"
proof -
  let ?t = "if secs = 0 then 900 else min secs 86400 :: u64"
  have t: "unat ?t \<le> 86400"
    by (auto simp: min_def word_le_nat_alt)
  then have "unat ?t * unat (1000 :: u64) \<le> 86400 * 1000" by simp
  then have mul: "unat (saturating_mul ?t 1000) \<le> 86400000"
    by (simp add: unat_saturating_mul)
  from assms have e: "expires = saturating_add (io_unix I 0) (saturating_mul ?t 1000)"
    and s1: "s1 = s\<lparr>share_links := AList.update code \<lparr>sl_host_peer_id = peer_id actor,
       sl_host_label = device_name actor, sl_permissions = perms, sl_expires_unix_ms = expires\<rparr> (share_links s)\<rparr>"
    by (auto simp: create_share_link_def Let_def)
  have "unat expires \<le> unat (io_unix I 0) + 86400000"
    using mul unfolding e by (simp add: unat_saturating_add)
  moreover have "io_unix I 0 \<le> expires" unfolding e by (rule saturating_add_ge)
  moreover have "is_paired (pstore (fst (redeem_share_link V I' s1 client code label))) (peer_id actor) (peer_id client)"
    if "io_unix I' 0 < expires"
    using that is_paired_add[of "io_write I'" "pstore s" "\<lparr>pg_host = peer_id actor, pg_client = peer_id client\<rparr>"
        "peer_id actor" "peer_id client"]
    by (auto simp: redeem_share_link_def s1 Let_def split: prod.split sum.split)
  ultimately show ?thesis
    by (auto simp: redeem_share_link_def s1 split: prod.split)
qed

theorem share_code_lifetime_witness:
  "\<exists>s1 code expires hint. create_share_link demo_env demo_io demo_relay demo_host 60 default_permissions =
      (s1, Ok (code, expires, hint)) \<and> unat expires \<le> 100 + 86400000 \<and> 100 \<le> expires"
proof -
  obtain s1 code expires hint where e: "create_share_link demo_env demo_io demo_relay demo_host 60
      default_permissions = (s1, Ok (code, expires, hint))"
    by (simp add: create_share_link_def Let_def)
  from share_code_lifetime[OF e] e show ?thesis by auto
qed

subsection \<open>Cloud bundles\<close>

lemma resolve_bundle_key_frame:
  "resolve_bundle_key V I k s b = (s', r) \<Longrightarrow> jtis s' = jtis s \<and> peers s' = peers s \<and>
     sessions s' = sessions s \<and> outbox s' = outbox s \<and> closed s' = closed s"
  by (auto simp: resolve_bundle_key_def split: option.splits prod.splits sum.splits)

lemma resolve_bundle_key_ok:
  "resolve_bundle_key V I k s b = (s', Ok pk) \<Longrightarrow> ed_key_ok (ev_ext V) pk"
  by (auto simp: resolve_bundle_key_def split: option.splits prod.splits sum.splits if_splits)

lemma verify_viewer_ok:
  assumes "verify_viewer_to_host V I s b host now = (s', Ok p)"
  shows "\<exists>pk j. ed_key_ok (ev_ext V) pk \<and>
    bundle_decode (ev_ext V) (viewer_of_json (ev_ext V)) b pk = Ok p \<and>
    vh_aud p = uuid_text (ev_ext V) host \<and> now < vh_exp p \<and>
    check_and_mark (jtis s) (vh_jti p) (vh_exp p) now = (j, Ok ()) \<and> jtis s' = j"
proof -
  obtain s1 pk where r: "resolve_bundle_key V I 0 s b = (s1, Ok pk)"
    using assms by (auto simp: verify_viewer_to_host_def bind_st_Ok)
  with assms show ?thesis
    using resolve_bundle_key_frame[OF r] resolve_bundle_key_ok[OF r]
    by (auto simp: verify_viewer_to_host_def split: sum.splits if_splits prod.splits)
qed

text \<open>C4: A viewer bundle the relay accepts is signed by an accepted Ed25519 key, is addressed to
  the host the session is for and is unexpired; and its token is single use: whatever checks and
  denials happen before its expiry (denials of the same token lasting at least that long), no
  later bundle with the same token is accepted before that expiry.\<close>

theorem viewer_bundle_single_use:
  assumes "wf_jti (jtis s)" and "verify_viewer_to_host V I s b host now = (s1, Ok p)"
    and "jtis s2 = foldl (guard_step check_and_mark denylist) (jtis s1) ops"
    and "\<forall>op \<in> set ops. op_before (vh_jti p) (vh_exp p) op" and "now' < vh_exp p"
  shows "vh_aud p = uuid_text (ev_ext V) host \<and> now < vh_exp p \<and>
    (\<exists>pk. ed_key_ok (ev_ext V) pk \<and> verify_signature (ev_ext V) b pk = Ok ()) \<and>
    (\<forall>I' b' host' s3 p'. verify_viewer_to_host V I' s2 b' host' now' = (s3, Ok p') \<longrightarrow>
       vh_jti p' \<noteq> vh_jti p)"
proof -
  from verify_viewer_ok[OF assms(2)] obtain pk j where
    a: "ed_key_ok (ev_ext V) pk" "bundle_decode (ev_ext V) (viewer_of_json (ev_ext V)) b pk = Ok p"
    "vh_aud p = uuid_text (ev_ext V) host" "now < vh_exp p"
    "check_and_mark (jtis s) (vh_jti p) (vh_exp p) now = (j, Ok ())" "jtis s1 = j" by blast
  have "verify_signature (ev_ext V) b pk = Ok ()"
    using a(2) by (auto simp: bundle_decode_def split: sum.splits)
  moreover have "vh_jti p' \<noteq> vh_jti p"
    if "verify_viewer_to_host V I' s2 b' host' now' = (s3, Ok p')" for I' b' host' s3 p'
    using verify_viewer_ok[OF that] jti.single_use[OF assms(1) a(5) assms(4,5)] assms(3) a(6)
    by (metis is_ok_simps(1) snd_conv)
  ultimately show ?thesis using a by blast
qed

definition demo_bundle :: signed_bundle where
  "demo_bundle = \<lparr>sb_kid = ''k'', sb_v = 1, sb_payload = ''p'', sb_sig = replicate 64 CHR 0x01\<rparr>"

lemma demo_bundle_verifies:
  "\<exists>s1. verify_viewer_to_host demo_env demo_io demo_relay demo_bundle 1 100 = (s1, Ok demo_viewer)"
proof -
  have j: "jwks demo_relay = Some \<lparr>jc_policy = default_jwks_policy,
        jc_cache = Some \<lparr>fetched_at = 0, snap_keys = [(''k'', replicate 32 9)]\<rparr>\<rparr>"
    by (simp add: demo_relay_def with_policy_def)
  have v: "verify_signature demo_ext' demo_bundle (replicate 32 9) = Ok ()"
    by (simp add: verify_signature_def demo_bundle_def demo_ext'_def demo_ext_def)
  then have "resolve_bundle_key demo_env demo_io 0 demo_relay demo_bundle = (demo_relay, Ok (replicate 32 9))"
    by (simp add: resolve_bundle_key_def j verify_bundle_def jwks_lookup_def demo_bundle_def
        default_jwks_policy_def demo_io_def demo_env_def demo_ext'_def demo_ext_def)
  moreover have "bundle_decode demo_ext' (viewer_of_json demo_ext') demo_bundle (replicate 32 9) = Ok demo_viewer"
    using v by (simp add: bundle_decode_def) (simp add: demo_ext'_def demo_ext_def)
  moreover have "\<exists>j. check_and_mark jti_new ''jti-1'' 500 100 = (j, Ok ())"
    by (simp add: check_and_mark_def validate_jti_def jti_new_def jti_with_capacity_def
        DEFAULT_MAX_ENTRIES_def prune_expired_def is_denied_def is_seen_def retain_def Let_def)
  ultimately show ?thesis
    by (auto simp: verify_viewer_to_host_def demo_env_def demo_viewer_def)
       (simp add: demo_ext'_def)
qed

theorem viewer_bundle_single_use_witness:
  "\<exists>s1. verify_viewer_to_host demo_env demo_io demo_relay demo_bundle 1 100 = (s1, Ok demo_viewer) \<and>
     (\<forall>s3 p'. verify_viewer_to_host demo_env demo_io s1 demo_bundle 1 200 = (s3, Ok p') \<longrightarrow>
        vh_jti p' \<noteq> ''jti-1'')"
proof -
  obtain s1 where e: "verify_viewer_to_host demo_env demo_io demo_relay demo_bundle 1 100 = (s1, Ok demo_viewer)"
    using demo_bundle_verifies by blast
  have w: "wf_jti (jtis demo_relay)" by (simp add: jti_new_def wf_jti_with_capacity)
  have x: "vh_exp demo_viewer = 500" "vh_jti demo_viewer = ''jti-1''" by (simp_all add: demo_viewer_def)
  from viewer_bundle_single_use[OF w e, of s1 "[]" 200] e show ?thesis by (auto simp: x)
qed

subsection \<open>Leaving\<close>

interpretation same_peers: relay_predicate "\<lambda>s. peers s = ps" V for ps V
  by unfold_locales auto

interpretation same_sessions: delivery_predicate "\<lambda>s. sessions s = ss" for ss
  by unfold_locales auto

lemma broadcast_frame [simp]:
  "peers (broadcast_presence V s d t b) = peers s"
  "sessions (broadcast_presence V s d t b) = sessions s"
proof -
  show "peers (broadcast_presence V s d t b) = peers s"
    by (rule same_peers.keep_broadcast) simp
  show "sessions (broadcast_presence V s d t b) = sessions s"
    by (rule same_sessions.keep_broadcast) simp
qed

text \<open>When a registered connection ends, its peer is gone from the registry and nobody else's
  is, exactly the sessions it took part in are gone, and its channel accepts nothing more.\<close>

theorem disconnect_cleans_up:
  assumes "wf_map (sessions s)"
  shows "map_of (peers (socket_cleanup V s ch (Some d))) = (map_of (peers s))(peer_id d := None) \<and>
    (\<forall>sid a. map_of (sessions (socket_cleanup V s ch (Some d))) sid = Some a \<longleftrightarrow>
       map_of (sessions s) sid = Some a \<and> as_host_peer_id a \<noteq> peer_id d \<and> as_client_peer_id a \<noteq> peer_id d) \<and>
    chan_send (socket_cleanup V s ch (Some d)) ch m = (socket_cleanup V s ch (Some d), False)"
proof -
  have "sessions (fst (unregister V s pid)) = sessions s" for pid
    by (auto simp: unregister_def Let_def split: option.split)
  with assms show ?thesis
    by (auto simp: socket_cleanup_def Let_def unregister_peers remove_sessions_for_def map_of_retain
        chan_send_def split: option.splits)
qed

theorem disconnect_cleans_up_witness:
  "map_of (peers (socket_cleanup demo_env demo_relay 20 (Some demo_client))) 2 = None \<and>
   map_of (peers (socket_cleanup demo_env demo_relay 20 (Some demo_client))) 1 \<noteq> None"
  using disconnect_cleans_up[of demo_relay demo_env 20 demo_client] by (simp add: wf_map_def)



subsection \<open>Relay addresses and ICE servers\<close>

text \<open>A TURN relay address is disclosed exactly to the bearer of an unexpired credential under
  this relay's secret that names the key of the connected target peer.\<close>

theorem get_relay_address_bearer:
  "get_relay_address_handler V I s header pid = Ok addr \<longleftrightarrow>
     (\<exists>token cred pk. header = Some (''Bearer '' @ token) \<and> token \<noteq> [] \<and>
        credential_of_token (ev_ext V) token = Some cred \<and>
        credential_verify (ev_ext V) cred (server_secret s) (io_unix I 0) \<and>
        peer_pubkey s pid = Some pk \<and> pk \<in> {cred_host_pubkey cred, cred_client_pubkey cred} \<and>
        get_turn_relay s pid = Some addr)"
proof -
  have b: "bearer_token header = Some token \<longleftrightarrow> header = Some (''Bearer '' @ token) \<and> token \<noteq> []" for token
  proof (cases header)
    case (Some v)
    have "take (length ''Bearer '') v = ''Bearer '' \<longleftrightarrow> v = ''Bearer '' @ drop (length ''Bearer '') v"
      by (metis append_take_drop_id append_same_eq)
    then have sw: "starts_with v ''Bearer '' \<longleftrightarrow> v = ''Bearer '' @ drop 7 v"
      unfolding starts_with_def by (simp add: eval_nat_numeral)
    have "(if starts_with v ''Bearer '' \<and> drop 7 v \<noteq> [] then Some (drop 7 v) else None) = Some token \<longleftrightarrow>
        v = ''Bearer '' @ token \<and> token \<noteq> []"
      unfolding sw by auto
    then show ?thesis by (simp only: bearer_token_def Some option.case option.inject)
  qed (simp add: bearer_token_def)
  have nz: "credential_verify E c k n \<Longrightarrow> cred_has_nonzero_pubkeys c" for E c k n
    by (simp add: credential_verify_iff cred_has_nonzero_pubkeys_def)
  show ?thesis
  proof (cases "bearer_token header")
    case None
    with b show ?thesis by (auto simp: get_relay_address_handler_def validate_get_relay_bearer_def)
  next
    case (Some token)
    then have h: "header = Some (''Bearer '' @ token)" "token \<noteq> []" using b by auto
    have "get_relay_address_handler V I s header pid = Ok addr \<longleftrightarrow>
       (\<exists>cred pk. credential_of_token (ev_ext V) token = Some cred \<and>
        credential_verify (ev_ext V) cred (server_secret s) (io_unix I 0) \<and>
        peer_pubkey s pid = Some pk \<and> pk \<in> {cred_host_pubkey cred, cred_client_pubkey cred} \<and>
        get_turn_relay s pid = Some addr)"
      using nz by (auto simp: get_relay_address_handler_def validate_get_relay_bearer_def Some
          split: option.splits if_splits sum.splits)
    with h show ?thesis by simp
  qed
qed

text \<open>The ICE filter is all or nothing: it returns the candidate list unchanged exactly when
  every URL of every server is on the signed list and every server's first URL has a STUN or TURN
  scheme.\<close>

theorem filter_ice_all_or_nothing:
  "filter_ice_servers_to_allowlist cands al = Ok out \<longleftrightarrow>
     out = cands \<and> list_all (\<lambda>srv. set (ice_urls srv) \<subseteq> set (ia_urls al) \<and>
       (case ice_urls srv of [] \<Rightarrow> False | u # _ \<Rightarrow> ice_url_is_valid u)) cands"
proof -
  have nil: "\<not> ice_url_is_valid []"
  proof -
    have "trim_start [] = []" by (subst trim_start.simps) (simp add: ws_len_def)
    moreover have "trim_end [] = []" by (subst trim_end.simps) (simp add: ws_tail_def)
    ultimately show ?thesis by (simp add: ice_url_is_valid_def to_ascii_lowercase_def starts_with_def)
  qed
  have "filter_ice_loop (ia_urls al) cands = Ok out \<longleftrightarrow>
     out = cands \<and> list_all (\<lambda>srv. set (ice_urls srv) \<subseteq> set (ia_urls al) \<and>
       (case ice_urls srv of [] \<Rightarrow> False | u # _ \<Rightarrow> ice_url_is_valid u)) cands"
  proof (induction cands arbitrary: out)
    case (Cons srv rest)
    have off: "filter (\<lambda>u. u \<notin> set (ia_urls al)) (ice_urls srv) = [] \<longleftrightarrow>
        set (ice_urls srv) \<subseteq> set (ia_urls al)"
      by (auto simp: filter_empty_conv)
    let ?ok = "set (ice_urls srv) \<subseteq> set (ia_urls al) \<and>
        (case ice_urls srv of [] \<Rightarrow> False | u # _ \<Rightarrow> ice_url_is_valid u)"
    have step: "filter_ice_loop (ia_urls al) (srv # rest) = Ok out \<longleftrightarrow>
        ?ok \<and> (\<exists>out'. filter_ice_loop (ia_urls al) rest = Ok out' \<and> out = srv # out')"
      unfolding filter_ice_loop.simps Let_def off
      using nil by (auto split: list.split sum.split)
    show ?case unfolding step Cons.IH by auto
  qed auto
  then show ?thesis by (simp add: filter_ice_servers_to_allowlist_def)
qed

end
