(* ===== verification/Input_Coalescer.thy ===== *)
theory Input_Coalescer
  imports Qubox_Prelude
begin

text \<open>
  The input event coalescer (\<open>crates/qubox-proto/src/coalescer.rs\<close>). Every \<open>Instant::now()\<close> is an
  argument; \<open>None\<close> is the panic of \<open>last_mut().unwrap()\<close> on a coalescer of capacity zero.
\<close>

definition DEFAULT_COALESCE_WINDOW :: nat where "DEFAULT_COALESCE_WINDOW = 1000000"
definition COALESCE_MAX_EVENTS :: nat where "COALESCE_MAX_EVENTS = 16"

datatype flush_reason = Deadline | QueueEmpty | BurstTerminator

record 'e coalescer =
  pending :: "('e \<times> nat) list"
  last_event_time :: nat
  window :: nat
  max_events :: nat

definition coalescer_new :: "nat \<Rightarrow> nat \<Rightarrow> nat \<Rightarrow> 'e coalescer" where
  "coalescer_new w mx now = \<lparr>pending = [], last_event_time = now, window = w, max_events = mx\<rparr>"

definition coalescer_push :: "'e coalescer \<Rightarrow> 'e \<Rightarrow> nat \<Rightarrow> 'e coalescer option" where
  "coalescer_push c e now =
     (let c1 = (if pending c = [] then c\<lparr>last_event_time := now\<rparr> else c) in
      if length (pending c1) < max_events c1 then Some (c1\<lparr>pending := pending c1 @ [(e, now)]\<rparr>)
      else if pending c1 = [] then None
      else Some (c1\<lparr>pending := butlast (pending c1) @ [(e, now)]\<rparr>))"

definition should_flush :: "'e coalescer \<Rightarrow> bool \<Rightarrow> nat \<Rightarrow> flush_reason option" where
  "should_flush c has_burst_flag now =
     (if has_burst_flag then Some BurstTerminator
      else if pending c = [] then None
      else if now - last_event_time c \<ge> window c then Some Deadline
      else None)"

definition coalescer_flush :: "'e coalescer \<Rightarrow> 'e coalescer \<times> 'e list" where
  "coalescer_flush c = (c\<lparr>pending := []\<rparr>, map fst (pending c))"

fun push_all :: "'e coalescer \<Rightarrow> ('e \<times> nat) list \<Rightarrow> 'e coalescer option" where
  "push_all c [] = Some c"
| "push_all c ((e, t) # es) =
     (case coalescer_push c e t of None \<Rightarrow> None | Some c' \<Rightarrow> push_all c' es)"

subsection \<open>Properties\<close>

text \<open>What a buffer of capacity \<open>mx\<close> keeps of a batch: everything, or the first \<open>mx - 1\<close> events and
  the newest.\<close>

definition kept :: "nat \<Rightarrow> 'a list \<Rightarrow> 'a list" where
  "kept mx es = (if length es \<le> mx then es else take (mx - 1) es @ [last es])"

lemma kept_snoc:
  assumes "0 < mx"
  shows "kept mx (es @ [e]) = (if length (kept mx es) < mx then kept mx es @ [e] else butlast (kept mx es) @ [e])"
proof (cases "length es < mx")
  case False
  then have "length (kept mx es) = mx" using assms by (auto simp: kept_def)
  moreover have "butlast (kept mx es) = take (mx - 1) es"
    using False by (auto simp: kept_def butlast_conv_take)
  ultimately show ?thesis using False assms by (simp add: kept_def)
qed (simp add: kept_def)

lemma kept_Nil_iff: "0 < mx \<Longrightarrow> kept mx es = [] \<longleftrightarrow> es = []"
  by (auto simp: kept_def)

lemma push_all_snoc: "push_all c (es @ [(e, t)]) =
    (case push_all c es of None \<Rightarrow> None | Some c' \<Rightarrow> coalescer_push c' e t)"
  by (induction c es rule: push_all.induct) (auto split: option.splits)

lemma push_all_kept:
  assumes "0 < mx"
  shows "push_all (coalescer_new w mx t0) es =
    Some \<lparr>pending = kept mx es, last_event_time = (if es = [] then t0 else snd (hd es)), window = w, max_events = mx\<rparr>"
proof (induction es rule: rev_induct)
  case Nil
  then show ?case by (simp add: coalescer_new_def kept_def)
next
  case (snoc x es)
  obtain e t where x: "x = (e, t)" by fastforce
  show ?case
    using snoc kept_snoc[OF assms, of es x] kept_Nil_iff[OF assms, of es] assms
    by (simp add: x push_all_snoc coalescer_push_def Let_def)
qed

text \<open>A coalescer of positive capacity never panics and never exceeds it. A batch pushed from empty
  flushes to all its events in order if they fit and otherwise to the first ones and the newest;
  without a terminator it asks for a flush exactly when the window has passed since the first
  event, and after the flush it is empty.\<close>

theorem coalescer_batch:
  assumes "0 < mx" and "es \<noteq> []"
  shows "\<exists>c. push_all (coalescer_new w mx t0) es = Some c \<and>
    snd (coalescer_flush c) = map fst (kept mx es) \<and> length (pending c) = min (length es) mx \<and>
    (should_flush c False now = (if snd (hd es) + w \<le> now \<or> w = 0 then Some Deadline else None)) \<and>
    pending (fst (coalescer_flush c)) = []"
proof -
  have "length (kept mx es) = min (length es) mx" using assms(1) by (auto simp: kept_def)
  moreover have "kept mx es \<noteq> []" using assms by (simp add: kept_Nil_iff)
  ultimately show ?thesis
    using assms(2) by (auto simp: push_all_kept[OF assms(1)] coalescer_flush_def should_flush_def)
qed

theorem coalescer_batch_witness:
  "\<exists>c. push_all (coalescer_new 1000 3 0) [(10 :: int, 1), (20, 2), (30, 3), (40, 4)] = Some c \<and>
     snd (coalescer_flush c) = [10, 20, 40]"
  using coalescer_batch[of 3 "[(10 :: int, 1), (20, 2), (30, 3), (40, 4)]" 1000 0 0]
  by (auto simp: kept_def)

end
