(* ===== verification/Host_Pin.thy ===== *)
theory Host_Pin
  imports Proto_Trust
begin

text \<open>
  The host agent's PIN policy and recovery key: \<open>pin.rs\<close> and \<open>recovery.rs\<close>. Argon2id, the
  XChaCha20-Poly1305 cipher and the hex codec are the fields of the record \<open>pin_ext\<close>; the salts and
  nonces a call draws from the operating system are arguments. The policy file is the value
  \<open>pn_file\<close>, a failing write is the argument \<open>write_ok\<close>.
\<close>

record pin_ext =
  argon2id :: "bytes \<Rightarrow> bytes \<Rightarrow> bytes option"
  hex_enc :: "bytes \<Rightarrow> string"
  hex_dec :: "string \<Rightarrow> bytes option"
  aead_encrypt :: "bytes \<Rightarrow> bytes \<Rightarrow> bytes \<Rightarrow> bytes \<Rightarrow> bytes option"
  aead_decrypt :: "bytes \<Rightarrow> bytes \<Rightarrow> bytes \<Rightarrow> bytes \<Rightarrow> bytes option"

text \<open>What the code relies on: hex text decodes to the bytes it was made from, the key derivation
  fills its 32-byte buffer, and decryption under the same key, nonce and label inverts encryption.\<close>

definition hex_ok :: "pin_ext \<Rightarrow> bool" where
  "hex_ok X \<longleftrightarrow> (\<forall>bs. hex_dec X (hex_enc X bs) = Some bs)"

definition kdf_ok :: "pin_ext \<Rightarrow> bool" where
  "kdf_ok X \<longleftrightarrow> (\<forall>p salt d. argon2id X p salt = Some d \<longrightarrow> length d = 32)"

definition aead_ok :: "pin_ext \<Rightarrow> bool" where
  "aead_ok X \<longleftrightarrow> (\<forall>k n a m ct. aead_encrypt X k n a m = Some ct \<longrightarrow> aead_decrypt X k n a ct = Some m)"

abbreviation str_bytes :: "string \<Rightarrow> bytes" where
  "str_bytes s \<equiv> map of_char s"

subsection \<open>Policy and store\<close>

definition PIN_HASH_ALGO :: string where "PIN_HASH_ALGO = ''argon2id-v1''"

record stored_pin =
  pn_algo :: string
  pn_salt_hex :: string
  pn_hash_hex :: string

datatype pin_mode = PinOff | PinOn | PinRequired

record pin_policy =
  pn_mode :: pin_mode
  pn_hash :: "stored_pin option"

definition default_pin_policy :: pin_policy where
  "default_pin_policy = \<lparr>pn_mode = PinOff, pn_hash = None\<rparr>"

definition requires_pin :: "pin_policy \<Rightarrow> bool" where
  "requires_pin p = (case pn_mode p of
       PinOff \<Rightarrow> False | PinOn \<Rightarrow> pn_hash p \<noteq> None | PinRequired \<Rightarrow> True)"

record pin_store =
  pn_path :: string
  pn_state :: pin_policy
  pn_file :: "pin_policy option"

definition pin_memory :: pin_store where
  "pin_memory = \<lparr>pn_path = [], pn_state = default_pin_policy, pn_file = None\<rparr>"

text \<open>The file is absent (\<open>None\<close>), unreadable (\<open>Some None\<close>), or its JSON parses or not; text that does
  not parse is the default policy.\<close>

definition pin_from_path :: "string \<Rightarrow> pin_policy option option option \<Rightarrow> pin_store option" where
  "pin_from_path path file =
     (case file of
        None \<Rightarrow> Some \<lparr>pn_path = path, pn_state = default_pin_policy, pn_file = None\<rparr>
      | Some None \<Rightarrow> None
      | Some (Some parsed) \<Rightarrow> Some \<lparr>pn_path = path,
          pn_state = (case parsed of Some p \<Rightarrow> p | None \<Rightarrow> default_pin_policy), pn_file = parsed\<rparr>)"

definition pin_snapshot :: "pin_store \<Rightarrow> pin_policy" where
  "pin_snapshot s = pn_state s"

definition pin_persist :: "bool \<Rightarrow> pin_store \<Rightarrow> pin_store \<times> (string, unit) result" where
  "pin_persist write_ok s =
     (if pn_path s = [] then (s, Ok ())
      else if write_ok then (s\<lparr>pn_file := Some (pn_state s)\<rparr>, Ok ())
      else (s, Err ''write policy''))"

definition pin_replace :: "bool \<Rightarrow> pin_store \<Rightarrow> pin_policy \<Rightarrow> pin_store \<times> (string, unit) result" where
  "pin_replace write_ok s p = pin_persist write_ok (s\<lparr>pn_state := p\<rparr>)"

subsection \<open>Verifying and hashing\<close>

text \<open>The accumulator of the comparison loop over the zipped bytes.\<close>

definition constant_time_eq :: "bytes \<Rightarrow> bytes \<Rightarrow> bool" where
  "constant_time_eq a b =
     (if length a \<noteq> length b then False
      else foldl (\<lambda>diff (x, y). diff OR (x XOR y)) 0 (zip a b) = 0)"

definition verify_pin :: "pin_ext \<Rightarrow> stored_pin \<Rightarrow> string \<Rightarrow> (string, bool) result" where
  "verify_pin X stored candidate =
     (if pn_algo stored \<noteq> PIN_HASH_ALGO then Err ''unsupported PIN hash algo''
      else case hex_dec X (pn_salt_hex stored) of
        None \<Rightarrow> Err ''invalid salt hex''
      | Some salt \<Rightarrow>
         (case hex_dec X (pn_hash_hex stored) of
            None \<Rightarrow> Err ''invalid hash hex''
          | Some expected \<Rightarrow>
             if length salt \<noteq> 16 then Err ''PIN salt must be 16 bytes''
             else if length expected \<noteq> 32 then Err ''PIN hash must be 32 bytes''
             else (case argon2id X (str_bytes candidate) salt of
                None \<Rightarrow> Err ''argon2 derive failed''
              | Some derived \<Rightarrow> Ok (constant_time_eq derived expected))))"

definition hash_pin :: "pin_ext \<Rightarrow> bytes \<Rightarrow> string \<Rightarrow> (string, stored_pin) result" where
  "hash_pin X salt pin =
     (case argon2id X (str_bytes pin) salt of
        None \<Rightarrow> Err ''argon2 hash failed''
      | Some h \<Rightarrow> Ok \<lparr>pn_algo = PIN_HASH_ALGO, pn_salt_hex = hex_enc X salt, pn_hash_hex = hex_enc X h\<rparr>)"

definition env_pin :: "string option \<Rightarrow> string option" where
  "env_pin v = (case v of Some p \<Rightarrow> if p = [] then None else Some p | None \<Rightarrow> None)"

subsection \<open>Updating the PIN\<close>

datatype pin_update_outcome = PinAccepted | PinRejected string

text \<open>The gate: \<open>Inl\<close> is an early rejection, \<open>Inr\<close> whether a proof was given.\<close>

definition pin_update_gate ::
    "pin_ext \<Rightarrow> pin_policy \<Rightarrow> string option \<Rightarrow> bytes option \<Rightarrow> bool \<Rightarrow> (bytes \<Rightarrow> bool) \<Rightarrow>
     (string, bool) result" where
  "pin_update_gate X current old_pin recovery ack matches =
     (case pn_hash current of
        None \<Rightarrow>
          if old_pin = None \<and> recovery = None \<and> \<not> ack
          then Err ''first PIN enrollment requires old PIN, recovery key, or physical ack''
          else Ok ack
      | Some stored \<Rightarrow>
         (case (case old_pin of
                  None \<Rightarrow> Ok ack
                | Some old \<Rightarrow>
                   (case verify_pin X stored old of
                      Inr True \<Rightarrow> Ok True
                    | Inr False \<Rightarrow> Err ''old PIN does not match stored hash''
                    | Inl e \<Rightarrow> Err (''verify_pin failed: '' @ e))) of
            Inl e \<Rightarrow> Err e
          | Inr gate \<Rightarrow>
             (case recovery of
                None \<Rightarrow> Ok gate
              | Some key \<Rightarrow> if matches key then Ok True else Err ''recovery key does not match'')))"

definition apply_pin_update ::
    "pin_ext \<Rightarrow> bytes \<Rightarrow> bool \<Rightarrow> pin_store \<Rightarrow> string \<Rightarrow> string option \<Rightarrow> bytes option \<Rightarrow> bool \<Rightarrow>
     (bytes \<Rightarrow> bool) \<Rightarrow> pin_store \<times> pin_update_outcome" where
  "apply_pin_update X salt write_ok s new_pin old_pin recovery ack matches =
     (let current = pin_snapshot s in
      case pin_update_gate X current old_pin recovery ack matches of
        Inl e \<Rightarrow> (s, PinRejected e)
      | Inr gate \<Rightarrow>
         if \<not> gate
         then (s, PinRejected ''PIN update gate failed: provide old PIN, recovery key, or physical ack'')
         else (case hash_pin X salt new_pin of
            Inl e \<Rightarrow> (s, PinRejected (''hash_pin failed: '' @ e))
          | Inr hashed \<Rightarrow>
             (case pin_replace write_ok s (current\<lparr>pn_hash := Some hashed\<rparr>) of
                (s', Inl e) \<Rightarrow> (s', PinRejected (''persist failed: '' @ e))
              | (s', Inr _) \<Rightarrow> (s', PinAccepted))))"

subsection \<open>The recovery key\<close>

definition RECOVERY_KEY_LEN :: nat where "RECOVERY_KEY_LEN = 32"
definition WRAP_NONCE_LEN :: nat where "WRAP_NONCE_LEN = 24"
definition WRAP_KDF_ALGO :: string where "WRAP_KDF_ALGO = ''argon2id-v1''"
definition WRAP_CIPHER :: string where "WRAP_CIPHER = ''xchacha20poly1305-v1''"
definition RECOVERY_AAD :: bytes where "RECOVERY_AAD = str_bytes ''qubox-recovery-v1''"

definition recovery_matches :: "bytes \<Rightarrow> bytes \<Rightarrow> bool" where
  "recovery_matches key candidate =
     (if length candidate \<noteq> length key then False
      else foldl (\<lambda>diff (a, b). diff OR (a XOR b)) 0 (zip key candidate) = 0)"

record recovery_record =
  rk_kdf :: string
  rk_salt_hex :: string
  rk_wrap :: string
  rk_wrapped_hex :: string
  rk_nonce_hex :: string
  rk_created :: "u64 option"

definition recovery_well_formed :: "pin_ext \<Rightarrow> recovery_record \<Rightarrow> bool" where
  "recovery_well_formed X r \<longleftrightarrow>
     rk_kdf r = WRAP_KDF_ALGO \<and> rk_wrap r = WRAP_CIPHER \<and>
     (case hex_dec X (rk_salt_hex r) of Some s \<Rightarrow> length s = 16 | None \<Rightarrow> False) \<and>
     hex_dec X (rk_wrapped_hex r) \<noteq> None \<and>
     (case hex_dec X (rk_nonce_hex r) of Some n \<Rightarrow> length n = WRAP_NONCE_LEN | None \<Rightarrow> False)"

definition derive_wrap_key :: "pin_ext \<Rightarrow> bytes \<Rightarrow> bytes \<Rightarrow> (string, bytes) result" where
  "derive_wrap_key X seed salt =
     (if length salt \<noteq> 16 then Err ''KDF salt must be 16 bytes''
      else case argon2id X seed salt of
        None \<Rightarrow> Err ''argon2 derive failed'' | Some k \<Rightarrow> Ok k)"

definition wrap_key ::
    "pin_ext \<Rightarrow> bytes \<Rightarrow> bytes \<Rightarrow> u64 \<Rightarrow> bytes \<Rightarrow> bytes \<Rightarrow> (string, recovery_record) result" where
  "wrap_key X salt nonce now key seed =
     (case derive_wrap_key X seed salt of
        Inl e \<Rightarrow> Err e
      | Inr wrap \<Rightarrow>
         (case aead_encrypt X wrap nonce RECOVERY_AAD key of
            None \<Rightarrow> Err ''wrap_key encrypt failed''
          | Some ct \<Rightarrow> Ok \<lparr>rk_kdf = WRAP_KDF_ALGO, rk_salt_hex = hex_enc X salt, rk_wrap = WRAP_CIPHER,
              rk_wrapped_hex = hex_enc X ct, rk_nonce_hex = hex_enc X nonce, rk_created = Some now\<rparr>))"

definition unwrap_key :: "pin_ext \<Rightarrow> recovery_record \<Rightarrow> bytes \<Rightarrow> (string, bytes) result" where
  "unwrap_key X r seed =
     (if \<not> recovery_well_formed X r then Err ''recovery record not well-formed''
      else case (hex_dec X (rk_salt_hex r), hex_dec X (rk_wrapped_hex r), hex_dec X (rk_nonce_hex r)) of
        (Some salt, Some ct, Some nonce) \<Rightarrow>
          (case derive_wrap_key X seed salt of
             Inl e \<Rightarrow> Err e
           | Inr wrap \<Rightarrow>
              (case aead_decrypt X wrap nonce RECOVERY_AAD ct of
                 None \<Rightarrow> Err ''unwrap_key decrypt failed''
               | Some pt \<Rightarrow>
                  if length pt \<noteq> RECOVERY_KEY_LEN then Err ''decrypted recovery key has wrong length''
                  else Ok pt))
      | _ \<Rightarrow> Err ''hex'')"

record recovery_store =
  rv_path :: string
  rv_key :: bytes
  rv_record :: recovery_record
  rv_file :: "recovery_record option"

text \<open>\<open>file\<close> is absent, or holds text that may be unreadable or unparsable (\<open>Some None\<close>).\<close>

definition recovery_load_or_generate ::
    "pin_ext \<Rightarrow> bytes \<Rightarrow> bytes \<Rightarrow> bytes \<Rightarrow> u64 \<Rightarrow> bool \<Rightarrow> bytes \<Rightarrow> string \<Rightarrow> recovery_record option option \<Rightarrow>
     (string, recovery_store) result" where
  "recovery_load_or_generate X fresh salt nonce now write_ok seed path file =
     (case file of
        Some None \<Rightarrow> Err ''parse recovery''
      | Some (Some r) \<Rightarrow>
         if \<not> recovery_well_formed X r then Err ''recovery record malformed''
         else (case unwrap_key X r seed of
            Inl e \<Rightarrow> Err e
          | Inr key \<Rightarrow> Ok \<lparr>rv_path = path, rv_key = key, rv_record = r, rv_file = Some r\<rparr>)
      | None \<Rightarrow>
         (case wrap_key X salt nonce now fresh seed of
            Inl e \<Rightarrow> Err e
          | Inr r \<Rightarrow>
             if write_ok then Ok \<lparr>rv_path = path, rv_key = fresh, rv_record = r, rv_file = Some r\<rparr>
             else Err ''write recovery''))"

definition recovery_rotate ::
    "pin_ext \<Rightarrow> bytes \<Rightarrow> bytes \<Rightarrow> bytes \<Rightarrow> u64 \<Rightarrow> bool \<Rightarrow> recovery_store \<Rightarrow> bytes \<Rightarrow>
     recovery_store \<times> (string, bytes) result" where
  "recovery_rotate X fresh salt nonce now write_ok s seed =
     (case wrap_key X salt nonce now fresh seed of
        Inl e \<Rightarrow> (s, Err e)
      | Inr r \<Rightarrow>
         let s1 = s\<lparr>rv_key := fresh, rv_record := r\<rparr> in
         if rv_path s = [] then (s1, Ok fresh)
         else if write_ok then (s1\<lparr>rv_file := Some r\<rparr>, Ok fresh)
         else (s1, Err ''persist''))"

subsection \<open>Properties\<close>

lemma or_xor_eq_0_iff: "d OR (x XOR y) = 0 \<longleftrightarrow> d = 0 \<and> x = (y :: 'a :: len word)"
  by (auto simp: bit_eq_iff bit_or_iff bit_xor_iff)

lemma diff_fold_zero:
  "foldl (\<lambda>diff (x, y). diff OR (x XOR y)) d ps = (0 :: u8) \<longleftrightarrow> d = 0 \<and> list_all (\<lambda>(x, y). x = y) ps"
proof (induction ps arbitrary: d)
  case (Cons p ps)
  obtain x y where p: "p = (x, y)" by (cases p)
  show ?case using Cons.IH by (simp add: p or_xor_eq_0_iff)
qed simp

lemma constant_time_eq_iff: "constant_time_eq a b \<longleftrightarrow> a = b"
  by (auto simp: constant_time_eq_def diff_fold_zero list_all_length list_eq_iff_nth_eq)

lemma recovery_matches_iff: "recovery_matches key c \<longleftrightarrow> c = key"
  by (auto simp: recovery_matches_def diff_fold_zero list_all_length list_eq_iff_nth_eq)

lemma verify_hash_pin:
  assumes "hex_ok X" "kdf_ok X" "length salt = 16" "hash_pin X salt pin = Ok h"
  shows "verify_pin X h pin = Ok True"
  using assms
  by (auto simp: hash_pin_def verify_pin_def hex_ok_def kdf_ok_def constant_time_eq_iff
      split: option.splits)

lemma unwrap_wrap_key:
  assumes "hex_ok X" "aead_ok X" "length nonce = 24" "length key = 32"
    and "wrap_key X salt nonce now key seed = Ok r"
  shows "recovery_well_formed X r \<and> unwrap_key X r seed = Ok key"
  using assms
  by (auto simp: wrap_key_def unwrap_key_def recovery_well_formed_def derive_wrap_key_def hex_ok_def
      aead_ok_def WRAP_NONCE_LEN_def RECOVERY_KEY_LEN_def split: sum.splits if_splits option.splits)

text \<open>What counts as a proof for an update: a physical acknowledgement, or, against an enrolled PIN,
  the old PIN or a matching recovery key.\<close>

definition pin_proof_given ::
    "pin_ext \<Rightarrow> pin_policy \<Rightarrow> string option \<Rightarrow> bytes option \<Rightarrow> bool \<Rightarrow> (bytes \<Rightarrow> bool) \<Rightarrow> bool" where
  "pin_proof_given X current old_pin recovery ack matches \<longleftrightarrow>
     ack \<or> (\<exists>stored. pn_hash current = Some stored \<and>
       ((\<exists>old. old_pin = Some old \<and> verify_pin X stored old = Ok True) \<or>
        (\<exists>key. recovery = Some key \<and> matches key)))"

lemma pin_update_gate_proof:
  "pin_update_gate X current old_pin recovery ack matches = Ok True \<Longrightarrow>
   pin_proof_given X current old_pin recovery ack matches"
  by (auto simp: pin_update_gate_def pin_proof_given_def
      split: option.splits sum.splits bool.splits if_splits)

lemma pin_replace_state [simp]:
  "pn_state (fst (pin_replace w s p)) = p" "pn_path (fst (pin_replace w s p)) = pn_path s"
  by (auto simp: pin_replace_def pin_persist_def)

lemma pin_replace_ok: "pin_replace w s p = (s', Ok ()) \<Longrightarrow> pn_path s = [] \<or> pn_file s' = Some p"
  by (auto simp: pin_replace_def pin_persist_def split: if_splits)

text \<open>C11: A PIN update pushed by the cloud is accepted only with a proof (a physical acknowledgement,
  or the old PIN or the recovery key against an enrolled PIN). After it the new PIN verifies, the mode
  of the policy is unchanged, and a store with a path has the new policy in its file.\<close>

theorem pin_update_accepted:
  assumes "hex_ok X" "kdf_ok X" "length salt = 16"
    and "apply_pin_update X salt w s new old rc ack matches = (s', PinAccepted)"
  shows "pin_proof_given X (pn_state s) old rc ack matches \<and>
    pn_mode (pn_state s') = pn_mode (pn_state s) \<and>
    (\<exists>h. pn_hash (pn_state s') = Some h \<and> verify_pin X h new = Ok True) \<and>
    (pn_path s = [] \<or> pn_file s' = Some (pn_state s'))"
proof -
  let ?g = "pin_update_gate X (pn_state s) old rc ack matches"
  have g: "?g = Ok True" using assms(4)
    by (auto simp: apply_pin_update_def pin_snapshot_def Let_def split: sum.splits if_splits)
  obtain h where h: "hash_pin X salt new = Ok h" using assms(4) g
    by (auto simp: apply_pin_update_def pin_snapshot_def Let_def split: sum.splits)
  let ?p = "(pn_state s)\<lparr>pn_hash := Some h\<rparr>"
  have r: "pin_replace w s ?p = (s', Ok ())" using assms(4) g h
    by (auto simp: apply_pin_update_def pin_snapshot_def Let_def split: sum.splits prod.splits)
  then have "pn_state s' = ?p" using pin_replace_state(1) [of w s ?p] by simp
  with pin_replace_ok [OF r] pin_update_gate_proof [OF g] verify_hash_pin [OF assms(1-3) h]
  show ?thesis by simp
qed

definition demo_pin_ext :: pin_ext where
  "demo_pin_ext = \<lparr>argon2id = (\<lambda>p salt. Some (take 32 (p @ replicate 32 0))),
     hex_enc = map (\<lambda>b. char_of (unat b)), hex_dec = (\<lambda>s. Some (map of_char s)),
     aead_encrypt = (\<lambda>k n a m. Some m), aead_decrypt = (\<lambda>k n a ct. Some ct)\<rparr>"

lemma demo_pin_ok: "hex_ok demo_pin_ext" "kdf_ok demo_pin_ext" "aead_ok demo_pin_ext"
  by (auto simp: hex_ok_def kdf_ok_def aead_ok_def demo_pin_ext_def comp_def of_char_char_of_byte min_def)

theorem pin_update_accepted_witness:
  "\<exists>h. pn_hash (pn_state (fst (apply_pin_update demo_pin_ext (replicate 16 0) True pin_memory
      ''1234'' None None True (\<lambda>_. False)))) = Some h \<and> verify_pin demo_pin_ext h ''1234'' = Ok True"
proof -
  have "apply_pin_update demo_pin_ext (replicate 16 0) True pin_memory ''1234'' None None True (\<lambda>_. False)
     = (fst (apply_pin_update demo_pin_ext (replicate 16 0) True pin_memory ''1234'' None None True (\<lambda>_. False)),
        PinAccepted)"
    by (simp add: apply_pin_update_def pin_snapshot_def pin_memory_def default_pin_policy_def
        pin_update_gate_def hash_pin_def demo_pin_ext_def pin_replace_def pin_persist_def)
  from pin_update_accepted [OF demo_pin_ok(1,2) _ this] show ?thesis by simp
qed

text \<open>A rejected update leaves the store as it was, except when the new hash was computed and the
  policy file could not be written: then the update is reported as rejected although the new PIN is
  already in force and the old one is gone until the next restart.\<close>

theorem pin_update_rejected:
  assumes "apply_pin_update X salt w s new old rc ack matches = (s', PinRejected e)"
  shows "s' = s \<or> (pn_path s \<noteq> [] \<and> \<not> w \<and>
    (\<exists>h. hash_pin X salt new = Ok h \<and> s' = s\<lparr>pn_state := (pn_state s)\<lparr>pn_hash := Some h\<rparr>\<rparr>))"
  using assms
  by (auto simp: apply_pin_update_def pin_snapshot_def pin_replace_def pin_persist_def Let_def
      split: sum.splits if_splits)

theorem pin_update_rejected_witness:
  "let s = \<lparr>pn_path = ''p'', pn_state = default_pin_policy, pn_file = None\<rparr>;
       r = apply_pin_update demo_pin_ext (replicate 16 0) False s ''1234'' None None True (\<lambda>_. False)
   in snd r = PinRejected ''persist failed: write policy'' \<and> fst r \<noteq> s \<and>
      (\<exists>h. hash_pin demo_pin_ext (replicate 16 0) ''1234'' = Ok h \<and>
         fst r = s\<lparr>pn_state := (pn_state s)\<lparr>pn_hash := Some h\<rparr>\<rparr>)"
proof -
  let ?s = "\<lparr>pn_path = ''p'', pn_state = default_pin_policy, pn_file = None\<rparr>"
  let ?r = "apply_pin_update demo_pin_ext (replicate 16 0) False ?s ''1234'' None None True (\<lambda>_. False)"
  have r: "snd ?r = PinRejected ''persist failed: write policy''" "fst ?r \<noteq> ?s"
    by (simp_all add: apply_pin_update_def pin_snapshot_def default_pin_policy_def
        pin_update_gate_def hash_pin_def demo_pin_ext_def pin_replace_def pin_persist_def)
  then have "?r = (fst ?r, PinRejected ''persist failed: write policy'')" by (metis prod.collapse)
  from pin_update_rejected [OF this] r show ?thesis by (simp add: Let_def)
qed

text \<open>The recovery key survives a restart: a store that was generated or rotated with its file
  written is read back from that file with the same seed to the same key, and the stored comparison
  accepts exactly that key.\<close>

theorem recovery_restart:
  assumes "hex_ok X" "aead_ok X" "length nonce = 24" "length fresh = 32"
    and "recovery_load_or_generate X fresh salt nonce now True seed path None = Ok s \<or>
      (\<exists>s0. rv_path s0 = path \<and> path \<noteq> [] \<and> recovery_rotate X fresh salt nonce now True s0 seed = (s, Ok fresh))"
  shows "\<exists>r s'. rv_file s = Some r \<and>
    recovery_load_or_generate X fresh' salt' nonce' now' w seed path (Some (Some r)) = Ok s' \<and>
    rv_key s' = fresh \<and> (\<forall>c. recovery_matches (rv_key s') c \<longleftrightarrow> c = fresh)"
proof -
  have "\<exists>r. rv_file s = Some r \<and> wrap_key X salt nonce now fresh seed = Ok r"
    using assms(5)
    by (auto simp: recovery_load_or_generate_def recovery_rotate_def Let_def split: sum.splits)
  then obtain r where r: "rv_file s = Some r" "wrap_key X salt nonce now fresh seed = Ok r" by blast
  from unwrap_wrap_key [OF assms(1-4) r(2)] r(1) show ?thesis
    by (simp add: recovery_load_or_generate_def recovery_matches_iff)
qed

theorem recovery_restart_witness:
  "\<exists>s r s'. recovery_load_or_generate demo_pin_ext (replicate 32 7) (replicate 16 0) (replicate 24 0) 1
        True [9] ''p'' None = Ok s \<and> rv_file s = Some r \<and>
     recovery_load_or_generate demo_pin_ext [] [] [] 2 False [9] ''p'' (Some (Some r)) = Ok s' \<and>
     rv_key s' = replicate 32 7"
proof -
  have "\<exists>s. recovery_load_or_generate demo_pin_ext (replicate 32 7) (replicate 16 0) (replicate 24 0) 1
        True [9] ''p'' None = Ok s"
    by (simp add: recovery_load_or_generate_def wrap_key_def derive_wrap_key_def demo_pin_ext_def)
  then obtain s where s: "recovery_load_or_generate demo_pin_ext (replicate 32 7) (replicate 16 0)
      (replicate 24 0) 1 True [9] ''p'' None = Ok s" ..
  from recovery_restart [OF demo_pin_ok(1,3) _ _ disjI1 [OF s]] s show ?thesis by simp metis
qed

end
