(* ===== verification/Host_Enforce.thy ===== *)
theory Host_Enforce
  imports Host_Pin Jti_Cache Jwks_Client
begin

text \<open>
  The host agent's enforcement state, \<open>enforce.rs\<close>: the waiting PIN and operator gates, the activity
  tracker of the idle watchdog, and the local verification of forwarded bundles and kill envelopes
  over the single-use cache of \<open>Jti_Cache\<close> and the key client of \<open>Jwks_Client\<close>. A oneshot sender is
  the number of its channel. Wall-clock milliseconds are \<open>i64\<close> in the code: a 64-bit word, compared
  signed where the code compares \<open>i64\<close>, with Rust's release-mode wrapping addition.
\<close>

definition PIN_BUNDLE_TIMEOUT :: nat where "PIN_BUNDLE_TIMEOUT = 30 * 1000"
definition OPERATOR_DECISION_TIMEOUT :: nat where "OPERATOR_DECISION_TIMEOUT = 60 * 1000"
definition WATCHDOG_INTERVAL :: nat where "WATCHDOG_INTERVAL = 5 * 1000"

record pending_bundle =
  pb_expected_client :: uuid
  pb_received :: bool
  pb_deliver :: nat

record pending_decision =
  pd_deliver :: nat

subsection \<open>Activity tracker\<close>

type_synonym activity_tracker = "(uuid, nat) hmap"

definition activity_touch :: "activity_tracker \<Rightarrow> uuid \<Rightarrow> nat \<Rightarrow> activity_tracker" where
  "activity_touch a sid now = AList.update sid now a"

definition activity_remove :: "activity_tracker \<Rightarrow> uuid \<Rightarrow> activity_tracker" where
  "activity_remove a sid = AList.delete sid a"

definition collect_stale :: "activity_tracker \<Rightarrow> nat \<Rightarrow> nat \<Rightarrow> uuid list" where
  "collect_stale a idle_timeout now =
     List.map_filter (\<lambda>(sid, seen_at). if now - seen_at \<ge> idle_timeout then Some sid else None) a"

subsection \<open>Enforcement state\<close>

datatype bundle_verify_error_local =
    JwksNotConfigured | LJwks string | LExpired u64 u64 | LAudience string string | LJti jti_error

definition SKEW_TOLERANCE_MS_MS :: u64 where "SKEW_TOLERANCE_MS_MS = 5 * 60 * 1000"

record enforcement_state =
  en_pending_bundles :: "(uuid, pending_bundle) hmap"
  en_pending_decisions :: "(uuid, pending_decision) hmap"
  en_activity :: activity_tracker
  en_jti :: jti_cache
  en_jwks :: "jwks_client option"

text \<open>\<open>client\<close> is the client for \<open>QUBOX_HOST_JWKS_URL\<close>: none when the variable is unset or the client
  cannot be built.\<close>

definition enforcement_from_env :: "jwks_client option \<Rightarrow> enforcement_state" where
  "enforcement_from_env client = \<lparr>en_pending_bundles = [], en_pending_decisions = [],
     en_activity = [], en_jti = jti_new, en_jwks = client\<rparr>"

definition register_pending_bundle :: "enforcement_state \<Rightarrow> uuid \<Rightarrow> pending_bundle \<Rightarrow> enforcement_state" where
  "register_pending_bundle s sid p = s\<lparr>en_pending_bundles := AList.update sid p (en_pending_bundles s)\<rparr>"

definition take_pending_bundle :: "enforcement_state \<Rightarrow> uuid \<Rightarrow> enforcement_state \<times> pending_bundle option" where
  "take_pending_bundle s sid =
     (s\<lparr>en_pending_bundles := AList.delete sid (en_pending_bundles s)\<rparr>, map_of (en_pending_bundles s) sid)"

definition register_pending_decision :: "enforcement_state \<Rightarrow> uuid \<Rightarrow> pending_decision \<Rightarrow> enforcement_state" where
  "register_pending_decision s sid p = s\<lparr>en_pending_decisions := AList.update sid p (en_pending_decisions s)\<rparr>"

definition take_pending_decision :: "enforcement_state \<Rightarrow> uuid \<Rightarrow> enforcement_state \<times> pending_decision option" where
  "take_pending_decision s sid =
     (s\<lparr>en_pending_decisions := AList.delete sid (en_pending_decisions s)\<rparr>, map_of (en_pending_decisions s) sid)"

definition drop_pending :: "enforcement_state \<Rightarrow> uuid \<Rightarrow> enforcement_state" where
  "drop_pending s sid = s\<lparr>en_pending_bundles := AList.delete sid (en_pending_bundles s),
     en_pending_decisions := AList.delete sid (en_pending_decisions s)\<rparr>"

definition touch_activity :: "enforcement_state \<Rightarrow> uuid \<Rightarrow> nat \<Rightarrow> enforcement_state" where
  "touch_activity s sid now = s\<lparr>en_activity := activity_touch (en_activity s) sid now\<rparr>"

definition remove_activity :: "enforcement_state \<Rightarrow> uuid \<Rightarrow> enforcement_state" where
  "remove_activity s sid = s\<lparr>en_activity := activity_remove (en_activity s) sid\<rparr>"

definition collect_stale_sessions :: "enforcement_state \<Rightarrow> nat \<Rightarrow> nat \<Rightarrow> uuid list" where
  "collect_stale_sessions s idle_timeout now = collect_stale (en_activity s) idle_timeout now"

subsection \<open>Verification\<close>

fun str_contains :: "string \<Rightarrow> string \<Rightarrow> bool" where
  "str_contains s p = (starts_with s p \<or> (case s of [] \<Rightarrow> False | _ # t \<Rightarrow> str_contains t p))"

declare str_contains.simps [simp del]

text \<open>The first piece of \<open>split(':')\<close> always exists, so the audience test is \<open>sub.contains\<close>.\<close>

definition verify_bundle_locally ::
    "enforcement_state \<Rightarrow> session_bundle_info \<Rightarrow> string \<Rightarrow> 64 word \<Rightarrow>
     enforcement_state \<times> (bundle_verify_error_local, unit) result" where
  "verify_bundle_locally s bundle self_device_id now =
     (if sint (bi_exp_unix_ms bundle + SKEW_TOLERANCE_MS_MS) \<le> sint now
      then (s, Err (LExpired (bi_exp_unix_ms bundle) now))
      else if \<not> str_contains (bi_sub bundle) self_device_id \<and> bi_sub bundle \<noteq> []
      then (s, Err (LAudience self_device_id (bi_sub bundle)))
      else (case check_and_mark (en_jti s) (bi_jti bundle) (bi_exp_unix_ms bundle) now of
         (c, Inl e) \<Rightarrow> (s\<lparr>en_jti := c\<rparr>, Err (LJti e))
       | (c, Inr _) \<Rightarrow> (s\<lparr>en_jti := c\<rparr>, Ok ())))"

text \<open>One read of the key endpoint: the fetched body and the clock before and after the fetch.\<close>

type_synonym key_io = "fetch_result \<times> nat \<times> nat"

definition verify_signed_kill_envelope ::
    "ext \<Rightarrow> jwks_decoders \<Rightarrow> jwks_client \<Rightarrow> signed_kill_envelope \<Rightarrow> key_io \<Rightarrow> key_io \<Rightarrow>
     jwks_client \<times> (string, signed_kill) result" where
  "verify_signed_kill_envelope E D jwks env io1 io2 =
     (case io1 of (body1, now1, later1) \<Rightarrow>
      case verify_bundle E D jwks (ke_envelope env) body1 now1 later1 of
        (j1, Inl _) \<Rightarrow> (j1, Err ''jwks verify_bundle'')
      | (j1, Inr _) \<Rightarrow>
         (case io2 of (body2, now2, later2) \<Rightarrow>
          case jwks_lookup D j1 (sb_kid (ke_envelope env)) body2 now2 later2 of
            (j2, Inl _) \<Rightarrow> (j2, Err ''jwks lookup'')
          | (j2, Inr pk) \<Rightarrow>
             (j2, if \<not> ed_key_ok E pk then Err ''bad ed25519 key''
                  else (case bundle_decode E (kill_of_json E) (ke_envelope env) pk of
                     Inl _ \<Rightarrow> Err ''decode'' | Inr k \<Rightarrow> Ok k))))"

definition verify_kill_envelope_local ::
    "ext \<Rightarrow> jwks_decoders \<Rightarrow> enforcement_state \<Rightarrow> signed_kill_envelope \<Rightarrow> key_io \<Rightarrow> key_io \<Rightarrow> 64 word \<Rightarrow>
     enforcement_state \<times> (bundle_verify_error_local, signed_kill) result" where
  "verify_kill_envelope_local E D s env io1 io2 now =
     (case en_jwks s of
        None \<Rightarrow> (s, Err JwksNotConfigured)
      | Some jwks \<Rightarrow>
         (case verify_signed_kill_envelope E D jwks env io1 io2 of
            (j, Inl e) \<Rightarrow> (s\<lparr>en_jwks := Some j\<rparr>, Err (LJwks e))
          | (j, Inr payload) \<Rightarrow>
             let s1 = s\<lparr>en_jwks := Some j\<rparr>; exp = sk_exp payload; my_id = sk_aud (ke_payload env) in
             if exp + SKEW_TOLERANCE_MS_MS \<le> now then (s1, Err (LExpired exp now))
             else if my_id \<noteq> [] \<and> sk_aud payload \<noteq> my_id then (s1, Err (LAudience my_id (sk_aud payload)))
             else (case check_and_mark (en_jti s1) (sk_jti payload) exp now of
                (c, Inl e) \<Rightarrow> (s1\<lparr>en_jti := c\<rparr>, Err (LJti e))
              | (c, Inr _) \<Rightarrow> (s1\<lparr>en_jti := c\<rparr>, Ok payload))))"

definition verify_pin_proof :: "session_bundle_info \<Rightarrow> pin_store \<Rightarrow> bool" where
  "verify_pin_proof bundle store =
     (case bi_pin_proof bundle of
        None \<Rightarrow> False
      | Some proof \<Rightarrow>
         if \<not> pin_hash_match proof then False
         else if \<not> requires_pin (pin_snapshot store) then False
         else True)"

subsection \<open>Properties\<close>

lemma collect_stale_iff:
  assumes "wf_map a"
  shows "sid \<in> set (collect_stale a timeout now) \<longleftrightarrow>
    (\<exists>t. map_of a sid = Some t \<and> timeout \<le> now - t)"
proof -
  have "set (collect_stale a timeout now) = {sid. \<exists>t. (sid, t) \<in> set a \<and> timeout \<le> now - t}"
    by (force simp: collect_stale_def List.map_filter_def split: if_splits)
  with assms show ?thesis by (simp add: map_of_in_set)
qed

lemma verify_bundle_locally_ok:
  "verify_bundle_locally s b self now = (s', Ok ()) \<longleftrightarrow>
     \<not> sint (bi_exp_unix_ms b + SKEW_TOLERANCE_MS_MS) \<le> sint now \<and>
     (str_contains (bi_sub b) self \<or> bi_sub b = []) \<and>
     (\<exists>c. check_and_mark (en_jti s) (bi_jti b) (bi_exp_unix_ms b) now = (c, Ok ()) \<and> s' = s\<lparr>en_jti := c\<rparr>)"
  by (auto simp: verify_bundle_locally_def split: prod.splits sum.splits)

lemma verify_kill_ok:
  assumes "verify_kill_envelope_local E D s env io1 io2 now = (s', Ok k)"
  shows "\<exists>jwks j c. en_jwks s = Some jwks \<and> verify_signed_kill_envelope E D jwks env io1 io2 = (j, Ok k) \<and>
    \<not> sk_exp k + SKEW_TOLERANCE_MS_MS \<le> now \<and> (sk_aud (ke_payload env) = [] \<or> sk_aud k = sk_aud (ke_payload env)) \<and>
    check_and_mark (en_jti s) (sk_jti k) (sk_exp k) now = (c, Ok ()) \<and>
    s' = s\<lparr>en_jwks := Some j, en_jti := c\<rparr>"
  using assms
  by (auto simp: verify_kill_envelope_local_def Let_def split: option.splits prod.splits sum.splits if_splits)

text \<open>The two verifications as operations on the shared single-use cache.\<close>

datatype enforce_op =
    EnBundle session_bundle_info string "64 word"
  | EnKill signed_kill_envelope key_io key_io "64 word"
  | EnPendingBundle uuid pending_bundle | EnPendingDecision uuid pending_decision
  | EnTakeBundle uuid | EnTakeDecision uuid | EnDrop uuid | EnTouch uuid nat | EnRemove uuid

fun enforce_step :: "ext \<Rightarrow> jwks_decoders \<Rightarrow> enforcement_state \<Rightarrow> enforce_op \<Rightarrow> enforcement_state" where
  "enforce_step E D s (EnBundle b self now) = fst (verify_bundle_locally s b self now)"
| "enforce_step E D s (EnKill env io1 io2 now) = fst (verify_kill_envelope_local E D s env io1 io2 now)"
| "enforce_step E D s (EnPendingBundle sid p) = register_pending_bundle s sid p"
| "enforce_step E D s (EnPendingDecision sid p) = register_pending_decision s sid p"
| "enforce_step E D s (EnTakeBundle sid) = fst (take_pending_bundle s sid)"
| "enforce_step E D s (EnTakeDecision sid) = fst (take_pending_decision s sid)"
| "enforce_step E D s (EnDrop sid) = drop_pending s sid"
| "enforce_step E D s (EnTouch sid t) = touch_activity s sid t"
| "enforce_step E D s (EnRemove sid) = remove_activity s sid"

fun enforce_before :: "64 word \<Rightarrow> enforce_op \<Rightarrow> bool" where
  "enforce_before e (EnBundle b self now) = (now < e)"
| "enforce_before e (EnKill env io1 io2 now) = (now < e)"
| "enforce_before e _ = True"

lemma enforce_step_jti:
  "en_jti (enforce_step E D s op) = en_jti s \<or>
   (\<exists>j e now. en_jti (enforce_step E D s op) = guard_step check_and_mark denylist (en_jti s) (GCheck j e now) \<and>
      (\<forall>t. enforce_before t op \<longrightarrow> now < t))"
proof (cases op)
  case (EnBundle b self now)
  have "en_jti (fst (verify_bundle_locally s b self now)) = en_jti s \<or>
     en_jti (fst (verify_bundle_locally s b self now)) =
       fst (check_and_mark (en_jti s) (bi_jti b) (bi_exp_unix_ms b) now)"
    by (auto simp: verify_bundle_locally_def split: prod.splits sum.splits)
  then show ?thesis by (auto simp: EnBundle)
next
  case (EnKill env io1 io2 now)
  let ?r = "fst (verify_kill_envelope_local E D s env io1 io2 now)"
  have "en_jti ?r \<noteq> en_jti s \<Longrightarrow> \<exists>j e. en_jti ?r = fst (check_and_mark (en_jti s) j e now)"
    by (auto simp: verify_kill_envelope_local_def Let_def split: option.splits prod.splits sum.splits if_splits)
      (metis fst_conv)+
  then show ?thesis by (auto simp: EnKill)
qed (simp_all add: register_pending_bundle_def register_pending_decision_def take_pending_bundle_def
    take_pending_decision_def drop_pending_def touch_activity_def remove_activity_def)

lemma enforce_run_blocked:
  assumes "wf_jti (en_jti s)" "jti_blocked (en_jti s) j e" "\<forall>op \<in> set ops. enforce_before e op"
  shows "wf_jti (en_jti (foldl (enforce_step E D) s ops)) \<and> jti_blocked (en_jti (foldl (enforce_step E D) s ops)) j e"
  using assms
proof (induction ops arbitrary: s)
  case (Cons op ops)
  let ?s = "enforce_step E D s op"
  have "wf_jti (en_jti ?s) \<and> jti_blocked (en_jti ?s) j e"
    using enforce_step_jti [of E D s op] Cons.prems
    by (auto intro: jti.inv_check intro!: jti_blocked_check)
  with Cons show ?case by simp
qed simp

text \<open>C5: A bundle the host accepts is single use until it expires: after a successful local
  verification no bundle with that token is accepted again at any time before its expiry, whatever
  the enforcement state goes through in between (other bundles, kill envelopes, gates, watchdog).\<close>

theorem host_bundle_single_use:
  assumes "wf_jti (en_jti s)" and "verify_bundle_locally s b self now = (s1, Ok ())"
    and "\<forall>op \<in> set ops. enforce_before (bi_exp_unix_ms b) op"
    and "now' < bi_exp_unix_ms b" and "bi_jti b' = bi_jti b"
  shows "\<not> is_ok (snd (verify_bundle_locally (foldl (enforce_step E D) s1 ops) b' self' now'))"
proof -
  obtain c where c: "check_and_mark (en_jti s) (bi_jti b) (bi_exp_unix_ms b) now = (c, Ok ())"
    "en_jti s1 = c"
    using assms(2) by (auto simp: verify_bundle_locally_ok)
  have "wf_jti c" using jti.inv_check [OF assms(1)] c(1) by (metis fst_conv)
  moreover have "jti_blocked c (bi_jti b) (bi_exp_unix_ms b)"
    using assms(1) c(1) by (rule jti.accepted_blocks)
  ultimately have "wf_jti (en_jti (foldl (enforce_step E D) s1 ops)) \<and>
      jti_blocked (en_jti (foldl (enforce_step E D) s1 ops)) (bi_jti b) (bi_exp_unix_ms b)"
    using enforce_run_blocked assms(3) c(2) by blast
  then have "\<not> is_ok (snd (check_and_mark (en_jti (foldl (enforce_step E D) s1 ops)) (bi_jti b')
      (bi_exp_unix_ms b') now'))"
    using jti.blocked_rejects assms(4) unfolding assms(5) by blast
  then show ?thesis
    by (auto simp: verify_bundle_locally_def split: prod.split sum.split)
qed

definition demo_info :: session_bundle_info where
  "demo_info = \<lparr>bi_session_id = 9, bi_jti = ''t'', bi_viewer_dtls_fp = [], bi_exp_unix_ms = 1000,
     bi_caps = \<lparr>caps_input = True, caps_clipboard = True, caps_mic = True, caps_files = True, caps_audio = True\<rparr>,
     bi_sub = [], bi_pin_proof = Some \<lparr>pin_hash_match = True\<rparr>, bi_selected_display_id = None\<rparr>"

lemma demo_info_accepted:
  "verify_bundle_locally (enforcement_from_env None) demo_info ''h'' 500 =
     ((enforcement_from_env None)\<lparr>en_jti := mark_seen jti_new ''t'' 1000\<rparr>, Ok ())"
  by (simp add: verify_bundle_locally_def demo_info_def enforcement_from_env_def SKEW_TOLERANCE_MS_MS_def
      check_and_mark_def validate_jti_def jti_new_def jti_with_capacity_def DEFAULT_MAX_ENTRIES_def
      prune_expired_def is_denied_def is_seen_def retain_def)

theorem host_bundle_single_use_witness:
  "\<not> is_ok (snd (verify_bundle_locally (touch_activity
      ((enforcement_from_env None)\<lparr>en_jti := mark_seen jti_new ''t'' 1000\<rparr>) 9 4) demo_info ''h'' 600))"
proof -
  have "wf_jti (en_jti (enforcement_from_env None))"
    by (simp add: enforcement_from_env_def jti_new_def wf_jti_with_capacity)
  from host_bundle_single_use [OF this demo_info_accepted, of "[EnTouch 9 4]" 600 demo_info]
  show ?thesis by (simp add: demo_info_def)
qed

lemma length_retain_update:
  "\<not> P k v \<Longrightarrow> length (retain P (AList.update k v m)) \<le> length m"
  by (induction m) (auto simp: retain_def le_SucI)

text \<open>In the five minutes the verification tolerates after the expiry a bundle is no longer single
  use: the cache prunes a record that is already expired, so a bundle accepted at or after its
  expiry is accepted again at every later time inside the tolerance.\<close>

theorem host_skew_replay:
  assumes "wf_jti (en_jti s)" and "verify_bundle_locally s b self now = (s1, Ok ())"
    and "bi_exp_unix_ms b \<le> now" and "now \<le> now'"
    and "sint now' < sint (bi_exp_unix_ms b + SKEW_TOLERANCE_MS_MS)"
  shows "is_ok (snd (verify_bundle_locally s1 b self now'))"
proof -
  let ?j = "bi_jti b" and ?e = "bi_exp_unix_ms b"
  let ?c1 = "fst (prune_expired (en_jti s) now)"
  obtain c where c: "check_and_mark (en_jti s) ?j ?e now = (c, Ok ())" "s1 = s\<lparr>en_jti := c\<rparr>"
    and aud: "str_contains (bi_sub b) self \<or> bi_sub b = []"
    using assms(2) by (auto simp: verify_bundle_locally_ok)
  have cf: "validate_jti ?j = Ok ()" "\<not> is_denied (en_jti s) ?j now" "\<not> is_seen (en_jti s) ?j now"
    "length (seen ?c1) + length (denied ?c1) < max_entries (en_jti s)" "c = mark_seen ?c1 ?j ?e"
    using c(1) by (auto simp: check_and_mark_closed_form [OF assms(1)] Let_def split: if_splits)
  have wfc: "wf_jti c" using jti.inv_check [OF assms(1)] c(1) by (metis fst_conv)
  have max_c: "max_entries c = max_entries (en_jti s)"
    by (simp add: cf(5) mark_seen_def prune_expired_def Let_def)
  have d: "\<not> is_denied c ?j now'" "\<not> is_seen c ?j now'"
    using pruned_live [OF assms(1), of now ?j] cf(2) assms(3,4)
    by (auto simp: cf(5) mark_seen_def is_denied_def is_seen_def split: option.splits)
  let ?c2 = "fst (prune_expired c now')"
  have "length (seen ?c2) \<le> length (seen ?c1)" "length (denied ?c2) \<le> length (denied ?c1)"
    using assms(3,4) length_retain_update [of "\<lambda>_ en. now' < exp_unix_ms en" ?j "\<lparr>exp_unix_ms = ?e\<rparr>" "seen ?c1"]
    by (auto simp: cf(5) prune_expired_def [where now = now'] mark_seen_def Let_def)
  with cf(1,4) d max_c have "check_and_mark c ?j ?e now' = (mark_seen ?c2 ?j ?e, Ok ())"
    by (simp add: check_and_mark_closed_form [OF wfc] Let_def)
  with aud assms(5) show ?thesis by (simp add: verify_bundle_locally_def c(2) not_le)
qed

theorem host_skew_replay_witness:
  "\<exists>s1. verify_bundle_locally (enforcement_from_env None) demo_info ''h'' 1000 = (s1, Ok ()) \<and>
     is_ok (snd (verify_bundle_locally s1 demo_info ''h'' 2000))"
proof -
  let ?s = "enforcement_from_env None"
  have "wf_jti (en_jti ?s)"
    by (simp add: enforcement_from_env_def jti_new_def wf_jti_with_capacity)
  moreover have ok: "verify_bundle_locally ?s demo_info ''h'' 1000 =
      (?s\<lparr>en_jti := mark_seen jti_new ''t'' 1000\<rparr>, Ok ())"
    by (simp add: verify_bundle_locally_def demo_info_def enforcement_from_env_def SKEW_TOLERANCE_MS_MS_def
        check_and_mark_def validate_jti_def jti_new_def jti_with_capacity_def DEFAULT_MAX_ENTRIES_def
        prune_expired_def is_denied_def is_seen_def retain_def)
  ultimately show ?thesis
    using host_skew_replay [OF _ ok, of 2000]
    by (simp add: demo_info_def SKEW_TOLERANCE_MS_MS_def)
qed

end
