(* ===== verification/Host_Toast.thy ===== *)
theory Host_Toast
  imports Proto_Types
begin

text \<open>
  The host's decisions before and during a session: the toast gate with its rate limiter
  (\<open>toast_policy.rs\<close>), the permission matrix (\<open>permissions.rs\<close>), the blank overlay of privacy mode
  (\<open>privacy.rs\<close>) and the loopback approval lists (\<open>pairing_ui.rs\<close>). An \<open>Instant\<close> is a number of
  milliseconds; \<open>duration_since\<close> saturates at zero, as subtraction on \<open>nat\<close> does. The rate limiter is
  shown to refine a specification that keeps the whole history of attempts.
\<close>

subsection \<open>Toast policy and rate limiter\<close>

datatype toast_decision = ToastShow | SkipAutoAck | ToastBlock
datatype toast_mode = ToastOff | ToastOn | NewViewersOnly

record toast_policy =
  tp_mode :: toast_mode

definition default_toast_policy :: toast_policy where
  "default_toast_policy = \<lparr>tp_mode = NewViewersOnly\<rparr>"

definition requires_toast :: "toast_policy \<Rightarrow> bool \<Rightarrow> bool" where
  "requires_toast p viewer_is_known =
     (case tp_mode p of ToastOff \<Rightarrow> False | ToastOn \<Rightarrow> True | NewViewersOnly \<Rightarrow> \<not> viewer_is_known)"

record toast_rate_limiter =
  rl_window :: nat
  rl_threshold :: nat
  rl_block_duration :: nat
  rl_seen :: "(string, nat list) hmap"
  rl_blocked_until :: "(string, nat) hmap"

definition limiter_new :: "nat \<Rightarrow> nat \<Rightarrow> nat \<Rightarrow> toast_rate_limiter" where
  "limiter_new window threshold block_duration =
     \<lparr>rl_window = window, rl_threshold = threshold, rl_block_duration = block_duration,
      rl_seen = [], rl_blocked_until = []\<rparr>"

text \<open>\<open>is_blocked\<close> reads the clock itself, \<open>is_blocked_at\<close> is given the time: the same test.\<close>

definition is_blocked_at :: "toast_rate_limiter \<Rightarrow> string \<Rightarrow> nat \<Rightarrow> bool" where
  "is_blocked_at rl peer now =
     (case map_of (rl_blocked_until rl) peer of Some until \<Rightarrow> until > now | None \<Rightarrow> False)"

definition bucket_of :: "toast_rate_limiter \<Rightarrow> string \<Rightarrow> nat list" where
  "bucket_of rl peer = (case map_of (rl_seen rl) peer of Some b \<Rightarrow> b | None \<Rightarrow> [])"

definition record_attempt ::
    "toast_rate_limiter \<Rightarrow> string \<Rightarrow> nat \<Rightarrow> toast_rate_limiter \<times> toast_decision" where
  "record_attempt rl peer now =
     (if is_blocked_at rl peer now then (rl, ToastBlock)
      else let bucket = dropWhile (\<lambda>front. now - front > rl_window rl) (bucket_of rl peer @ [now]);
               rl1 = rl\<lparr>rl_seen := AList.update peer bucket (rl_seen rl)\<rparr>
           in if length bucket > rl_threshold rl
              then (rl1\<lparr>rl_blocked_until :=
                      AList.update peer (now + rl_block_duration rl) (rl_blocked_until rl1)\<rparr>, ToastBlock)
              else (rl1, ToastShow))"

definition unblock :: "toast_rate_limiter \<Rightarrow> string \<Rightarrow> toast_rate_limiter" where
  "unblock rl peer = rl\<lparr>rl_blocked_until := AList.delete peer (rl_blocked_until rl),
     rl_seen := AList.delete peer (rl_seen rl)\<rparr>"

record toast_gate =
  tg_policy :: toast_policy
  tg_limiter :: toast_rate_limiter
  tg_owner :: "uuid option"
  tg_known :: "(string, nat) hmap"

definition toast_gate_new :: "toast_policy \<Rightarrow> toast_rate_limiter \<Rightarrow> uuid option \<Rightarrow> toast_gate" where
  "toast_gate_new p rl owner = \<lparr>tg_policy = p, tg_limiter = rl, tg_owner = owner, tg_known = []\<rparr>"

definition is_owner :: "toast_gate \<Rightarrow> peer_descriptor \<Rightarrow> bool" where
  "is_owner g viewer = (case tg_owner g of Some owner \<Rightarrow> owner = device_id viewer | None \<Rightarrow> False)"

definition mark_known :: "ext \<Rightarrow> toast_gate \<Rightarrow> peer_descriptor \<Rightarrow> nat \<Rightarrow> toast_gate" where
  "mark_known E g viewer clock =
     g\<lparr>tg_known := AList.update (uuid_text E (peer_id viewer)) clock (tg_known g)\<rparr>"

definition is_known :: "ext \<Rightarrow> toast_gate \<Rightarrow> peer_descriptor \<Rightarrow> bool" where
  "is_known E g viewer = (map_of (tg_known g) (uuid_text E (peer_id viewer)) \<noteq> None)"

definition toast_evaluate ::
    "ext \<Rightarrow> toast_gate \<Rightarrow> peer_descriptor \<Rightarrow> nat \<Rightarrow> nat \<Rightarrow> toast_gate \<times> toast_decision" where
  "toast_evaluate E g viewer clock now =
     (if is_owner g viewer then (g, SkipAutoAck)
      else let key = uuid_text E (peer_id viewer) in
      if is_blocked_at (tg_limiter g) key clock then (g, ToastBlock)
      else (case record_attempt (tg_limiter g) key now of
         (rl, d) \<Rightarrow>
           let g1 = g\<lparr>tg_limiter := rl\<rparr> in
           if d = ToastBlock then (g1, ToastBlock)
           else if \<not> requires_toast (tg_policy g1) (is_known E g1 viewer) then (g1, SkipAutoAck)
           else (g1, ToastShow)))"

subsection \<open>Permissions\<close>

definition allow_input :: "session_permissions \<Rightarrow> bool" where
  "allow_input p = (perm_input p \<and> (perm_gamepad p \<or> perm_keyboard p \<or> perm_mouse p))"

definition allow_gamepad :: "session_permissions \<Rightarrow> bool" where
  "allow_gamepad p = (perm_input p \<and> perm_gamepad p)"

definition allow_keyboard :: "session_permissions \<Rightarrow> bool" where
  "allow_keyboard p = (perm_input p \<and> perm_keyboard p)"

definition allow_mouse :: "session_permissions \<Rightarrow> bool" where
  "allow_mouse p = (perm_input p \<and> perm_mouse p)"

definition allow_clipboard_apply :: "session_permissions \<Rightarrow> bool" where
  "allow_clipboard_apply p = perm_clipboard p"

definition allow_clipboard_watch :: "session_permissions \<Rightarrow> bool" where
  "allow_clipboard_watch p = perm_clipboard p"

definition allow_mic :: "session_permissions \<Rightarrow> bool" where
  "allow_mic p = perm_mic p"

datatype mic_start_decision = MicAccept | MicDeny
datatype clipboard_apply_decision = ClipApply | DropDenied | DropDirectionOff
datatype input_decision = Inject | DropStream

definition decide_mic_start :: "session_permissions \<Rightarrow> mic_start_decision" where
  "decide_mic_start p = (if allow_mic p then MicAccept else MicDeny)"

definition decide_clipboard_apply :: "session_permissions \<Rightarrow> bool \<Rightarrow> clipboard_apply_decision" where
  "decide_clipboard_apply p client_to_host =
     (if \<not> allow_clipboard_apply p then DropDenied
      else if \<not> client_to_host then DropDirectionOff
      else ClipApply)"

definition decide_input :: "session_permissions \<Rightarrow> input_decision" where
  "decide_input p = (if allow_input p then Inject else DropStream)"

subsection \<open>The blank overlay\<close>

datatype privacy_error = ChannelClosed | AlreadyShown | NotShown

text \<open>\<open>bo_tx\<close> is the control channel: none, or the messages sent so far with whether the receiver is
  still there. A message is the pair of its \<open>show\<close> flag and the display.\<close>

record blank_overlay =
  bo_tx :: "((bool \<times> u32) list \<times> bool) option"
  bo_visible :: bool

definition overlay_new :: blank_overlay where
  "overlay_new = \<lparr>bo_tx = None, bo_visible = False\<rparr>"

definition set_control_channel :: "blank_overlay \<Rightarrow> blank_overlay" where
  "set_control_channel b = b\<lparr>bo_tx := Some ([], True)\<rparr>"

definition overlay_send :: "blank_overlay \<Rightarrow> bool \<times> u32 \<Rightarrow> blank_overlay option" where
  "overlay_send b m =
     (case bo_tx b of
        None \<Rightarrow> Some b
      | Some (sent, True) \<Rightarrow> Some (b\<lparr>bo_tx := Some (sent @ [m], True)\<rparr>)
      | Some (_, False) \<Rightarrow> None)"

definition overlay_show :: "blank_overlay \<Rightarrow> u32 \<Rightarrow> blank_overlay \<times> (privacy_error, unit) result" where
  "overlay_show b d =
     (if bo_visible b then (b, Err AlreadyShown)
      else case overlay_send b (True, d) of
        None \<Rightarrow> (b, Err ChannelClosed)
      | Some b1 \<Rightarrow> (b1\<lparr>bo_visible := True\<rparr>, Ok ()))"

definition overlay_hide :: "blank_overlay \<Rightarrow> u32 \<Rightarrow> blank_overlay \<times> (privacy_error, unit) result" where
  "overlay_hide b d =
     (if \<not> bo_visible b then (b, Err NotShown)
      else case overlay_send b (False, d) of
        None \<Rightarrow> (b, Err ChannelClosed)
      | Some b1 \<Rightarrow> (b1\<lparr>bo_visible := False\<rparr>, Ok ()))"

definition is_visible :: "blank_overlay \<Rightarrow> bool" where
  "is_visible b = bo_visible b"

subsection \<open>The approval lists\<close>

record pending_pairing_view =
  ppv_request_id :: uuid
  ppv_client_peer_id :: uuid
  ppv_client_device_id :: uuid
  ppv_client_name :: string
  ppv_client_label :: string
  ppv_received_at :: u64

record pending_session_view =
  psv_session_id :: uuid
  psv_client_peer_id :: uuid
  psv_client_name :: string
  psv_received_at :: u64

text \<open>The two decision channels are the lists of what was sent and not yet received.\<close>

record pairing_ui_state =
  ui_pending :: "(uuid, pending_pairing_view) hmap"
  ui_decisions :: "(uuid \<times> bool) list"
  ui_pending_sessions :: "(uuid, pending_session_view) hmap"
  ui_session_decisions :: "(uuid \<times> bool) list"

definition pairing_ui_new :: pairing_ui_state where
  "pairing_ui_new = \<lparr>ui_pending = [], ui_decisions = [], ui_pending_sessions = [], ui_session_decisions = []\<rparr>"

definition ui_push :: "pairing_ui_state \<Rightarrow> pairing_requested \<Rightarrow> u64 \<Rightarrow> pairing_ui_state" where
  "ui_push ui r now = ui\<lparr>ui_pending := AList.update (prq_request_id r)
     \<lparr>ppv_request_id = prq_request_id r, ppv_client_peer_id = peer_id (prq_client r),
      ppv_client_device_id = device_id (prq_client r), ppv_client_name = device_name (prq_client r),
      ppv_client_label = prq_client_label r, ppv_received_at = now\<rparr> (ui_pending ui)\<rparr>"

definition ui_remove :: "pairing_ui_state \<Rightarrow> uuid \<Rightarrow> pairing_ui_state" where
  "ui_remove ui r = ui\<lparr>ui_pending := AList.delete r (ui_pending ui)\<rparr>"

definition push_session :: "pairing_ui_state \<Rightarrow> uuid \<Rightarrow> uuid \<Rightarrow> string \<Rightarrow> u64 \<Rightarrow> pairing_ui_state" where
  "push_session ui sid client name now = ui\<lparr>ui_pending_sessions := AList.update sid
     \<lparr>psv_session_id = sid, psv_client_peer_id = client, psv_client_name = name, psv_received_at = now\<rparr>
     (ui_pending_sessions ui)\<rparr>"

definition remove_session :: "pairing_ui_state \<Rightarrow> uuid \<Rightarrow> pairing_ui_state" where
  "remove_session ui sid = ui\<lparr>ui_pending_sessions := AList.delete sid (ui_pending_sessions ui)\<rparr>"

definition list_pending :: "pairing_ui_state \<Rightarrow> pending_pairing_view list" where
  "list_pending ui = sort_key ppv_received_at (map snd (ui_pending ui))"

definition list_pending_sessions :: "pairing_ui_state \<Rightarrow> pending_session_view list" where
  "list_pending_sessions ui = sort_key psv_received_at (map snd (ui_pending_sessions ui))"

definition ui_decide :: "pairing_ui_state \<Rightarrow> uuid \<Rightarrow> bool \<Rightarrow> pairing_ui_state" where
  "ui_decide ui r approved =
     (let ui1 = ui\<lparr>ui_decisions := ui_decisions ui @ [(r, approved)]\<rparr>
      in ui1\<lparr>ui_pending := AList.delete r (ui_pending ui1)\<rparr>)"

definition decide_session :: "pairing_ui_state \<Rightarrow> uuid \<Rightarrow> bool \<Rightarrow> pairing_ui_state" where
  "decide_session ui sid approved =
     (let ui1 = ui\<lparr>ui_session_decisions := ui_session_decisions ui @ [(sid, approved)]\<rparr>
      in ui1\<lparr>ui_pending_sessions := AList.delete sid (ui_pending_sessions ui1)\<rparr>)"

subsection \<open>The rate limiter refines a history of attempts\<close>

text \<open>The specification keeps every recorded attempt of every peer and counts those inside the window.\<close>

record limiter_spec =
  sp_history :: "string \<Rightarrow> nat list"
  sp_blocked :: "string \<Rightarrow> nat option"

definition attempts_in :: "nat \<Rightarrow> nat \<Rightarrow> nat list \<Rightarrow> nat" where
  "attempts_in window now hist = length (filter (\<lambda>t. now - t \<le> window) hist)"

definition spec_attempt ::
    "nat \<Rightarrow> nat \<Rightarrow> nat \<Rightarrow> limiter_spec \<Rightarrow> string \<Rightarrow> nat \<Rightarrow> limiter_spec \<times> toast_decision" where
  "spec_attempt window threshold block S peer now =
     (if (case sp_blocked S peer of Some until \<Rightarrow> until > now | None \<Rightarrow> False) then (S, ToastBlock)
      else let S1 = S\<lparr>sp_history := (sp_history S)(peer := sp_history S peer @ [now])\<rparr> in
      if attempts_in window now (sp_history S1 peer) > threshold
      then (S1\<lparr>sp_blocked := (sp_blocked S1)(peer := Some (now + block))\<rparr>, ToastBlock)
      else (S1, ToastShow))"

datatype limiter_op = Attempt string nat | Unblock string

fun limiter_run :: "toast_rate_limiter \<Rightarrow> limiter_op list \<Rightarrow> toast_rate_limiter \<times> toast_decision list" where
  "limiter_run rl [] = (rl, [])"
| "limiter_run rl (Attempt p t # ops) =
     (let (rl1, d) = record_attempt rl p t; (rl2, ds) = limiter_run rl1 ops in (rl2, d # ds))"
| "limiter_run rl (Unblock p # ops) = limiter_run (unblock rl p) ops"

fun spec_run ::
    "nat \<Rightarrow> nat \<Rightarrow> nat \<Rightarrow> limiter_spec \<Rightarrow> limiter_op list \<Rightarrow> limiter_spec \<times> toast_decision list" where
  "spec_run w th bl S [] = (S, [])"
| "spec_run w th bl S (Attempt p t # ops) =
     (let (S1, d) = spec_attempt w th bl S p t; (S2, ds) = spec_run w th bl S1 ops in (S2, d # ds))"
| "spec_run w th bl S (Unblock p # ops) =
     spec_run w th bl (S\<lparr>sp_history := (sp_history S)(p := []), sp_blocked := (sp_blocked S)(p := None)\<rparr>) ops"

definition spec_init :: limiter_spec where
  "spec_init = \<lparr>sp_history = (\<lambda>_. []), sp_blocked = (\<lambda>_. None)\<rparr>"

text \<open>The clock is monotonic: the times of the attempts do not decrease.\<close>

fun times_from :: "nat \<Rightarrow> limiter_op list \<Rightarrow> bool" where
  "times_from t0 [] = True"
| "times_from t0 (Attempt p t # ops) = (t0 \<le> t \<and> times_from t ops)"
| "times_from t0 (Unblock p # ops) = times_from t0 ops"

text \<open>The abstraction relation: a bucket is the history without a prefix that has left the window.\<close>

definition limiter_abs :: "toast_rate_limiter \<Rightarrow> limiter_spec \<Rightarrow> nat \<Rightarrow> bool" where
  "limiter_abs rl S t0 \<longleftrightarrow> (\<forall>p. map_of (rl_blocked_until rl) p = sp_blocked S p \<and>
     sorted (sp_history S p) \<and> (\<forall>x \<in> set (sp_history S p). x \<le> t0) \<and>
     (\<exists>old. sp_history S p = old @ bucket_of rl p \<and> (\<forall>x \<in> set old. t0 - x > rl_window rl)))"

lemma dropWhile_sorted_filter:
  "sorted xs \<Longrightarrow> dropWhile (\<lambda>t. now - t > w) xs = filter (\<lambda>t. now - t \<le> w) (xs :: nat list)"
proof (induction xs)
  case (Cons x xs)
  show ?case
  proof (cases "now - x > w")
    case False
    with Cons.prems have "\<forall>y \<in> set xs. now - y \<le> w" by (fastforce simp: not_less)
    with False show ?thesis by simp
  qed (use Cons in simp)
qed simp

lemma bucket_of_update [simp]:
  "bucket_of (rl\<lparr>rl_seen := AList.update p b m\<rparr>) q = (if q = p then b else bucket_of (rl\<lparr>rl_seen := m\<rparr>) q)"
  by (simp add: bucket_of_def)

lemma limiter_abs_step:
  assumes R: "limiter_abs rl S t0" and le: "t0 \<le> now"
    and w: "w = rl_window rl" "th = rl_threshold rl" "bl = rl_block_duration rl"
  shows "snd (record_attempt rl p now) = snd (spec_attempt w th bl S p now) \<and>
    limiter_abs (fst (record_attempt rl p now)) (fst (spec_attempt w th bl S p now)) now"
proof -
  obtain old where old: "sp_history S p = old @ bucket_of rl p" "\<forall>x \<in> set old. t0 - x > rl_window rl"
    using R unfolding limiter_abs_def by blast
  let ?b = "bucket_of rl p @ [now]"
  let ?d = "dropWhile (\<lambda>t. now - t > rl_window rl) ?b"
  have so: "sorted (sp_history S p)" "\<forall>x \<in> set (sp_history S p). x \<le> now"
    using R le unfolding limiter_abs_def by (auto intro: order_trans)
  then have "sorted ?b" using old(1) by (auto simp: sorted_append)
  then have d: "?d = filter (\<lambda>t. now - t \<le> rl_window rl) ?b" by (rule dropWhile_sorted_filter)
  have o: "\<forall>x \<in> set old. now - x > rl_window rl" using old(2) le by fastforce
  then have cnt: "length ?d = attempts_in w now (sp_history S p @ [now])"
    by (auto simp: attempts_in_def old(1) d w filter_empty_conv not_le)
  have blk: "is_blocked_at rl p now = (case sp_blocked S p of Some u \<Rightarrow> u > now | None \<Rightarrow> False)"
    using R by (simp add: limiter_abs_def is_blocked_at_def)
  have new: "\<exists>old'. sp_history S p @ [now] = old' @ ?d \<and> (\<forall>x \<in> set old'. now - x > rl_window rl)"
    using o takeWhile_dropWhile_id [of "\<lambda>t. now - t > rl_window rl" ?b]
    by (intro exI [of _ "old @ takeWhile (\<lambda>t. now - t > rl_window rl) ?b"])
      (auto simp: old(1) dest: set_takeWhileD)
  have keep: "limiter_abs rl S now"
    using R le unfolding limiter_abs_def by (meson diff_le_mono less_le_trans order_trans)
  have upd: "limiter_abs (rl\<lparr>rl_seen := AList.update p ?d (rl_seen rl),
       rl_blocked_until := bm\<rparr>) (S\<lparr>sp_history := (sp_history S)(p := sp_history S p @ [now]), sp_blocked := sb\<rparr>) now"
    if "map_of bm = sb" for bm sb
    using keep that so new by (auto simp: limiter_abs_def sorted_append bucket_of_def)
  show ?thesis
  proof (cases "is_blocked_at rl p now")
    case True
    then show ?thesis using blk keep by (simp add: record_attempt_def spec_attempt_def)
  next
    case False
    have m: "map_of (rl_blocked_until rl) = sp_blocked S" using R by (auto simp: limiter_abs_def)
    show ?thesis
    proof (cases "length ?d > rl_threshold rl")
      case True
      with False show ?thesis
        using blk cnt m w upd [of "AList.update p (now + bl) (rl_blocked_until rl)" "(sp_blocked S)(p := Some (now + bl))"]
        by (simp add: record_attempt_def spec_attempt_def Let_def)
    next
      case le: False
      with False show ?thesis
        using blk cnt m w upd [of "rl_blocked_until rl" "sp_blocked S"]
        by (simp add: record_attempt_def spec_attempt_def Let_def)
    qed
  qed
qed

lemma record_attempt_config [simp]:
  "rl_window (fst (record_attempt rl p t)) = rl_window rl"
  "rl_threshold (fst (record_attempt rl p t)) = rl_threshold rl"
  "rl_block_duration (fst (record_attempt rl p t)) = rl_block_duration rl"
  by (simp_all add: record_attempt_def Let_def)

lemma limiter_abs_unblock:
  "limiter_abs rl S t0 \<Longrightarrow> limiter_abs (unblock rl p)
     (S\<lparr>sp_history := (sp_history S)(p := []), sp_blocked := (sp_blocked S)(p := None)\<rparr>) t0"
  by (auto simp: limiter_abs_def unblock_def bucket_of_def)

lemma limiter_run_refines:
  "limiter_abs rl S t0 \<Longrightarrow> times_from t0 ops \<Longrightarrow>
   snd (limiter_run rl ops) =
     snd (spec_run (rl_window rl) (rl_threshold rl) (rl_block_duration rl) S ops)"
proof (induction t0 ops arbitrary: rl S rule: times_from.induct)
  case (2 t0 p t ops)
  let ?s = "spec_attempt (rl_window rl) (rl_threshold rl) (rl_block_duration rl) S p t"
  from limiter_abs_step [OF "2.prems"(1) _ refl refl refl, of t p] "2.prems"(2)
  have "snd (record_attempt rl p t) = snd ?s" "limiter_abs (fst (record_attempt rl p t)) (fst ?s) t"
    by simp_all
  with "2.IH" [of "fst (record_attempt rl p t)" "fst ?s"] "2.prems"(2) show ?case
    by (simp add: case_prod_beta Let_def)
next
  case (3 t0 p ops)
  then show ?case using limiter_abs_unblock [of rl S t0 p] by (simp add: unblock_def)
qed simp

text \<open>C15: The rate limiter refines the sliding-window specification: on any interleaving of attempts
  by any peers and of unblocks, at times that do not decrease, the pruned buckets give exactly the
  decisions that counting the complete history of each peer inside the window gives.\<close>

theorem limiter_refines_history:
  assumes "times_from 0 ops"
  shows "snd (limiter_run (limiter_new window threshold block) ops) =
    snd (spec_run window threshold block spec_init ops)"
proof -
  have "limiter_abs (limiter_new window threshold block) spec_init 0"
    by (simp add: limiter_abs_def limiter_new_def spec_init_def bucket_of_def)
  from limiter_run_refines [OF this assms] show ?thesis by (simp add: limiter_new_def)
qed

theorem limiter_refines_history_witness:
  "snd (limiter_run (limiter_new 60 2 100)
      [Attempt ''a'' 0, Attempt ''b'' 1, Attempt ''a'' 30, Attempt ''a'' 65, Attempt ''a'' 80, Attempt ''b'' 81])
   = [ToastShow, ToastShow, ToastShow, ToastShow, ToastBlock, ToastShow]"
  by (subst limiter_refines_history)
    (simp_all add: spec_attempt_def spec_init_def attempts_in_def)

text \<open>A block holds until it ends, whatever else happens, unless the peer is unblocked.\<close>

fun keeps_block :: "string \<Rightarrow> nat \<Rightarrow> limiter_op list \<Rightarrow> bool" where
  "keeps_block p until [] = True"
| "keeps_block p until (Attempt q t # ops) = ((q = p \<longrightarrow> t < until) \<and> keeps_block p until ops)"
| "keeps_block p until (Unblock q # ops) = (q \<noteq> p \<and> keeps_block p until ops)"

lemma limiter_run_blocked:
  "map_of (rl_blocked_until rl) p = Some until \<Longrightarrow> keeps_block p until ops \<Longrightarrow>
   map_of (rl_blocked_until (fst (limiter_run rl ops))) p = Some until"
proof (induction rl ops rule: limiter_run.induct)
  case (2 rl q t ops)
  have "map_of (rl_blocked_until (fst (record_attempt rl q t))) p = Some until"
    using "2.prems" by (auto simp: record_attempt_def is_blocked_at_def Let_def)
  with "2.IH" [OF refl prod.collapse] "2.prems"(2)
  show ?case by (simp add: case_prod_beta Let_def)
qed (auto simp: unblock_def)

text \<open>Once the limiter blocks a peer that was not blocked, every later attempt of that peer before
  the block duration is over is refused, whatever the other peers do in between, as long as nobody
  unblocks it.\<close>

theorem limiter_block_persists:
  assumes "record_attempt rl p now = (rl', ToastBlock)" and "\<not> is_blocked_at rl p now"
    and "keeps_block p (now + rl_block_duration rl) ops" and "t < now + rl_block_duration rl"
  shows "snd (record_attempt (fst (limiter_run rl' ops)) p t) = ToastBlock"
proof -
  have "map_of (rl_blocked_until rl') p = Some (now + rl_block_duration rl)"
    using assms(1,2) by (auto simp: record_attempt_def Let_def split: if_splits)
  from limiter_run_blocked [OF this assms(3)] assms(4) show ?thesis
    by (simp add: record_attempt_def is_blocked_at_def)
qed

theorem limiter_block_persists_witness:
  "snd (record_attempt (fst (limiter_run (fst (record_attempt (limiter_new 60 0 100) ''a'' 5))
      [Attempt ''b'' 9, Attempt ''a'' 50, Unblock ''b''])) ''a'' 104) = ToastBlock"
  by (rule limiter_block_persists [where rl = "limiter_new 60 0 100" and now = 5])
    (simp_all add: record_attempt_def limiter_new_def is_blocked_at_def bucket_of_def)

text \<open>The decision of the toast gate: the owner's device passes and leaves no record; any other
  viewer is blocked when the limiter says so, and otherwise sees a toast exactly when the policy asks
  for one, and its attempt is recorded even when no toast is needed.\<close>

theorem toast_evaluate_decision:
  "toast_evaluate E g v clock now =
     (let key = uuid_text E (peer_id v); att = record_attempt (tg_limiter g) key now in
      if is_owner g v then (g, SkipAutoAck)
      else if is_blocked_at (tg_limiter g) key clock then (g, ToastBlock)
      else (g\<lparr>tg_limiter := fst att\<rparr>,
        if snd att = ToastBlock then ToastBlock
        else if requires_toast (tg_policy g) (is_known E g v) then ToastShow else SkipAutoAck))"
  by (simp add: toast_evaluate_def Let_def is_known_def split: prod.split)

definition demo_peer :: "uuid \<Rightarrow> uuid \<Rightarrow> peer_role \<Rightarrow> peer_descriptor" where
  "demo_peer dev pid r = \<lparr>device_id = dev, peer_id = pid, device_name = [], role = r, os = Linux,
     capabilities = \<lparr>transports = [], capture = [], encoders = [], decoders = [], cap_notes = [], displays = []\<rparr>\<rparr>"

lemma permission_decisions:
  "decide_input p = Inject \<longleftrightarrow> allow_gamepad p \<or> allow_keyboard p \<or> allow_mouse p"
  "decide_clipboard_apply p d = ClipApply \<longleftrightarrow> perm_clipboard p \<and> d"
  "decide_mic_start p = MicAccept \<longleftrightarrow> perm_mic p"
  by (auto simp: decide_input_def allow_input_def allow_gamepad_def allow_keyboard_def allow_mouse_def
      decide_clipboard_apply_def allow_clipboard_apply_def decide_mic_start_def allow_mic_def)

text \<open>The overlay alternates: the messages on an open channel are shows and hides in turn, and the
  visible flag is the last one.\<close>

lemma overlay_alternates:
  assumes "bo_tx b = Some (sent, True)" "bo_visible b = (sent \<noteq> [] \<and> fst (last sent))"
  shows "overlay_show b d = (b', r) \<Longrightarrow> \<exists>sent'. bo_tx b' = Some (sent', True) \<and>
           bo_visible b' = (sent' \<noteq> [] \<and> fst (last sent'))"
    and "overlay_hide b d = (b', r) \<Longrightarrow> \<exists>sent'. bo_tx b' = Some (sent', True) \<and>
           bo_visible b' = (sent' \<noteq> [] \<and> fst (last sent'))"
  using assms by (auto simp: overlay_show_def overlay_hide_def overlay_send_def split: if_splits)

end
