(* ===== verification/Host_Loop.thy ===== *)
theory Host_Loop
  imports Host_Enforce Host_Toast
begin

text \<open>
  The host agent's message loop, \<open>main.rs\<close>: \<open>handle_server_message\<close> with its PIN gate and operator
  gate, \<open>kill_session\<close>, the idle watchdog, and the tasks that carry the operator's decisions. The loop
  awaits the handler before it reads the next message, so while a gate waits the loop state is
  \<open>AwaitBundle\<close> or \<open>AwaitOperator\<close> and no message is read; the watchdog, the approval tasks and the
  loopback HTTP handlers run beside it. \<open>host_exec\<close> runs one event of one of these tasks; an event
  that is not enabled gives \<open>None\<close>.
\<close>

subsection \<open>State\<close>

datatype 'a oneshot = ChPending | ChDelivered 'a | ChCanceled

text \<open>A channel keeps the session it was made for; the number is its place in the list.\<close>

type_synonym 'a channels = "(uuid \<times> 'a oneshot) list"

datatype loop_phase =
    LoopReady
  | AwaitBundle session_requested nat
  | AwaitOperator session_requested "u32 option" nat
  | LoopStopped

record host_config =
  hc_auto_approve :: bool
  hc_owner :: "uuid option"
  hc_device_id :: string
  hc_idle_timeout :: nat
  hc_webtransport :: bool

record host_state =
  h_enf :: enforcement_state
  h_toast :: toast_gate
  h_pin :: pin_store
  h_ui :: "pairing_ui_state option"
  h_webrtc :: "(uuid, unit) hmap"
  h_bchans :: "session_bundle_info channels"
  h_dchans :: "bool channels"
  h_sent :: "client_message list"
  h_started :: "(session_requested \<times> u32 option) list"
  h_phase :: loop_phase

text \<open>What the environment answers during one event: whether the writes to the signaling socket
  succeed, the clocks, the key fetches, and the outcome of applying a WebRTC signal.\<close>

record host_io =
  io_send :: bool
  io_instant :: nat
  io_unix :: "64 word"
  io_key1 :: key_io
  io_key2 :: key_io
  io_signal :: bool

definition host_init :: "host_config \<Rightarrow> toast_gate \<Rightarrow> pin_store \<Rightarrow> jwks_client option \<Rightarrow> host_state" where
  "host_init C g pin jwks = \<lparr>h_enf = enforcement_from_env jwks, h_toast = g, h_pin = pin,
     h_ui = (if hc_auto_approve C then None else Some pairing_ui_new), h_webrtc = [],
     h_bchans = [], h_dchans = [], h_sent = [], h_started = [], h_phase = LoopReady\<rparr>"

subsection \<open>Oneshot channels\<close>

definition chan_new :: "uuid \<Rightarrow> 'a channels \<Rightarrow> 'a channels \<times> nat" where
  "chan_new sid cs = (cs @ [(sid, ChPending)], length cs)"

definition chan_set :: "nat \<Rightarrow> 'a oneshot \<Rightarrow> 'a channels \<Rightarrow> 'a channels" where
  "chan_set n v cs =
     (if n < length cs then (case cs ! n of
        (sid, ChPending) \<Rightarrow> cs[n := (sid, v)] | _ \<Rightarrow> cs) else cs)"

definition chan_get :: "'a channels \<Rightarrow> nat \<Rightarrow> 'a oneshot" where
  "chan_get cs n = (if n < length cs then snd (cs ! n) else ChCanceled)"

text \<open>Dropping a sender that has not sent cancels its channel.\<close>

definition drop_bundle_sender :: "pending_bundle option \<Rightarrow> session_bundle_info channels \<Rightarrow> session_bundle_info channels" where
  "drop_bundle_sender p cs = (case p of None \<Rightarrow> cs | Some b \<Rightarrow> chan_set (pb_deliver b) ChCanceled cs)"

definition drop_decision_sender :: "pending_decision option \<Rightarrow> bool channels \<Rightarrow> bool channels" where
  "drop_decision_sender p cs = (case p of None \<Rightarrow> cs | Some b \<Rightarrow> chan_set (pd_deliver b) ChCanceled cs)"

subsection \<open>Operations\<close>

definition send_client_message :: "bool \<Rightarrow> client_message \<Rightarrow> host_state \<Rightarrow> host_state" where
  "send_client_message ok m s = (if ok then s\<lparr>h_sent := h_sent s @ [m]\<rparr> else s)"

text \<open>A failed write whose error is propagated ends the loop.\<close>

definition send_or_stop :: "bool \<Rightarrow> client_message \<Rightarrow> host_state \<Rightarrow> host_state" where
  "send_or_stop ok m s =
     (if ok then send_client_message True m s else s\<lparr>h_phase := LoopStopped\<rparr>)"

definition kill_session :: "bool \<Rightarrow> uuid \<Rightarrow> host_state \<Rightarrow> host_state \<times> bool" where
  "kill_session ok sid s =
     (let closed = (map_of (h_webrtc s) sid \<noteq> None);
          s1 = s\<lparr>h_webrtc := AList.delete sid (h_webrtc s)\<rparr>;
          s2 = s1\<lparr>h_bchans := drop_bundle_sender (map_of (en_pending_bundles (h_enf s1)) sid) (h_bchans s1),
                  h_dchans := drop_decision_sender (map_of (en_pending_decisions (h_enf s1)) sid) (h_dchans s1),
                  h_enf := drop_pending (h_enf s1) sid\<rparr>;
          s3 = s2\<lparr>h_enf := remove_activity (h_enf s2) sid\<rparr>
      in (send_client_message ok (KickSession sid ''host_kill'') s3, closed \<or> ok))"

definition session_start :: "host_config \<Rightarrow> session_requested \<Rightarrow> u32 option \<Rightarrow> nat \<Rightarrow> host_state \<Rightarrow> host_state" where
  "session_start C req display now s =
     (let s1 = s\<lparr>h_enf := touch_activity (h_enf s) (sq_session_id req) now, h_phase := LoopReady\<rparr> in
      case sq_transport req of
        NativeQuic \<Rightarrow> s1\<lparr>h_started := h_started s1 @ [(req, None)]\<rparr>
      | WebRtc \<Rightarrow> s1\<lparr>h_started := h_started s1 @ [(req, display)]\<rparr>
      | WebTransport \<Rightarrow> if hc_webtransport C then s1\<lparr>h_started := h_started s1 @ [(req, display)]\<rparr> else s1
      | RelayQuic \<Rightarrow> s1)"

definition register_decision_gate :: "session_requested \<Rightarrow> u32 option \<Rightarrow> u64 \<Rightarrow> host_state \<Rightarrow> host_state" where
  "register_decision_gate req display unix s =
     (let sid = sq_session_id req;
          (cs, n) = chan_new sid (h_dchans s);
          cs' = drop_decision_sender (map_of (en_pending_decisions (h_enf s)) sid) cs;
          s1 = s\<lparr>h_dchans := cs', h_enf := register_pending_decision (h_enf s) sid \<lparr>pd_deliver = n\<rparr>\<rparr>;
          s2 = s1\<lparr>h_ui := map_option (\<lambda>ui. push_session ui sid (peer_id (sq_client req))
                   (device_name (sq_client req)) unix) (h_ui s1)\<rparr>
      in s2\<lparr>h_phase := AwaitOperator req display n\<rparr>)"

definition toast_stage ::
    "ext \<Rightarrow> host_config \<Rightarrow> host_io \<Rightarrow> session_requested \<Rightarrow> u32 option \<Rightarrow> host_state \<Rightarrow> host_state" where
  "toast_stage E C io req display s =
     (case toast_evaluate E (h_toast s) (sq_client req) (io_instant io) (io_instant io) of
        (g, d) \<Rightarrow>
          let s1 = s\<lparr>h_toast := g, h_phase := LoopReady\<rparr> in
          (case d of
             ToastBlock \<Rightarrow> send_or_stop (io_send io) (KickSession (sq_session_id req) ''toast_rate_limited'') s1
           | ToastShow \<Rightarrow>
               if hc_auto_approve C then session_start C req display (io_instant io) s1
               else register_decision_gate req display (io_unix io) s1
           | SkipAutoAck \<Rightarrow> session_start C req display (io_instant io) s1))"

definition session_requested_arm ::
    "ext \<Rightarrow> host_config \<Rightarrow> host_io \<Rightarrow> session_requested \<Rightarrow> host_state \<Rightarrow> host_state" where
  "session_requested_arm E C io req s =
     (if requires_pin (pin_snapshot (h_pin s)) then
        let sid = sq_session_id req;
            (cs, n) = chan_new sid (h_bchans s);
            cs' = drop_bundle_sender (map_of (en_pending_bundles (h_enf s)) sid) cs
        in s\<lparr>h_bchans := cs',
             h_enf := register_pending_bundle (h_enf s) sid
               \<lparr>pb_expected_client = peer_id (sq_client req), pb_received = False, pb_deliver = n\<rparr>,
             h_phase := AwaitBundle req n\<rparr>
      else toast_stage E C io req None s)"

text \<open>The rest of the arm once the bundle oneshot is resolved.\<close>

definition bundle_gate_resume ::
    "ext \<Rightarrow> host_config \<Rightarrow> host_io \<Rightarrow> session_requested \<Rightarrow> session_bundle_info oneshot option \<Rightarrow> host_state \<Rightarrow> host_state" where
  "bundle_gate_resume E C io req outcome s =
     (let s0 = s\<lparr>h_phase := LoopReady\<rparr> in
      case outcome of
        None \<Rightarrow> send_or_stop (io_send io) (KickSession (sq_session_id req) ''pin_timeout'') s0
      | Some (ChDelivered bundle) \<Rightarrow>
         (case verify_bundle_locally (h_enf s0) bundle (hc_device_id C) (io_unix io) of
            (en, Inl _) \<Rightarrow> fst (kill_session (io_send io) (sq_session_id req) (s0\<lparr>h_enf := en\<rparr>))
          | (en, Inr _) \<Rightarrow>
             let s1 = s0\<lparr>h_enf := en\<rparr> in
             if \<not> verify_pin_proof bundle (h_pin s1)
             then fst (kill_session (io_send io) (sq_session_id req) s1)
             else toast_stage E C io req (bi_selected_display_id bundle) s1)
      | Some _ \<Rightarrow> s0)"

definition operator_gate_resume ::
    "host_config \<Rightarrow> host_io \<Rightarrow> session_requested \<Rightarrow> u32 option \<Rightarrow> bool oneshot option \<Rightarrow> host_state \<Rightarrow> host_state" where
  "operator_gate_resume C io req display outcome s =
     (let s0 = s\<lparr>h_phase := LoopReady\<rparr>; sid = sq_session_id req in
      case outcome of
        Some (ChDelivered True) \<Rightarrow>
          session_start C req display (io_instant io)
            (send_client_message (io_send io) (OperatorDecision sid True) s0)
      | _ \<Rightarrow> fst (kill_session (io_send io) sid
               (send_client_message (io_send io) (OperatorDecision sid False) s0)))"

definition pairing_requested_arm :: "host_config \<Rightarrow> host_io \<Rightarrow> pairing_requested \<Rightarrow> host_state \<Rightarrow> host_state" where
  "pairing_requested_arm C io r s =
     (let owner_bypass = (case hc_owner C of Some o' \<Rightarrow> o' = device_id (prq_client r) | None \<Rightarrow> False) in
      if hc_auto_approve C \<or> owner_bypass
      then send_or_stop (io_send io)
             (PairingDecision \<lparr>pdec_request_id = prq_request_id r, pdec_approved = True\<rparr>) s
      else (case h_ui s of
         Some ui \<Rightarrow> s\<lparr>h_ui := Some (ui_push ui r (io_unix io))\<rparr>
       | None \<Rightarrow> s))"

definition bundle_accepted_arm :: "session_bundle_info \<Rightarrow> host_state \<Rightarrow> host_state" where
  "bundle_accepted_arm bundle s =
     (case take_pending_bundle (h_enf s) (bi_session_id bundle) of
        (en, None) \<Rightarrow> s\<lparr>h_enf := en\<rparr>
      | (en, Some p) \<Rightarrow> s\<lparr>h_enf := en, h_bchans := chan_set (pb_deliver p) (ChDelivered bundle) (h_bchans s)\<rparr>)"

definition signed_kill_arm ::
    "ext \<Rightarrow> jwks_decoders \<Rightarrow> host_io \<Rightarrow> signed_kill_envelope \<Rightarrow> host_state \<Rightarrow> host_state" where
  "signed_kill_arm E D io env s =
     (case verify_kill_envelope_local E D (h_enf s) env (io_key1 io) (io_key2 io) (io_unix io) of
        (en, Inl _) \<Rightarrow> s\<lparr>h_enf := en\<rparr>
      | (en, Inr k) \<Rightarrow>
         let target = (case uuid_parse E (sk_sid k) of Some u \<Rightarrow> u | None \<Rightarrow> nil_uuid)
         in fst (kill_session (io_send io) target (s\<lparr>h_enf := en\<rparr>)))"

text \<open>\<open>dispatch_signal\<close>: without a registered session the signal is dropped; applying an offer or a
  candidate may fail, and the error ends the loop.\<close>

definition dispatch_signal :: "bool \<Rightarrow> relay_signal \<Rightarrow> host_state \<Rightarrow> host_state" where
  "dispatch_signal ok sg s =
     (if map_of (h_webrtc s) (rs_session_id sg) = None then s
      else (case rs_signal sg of
         SdpOffer _ \<Rightarrow> if ok then s else s\<lparr>h_phase := LoopStopped\<rparr>
       | IceCandidate _ _ _ \<Rightarrow> if ok then s else s\<lparr>h_phase := LoopStopped\<rparr>
       | _ \<Rightarrow> s))"

fun handle_server_message ::
    "ext \<Rightarrow> jwks_decoders \<Rightarrow> host_config \<Rightarrow> host_io \<Rightarrow> 'err server_message \<Rightarrow> host_state \<Rightarrow> host_state" where
  "handle_server_message E D C io (PairingRequested r) s = pairing_requested_arm C io r s"
| "handle_server_message E D C io (SessionRequested req) s = session_requested_arm E C io req s"
| "handle_server_message E D C io (Signal sg) s = dispatch_signal (io_signal io) sg s"
| "handle_server_message E D C io (SessionKicked sid reason) s = fst (kill_session (io_send io) sid s)"
| "handle_server_message E D C io (SessionBundleAccepted b) s = bundle_accepted_arm b s"
| "handle_server_message E D C io (SignedKillReceived env) s = signed_kill_arm E D io env s"
| "handle_server_message E D C io (SessionActivity sid) s =
     s\<lparr>h_enf := touch_activity (h_enf s) sid (io_instant io)\<rparr>"
| "handle_server_message E D C io _ s = s"

subsection \<open>The tasks\<close>

definition watchdog_tick :: "host_config \<Rightarrow> nat \<Rightarrow> bool \<Rightarrow> host_state \<Rightarrow> host_state" where
  "watchdog_tick C now ok s =
     foldl (\<lambda>s sid. fst (kill_session ok sid s)) s
       (collect_stale_sessions (h_enf s) (hc_idle_timeout C) now)"

text \<open>One turn of the task that delivers the operator's session decisions to the gate.\<close>

definition session_decision_task :: "host_state \<Rightarrow> host_state option" where
  "session_decision_task s =
     (case h_ui s of
        None \<Rightarrow> None
      | Some ui \<Rightarrow>
         (case ui_session_decisions ui of
            [] \<Rightarrow> None
          | (sid, approved) # rest \<Rightarrow>
             let ui1 = ui\<lparr>ui_session_decisions := rest\<rparr> in
             (case take_pending_decision (h_enf s) sid of
                (en, Some p) \<Rightarrow> Some (s\<lparr>h_enf := en,
                   h_dchans := chan_set (pd_deliver p) (ChDelivered approved) (h_dchans s),
                   h_ui := Some (remove_session ui1 sid)\<rparr>)
              | (en, None) \<Rightarrow> Some (s\<lparr>h_enf := en, h_ui := Some ui1\<rparr>))))"

text \<open>One turn of the task that sends the operator's pairing decisions to the relay.\<close>

definition pairing_decision_task :: "bool \<Rightarrow> host_state \<Rightarrow> host_state option" where
  "pairing_decision_task ok s =
     (case h_ui s of
        None \<Rightarrow> None
      | Some ui \<Rightarrow>
         (case ui_decisions ui of
            [] \<Rightarrow> None
          | (rid, approved) # rest \<Rightarrow>
             Some (send_client_message ok
               (PairingDecision \<lparr>pdec_request_id = rid, pdec_approved = approved\<rparr>)
               (s\<lparr>h_ui := Some (ui\<lparr>ui_decisions := rest\<rparr>)\<rparr>))))"

datatype 'err host_event =
    EvRecv "'err server_message" host_io
  | EvHeartbeat bool
  | EvWake host_io
  | EvTimeout host_io
  | EvWatchdog nat bool
  | EvSessionDecision
  | EvPairingDecision bool
  | EvDecide uuid bool
  | EvDecideSession uuid bool
  | EvWebrtcUp uuid

fun host_exec ::
    "ext \<Rightarrow> jwks_decoders \<Rightarrow> host_config \<Rightarrow> host_state \<Rightarrow> 'err host_event \<Rightarrow> host_state option" where
  "host_exec E D C s (EvRecv m io) =
     (if h_phase s = LoopReady then Some (handle_server_message E D C io m s) else None)"
| "host_exec E D C s (EvHeartbeat ok) =
     (if h_phase s = LoopReady then Some (send_or_stop ok Heartbeat s) else None)"
| "host_exec E D C s (EvWake io) =
     (case h_phase s of
        AwaitBundle req n \<Rightarrow>
          if chan_get (h_bchans s) n = ChPending then None
          else Some (bundle_gate_resume E C io req (Some (chan_get (h_bchans s) n)) s)
      | AwaitOperator req display n \<Rightarrow>
          if chan_get (h_dchans s) n = ChPending then None
          else Some (operator_gate_resume C io req display (Some (chan_get (h_dchans s) n)) s)
      | _ \<Rightarrow> None)"
| "host_exec E D C s (EvTimeout io) =
     (case h_phase s of
        AwaitBundle req n \<Rightarrow> Some (bundle_gate_resume E C io req None s)
      | AwaitOperator req display n \<Rightarrow> Some (operator_gate_resume C io req display None s)
      | _ \<Rightarrow> None)"
| "host_exec E D C s (EvWatchdog now ok) =
     (if hc_idle_timeout C = 0 \<or> h_phase s = LoopStopped then None else Some (watchdog_tick C now ok s))"
| "host_exec E D C s EvSessionDecision =
     (if h_phase s = LoopStopped then None else session_decision_task s)"
| "host_exec E D C s (EvPairingDecision ok) =
     (if h_phase s = LoopStopped then None else pairing_decision_task ok s)"
| "host_exec E D C s (EvDecide rid approved) =
     (if h_phase s = LoopStopped then None
      else map_option (\<lambda>ui. s\<lparr>h_ui := Some (ui_decide ui rid approved)\<rparr>) (h_ui s))"
| "host_exec E D C s (EvDecideSession sid approved) =
     (if h_phase s = LoopStopped then None
      else map_option (\<lambda>ui. s\<lparr>h_ui := Some (decide_session ui sid approved)\<rparr>) (h_ui s))"
| "host_exec E D C s (EvWebrtcUp sid) =
     (if \<exists>x \<in> set (h_started s). sq_session_id (fst x) = sid \<and> sq_transport (fst x) = WebRtc
      then Some (s\<lparr>h_webrtc := AList.update sid () (h_webrtc s)\<rparr>) else None)"

fun host_run ::
    "ext \<Rightarrow> jwks_decoders \<Rightarrow> host_config \<Rightarrow> host_state \<Rightarrow> 'err host_event list \<Rightarrow> host_state option" where
  "host_run E D C s [] = Some s"
| "host_run E D C s (ev # evs) =
     (case host_exec E D C s ev of None \<Rightarrow> None | Some s' \<Rightarrow> host_run E D C s' evs)"

subsection \<open>Frame lemmas\<close>

lemma foldl_inv: "P s \<Longrightarrow> (\<And>s x. P s \<Longrightarrow> P (f s x)) \<Longrightarrow> P (foldl f s xs)"
  by (induction xs arbitrary: s) auto

lemma send_message_frame [simp]:
  "h_phase (send_client_message ok m s) = h_phase s" "h_started (send_client_message ok m s) = h_started s"
  "h_pin (send_client_message ok m s) = h_pin s" "h_bchans (send_client_message ok m s) = h_bchans s"
  "h_dchans (send_client_message ok m s) = h_dchans s" "h_enf (send_client_message ok m s) = h_enf s"
  "h_ui (send_client_message ok m s) = h_ui s" "h_toast (send_client_message ok m s) = h_toast s"
  "h_webrtc (send_client_message ok m s) = h_webrtc s"
  by (simp_all add: send_client_message_def)

lemma send_or_stop_frame [simp]:
  "h_started (send_or_stop ok m s) = h_started s" "h_pin (send_or_stop ok m s) = h_pin s"
  "h_bchans (send_or_stop ok m s) = h_bchans s" "h_dchans (send_or_stop ok m s) = h_dchans s"
  "h_enf (send_or_stop ok m s) = h_enf s" "h_ui (send_or_stop ok m s) = h_ui s"
  "h_toast (send_or_stop ok m s) = h_toast s"
  "h_phase (send_or_stop ok m s) = (if ok then h_phase s else LoopStopped)"
  by (simp_all add: send_or_stop_def)

lemma kill_frame [simp]:
  "h_phase (fst (kill_session ok sid s)) = h_phase s" "h_started (fst (kill_session ok sid s)) = h_started s"
  "h_pin (fst (kill_session ok sid s)) = h_pin s" "h_ui (fst (kill_session ok sid s)) = h_ui s"
  "h_toast (fst (kill_session ok sid s)) = h_toast s"
  "h_bchans (fst (kill_session ok sid s)) =
     drop_bundle_sender (map_of (en_pending_bundles (h_enf s)) sid) (h_bchans s)"
  "h_dchans (fst (kill_session ok sid s)) =
     drop_decision_sender (map_of (en_pending_decisions (h_enf s)) sid) (h_dchans s)"
  "h_enf (fst (kill_session ok sid s)) = remove_activity (drop_pending (h_enf s) sid) sid"
  "h_webrtc (fst (kill_session ok sid s)) = AList.delete sid (h_webrtc s)"
  by (simp_all add: kill_session_def Let_def)

lemma session_start_frame [simp]:
  "h_phase (session_start C req d now s) = LoopReady" "h_pin (session_start C req d now s) = h_pin s"
  "h_ui (session_start C req d now s) = h_ui s" "h_toast (session_start C req d now s) = h_toast s"
  "h_bchans (session_start C req d now s) = h_bchans s" "h_dchans (session_start C req d now s) = h_dchans s"
  "h_enf (session_start C req d now s) = touch_activity (h_enf s) (sq_session_id req) now"
  by (simp_all add: session_start_def Let_def split: transport_kind.split)

lemma session_start_started:
  "set (h_started (session_start C req d now s)) \<subseteq> set (h_started s) \<union> {(req, None), (req, d)}"
  by (auto simp: session_start_def Let_def split: transport_kind.splits if_splits)

lemma chan_get_cancel [simp]:
  "chan_get (chan_set m ChCanceled cs) n = ChDelivered b \<longleftrightarrow> chan_get cs n = ChDelivered b"
  by (auto simp: chan_get_def chan_set_def nth_list_update split: prod.splits oneshot.splits)

lemma chan_get_drop_sender [simp]:
  "chan_get (drop_bundle_sender p bs) n = ChDelivered b \<longleftrightarrow> chan_get bs n = ChDelivered b"
  "chan_get (drop_decision_sender q ds) n = ChDelivered v \<longleftrightarrow> chan_get ds n = ChDelivered v"
  by (simp_all add: drop_bundle_sender_def drop_decision_sender_def split: option.split)

lemma chan_new_fresh [simp]: "chan_get (fst (chan_new sid cs)) (snd (chan_new sid cs)) = ChPending"
  by (simp add: chan_get_def chan_new_def)

subsection \<open>The PIN gate\<close>

definition pin_gate_shut :: "host_state \<Rightarrow> bool" where
  "pin_gate_shut s \<longleftrightarrow> requires_pin (pn_state (h_pin s)) \<and> h_started s = [] \<and>
     (case h_phase s of
        AwaitBundle r n \<Rightarrow> (\<forall>b. chan_get (h_bchans s) n \<noteq> ChDelivered b)
      | AwaitOperator r d n \<Rightarrow> False
      | _ \<Rightarrow> True)"

lemma pin_gate_shut_kill: "pin_gate_shut s \<Longrightarrow> pin_gate_shut (fst (kill_session ok sid s))"
  by (simp add: pin_gate_shut_def split: loop_phase.splits)

lemma pin_gate_shut_recv:
  assumes "pin_gate_shut s" "h_phase s = LoopReady"
  shows "pin_gate_shut (handle_server_message E D C io m s)"
proof (cases m)
  case (PairingRequested r)
  then show ?thesis using assms
    by (auto simp: pin_gate_shut_def pairing_requested_arm_def Let_def split: option.split)
next
  case (SessionRequested req)
  let ?c = "chan_new (sq_session_id req) (h_bchans s)"
  have "chan_get (drop_bundle_sender p (fst ?c)) (snd ?c) \<noteq> ChDelivered b" for p b
    by simp
  then show ?thesis using assms SessionRequested
    by (auto simp: pin_gate_shut_def session_requested_arm_def pin_snapshot_def Let_def case_prod_beta)
next
  case (Signal sg)
  then show ?thesis using assms
    by (auto simp: pin_gate_shut_def dispatch_signal_def split: session_signal.split)
next
  case (SessionBundleAccepted b)
  then show ?thesis using assms
    by (auto simp: pin_gate_shut_def bundle_accepted_arm_def take_pending_bundle_def split: option.split)
next
  case (SignedKillReceived env)
  then show ?thesis using assms
    by (auto simp: signed_kill_arm_def Let_def pin_gate_shut_def split: prod.split sum.split)
qed (use assms pin_gate_shut_kill in \<open>auto simp: pin_gate_shut_def\<close>)

lemma pin_gate_shut_step:
  assumes "pin_gate_shut s" "host_exec E D C s ev = Some s'"
  shows "pin_gate_shut s'"
proof (cases ev)
  case (EvRecv m io)
  then show ?thesis using assms pin_gate_shut_recv by (auto split: if_splits)
next
  case (EvHeartbeat ok)
  then show ?thesis using assms by (auto simp: pin_gate_shut_def split: if_splits)
next
  case (EvWake io)
  then show ?thesis using assms
    by (auto simp: pin_gate_shut_def bundle_gate_resume_def Let_def
        split: loop_phase.splits if_splits oneshot.splits)
next
  case (EvTimeout io)
  then show ?thesis using assms
    by (auto simp: pin_gate_shut_def bundle_gate_resume_def Let_def split: loop_phase.splits if_splits)
next
  case (EvWatchdog now ok)
  then have "s' = watchdog_tick C now ok s" using assms(2) by (auto split: if_splits)
  then show ?thesis unfolding watchdog_tick_def
    by (simp add: foldl_inv [of pin_gate_shut] assms(1) pin_gate_shut_kill)
next
  case EvSessionDecision
  then show ?thesis using assms
    by (auto simp: pin_gate_shut_def session_decision_task_def take_pending_decision_def Let_def
        split: if_splits option.splits list.splits loop_phase.splits)
next
  case (EvPairingDecision ok)
  then show ?thesis using assms
    by (auto simp: pin_gate_shut_def pairing_decision_task_def
        split: if_splits option.splits list.splits loop_phase.splits)
qed (use assms in \<open>auto simp: pin_gate_shut_def split: if_splits loop_phase.splits\<close>)

lemma pin_gate_shut_run: "pin_gate_shut s \<Longrightarrow> host_run E D C s evs = Some s' \<Longrightarrow> pin_gate_shut s'"
  by (induction evs arbitrary: s) (auto dest: pin_gate_shut_step split: option.splits)

text \<open>C39: A host whose policy requires a PIN never starts a session. The gate waits inside the handler
  that the message loop awaits, and the bundle that would open it arrives as a message of the same
  loop, so in every run the wait ends by the timeout or by a cancellation and nothing is started.\<close>

theorem pin_gate_never_opens:
  assumes "requires_pin (pn_state pin)"
    and "host_run E D C (host_init C g pin jwks) evs = Some s"
  shows "h_started s = [] \<and> (\<forall>r d n. h_phase s \<noteq> AwaitOperator r d n)"
proof -
  have "pin_gate_shut (host_init C g pin jwks)"
    using assms(1) by (simp add: pin_gate_shut_def host_init_def)
  from pin_gate_shut_run [OF this assms(2)] show ?thesis
    by (auto simp: pin_gate_shut_def)
qed

definition demo_request :: "transport_kind \<Rightarrow> session_requested" where
  "demo_request t = \<lparr>sq_session_id = 9, sq_client = demo_peer 2 3 Client, sq_transport = t, sq_codec = H264,
     sq_host_credential = undefined, sq_client_credential = undefined, sq_ice_servers = [], sq_video = None,
     sq_permissions = default_permissions, sq_sync_only = False\<rparr>"

definition demo_config :: host_config where
  "demo_config = \<lparr>hc_auto_approve = False, hc_owner = None, hc_device_id = ''h'', hc_idle_timeout = 100,
     hc_webtransport = False\<rparr>"

definition demo_hio :: "nat \<Rightarrow> host_io" where
  "demo_hio t = \<lparr>io_send = True, io_instant = t, io_unix = of_nat t, io_key1 = (None, 0, 0),
     io_key2 = (None, 0, 0), io_signal = True\<rparr>"

definition demo_gate :: toast_gate where
  "demo_gate = toast_gate_new default_toast_policy (limiter_new 60000 5 86400000) None"

lemmas host_eval = demo_request_def demo_config_def demo_hio_def demo_gate_def demo_peer_def host_init_def
  toast_gate_new_def default_toast_policy_def limiter_new_def pairing_ui_new_def enforcement_from_env_def
  session_requested_arm_def bundle_gate_resume_def operator_gate_resume_def toast_stage_def session_start_def
  register_decision_gate_def kill_session_def send_client_message_def send_or_stop_def chan_new_def chan_set_def
  chan_get_def drop_bundle_sender_def drop_decision_sender_def bundle_accepted_arm_def watchdog_tick_def
  session_decision_task_def register_pending_bundle_def register_pending_decision_def take_pending_bundle_def
  take_pending_decision_def drop_pending_def touch_activity_def remove_activity_def activity_touch_def
  activity_remove_def push_session_def remove_session_def decide_session_def toast_evaluate_def is_owner_def
  is_known_def is_blocked_at_def record_attempt_def bucket_of_def requires_toast_def pin_snapshot_def
  requires_pin_def collect_stale_sessions_def collect_stale_def List.map_filter_def

theorem pin_gate_never_opens_witness:
  "\<forall>E D. \<exists>s. host_run E D demo_config
      (host_init demo_config demo_gate (pin_memory\<lparr>pn_state := \<lparr>pn_mode = PinRequired, pn_hash = None\<rparr>\<rparr>) None)
      [EvRecv (SessionRequested (demo_request WebRtc)) (demo_hio 1), EvTimeout (demo_hio 30001),
       EvRecv (SessionBundleAccepted demo_info) (demo_hio 30002) :: string host_event] = Some s \<and>
     h_started s = [] \<and> h_sent s = [KickSession 9 ''pin_timeout'']"
  apply (intro allI)
  subgoal for E D
  proof -
    let ?pin = "pin_memory\<lparr>pn_state := \<lparr>pn_mode = PinRequired, pn_hash = None\<rparr>\<rparr>"
    let ?evs = "[EvRecv (SessionRequested (demo_request WebRtc)) (demo_hio 1), EvTimeout (demo_hio 30001),
         EvRecv (SessionBundleAccepted demo_info) (demo_hio 30002) :: string host_event]"
    have "requires_pin (pn_state ?pin)" by (simp add: requires_pin_def)
    moreover obtain s where s: "host_run E D demo_config (host_init demo_config demo_gate ?pin None) ?evs = Some s"
      "h_sent s = [KickSession 9 ''pin_timeout'']"
      by (simp add: host_eval demo_info_def)
    ultimately show ?thesis using pin_gate_never_opens by blast
  qed
  done

subsection \<open>The operator gate\<close>

text \<open>\<open>A\<close> is the set of sessions the operator has approved through the loopback endpoint so far.\<close>

definition pending_decisions_ok :: "host_state \<Rightarrow> bool" where
  "pending_decisions_ok s \<longleftrightarrow> (\<forall>sid p. map_of (en_pending_decisions (h_enf s)) sid = Some p \<longrightarrow>
     pd_deliver p < length (h_dchans s) \<and> fst (h_dchans s ! pd_deliver p) = sid)"

definition decisions_approved :: "uuid set \<Rightarrow> host_state \<Rightarrow> bool" where
  "decisions_approved A s \<longleftrightarrow>
     (\<forall>ui sid. h_ui s = Some ui \<longrightarrow> (sid, True) \<in> set (ui_session_decisions ui) \<longrightarrow> sid \<in> A) \<and>
     (\<forall>sid. (sid, ChDelivered True) \<in> set (h_dchans s) \<longrightarrow> sid \<in> A)"

definition gate_session_ok :: "host_state \<Rightarrow> bool" where
  "gate_session_ok s \<longleftrightarrow> (case h_phase s of
     AwaitOperator r d n \<Rightarrow> n < length (h_dchans s) \<and> fst (h_dchans s ! n) = sq_session_id r | _ \<Rightarrow> True)"

definition started_approved :: "uuid set \<Rightarrow> host_state \<Rightarrow> bool" where
  "started_approved A s \<longleftrightarrow> (\<forall>x \<in> set (h_started s). sq_session_id (fst x) \<in> A \<or>
     tg_owner (h_toast s) = Some (device_id (sq_client (fst x))))"

definition operator_inv :: "uuid set \<Rightarrow> host_state \<Rightarrow> bool" where
  "operator_inv A s \<longleftrightarrow> pending_decisions_ok s \<and> decisions_approved A s \<and> gate_session_ok s \<and>
     started_approved A s \<and> tp_mode (tg_policy (h_toast s)) \<noteq> ToastOff \<and> tg_known (h_toast s) = []"

lemmas operator_inv_defs = operator_inv_def pending_decisions_ok_def decisions_approved_def
  gate_session_ok_def started_approved_def

lemma chan_set_facts [simp]:
  "length (chan_set m v cs) = length cs" "n < length cs \<Longrightarrow> fst (chan_set m v cs ! n) = fst (cs ! n)"
  by (auto simp: chan_set_def nth_list_update split: prod.split oneshot.split)

lemma in_chan_set:
  "(sid, x) \<in> set (chan_set m v cs) \<Longrightarrow> (sid, x) \<in> set cs \<or> (m < length cs \<and> sid = fst (cs ! m) \<and> x = v)"
  using set_update_subset_insert [of cs m "(fst (cs ! m), v)"]
  by (cases "cs ! m"; cases "snd (cs ! m)") (auto simp: chan_set_def split: if_splits)

lemma drop_decision_sender_facts [simp]:
  "length (drop_decision_sender p cs) = length cs"
  "n < length cs \<Longrightarrow> fst (drop_decision_sender p cs ! n) = fst (cs ! n)"
  "(sid, ChDelivered v) \<in> set (drop_decision_sender p cs) \<Longrightarrow> (sid, ChDelivered v) \<in> set cs"
  by (auto simp: drop_decision_sender_def dest: in_chan_set split: option.splits)

lemma toast_frame:
  assumes "toast_evaluate E g v t t' = (g', d)"
  shows "tg_policy g' = tg_policy g" "tg_owner g' = tg_owner g" "tg_known g' = tg_known g"
    and "tp_mode (tg_policy g) \<noteq> ToastOff \<Longrightarrow> tg_known g = [] \<Longrightarrow> d = SkipAutoAck \<Longrightarrow>
      tg_owner g = Some (device_id v)"
  using assms
  by (auto simp: toast_evaluate_decision Let_def requires_toast_def is_known_def is_owner_def
      split: if_splits toast_mode.splits option.splits)

lemma operator_inv_kill: "operator_inv A s \<Longrightarrow> operator_inv A (fst (kill_session ok sid s))"
  by (auto simp: operator_inv_defs remove_activity_def drop_pending_def split: loop_phase.splits)

lemma operator_inv_start:
  assumes "operator_inv A s"
    and "sq_session_id req \<in> A \<or> tg_owner (h_toast s) = Some (device_id (sq_client req))"
  shows "operator_inv A (session_start C req d now s)"
  using assms session_start_started [of C req d now s]
  by (auto simp: operator_inv_defs touch_activity_def)

lemma register_gate_fields:
  "h_toast (register_decision_gate req d unix s) = h_toast s"
  "h_started (register_decision_gate req d unix s) = h_started s"
  "h_phase (register_decision_gate req d unix s) = AwaitOperator req d (length (h_dchans s))"
  "h_pin (register_decision_gate req d unix s) = h_pin s"
  "h_dchans (register_decision_gate req d unix s) =
     drop_decision_sender (map_of (en_pending_decisions (h_enf s)) (sq_session_id req))
       (h_dchans s @ [(sq_session_id req, ChPending)])"
  "en_pending_decisions (h_enf (register_decision_gate req d unix s)) =
     AList.update (sq_session_id req) \<lparr>pd_deliver = length (h_dchans s)\<rparr> (en_pending_decisions (h_enf s))"
  "h_ui (register_decision_gate req d unix s) = map_option (\<lambda>ui. push_session ui (sq_session_id req)
     (peer_id (sq_client req)) (device_name (sq_client req)) unix) (h_ui s)"
  by (simp_all add: register_decision_gate_def Let_def chan_new_def register_pending_decision_def)

lemma operator_inv_gate:
  assumes "operator_inv A s" shows "operator_inv A (register_decision_gate req d unix s)"
proof -
  let ?s = "register_decision_gate req d unix s"
  have "pending_decisions_ok ?s"
    using assms by (auto simp: operator_inv_def pending_decisions_ok_def register_gate_fields nth_append
        less_Suc_eq split: if_splits)
  moreover have "decisions_approved A ?s"
    using assms
    by (auto simp: operator_inv_def decisions_approved_def register_gate_fields push_session_def
        dest!: drop_decision_sender_facts(3))
  ultimately show ?thesis using assms
    by (simp add: operator_inv_def gate_session_ok_def started_approved_def register_gate_fields)
qed

lemma operator_inv_phase:
  "operator_inv A s \<Longrightarrow> operator_inv A (s\<lparr>h_phase := LoopReady\<rparr>)"
  "operator_inv A s \<Longrightarrow> operator_inv A (s\<lparr>h_phase := LoopStopped\<rparr>)"
  "operator_inv A s \<Longrightarrow> operator_inv A (s\<lparr>h_phase := AwaitBundle r n\<rparr>)"
  "operator_inv A s \<Longrightarrow> operator_inv A (s\<lparr>h_bchans := bs\<rparr>)"
  "operator_inv A s \<Longrightarrow> operator_inv A (s\<lparr>h_webrtc := ws\<rparr>)"
  "operator_inv A s \<Longrightarrow> operator_inv A (send_client_message ok m s)"
  by (auto simp: operator_inv_defs split: loop_phase.splits)

lemma operator_inv_enf:
  "operator_inv A s \<Longrightarrow> en_pending_decisions en = en_pending_decisions (h_enf s) \<Longrightarrow>
   operator_inv A (s\<lparr>h_enf := en\<rparr>)"
  by (auto simp: operator_inv_defs split: loop_phase.splits)

lemma operator_inv_ui:
  "operator_inv A s \<Longrightarrow> (\<And>x. (x, True) \<in> set (ui_session_decisions ui) \<Longrightarrow> x \<in> A) \<Longrightarrow>
   operator_inv A (s\<lparr>h_ui := Some ui\<rparr>)"
  by (simp add: operator_inv_defs split: loop_phase.splits)

lemma operator_inv_uiD:
  "operator_inv A s \<Longrightarrow> h_ui s = Some ui \<Longrightarrow> (x, True) \<in> set (ui_session_decisions ui) \<Longrightarrow> x \<in> A"
  by (simp add: operator_inv_def decisions_approved_def)

lemma operator_inv_dchans:
  "operator_inv A s \<Longrightarrow> (\<And>x. (x, ChDelivered True) \<in> set (chan_set n v (h_dchans s)) \<Longrightarrow> x \<in> A) \<Longrightarrow>
   operator_inv A (s\<lparr>h_dchans := chan_set n v (h_dchans s)\<rparr>)"
  by (simp add: operator_inv_defs split: loop_phase.splits)

lemma operator_inv_take:
  "operator_inv A s \<Longrightarrow> operator_inv A (s\<lparr>h_enf := (h_enf s)\<lparr>en_pending_decisions :=
     AList.delete sid (en_pending_decisions (h_enf s))\<rparr>\<rparr>)"
  by (simp add: operator_inv_defs split: loop_phase.splits)

lemma operator_inv_send: "operator_inv A s \<Longrightarrow> operator_inv A (send_or_stop ok m s)"
  by (simp add: send_or_stop_def operator_inv_phase)

lemma operator_inv_toast:
  assumes "operator_inv A s" "\<not> hc_auto_approve C"
  shows "operator_inv A (toast_stage E C io req d s)"
proof -
  obtain g t where e: "toast_evaluate E (h_toast s) (sq_client req) (io_instant io) (io_instant io) = (g, t)"
    by fastforce
  let ?s = "s\<lparr>h_toast := g, h_phase := LoopReady\<rparr>"
  have i: "operator_inv A ?s" using assms(1) toast_frame [OF e] by (auto simp: operator_inv_defs)
  show ?thesis
  proof (cases t)
    case SkipAutoAck
    then have "tg_owner (h_toast ?s) = Some (device_id (sq_client req))"
      using toast_frame [OF e] assms(1) by (simp add: operator_inv_def)
    with operator_inv_start [OF i] SkipAutoAck show ?thesis by (simp add: toast_stage_def e)
  qed (simp_all add: toast_stage_def e assms(2) operator_inv_send [OF i] operator_inv_gate [OF i])
qed

lemma verify_keeps_decisions:
  "en_pending_decisions (fst (verify_bundle_locally en b self now)) = en_pending_decisions en"
  "en_pending_decisions (fst (verify_kill_envelope_local E D en env k1 k2 now)) = en_pending_decisions en"
  by (auto simp: verify_bundle_locally_def verify_kill_envelope_local_def Let_def
      split: prod.split sum.split option.split)

lemma operator_inv_recv:
  assumes "operator_inv A s" "\<not> hc_auto_approve C"
  shows "operator_inv A (handle_server_message E D C io m s)"
proof (cases m)
  case (PairingRequested r)
  have "operator_inv A (s\<lparr>h_ui := Some (ui_push ui r t)\<rparr>)" if "h_ui s = Some ui" for ui t
    using assms(1) that by (auto simp: operator_inv_defs ui_push_def split: loop_phase.splits)
  then show ?thesis using assms PairingRequested
    by (auto simp: pairing_requested_arm_def Let_def operator_inv_send split: option.split)
next
  case (SessionRequested req)
  then show ?thesis using assms
    by (auto simp: session_requested_arm_def Let_def case_prod_beta register_pending_bundle_def
        intro!: operator_inv_toast operator_inv_phase operator_inv_enf)
next
  case (Signal sg)
  then show ?thesis using assms
    by (auto simp: dispatch_signal_def intro: operator_inv_phase split: session_signal.split)
next
  case (SessionBundleAccepted b)
  then show ?thesis using assms
    by (auto simp: bundle_accepted_arm_def take_pending_bundle_def split: option.split
        intro!: operator_inv_phase operator_inv_enf)
next
  case (SignedKillReceived env)
  then show ?thesis using assms verify_keeps_decisions(2) [of E D "h_enf s" env "io_key1 io" "io_key2 io" "io_unix io"]
    by (auto simp: signed_kill_arm_def Let_def split: prod.split sum.split
        intro!: operator_inv_enf operator_inv_kill)
next
  case (SessionActivity sid)
  then show ?thesis using assms by (auto simp: touch_activity_def intro!: operator_inv_enf)
qed (use assms operator_inv_kill in auto)

lemma operator_inv_bundle_resume:
  assumes "operator_inv A s" "\<not> hc_auto_approve C"
  shows "operator_inv A (bundle_gate_resume E C io req out s)"
  using assms verify_keeps_decisions(1) [of "h_enf s" _ "hc_device_id C" "io_unix io"]
  by (auto simp: bundle_gate_resume_def Let_def split: option.split oneshot.split prod.split sum.split
      intro!: operator_inv_send operator_inv_phase operator_inv_kill operator_inv_enf operator_inv_toast
      dest!: arg_cong [where f = fst])

lemma operator_inv_operator_resume:
  assumes "operator_inv A s" "h_phase s = AwaitOperator req d n"
    and "out = None \<or> out = Some (chan_get (h_dchans s) n)"
  shows "operator_inv A (operator_gate_resume C io req d out s)"
proof (cases "out = Some (ChDelivered True)")
  case True
  then have "chan_get (h_dchans s) n = ChDelivered True" using assms(3) by auto
  moreover have n: "n < length (h_dchans s)" "fst (h_dchans s ! n) = sq_session_id req"
    using assms(1,2) by (simp_all add: operator_inv_def gate_session_ok_def)
  ultimately have "h_dchans s ! n = (sq_session_id req, ChDelivered True)"
    by (auto simp: chan_get_def prod_eq_iff)
  then have "(sq_session_id req, ChDelivered True) \<in> set (h_dchans s)" using n(1) by (metis nth_mem)
  then have "sq_session_id req \<in> A" using assms(1) by (simp add: operator_inv_def decisions_approved_def)
  with True assms(1) show ?thesis
    by (simp add: operator_gate_resume_def Let_def operator_inv_start operator_inv_phase)
next
  case False
  then show ?thesis using assms(1)
    by (auto simp: operator_gate_resume_def Let_def operator_inv_kill operator_inv_phase
        split: option.split oneshot.split bool.split)
qed

lemma operator_inv_decision_task:
  assumes "operator_inv A s" "session_decision_task s = Some s'"
  shows "operator_inv A s'"
proof -
  obtain ui sid v rest where ui: "h_ui s = Some ui" "ui_session_decisions ui = (sid, v) # rest"
    using assms(2) by (auto simp: session_decision_task_def split: option.splits list.splits)
  have A: "v \<Longrightarrow> sid \<in> A" "\<And>x. (x, True) \<in> set rest \<Longrightarrow> x \<in> A"
    using assms(1) ui by (auto simp: operator_inv_def decisions_approved_def)
  show ?thesis
  proof (cases "map_of (en_pending_decisions (h_enf s)) sid")
    case None
    then have "s' = s\<lparr>h_enf := (h_enf s)\<lparr>en_pending_decisions :=
        AList.delete sid (en_pending_decisions (h_enf s))\<rparr>, h_ui := Some (ui\<lparr>ui_session_decisions := rest\<rparr>)\<rparr>"
      using assms(2) ui by (simp add: session_decision_task_def take_pending_decision_def)
    then show ?thesis using assms(1) A(2) by (auto intro!: operator_inv_ui operator_inv_take)
  next
    case (Some p)
    then have p: "fst (h_dchans s ! pd_deliver p) = sid"
      using assms(1) by (auto simp: operator_inv_def pending_decisions_ok_def)
    let ?d = "chan_set (pd_deliver p) (ChDelivered v) (h_dchans s)"
    let ?t = "s\<lparr>h_enf := (h_enf s)\<lparr>en_pending_decisions := AList.delete sid (en_pending_decisions (h_enf s))\<rparr>\<rparr>"
    have "x \<in> A" if "(x, ChDelivered True) \<in> set ?d" for x
      using in_chan_set [OF that] p A(1) assms(1) by (auto simp: operator_inv_def decisions_approved_def)
    then have "operator_inv A (?t\<lparr>h_dchans := chan_set (pd_deliver p) (ChDelivered v) (h_dchans ?t)\<rparr>)"
      using assms(1) by (intro operator_inv_dchans operator_inv_take) simp_all
    moreover have "s' = ?t\<lparr>h_dchans := chan_set (pd_deliver p) (ChDelivered v) (h_dchans ?t),
        h_ui := Some (remove_session (ui\<lparr>ui_session_decisions := rest\<rparr>) sid)\<rparr>"
      using assms(2) ui Some by (simp add: session_decision_task_def take_pending_decision_def)
    ultimately show ?thesis using A(2) by (auto simp: remove_session_def intro!: operator_inv_ui)
  qed
qed

definition approvals :: "'err host_event list \<Rightarrow> uuid set" where
  "approvals evs = {sid. EvDecideSession sid True \<in> set evs}"

lemma operator_inv_mono: "operator_inv A s \<Longrightarrow> A \<subseteq> B \<Longrightarrow> operator_inv B s"
  by (auto simp: operator_inv_def decisions_approved_def started_approved_def)

lemma operator_inv_step:
  assumes i: "operator_inv A s" and na: "\<not> hc_auto_approve C" and ex: "host_exec E D C s ev = Some s'"
  shows "operator_inv (A \<union> approvals [ev]) s'"
proof (cases "\<exists>sid v. ev = EvDecideSession sid v")
  case True
  then obtain sid v ui where ev: "ev = EvDecideSession sid v" "h_ui s = Some ui"
    "s' = s\<lparr>h_ui := Some (decide_session ui sid v)\<rparr>"
    using ex by (auto split: if_splits)
  have m: "operator_inv (A \<union> approvals [ev]) s" using i by (rule operator_inv_mono) simp
  then have "(x, True) \<in> set (ui_session_decisions (decide_session ui sid v)) \<Longrightarrow> x \<in> A \<union> approvals [ev]" for x
    using ev(1,2) by (auto simp: operator_inv_def decisions_approved_def decide_session_def approvals_def)
  with m show ?thesis unfolding ev(3) by (intro operator_inv_ui)
next
  case False
  have "operator_inv A s'"
  proof (cases ev)
    case (EvRecv m io)
    then show ?thesis using i ex operator_inv_recv [OF i na] by (auto split: if_splits)
  next
    case (EvHeartbeat ok)
    then show ?thesis using i ex operator_inv_send by (auto split: if_splits)
  next
    case (EvWake io)
    then show ?thesis using ex operator_inv_bundle_resume [OF i na] operator_inv_operator_resume [OF i]
      by (auto split: loop_phase.splits if_splits)
  next
    case (EvTimeout io)
    then show ?thesis using ex operator_inv_bundle_resume [OF i na] operator_inv_operator_resume [OF i]
      by (auto split: loop_phase.splits)
  next
    case (EvWatchdog now ok)
    then have "s' = watchdog_tick C now ok s" using ex by (auto split: if_splits)
    then show ?thesis unfolding watchdog_tick_def
      by (simp add: foldl_inv [of "operator_inv A"] i operator_inv_kill)
  next
    case EvSessionDecision
    then show ?thesis using ex operator_inv_decision_task [OF i] by (auto split: if_splits)
  next
    case (EvPairingDecision ok)
    then show ?thesis using i ex
      by (auto simp: pairing_decision_task_def split: if_splits option.splits list.splits
          intro!: operator_inv_phase(6) operator_inv_ui dest: operator_inv_uiD)
  next
    case (EvDecide rid v)
    then show ?thesis using i ex
      by (auto simp: ui_decide_def Let_def split: if_splits intro!: operator_inv_ui dest: operator_inv_uiD)
  qed (use False i ex operator_inv_phase in \<open>auto split: if_splits\<close>)
  then show ?thesis by (rule operator_inv_mono) simp
qed

lemma approvals_Cons: "approvals (ev # evs) = approvals [ev] \<union> approvals evs"
  by (auto simp: approvals_def)

lemma operator_inv_run:
  "operator_inv A s \<Longrightarrow> \<not> hc_auto_approve C \<Longrightarrow> host_run E D C s evs = Some s' \<Longrightarrow>
   operator_inv (A \<union> approvals evs) s'"
proof (induction evs arbitrary: A s)
  case (Cons ev evs)
  then obtain s1 where s1: "host_exec E D C s ev = Some s1" "host_run E D C s1 evs = Some s'"
    by (auto split: option.splits)
  from Cons.IH [OF operator_inv_step [OF Cons.prems(1,2) s1(1)] Cons.prems(2) s1(2)] show ?case
    by (simp add: approvals_Cons [of ev evs] Un_assoc)
qed (simp add: approvals_def)

text \<open>C6: On a host without automatic approval and with the toast policy not off, a session is started
  only if the operator approved that very session through the loopback endpoint, or the client runs
  on the owner's device. Since nothing marks a viewer as known, this holds for the default policy
  \<open>NewViewersOnly\<close> as it does for \<open>On\<close>, on every run and under every interleaving of the tasks.\<close>

theorem started_needs_operator:
  assumes "\<not> hc_auto_approve C" and "tp_mode (tg_policy g) \<noteq> ToastOff" and "tg_known g = []"
    and "host_run E D C (host_init C g pin jwks) evs = Some s" and "(req, d) \<in> set (h_started s)"
  shows "EvDecideSession (sq_session_id req) True \<in> set evs \<or>
    tg_owner (h_toast s) = Some (device_id (sq_client req))"
proof -
  have "operator_inv {} (host_init C g pin jwks)"
    using assms(1-3) by (simp add: operator_inv_defs host_init_def enforcement_from_env_def pairing_ui_new_def)
  from operator_inv_run [OF this assms(1,4)] assms(5) show ?thesis
    by (auto simp: operator_inv_def started_approved_def approvals_def)
qed

definition demo_host_events :: "string host_event list" where
  "demo_host_events = [EvRecv (SessionRequested (demo_request WebRtc)) (demo_hio 1),
     EvDecideSession 9 True, EvSessionDecision, EvWake (demo_hio 5)]"

theorem started_needs_operator_witness:
  "\<forall>E D. \<exists>s. host_run E D demo_config (host_init demo_config demo_gate pin_memory None) demo_host_events = Some s \<and>
     h_started s = [(demo_request WebRtc, None)] \<and>
     (EvDecideSession 9 True \<in> set demo_host_events \<or> tg_owner (h_toast s) = Some 2)"
  apply (intro allI)
  subgoal for E D
  proof -
    obtain s where s: "host_run E D demo_config (host_init demo_config demo_gate pin_memory None) demo_host_events = Some s"
      "h_started s = [(demo_request WebRtc, None)]"
      by (simp add: host_eval demo_host_events_def pin_memory_def default_pin_policy_def)
    have "\<not> hc_auto_approve demo_config" "tp_mode (tg_policy demo_gate) \<noteq> ToastOff" "tg_known demo_gate = []"
      by (simp_all add: host_eval)
    from started_needs_operator [OF this s(1), of "demo_request WebRtc" None] s show ?thesis
      by (simp add: demo_request_def demo_peer_def)
  qed
  done

subsection \<open>Timeouts and the watchdog\<close>



lemma kill_fold:
  fixes s :: host_state and ok :: bool
  defines "k \<equiv> \<lambda>sids s. foldl (\<lambda>s sid. fst (kill_session ok sid s)) s sids"
  shows "map_of (en_activity (h_enf (k sids s))) x = (if x \<in> set sids then None else map_of (en_activity (h_enf s)) x)"
    and "map_of (h_webrtc (k sids s)) x = (if x \<in> set sids then None else map_of (h_webrtc s) x)"
    and "map_of (en_pending_bundles (h_enf (k sids s))) x =
      (if x \<in> set sids then None else map_of (en_pending_bundles (h_enf s)) x)"
    and "map_of (en_pending_decisions (h_enf (k sids s))) x =
      (if x \<in> set sids then None else map_of (en_pending_decisions (h_enf s)) x)"
  unfolding k_def
  by (induction sids arbitrary: s) (simp_all add: remove_activity_def activity_remove_def drop_pending_def)

text \<open>A watchdog tick removes exactly the idle sessions: afterwards every tracked session was active
  within the timeout, a session that was is untouched in the tracker, the WebRTC registry and both
  gates, and one that was not is gone from all four.\<close>

theorem watchdog_enforces_idle:
  assumes "wf_map (en_activity (h_enf s))"
  shows "let s' = watchdog_tick C now ok s;
             stale = (\<lambda>x. \<exists>t. map_of (en_activity (h_enf s)) x = Some t \<and> hc_idle_timeout C \<le> now - t)
    in (\<forall>x t. map_of (en_activity (h_enf s')) x = Some t \<longrightarrow> now - t < hc_idle_timeout C) \<and>
       (\<forall>x. map_of (en_activity (h_enf s')) x = (if stale x then None else map_of (en_activity (h_enf s)) x) \<and>
            map_of (h_webrtc s') x = (if stale x then None else map_of (h_webrtc s) x) \<and>
            map_of (en_pending_bundles (h_enf s')) x =
              (if stale x then None else map_of (en_pending_bundles (h_enf s)) x) \<and>
            map_of (en_pending_decisions (h_enf s')) x =
              (if stale x then None else map_of (en_pending_decisions (h_enf s)) x))"
  using collect_stale_iff [OF assms, of _ "hc_idle_timeout C" now]
  by (auto simp: Let_def watchdog_tick_def collect_stale_sessions_def kill_fold not_less)

theorem watchdog_enforces_idle_witness:
  "let s = (host_init demo_config demo_gate pin_memory None)\<lparr>h_webrtc := [(4, ()), (5, ())],
             h_enf := touch_activity (touch_activity (enforcement_from_env None) 4 10) 5 80\<rparr>;
       s' = watchdog_tick demo_config 120 True s
   in map_of (h_webrtc s') 4 = None \<and> map_of (h_webrtc s') 5 = Some ()"
proof -
  let ?s = "(host_init demo_config demo_gate pin_memory None)\<lparr>h_webrtc := [(4, ()), (5, ())],
             h_enf := touch_activity (touch_activity (enforcement_from_env None) 4 10) 5 80\<rparr>"
  have "wf_map (en_activity (h_enf ?s))"
    by (simp add: touch_activity_def activity_touch_def enforcement_from_env_def wf_map_def)
  from watchdog_enforces_idle [OF this, of demo_config 120 True] show ?thesis
    by (simp add: Let_def touch_activity_def activity_touch_def enforcement_from_env_def demo_config_def)
qed

end
