(* ===== verification/Wire_Codecs.thy ===== *)
theory Wire_Codecs
  imports Qubox_Prelude
begin

text \<open>
  The datagram formats: gamepad state, mouse motion, microphone header (\<open>qubox-proto/src/lib.rs\<close>),
  pen events (\<open>qubox-proto/src/pen.rs\<close>, \<open>qubox-pen/src/traits.rs\<close>), the media header and the
  gamepad and pen datagrams (\<open>qubox-transport/src/media/mod.rs\<close>). Signed 16-bit fields and
  floats are kept as their bits (\<open>16 word\<close>, \<open>32 word\<close>), which is what is serialized. The locale
  \<open>wire_codec\<close> is the contract of a codec; every format is an interpretation of it, the gamepad
  datagram only of its encoder half because its decoder drops the padding bytes.
\<close>

unbundle bit_operations_syntax

abbreviation slice :: "nat \<Rightarrow> nat \<Rightarrow> bytes \<Rightarrow> bytes" where
  "slice off n b \<equiv> take n (drop off b)"

subsection \<open>The contract of a codec\<close>

locale wire_encoder =
  fixes enc :: "'a \<Rightarrow> bytes" and dec :: "bytes \<Rightarrow> ('e, 'a) result" and ok :: "'a \<Rightarrow> bool" and sz :: nat
  assumes enc_size: "ok x \<Longrightarrow> length (enc x) = sz"
    and dec_enc: "ok x \<Longrightarrow> dec (enc x @ rest) = Ok x"
begin

lemma enc_inject: "ok x \<Longrightarrow> ok y \<Longrightarrow> enc x = enc y \<longleftrightarrow> x = y"
  by (metis dec_enc Inr_inject)

lemma enc_prefix_free: "ok x \<Longrightarrow> ok y \<Longrightarrow> enc x @ r = enc y @ r' \<Longrightarrow> x = y \<and> r = r'"
  by (metis append_eq_append_conv enc_inject enc_size)

end

locale wire_codec = wire_encoder +
  assumes enc_dec: "dec b = Ok x \<Longrightarrow> ok x \<and> take sz b = enc x"
begin

lemma dec_iff: "dec b = Ok x \<longleftrightarrow> ok x \<and> (\<exists>rest. b = enc x @ rest)"
  by (metis append_take_drop_id dec_enc enc_dec)

end

subsection \<open>Formats of the protocol crate\<close>

definition MEDIA_DATAGRAM_MAGIC :: bytes where
  "MEDIA_DATAGRAM_MAGIC = [0x51, 0x42]"

definition GAMEPAD_DATAGRAM_DISCRIMINATOR :: u8 where
  "GAMEPAD_DATAGRAM_DISCRIMINATOR = 0x47"

record gamepad_state =
  gamepad_id :: u8
  gp_flags :: u8
  buttons_lo :: u8
  buttons_hi :: u8
  lt :: u8
  rt :: u8
  lx :: "16 word"
  ly :: "16 word"
  rx :: "16 word"
  ry :: "16 word"
  gp_pad :: bytes

definition gamepad_from_bytes :: "bytes \<Rightarrow> gamepad_state option" where
  "gamepad_from_bytes bytes =
     (let decode = (\<lambda>data.
        \<lparr>gamepad_id = data ! 0, gp_flags = data ! 1, buttons_lo = data ! 2, buttons_hi = data ! 3,
         lt = data ! 4, rt = data ! 5, lx = from_le_bytes (slice 6 2 data),
         ly = from_le_bytes (slice 8 2 data), rx = from_le_bytes (slice 10 2 data),
         ry = from_le_bytes (slice 12 2 data), gp_pad = slice 14 2 data\<rparr>)
      in if length bytes \<ge> 3 + 16 \<and> bytes ! 0 = 0x52 \<and> bytes ! 1 = 0x42 \<and>
            bytes ! 2 = GAMEPAD_DATAGRAM_DISCRIMINATOR
         then Some (decode (slice 3 16 bytes))
         else if length bytes \<ge> 16 then Some (decode (take 16 bytes))
         else None)"

definition MOUSE_MOTION_DISCRIMINATOR :: u8 where
  "MOUSE_MOTION_DISCRIMINATOR = 0x4B"

datatype wire_error = Short | BadMagic | BadDiscriminator | Malformed

record mouse_motion =
  mm_magic :: bytes
  mm_discriminator :: u8
  mm_flags :: u8
  mm_dx :: "16 word"
  mm_dy :: "16 word"
  mm_timestamp_us :: u32

definition mouse_to_bytes :: "mouse_motion \<Rightarrow> bytes" where
  "mouse_to_bytes m = mm_magic m @ [mm_discriminator m, mm_flags m] @ to_le_bytes 2 (mm_dx m) @
     to_le_bytes 2 (mm_dy m) @ to_le_bytes 4 (mm_timestamp_us m)"

definition mouse_from_bytes :: "bytes \<Rightarrow> (wire_error, mouse_motion) result" where
  "mouse_from_bytes buf =
     (if length buf < 12 then Err Short
      else if take 2 buf \<noteq> [0x51, 0x42] then Err BadMagic
      else if buf ! 2 \<noteq> MOUSE_MOTION_DISCRIMINATOR then Err BadDiscriminator
      else Ok \<lparr>mm_magic = [buf ! 0, buf ! 1], mm_discriminator = buf ! 2, mm_flags = buf ! 3,
        mm_dx = from_le_bytes (slice 4 2 buf), mm_dy = from_le_bytes (slice 6 2 buf),
        mm_timestamp_us = from_le_bytes (slice 8 4 buf)\<rparr>)"

record mic_header =
  mh_magic :: bytes
  mh_discriminator :: u8
  mh_flags :: u8
  mh_sequence :: bytes
  mh_reserved :: bytes

definition mic_write_into :: "mic_header \<Rightarrow> bytes" where
  "mic_write_into h = mh_magic h @ [mh_discriminator h, mh_flags h] @ mh_sequence h @ mh_reserved h"

definition mic_from_bytes :: "bytes \<Rightarrow> (wire_error, mic_header) result" where
  "mic_from_bytes buf =
     (if length buf < 8 then Err Short
      else if take 2 buf \<noteq> [0x51, 0x42] then Err BadMagic
      else Ok \<lparr>mh_magic = [buf ! 0, buf ! 1], mh_discriminator = buf ! 2, mh_flags = buf ! 3,
        mh_sequence = slice 4 2 buf, mh_reserved = slice 6 2 buf\<rparr>)"

definition mic_sequence_value :: "mic_header \<Rightarrow> u16" where
  "mic_sequence_value h = from_be_bytes (mh_sequence h)"

subsection \<open>Pen events\<close>

definition PEN_DATAGRAM_DISCRIMINATOR :: u8 where
  "PEN_DATAGRAM_DISCRIMINATOR = 0x50"

definition FLAG_LAST_IN_BURST :: u8 where "FLAG_LAST_IN_BURST = 0x01"
definition FLAG_HAS_HOVER :: u8 where "FLAG_HAS_HOVER = 0x02"
definition FLAG_BARREL :: u8 where "FLAG_BARREL = 0x04"
definition FLAG_ERASER_TIP :: u8 where "FLAG_ERASER_TIP = 0x08"
definition PEN_FLAGS_ALL :: u8 where "PEN_FLAGS_ALL = 0x1F"

datatype pen_tool = Pen | Eraser | Brush | Airbrush | Finger | Mouse | Lens

definition wire_id :: "pen_tool \<Rightarrow> u8" where
  "wire_id t = (case t of Pen \<Rightarrow> 0x01 | Eraser \<Rightarrow> 0x02 | Brush \<Rightarrow> 0x03 | Airbrush \<Rightarrow> 0x04
     | Finger \<Rightarrow> 0x05 | Mouse \<Rightarrow> 0x06 | Lens \<Rightarrow> 0x07)"

definition from_wire_id :: "u8 \<Rightarrow> pen_tool option" where
  "from_wire_id i =
     (if i = 0x01 then Some Pen else if i = 0x02 then Some Eraser else if i = 0x03 then Some Brush
      else if i = 0x04 then Some Airbrush else if i = 0x05 then Some Finger
      else if i = 0x06 then Some Mouse else if i = 0x07 then Some Lens else None)"

record wire_pen_event =
  wp_magic :: bytes
  wp_discriminator :: u8
  wp_flags :: u8
  wp_device_id :: bytes
  wp_tool_id :: u8
  wp_hover_distance :: u8
  wp_x :: bytes
  wp_y :: bytes
  wp_pressure :: bytes
  wp_tilt_x :: bytes
  wp_tilt_y :: bytes
  wp_rotation :: bytes
  wp_timestamp_us :: bytes

definition pen_to_bytes :: "wire_pen_event \<Rightarrow> bytes" where
  "pen_to_bytes e = wp_magic e @ [wp_discriminator e, wp_flags e] @ wp_device_id e @
     [wp_tool_id e, wp_hover_distance e] @ wp_x e @ wp_y e @ wp_pressure e @ wp_tilt_x e @
     wp_tilt_y e @ wp_rotation e @ wp_timestamp_us e"

definition pen_from_bytes :: "bytes \<Rightarrow> (wire_error, wire_pen_event) result" where
  "pen_from_bytes buf =
     (if length buf < 36 then Err Short
      else if take 2 buf \<noteq> [0x51, 0x42] then Err BadMagic
      else if buf ! 2 \<noteq> PEN_DATAGRAM_DISCRIMINATOR then Err BadDiscriminator
      else Ok \<lparr>wp_magic = [buf ! 0, buf ! 1], wp_discriminator = buf ! 2, wp_flags = buf ! 3,
        wp_device_id = slice 4 2 buf, wp_tool_id = buf ! 6, wp_hover_distance = buf ! 7,
        wp_x = slice 8 4 buf, wp_y = slice 12 4 buf, wp_pressure = slice 16 4 buf,
        wp_tilt_x = slice 20 4 buf, wp_tilt_y = slice 24 4 buf, wp_rotation = slice 28 4 buf,
        wp_timestamp_us = slice 32 4 buf\<rparr>)"

record pen_event =
  pe_device_id :: u16
  pe_tool :: pen_tool
  pe_x :: "32 word"
  pe_y :: "32 word"
  pe_pressure :: "32 word"
  pe_tilt_x :: "32 word"
  pe_tilt_y :: "32 word"
  pe_rotation :: "32 word"
  pe_button_state :: u32
  pe_hover_distance :: u16
  pe_timestamp_us :: u32
  pe_flags :: u8

definition pen_build ::
    "u16 \<Rightarrow> pen_tool \<Rightarrow> u8 \<Rightarrow> u8 \<Rightarrow> 32 word \<Rightarrow> 32 word \<Rightarrow> 32 word \<Rightarrow> 32 word \<Rightarrow> 32 word \<Rightarrow> 32 word \<Rightarrow>
     u32 \<Rightarrow> wire_pen_event" where
  "pen_build dev tool flags hover x y pressure tilt_x tilt_y rotation ts =
     \<lparr>wp_magic = [0x51, 0x42], wp_discriminator = PEN_DATAGRAM_DISCRIMINATOR, wp_flags = flags,
      wp_device_id = to_le_bytes 2 dev, wp_tool_id = wire_id tool, wp_hover_distance = min hover 0x0F,
      wp_x = to_le_bytes 4 x, wp_y = to_le_bytes 4 y, wp_pressure = to_le_bytes 4 pressure,
      wp_tilt_x = to_le_bytes 4 tilt_x, wp_tilt_y = to_le_bytes 4 tilt_y,
      wp_rotation = to_le_bytes 4 rotation, wp_timestamp_us = to_le_bytes 4 ts\<rparr>"

definition has_flag :: "u8 \<Rightarrow> u8 \<Rightarrow> bool" where
  "has_flag flags f \<longleftrightarrow> flags AND f \<noteq> 0"

definition pen_to_wire :: "pen_event \<Rightarrow> wire_pen_event" where
  "pen_to_wire e =
     (let pick = (\<lambda>f. if has_flag (pe_flags e) f then f else 0);
          flags = pick FLAG_LAST_IN_BURST OR pick FLAG_HAS_HOVER OR pick FLAG_BARREL OR pick FLAG_ERASER_TIP;
          hover_q = (if pe_hover_distance e = 0xFFFF then 0x0F
                     else ucast (min (pe_hover_distance e) 15))
      in pen_build (pe_device_id e) (pe_tool e) flags hover_q (pe_x e) (pe_y e) (pe_pressure e)
           (pe_tilt_x e) (pe_tilt_y e) (pe_rotation e) (pe_timestamp_us e))"

definition encode_pen_datagram :: "pen_event \<Rightarrow> bytes" where
  "encode_pen_datagram e =
     MEDIA_DATAGRAM_MAGIC @ [PEN_DATAGRAM_DISCRIMINATOR] @ pen_to_bytes (pen_to_wire e)"

text \<open>\<open>decoded_flags\<close> keeps the five defined bits; \<open>contains\<close> tests one of them.\<close>

definition decode_pen_datagram :: "bytes \<Rightarrow> (wire_error, pen_event) result" where
  "decode_pen_datagram payload =
     (if length payload < 3 then Err Short
      else if take 2 payload \<noteq> MEDIA_DATAGRAM_MAGIC then Err BadMagic
      else if payload ! 2 \<noteq> PEN_DATAGRAM_DISCRIMINATOR then Err BadDiscriminator
      else case pen_from_bytes (drop 3 payload) of
        Inl _ \<Rightarrow> Err Malformed
      | Inr w \<Rightarrow>
         let flags = wp_flags w AND PEN_FLAGS_ALL in
         Ok \<lparr>pe_device_id = from_le_bytes (wp_device_id w),
             pe_tool = (case from_wire_id (wp_tool_id w) of Some t \<Rightarrow> t | None \<Rightarrow> Pen),
             pe_x = from_le_bytes (wp_x w), pe_y = from_le_bytes (wp_y w),
             pe_pressure = from_le_bytes (wp_pressure w), pe_tilt_x = from_le_bytes (wp_tilt_x w),
             pe_tilt_y = from_le_bytes (wp_tilt_y w), pe_rotation = from_le_bytes (wp_rotation w),
             pe_button_state = (if has_flag flags FLAG_BARREL then 0x02 else 0) OR
               (if has_flag flags FLAG_ERASER_TIP then 0x04 else 0),
             pe_hover_distance = (if has_flag flags FLAG_HAS_HOVER
               then ucast (wp_hover_distance w) * 8 else 0),
             pe_timestamp_us = from_le_bytes (wp_timestamp_us w), pe_flags = wp_flags w\<rparr>)"

subsection \<open>Formats of the transport crate\<close>

record media_header =
  md_magic :: bytes
  md_flags :: u8
  md_codec :: u8
  md_stream_id :: u16
  md_frame_id :: u32
  md_chunk_id :: u16
  md_chunk_count :: u16

definition WIRE_HEADER_SIZE :: nat where "WIRE_HEADER_SIZE = 14"

definition header_write_into :: "media_header \<Rightarrow> bytes" where
  "header_write_into h = md_magic h @ [md_flags h, md_codec h] @ to_be_bytes 2 (md_stream_id h) @
     to_be_bytes 4 (md_frame_id h) @ to_be_bytes 2 (md_chunk_id h) @ to_be_bytes 2 (md_chunk_count h)"

definition header_from_bytes :: "bytes \<Rightarrow> (wire_error, media_header) result" where
  "header_from_bytes buf =
     (if length buf < WIRE_HEADER_SIZE then Err Short
      else if take 2 buf \<noteq> MEDIA_DATAGRAM_MAGIC then Err BadMagic
      else Ok \<lparr>md_magic = [buf ! 0, buf ! 1], md_flags = buf ! 2, md_codec = buf ! 3,
        md_stream_id = from_be_bytes (slice 4 2 buf), md_frame_id = from_be_bytes (slice 6 4 buf),
        md_chunk_id = from_be_bytes (slice 10 2 buf), md_chunk_count = from_be_bytes (slice 12 2 buf)\<rparr>)"

definition encode_gamepad_datagram :: "gamepad_state \<Rightarrow> bytes" where
  "encode_gamepad_datagram s = MEDIA_DATAGRAM_MAGIC @
     [0x47, gamepad_id s, gp_flags s, buttons_lo s, buttons_hi s, lt s, rt s] @
     to_be_bytes 2 (lx s) @ to_be_bytes 2 (ly s) @ to_be_bytes 2 (rx s) @ to_be_bytes 2 (ry s) @ gp_pad s"

definition decode_gamepad_datagram :: "bytes \<Rightarrow> (wire_error, gamepad_state) result" where
  "decode_gamepad_datagram payload =
     (if length payload < 2 + 1 + 16 then Err Short
      else if take 2 payload \<noteq> MEDIA_DATAGRAM_MAGIC then Err BadMagic
      else if payload ! 2 \<noteq> 0x47 then Err BadDiscriminator
      else let rdr = drop 3 payload in
        Ok \<lparr>gamepad_id = rdr ! 0, gp_flags = rdr ! 1, buttons_lo = rdr ! 2, buttons_hi = rdr ! 3,
            lt = rdr ! 4, rt = rdr ! 5, lx = from_be_bytes (slice 6 2 rdr),
            ly = from_be_bytes (slice 8 2 rdr), rx = from_be_bytes (slice 10 2 rdr),
            ry = from_be_bytes (slice 12 2 rdr), gp_pad = [0, 0]\<rparr>)"

subsection \<open>Every format is a codec\<close>

lemma word_bytes:
  "to_be_bytes (Suc (Suc 0)) (from_be_bytes [a, b] :: 16 word) = [a, b]"
  "to_le_bytes (Suc (Suc 0)) (from_le_bytes [a, b] :: 16 word) = [a, b]"
  "to_be_bytes (Suc (Suc (Suc (Suc 0)))) (from_be_bytes [a, b, c, d] :: 32 word) = [a, b, c, d]"
  "to_le_bytes (Suc (Suc (Suc (Suc 0)))) (from_le_bytes [a, b, c, d] :: 32 word) = [a, b, c, d]"
  using to_be_from_be_bytes[of "[a, b]", where 'a = 16] to_le_from_le_bytes[of "[a, b]", where 'a = 16]
    to_be_from_be_bytes[of "[a, b, c, d]", where 'a = 32] to_le_from_le_bytes[of "[a, b, c, d]", where 'a = 32]
  by simp_all

definition mouse_ok :: "mouse_motion \<Rightarrow> bool" where
  "mouse_ok m \<longleftrightarrow> mm_magic m = [0x51, 0x42] \<and> mm_discriminator m = MOUSE_MOTION_DISCRIMINATOR"

definition mic_ok :: "mic_header \<Rightarrow> bool" where
  "mic_ok h \<longleftrightarrow> mh_magic h = [0x51, 0x42] \<and> length (mh_sequence h) = 2 \<and> length (mh_reserved h) = 2"

definition pen_ok :: "wire_pen_event \<Rightarrow> bool" where
  "pen_ok e \<longleftrightarrow> wp_magic e = [0x51, 0x42] \<and> wp_discriminator e = PEN_DATAGRAM_DISCRIMINATOR \<and>
     length (wp_device_id e) = 2 \<and> length (wp_x e) = 4 \<and> length (wp_y e) = 4 \<and>
     length (wp_pressure e) = 4 \<and> length (wp_tilt_x e) = 4 \<and> length (wp_tilt_y e) = 4 \<and>
     length (wp_rotation e) = 4 \<and> length (wp_timestamp_us e) = 4"

definition header_ok :: "media_header \<Rightarrow> bool" where
  "header_ok h \<longleftrightarrow> md_magic h = MEDIA_DATAGRAM_MAGIC"

lemmas split_bytes = eval_nat_numeral Suc_le_length_iff

interpretation media: wire_codec header_write_into header_from_bytes header_ok 14
proof
  fix x rest
  assume "header_ok x"
  then show "length (header_write_into x) = 14" "header_from_bytes (header_write_into x @ rest) = Ok x"
    by (simp_all add: header_ok_def header_write_into_def header_from_bytes_def WIRE_HEADER_SIZE_def
        MEDIA_DATAGRAM_MAGIC_def)
next
  fix b x
  assume d: "header_from_bytes b = Ok x"
  then have l: "14 \<le> length b"
    by (auto simp: header_from_bytes_def WIRE_HEADER_SIZE_def split: if_splits)
  with d show "header_ok x \<and> take 14 b = header_write_into x"
    by (auto simp: header_from_bytes_def WIRE_HEADER_SIZE_def header_ok_def header_write_into_def
        MEDIA_DATAGRAM_MAGIC_def word_bytes split_bytes split: if_splits)
qed

interpretation mouse: wire_codec mouse_to_bytes mouse_from_bytes mouse_ok 12
proof
  fix x rest
  assume "mouse_ok x"
  then show "length (mouse_to_bytes x) = 12" "mouse_from_bytes (mouse_to_bytes x @ rest) = Ok x"
    by (simp_all add: mouse_ok_def mouse_to_bytes_def mouse_from_bytes_def)
next
  fix b x
  assume d: "mouse_from_bytes b = Ok x"
  then have l: "12 \<le> length b" by (auto simp: mouse_from_bytes_def split: if_splits)
  with d show "mouse_ok x \<and> take 12 b = mouse_to_bytes x"
    by (auto simp: mouse_from_bytes_def mouse_ok_def mouse_to_bytes_def word_bytes split_bytes
        simp del: from_le_bytes.simps split: if_splits)
qed

interpretation mic: wire_codec mic_write_into mic_from_bytes mic_ok 8
proof
  fix x rest
  assume "mic_ok x"
  then show "length (mic_write_into x) = 8" "mic_from_bytes (mic_write_into x @ rest) = Ok x"
    by (simp_all add: mic_ok_def mic_write_into_def mic_from_bytes_def)
next
  fix b x
  assume d: "mic_from_bytes b = Ok x"
  then have l: "8 \<le> length b" by (auto simp: mic_from_bytes_def split: if_splits)
  with d show "mic_ok x \<and> take 8 b = mic_write_into x"
    by (auto simp: mic_from_bytes_def mic_ok_def mic_write_into_def split_bytes split: if_splits)
qed

interpretation pen: wire_codec pen_to_bytes pen_from_bytes pen_ok 36
proof
  fix x rest
  assume "pen_ok x"
  then show "length (pen_to_bytes x) = 36" "pen_from_bytes (pen_to_bytes x @ rest) = Ok x"
    by (simp_all add: pen_ok_def pen_to_bytes_def pen_from_bytes_def nth_append)
next
  fix b x
  assume d: "pen_from_bytes b = Ok x"
  then have l: "36 \<le> length b" by (auto simp: pen_from_bytes_def split: if_splits)
  have cut: "take 36 b = take 2 b @ [b ! 2, b ! 3] @ slice 4 2 b @ [b ! 6, b ! 7] @ slice 8 4 b @
      slice 12 4 b @ slice 16 4 b @ slice 20 4 b @ slice 24 4 b @ slice 28 4 b @ slice 32 4 b"
    using l by (auto simp: split_bytes)
  have "take 2 b = [b ! 0, b ! 1]" using l by (auto simp: split_bytes)
  with d l show "pen_ok x \<and> take 36 b = pen_to_bytes x"
    by (auto simp: pen_from_bytes_def pen_ok_def pen_to_bytes_def cut split: if_splits)
qed

definition gamepad_ok :: "gamepad_state \<Rightarrow> bool" where
  "gamepad_ok s \<longleftrightarrow> gp_pad s = [0, 0]"

interpretation pad: wire_encoder encode_gamepad_datagram decode_gamepad_datagram gamepad_ok 19
  by unfold_locales
    (simp_all add: gamepad_ok_def encode_gamepad_datagram_def decode_gamepad_datagram_def
      MEDIA_DATAGRAM_MAGIC_def)

subsection \<open>Properties\<close>

text \<open>The media, mouse, microphone and pen decoders are exact: a buffer decodes to a value if and
  only if it starts with that value's encoding and the value carries the format's magic (and
  discriminator); trailing payload bytes are ignored and nothing else is accepted.\<close>

theorem wire_decoders_exact:
  "(header_from_bytes b = Ok h \<longleftrightarrow> header_ok h \<and> (\<exists>rest. b = header_write_into h @ rest)) \<and>
   (mouse_from_bytes b = Ok m \<longleftrightarrow> mouse_ok m \<and> (\<exists>rest. b = mouse_to_bytes m @ rest)) \<and>
   (mic_from_bytes b = Ok k \<longleftrightarrow> mic_ok k \<and> (\<exists>rest. b = mic_write_into k @ rest)) \<and>
   (pen_from_bytes b = Ok e \<longleftrightarrow> pen_ok e \<and> (\<exists>rest. b = pen_to_bytes e @ rest))"
  using media.dec_iff mouse.dec_iff mic.dec_iff pen.dec_iff by blast

text \<open>The decoder the host agent applies to gamepad datagrams does not understand the sender's
  format: for every gamepad state it yields a state whose id, flags and low buttons are the magic
  and discriminator bytes, while the matching decoder returns the state.\<close>

theorem gamepad_host_decoder_mismatch:
  assumes "gp_pad s = [0, 0]"
  shows "decode_gamepad_datagram (encode_gamepad_datagram s) = Ok s \<and>
    (\<exists>s'. gamepad_from_bytes (encode_gamepad_datagram s) = Some s' \<and> gamepad_id s' = 0x51 \<and>
       gp_flags s' = 0x42 \<and> buttons_lo s' = 0x47 \<and> buttons_hi s' = gamepad_id s)"
  using assms pad.dec_enc[of s "[]"]
  by (simp add: gamepad_ok_def gamepad_from_bytes_def encode_gamepad_datagram_def
      MEDIA_DATAGRAM_MAGIC_def Let_def)

theorem gamepad_host_decoder_mismatch_witness:
  "\<exists>s'. gamepad_from_bytes (encode_gamepad_datagram
     \<lparr>gamepad_id = 0, gp_flags = 0x10, buttons_lo = 1, buttons_hi = 0, lt = 0, rt = 0, lx = 5, ly = 0,
      rx = 0, ry = 0, gp_pad = [0, 0]\<rparr>) = Some s' \<and> gamepad_id s' = 0x51 \<and> buttons_lo s' = 0x47"
  using gamepad_host_decoder_mismatch[of "\<lparr>gamepad_id = 0, gp_flags = 0x10, buttons_lo = 1,
    buttons_hi = 0, lt = 0, rt = 0, lx = 5, ly = 0, rx = 0, ry = 0, gp_pad = [0, 0]\<rparr>"] by auto

lemma from_wire_id_wire_id: "from_wire_id (wire_id t) = Some t"
  by (cases t) (simp_all add: wire_id_def from_wire_id_def)

lemma pen_ok_to_wire: "pen_ok (pen_to_wire e)"
  by (simp add: pen_ok_def pen_to_wire_def pen_build_def Let_def)

lemma and_single_bit: "f AND 2 ^ n = (if bit f n then 2 ^ n else 0)" for f :: u8
  by (rule bit_word_eqI) (auto simp: bit_simps)

lemma and_flag_bits:
  "f AND 1 = (if bit f 0 then 1 else 0)" "f AND 2 = (if bit f 1 then 2 else 0)"
  "f AND 4 = (if bit f 2 then 4 else 0)" "f AND 8 = (if bit f 3 then 8 else 0)" for f :: u8
  using and_single_bit[of f 0] and_single_bit[of f 1] and_single_bit[of f 2] and_single_bit[of f 3]
  by simp_all

lemma low_nibble:
  "f AND 15 = (f AND 1) OR (f AND 2) OR (f AND 4) OR (f AND 8)" for f :: u8
proof -
  have "f AND 15 = f AND (1 OR 2 OR 4 OR 8)" by simp
  then show ?thesis by (simp only: and.right_idem bit.conj_disj_distrib)
qed

lemma pen_flags: "wp_flags (pen_to_wire e) = pe_flags e AND 15"
proof -
  have "(if f AND g \<noteq> 0 then g else 0) = f AND g" if "g \<in> {1, 2, 4, 8}" for f g :: u8
    using that by (auto simp: and_flag_bits split: if_splits)
  then show ?thesis
    by (simp add: pen_to_wire_def pen_build_def Let_def has_flag_def FLAG_LAST_IN_BURST_def
        FLAG_HAS_HOVER_def FLAG_BARREL_def FLAG_ERASER_TIP_def low_nibble or.assoc)
qed

lemma pen_hover:
  "ucast (wp_hover_distance (pen_to_wire e)) = (min (pe_hover_distance e) 15 :: u16)"
proof -
  have le: "x \<le> 15 \<Longrightarrow> ucast (min (ucast x) 15 :: u8) = x" for x :: u16
  proof -
    assume x: "x \<le> 15"
    then have n: "unat x \<le> 15" by (simp add: word_le_nat_alt)
    then have u: "unat (ucast x :: u8) = unat x" by (simp add: unsigned_ucast_eq take_bit_nat_eq_self)
    with n have "(ucast x :: u8) \<le> 15" by (simp add: word_le_nat_alt)
    then have "min (ucast x) 15 = (ucast x :: u8)" by (rule min_absorb1)
    moreover have "(ucast (ucast x :: u8) :: u16) = x"
    proof -
      have "take_bit 8 x = x"
        using n by (simp add: word_unat_eq_iff unsigned_take_bit_eq take_bit_nat_eq_self)
      then show ?thesis by (simp add: unsigned_ucast_eq)
    qed
    ultimately show ?thesis by simp
  qed
  have "min (0xFFFF :: u16) 15 = 15" by (rule min_absorb2) simp
  then show ?thesis
    by (simp add: pen_to_wire_def pen_build_def Let_def le)
qed

text \<open>A pen event survives encode and decode in its device, tool, coordinates, pressure, tilt,
  rotation and timestamp. The flags keep their four defined bits; the button state is rebuilt
  from them, and the hover distance comes back as eight times its value clipped to 15 when the
  hover flag is set and as zero otherwise.\<close>

theorem pen_datagram_roundtrip:
  "\<exists>d. decode_pen_datagram (encode_pen_datagram e) = Ok d \<and>
     pe_device_id d = pe_device_id e \<and> pe_tool d = pe_tool e \<and> pe_x d = pe_x e \<and> pe_y d = pe_y e \<and>
     pe_pressure d = pe_pressure e \<and> pe_tilt_x d = pe_tilt_x e \<and> pe_tilt_y d = pe_tilt_y e \<and>
     pe_rotation d = pe_rotation e \<and> pe_timestamp_us d = pe_timestamp_us e \<and>
     pe_flags d = pe_flags e AND 0x0F \<and>
     pe_button_state d = (if pe_flags e AND FLAG_BARREL \<noteq> 0 then 2 else 0) OR
       (if pe_flags e AND FLAG_ERASER_TIP \<noteq> 0 then 4 else 0) \<and>
     pe_hover_distance d = (if pe_flags e AND FLAG_HAS_HOVER \<noteq> 0
       then 8 * min (pe_hover_distance e) 15 else 0)"
proof -
  let ?f = "pe_flags e" and ?w = "pen_to_wire e"
  have p: "pen_from_bytes (pen_to_bytes ?w) = Ok ?w"
    using pen.dec_enc[OF pen_ok_to_wire, of e "[]"] by simp
  have "((?f AND 15) AND 31) AND 2 = ?f AND 2" "((?f AND 15) AND 31) AND 4 = ?f AND 4"
    "((?f AND 15) AND 31) AND 8 = ?f AND 8" by (simp_all add: and.assoc)
  then show ?thesis
    by (simp add: decode_pen_datagram_def encode_pen_datagram_def MEDIA_DATAGRAM_MAGIC_def p Let_def
        pen_flags pen_hover)
       (simp add: pen_to_wire_def pen_build_def Let_def from_wire_id_wire_id PEN_FLAGS_ALL_def
        has_flag_def FLAG_HAS_HOVER_def FLAG_BARREL_def FLAG_ERASER_TIP_def)
qed

end
