(* ===== verification/Media_Fec.thy ===== *)
theory Media_Fec
  imports Wire_Codecs
begin

text \<open>
  Frame chunking and XOR parity of the datagram media path
  (\<open>qubox-transport/src/media/mod.rs\<close>: \<open>FrameChunker\<close>, \<open>recover_with_parity\<close>). A slice index out
  of range, where the code panics, is the error \<open>RecoveryPanic\<close>.
\<close>

subsection \<open>Chunking\<close>

definition CHUNK_PAYLOAD_MAX :: nat where "CHUNK_PAYLOAD_MAX = 1200"

record frame_chunker =
  fc_block_size :: nat
  max_chunk_payload :: nat

definition chunker_new :: "nat \<Rightarrow> frame_chunker" where
  "chunker_new bs = \<lparr>fc_block_size = max bs 1, max_chunk_payload = CHUNK_PAYLOAD_MAX\<rparr>"

text \<open>\<open>slice::chunks\<close>: consecutive pieces of length \<open>n\<close>, the last one possibly shorter.\<close>

function chunks_of :: "nat \<Rightarrow> 'a list \<Rightarrow> 'a list list" where
  "chunks_of n xs = (if n = 0 \<or> xs = [] then [] else take n xs # chunks_of n (drop n xs))"
  by pat_completeness auto
termination by (relation "measure (length \<circ> snd)") auto

declare chunks_of.simps [simp del]

fun xor_bytes :: "bytes \<Rightarrow> bytes \<Rightarrow> bytes" where
  "xor_bytes (a # as) (b # bs) = (a XOR b) # xor_bytes as bs"
| "xor_bytes as [] = as"
| "xor_bytes [] bs = []"

definition parity_of :: "bytes list \<Rightarrow> bytes" where
  "parity_of block = foldl xor_bytes (replicate (foldl max 0 (map length block)) 0) block"

definition pad_last :: "nat \<Rightarrow> bytes list \<Rightarrow> bytes list" where
  "pad_last mx data =
     (if data \<noteq> [] \<and> length (last data) < mx
      then butlast data @ [last data @ replicate (mx - length (last data)) 0] else data)"

definition chunk_and_encode :: "frame_chunker \<Rightarrow> bytes \<Rightarrow> bytes list \<times> bytes list \<times> nat" where
  "chunk_and_encode c frame =
     (if frame = [] then ([], [], 0)
      else let data = pad_last (max_chunk_payload c) (chunks_of (max_chunk_payload c) frame)
      in (data, map parity_of (chunks_of (fc_block_size c) data), length frame))"

subsection \<open>Recovery\<close>

datatype recovery_error = NoChunks | NotRecoverable | RecoveryPanic

text \<open>XOR the present chunks of a block into the parity, skipping the missing one; \<open>None\<close> when a
  chunk is longer than the accumulator (index out of bounds).\<close>

fun recover_chunk :: "nat \<Rightarrow> nat \<Rightarrow> bytes \<Rightarrow> bytes option list \<Rightarrow> bytes option" where
  "recover_chunk m i acc [] = Some acc"
| "recover_chunk m i acc (c # cs) =
     (if i = m then recover_chunk m (Suc i) acc cs
      else case c of
        None \<Rightarrow> recover_chunk m (Suc i) acc cs
      | Some b \<Rightarrow> if length b > length acc then None
                 else recover_chunk m (Suc i) (xor_bytes acc b) cs)"

definition missing_in :: "bytes option list \<Rightarrow> nat list" where
  "missing_in block = filter (\<lambda>i. block ! i = None) [0..<length block]"

function recover_loop ::
    "bytes option list \<Rightarrow> bytes list \<Rightarrow> nat \<Rightarrow> nat \<Rightarrow>
     bytes option list \<times> (recovery_error, nat) result" where
  "recover_loop chunks parity bs idx =
     (if idx > 1024 \<or> \<not> idx * bs < length chunks then (chunks, Err NotRecoverable)
      else let block = take bs (drop (idx * bs) chunks) in
        (case missing_in block of
           [m] \<Rightarrow>
             if idx < length parity
             then (case recover_chunk m 0 (parity ! idx) block of
                     None \<Rightarrow> (chunks, Err RecoveryPanic)
                   | Some r \<Rightarrow> (chunks[idx * bs + m := Some r], Ok (idx * bs + m)))
             else recover_loop chunks parity bs (Suc idx)
         | _ \<Rightarrow> recover_loop chunks parity bs (Suc idx)))"
  by pat_completeness auto
termination by (relation "measure (\<lambda>(_, _, _, idx). 1025 - idx)") auto

declare recover_loop.simps [simp del]

definition recover_with_parity ::
    "bytes option list \<Rightarrow> bytes list \<Rightarrow> nat \<Rightarrow> bytes option list \<times> (recovery_error, nat) result" where
  "recover_with_parity chunks parity bs =
     (if chunks = [] then (chunks, Err NoChunks) else recover_loop chunks parity bs 0)"

subsection \<open>Chunks of a list\<close>

lemma chunks_of_Nil [simp]: "chunks_of n [] = []"
  by (simp add: chunks_of.simps)

lemma chunks_of_step: "0 < n \<Longrightarrow> xs \<noteq> [] \<Longrightarrow> chunks_of n xs = take n xs # chunks_of n (drop n xs)"
  by (simp add: chunks_of.simps[of n xs])

lemma concat_chunks_of: "0 < n \<Longrightarrow> concat (chunks_of n xs) = xs"
  by (induction n xs rule: chunks_of.induct) (subst chunks_of.simps, simp)

lemma chunks_of_Nil_iff: "0 < n \<Longrightarrow> chunks_of n xs = [] \<longleftrightarrow> xs = []"
  by (subst chunks_of.simps) simp

lemma length_chunks_of: "0 < n \<Longrightarrow> k < length (chunks_of n xs) \<longleftrightarrow> k * n < length xs"
proof (induction n xs arbitrary: k rule: chunks_of.induct)
  case (1 n xs)
  show ?case
  proof (cases "xs = []")
    case False
    with 1 show ?thesis
      by (subst chunks_of.simps) (cases k, auto simp: add.commute less_diff_conv)
  qed (use 1 in \<open>simp add: chunks_of.simps\<close>)
qed

lemma nth_chunks_of:
  "0 < n \<Longrightarrow> k * n < length xs \<Longrightarrow> chunks_of n xs ! k = take n (drop (k * n) xs)"
proof (induction n xs arbitrary: k rule: chunks_of.induct)
  case (1 n xs)
  then have "xs \<noteq> []" by auto
  with 1 show ?case
    by (subst chunks_of.simps) (cases k, auto simp: add.commute less_diff_conv)
qed

lemma chunks_of_butlast:
  "0 < n \<Longrightarrow> c \<in> set (butlast (chunks_of n xs)) \<Longrightarrow> length c = n"
proof (induction n xs rule: chunks_of.induct)
  case (1 n xs)
  show ?case
  proof (cases "xs = [] \<or> drop n xs = []")
    case True
    with 1 show ?thesis by (cases "xs = []") (auto simp: chunks_of_step[of n xs])
  next
    case False
    then have "chunks_of n (drop n xs) \<noteq> []" using 1 by (simp add: chunks_of_Nil_iff)
    with 1 False show ?thesis by (auto simp: chunks_of_step[of n xs])
  qed
qed

lemma chunks_of_le: "0 < n \<Longrightarrow> c \<in> set (chunks_of n xs) \<Longrightarrow> length c \<le> n"
proof (induction n xs rule: chunks_of.induct)
  case (1 n xs)
  then show ?case by (cases "xs = []") (auto simp: chunks_of_step[of n xs])
qed

subsection \<open>XOR on byte strings\<close>

lemma length_xor_bytes [simp]: "length (xor_bytes a b) = length a"
  by (induction a b rule: xor_bytes.induct) auto

lemma nth_xor_bytes: "length b = length a \<Longrightarrow> i < length a \<Longrightarrow> xor_bytes a b ! i = a ! i XOR b ! i"
  by (induction a b arbitrary: i rule: xor_bytes.induct) (auto simp: nth_Cons split: nat.split)

lemma xor_bytes_zero [simp]: "xor_bytes (replicate n 0) b = take n b @ replicate (n - length b) 0"
proof (induction n arbitrary: b)
  case 0
  then show ?case by (cases b) auto
next
  case (Suc n)
  then show ?case by (cases b) auto
qed

lemma xor_bytes_assoc:
  "length b = length a \<Longrightarrow> length c = length a \<Longrightarrow> xor_bytes (xor_bytes a b) c = xor_bytes a (xor_bytes b c)"
  by (rule nth_equalityI) (auto simp: nth_xor_bytes xor.assoc)

lemma xor_bytes_comm: "length b = length a \<Longrightarrow> xor_bytes a b = xor_bytes b a"
  by (rule nth_equalityI) (auto simp: nth_xor_bytes xor.commute)

lemma xor_bytes_cancel: "length b = length a \<Longrightarrow> xor_bytes (xor_bytes a b) b = a"
  by (rule nth_equalityI) (auto simp: nth_xor_bytes xor.assoc)

abbreviation xor_all :: "nat \<Rightarrow> bytes list \<Rightarrow> bytes" where
  "xor_all n block \<equiv> foldl xor_bytes (replicate n 0) block"

lemma length_xor_fold [simp]: "length (foldl xor_bytes a block) = length a"
  by (induction block arbitrary: a) auto

lemma xor_fold:
  "\<forall>c \<in> set block. length c = length a \<Longrightarrow> foldl xor_bytes a block = xor_bytes a (xor_all (length a) block)"
proof (induction block arbitrary: a)
  case Nil
  then show ?case by (intro nth_equalityI) (auto simp: nth_xor_bytes)
next
  case (Cons c block)
  have len: "length c = length a" "\<forall>d \<in> set block. length d = length a" using Cons.prems by auto
  have "foldl xor_bytes a (c # block) = xor_bytes (xor_bytes a c) (xor_all (length a) block)"
    using Cons.IH[of "xor_bytes a c"] len by simp
  moreover have "xor_all (length a) (c # block) = xor_bytes c (xor_all (length a) block)"
    using Cons.IH[of c] len by simp
  ultimately show ?case using xor_bytes_assoc[of c a "xor_all (length a) block"] len by simp
qed

lemma parity_of_uniform:
  assumes "block \<noteq> []" "\<forall>c \<in> set block. length c = n"
  shows "parity_of block = xor_all n block"
proof -
  have "foldl max k (map length block) = max k n" for k
    using assms by (induction block arbitrary: k rule: list_nonempty_induct) auto
  then show ?thesis by (simp add: parity_of_def)
qed

text \<open>The parity of a block with one chunk removed by XOR of the others is that chunk.\<close>

lemma xor_recovers:
  assumes "\<forall>c \<in> set (as @ x # bs). length c = n"
  shows "foldl xor_bytes (xor_all n (as @ x # bs)) (as @ bs) = x"
proof -
  let ?A = "xor_all n as" and ?B = "xor_all n bs"
  have p: "xor_all n (as @ x # bs) = xor_bytes (xor_bytes ?A x) ?B"
    using assms by (simp add: xor_fold[of bs "xor_bytes ?A x"])
  have o: "xor_all n (as @ bs) = xor_bytes ?A ?B"
    using assms by (simp add: xor_fold[of bs ?A])
  have "foldl xor_bytes (xor_all n (as @ x # bs)) (as @ bs) =
      xor_bytes (xor_all n (as @ x # bs)) (xor_all (length (xor_all n (as @ x # bs))) (as @ bs))"
    by (rule xor_fold) (use assms in simp)
  also have "length (xor_all n (as @ x # bs)) = n" by simp
  also have "xor_bytes (xor_all n (as @ x # bs)) (xor_all n (as @ bs)) =
      xor_bytes (xor_bytes (xor_bytes ?A x) ?B) (xor_bytes ?A ?B)"
    by (simp only: p o)
  also have "\<dots> = x"
    using assms
    by (intro nth_equalityI) (auto simp: nth_xor_bytes xor.assoc xor.left_commute)
  finally show ?thesis .
qed

subsection \<open>Encoded frames\<close>

lemma length_pad_last [simp]: "length (pad_last mx data) = length data"
  by (simp add: pad_last_def)

lemma chunk_lengths:
  assumes "0 < mx" shows "\<forall>c \<in> set (pad_last mx (chunks_of mx frame)). length c = mx"
proof (cases "chunks_of mx frame = []")
  case False
  then have "length (last (chunks_of mx frame)) \<le> mx"
    using chunks_of_le[OF assms] last_in_set by blast
  moreover have "set (chunks_of mx frame) = set (butlast (chunks_of mx frame)) \<union> {last (chunks_of mx frame)}"
    using False by (metis append_butlast_last_id list.set(1) list.simps(15) set_append)
  ultimately show ?thesis
    using chunks_of_butlast[OF assms] by (auto simp: pad_last_def)
qed (simp add: pad_last_def)

lemma chunk_concat:
  assumes "0 < mx" shows "\<exists>k. concat (pad_last mx (chunks_of mx frame)) = frame @ replicate k 0"
proof (cases "chunks_of mx frame = []")
  case True
  then show ?thesis using concat_chunks_of[OF assms, of frame] by (auto simp: pad_last_def)
next
  case False
  have "concat (butlast (chunks_of mx frame) @ [last (chunks_of mx frame)]) = frame"
    using False concat_chunks_of[OF assms, of frame] by simp
  then have "concat (butlast (chunks_of mx frame)) @ last (chunks_of mx frame) = frame" by simp
  then have "concat (pad_last mx (chunks_of mx frame)) =
      frame @ replicate (if length (last (chunks_of mx frame)) < mx
        then mx - length (last (chunks_of mx frame)) else 0) 0"
    using False concat_chunks_of[OF assms, of frame] by (auto simp: pad_last_def)
  then show ?thesis by blast
qed

lemma chunk_and_encode_data:
  assumes "chunk_and_encode c frame = (data, parity, n)" "0 < max_chunk_payload c"
  shows "\<forall>d \<in> set data. length d = max_chunk_payload c" "n = length frame"
    "take n (concat data) = frame" "data = [] \<longleftrightarrow> frame = []"
    "parity = map parity_of (chunks_of (fc_block_size c) data)"
proof -
  have nil: "pad_last (max_chunk_payload c) (chunks_of (max_chunk_payload c) frame) = [] \<longleftrightarrow> frame = []"
    using chunks_of_Nil_iff[OF assms(2), of frame] by (auto simp: pad_last_def)
  show "\<forall>d \<in> set data. length d = max_chunk_payload c" "n = length frame"
    "data = [] \<longleftrightarrow> frame = []" "parity = map parity_of (chunks_of (fc_block_size c) data)"
    using assms chunk_lengths[OF assms(2), of frame] nil
    by (auto simp: chunk_and_encode_def Let_def split: if_splits)
  show "take n (concat data) = frame"
    using assms chunk_concat[OF assms(2), of frame]
    by (auto simp: chunk_and_encode_def Let_def split: if_splits)
qed

subsection \<open>Recovery of one loss\<close>

lemma recover_chunk_skip:
  assumes "m < length block" "\<forall>c \<in> set block. length c = length acc"
  shows "recover_chunk (i + m) i acc ((map Some block)[m := None]) =
    Some (foldl xor_bytes acc (take m block @ drop (Suc m) block))"
  using assms
proof (induction block arbitrary: m i acc)
  case (Cons b block)
  have tail: "recover_chunk k j a (map Some bs) = Some (foldl xor_bytes a bs)"
    if "k < j" "\<forall>c \<in> set bs. length c = length a" for k j a bs
    using that by (induction bs arbitrary: j a) auto
  show ?case
  proof (cases m)
    case 0
    with Cons.prems show ?thesis by (simp add: tail)
  next
    case (Suc m')
    with Cons.prems Cons.IH[of m' "xor_bytes acc b" "Suc i"] show ?thesis by simp
  qed
qed simp

lemma missing_none: "missing_in (map Some block) = []"
  by (simp add: missing_in_def)

lemma missing_one: "m < length block \<Longrightarrow> missing_in ((map Some block)[m := None]) = [m]"
proof -
  assume m: "m < length block"
  have "missing_in ((map Some block)[m := None]) = filter (\<lambda>i. i = m) [0..<length block]"
    unfolding missing_in_def using m
    by (auto intro!: filter_cong) (metis nth_list_update_neq nth_map option.distinct(1))
  also have "\<dots> = [m]"
  proof -
    have "[0..<length block] = [0..<m] @ m # [Suc m..<length block]"
      using m by (metis less_imp_le_nat upt_add_eq_append upt_conv_Cons le0 le_add_diff_inverse)
    then show ?thesis by (auto simp: filter_empty_conv)
  qed
  finally show ?thesis .
qed

lemma recover_loop_finds:
  assumes bs: "0 < bs" and i: "i < length data" and cap: "i div bs \<le> 1024"
    and len: "\<forall>d \<in> set data. length d = n"
    and par: "parity = map parity_of (chunks_of bs data)"
    and idx: "idx \<le> i div bs"
  shows "recover_loop ((map Some data)[i := None]) parity bs idx = (map Some data, Ok i)"
  using idx
proof (induction "i div bs - idx" arbitrary: idx)
  case 0
  let ?q = "i div bs" and ?m = "i mod bs"
  let ?block = "take bs (drop (?q * bs) data)"
  have q: "idx = ?q" using 0 by simp
  have im: "?q * bs + ?m = i" by simp
  have "?q * bs < length data" "?m < length data - ?q * bs" using i im by linarith+
  moreover have "?m < bs" using bs by simp
  ultimately have m: "?m < length ?block" "?q * bs < length data" by simp_all
  have blk: "take bs (drop (?q * bs) ((map Some data)[i := None])) = (map Some ?block)[?m := None]"
  proof -
    have "?q * bs \<le> i" "i - ?q * bs = ?m" using im by linarith+
    then show ?thesis using bs by (simp add: drop_update_swap take_update_swap drop_map take_map)
  qed
  have qp: "?q < length parity" "parity ! ?q = parity_of ?block"
    using m(2) length_chunks_of[OF bs, of ?q data] nth_chunks_of[OF bs m(2)] by (simp_all add: par)
  have bl: "\<forall>c \<in> set ?block. length c = n"
    using len by (meson in_set_dropD in_set_takeD)
  have "parity_of ?block = xor_all n ?block"
    using m bl by (intro parity_of_uniform) auto
  moreover have "?block = take ?m ?block @ ?block ! ?m # drop (Suc ?m) ?block"
    using m(1) by (rule id_take_nth_drop)
  moreover have "?block ! ?m = data ! i" using im m by simp
  ultimately have "foldl xor_bytes (parity_of ?block) (take ?m ?block @ drop (Suc ?m) ?block) = data ! i"
    using xor_recovers[of "take ?m ?block" "?block ! ?m" "drop (Suc ?m) ?block" n] bl by metis
  then have "recover_chunk ?m 0 (parity ! ?q) ((map Some ?block)[?m := None]) = Some (data ! i)"
    using recover_chunk_skip[of ?m ?block "parity ! ?q" 0] m bl qp(2)
      \<open>parity_of ?block = xor_all n ?block\<close> by simp
  then show ?case
    using q cap m qp blk missing_one[OF m(1)] im i
    by (subst recover_loop.simps)
       (simp add: Let_def list_update_id map_update[symmetric] del: length_take, rule m(2))
next
  case (Suc k)
  let ?block = "take bs (drop (idx * bs) ((map Some data)[i := None]))"
  have lt: "idx < i div bs" using Suc by simp
  then have far: "idx * bs + bs \<le> i"
    by (metis Suc_leI add.commute mult_Suc mult_le_mono1 le_trans div_times_less_eq_dividend)
  then have "?block = map Some (take bs (drop (idx * bs) data))"
    by (simp add: drop_update_swap take_map drop_map)
  then have "missing_in ?block = []" by (simp add: missing_none)
  moreover have "idx * bs < length data" using far bs i by linarith
  ultimately show ?case
    using Suc.hyps lt cap by (subst recover_loop.simps) (simp add: Let_def)
qed

subsection \<open>Properties\<close>

text \<open>Any single data chunk of an encoded frame that is lost (within the first 1025 blocks, all the
  loop looks at) is rebuilt exactly from the parity chunks, the other chunks are untouched, and
  cutting the concatenation to the transmitted length gives the frame back.\<close>

theorem fec_recovers_single_loss:
  assumes "chunk_and_encode c frame = (data, parity, n)"
    and "0 < max_chunk_payload c" and "0 < fc_block_size c"
    and "i < length data" and "i div fc_block_size c \<le> 1024"
  shows "recover_with_parity ((map Some data)[i := None]) parity (fc_block_size c) = (map Some data, Ok i) \<and>
    take n (concat data) = frame"
proof -
  note d = chunk_and_encode_data[OF assms(1,2)]
  have "recover_loop ((map Some data)[i := None]) parity (fc_block_size c) 0 = (map Some data, Ok i)"
    using assms(3,4,5) d(1,5) by (intro recover_loop_finds) auto
  then show ?thesis using assms(4) d(3) by (auto simp: recover_with_parity_def)
qed

theorem fec_recovers_single_loss_witness:
  "\<exists>data parity. chunk_and_encode \<lparr>fc_block_size = 2, max_chunk_payload = 2\<rparr> [1, 2, 3, 4, 5] = (data, parity, 5) \<and>
     recover_with_parity ((map Some data)[1 := None]) parity 2 = (map Some data, Ok 1)"
proof -
  let ?c = "\<lparr>fc_block_size = 2, max_chunk_payload = 2\<rparr>"
  obtain data parity where e: "chunk_and_encode ?c [1, 2, 3, 4, 5] = (data, parity, 5)"
    by (simp add: chunk_and_encode_def Let_def)
  have "length data = 3"
    using e by (simp add: chunk_and_encode_def Let_def chunks_of.simps) auto
  with fec_recovers_single_loss[OF e, of 1] e show ?thesis by auto
qed

end
