(* ===== verification/Host_Input.thy ===== *)
theory Host_Input
  imports Host_Toast Wire_Codecs Media_Fec "HOL-Library.Sublist"
begin

text \<open>
  Remote input on the host, \<open>main.rs\<close>: the permission filter on the reliable input stream
  (\<open>handle_remote_input_events\<close>), the worker that collapses queued mouse moves
  (\<open>next_injected_input_event\<close>), the injector with its coordinate scaling and key tables, the gamepad
  datagram path, and the WebTransport input parser with its key hashes. The calls of the injection
  library are the actions of the type \<open>inject_action\<close>, performed by a function that says which succeed.
\<close>

subsection \<open>Events\<close>

datatype input_mouse_button = LeftButton | RightButton | MiddleButton

text \<open>Floating-point fields are their 32-bit patterns.\<close>

datatype remote_input_event =
    MouseMove u32 u32
  | RelativeMouseMove "32 word" "32 word"
  | MouseButton input_mouse_button bool "u32 option" "u32 option"
  | MouseWheel "32 word" "32 word"
  | Keyboard string bool
  | Gamepad gamepad_state
  | HoverDisplay u32
  | PenInput pen_tool "32 word" "32 word" "32 word" "32 word" u32 u16 u16 u16

fun is_mouse_move :: "remote_input_event \<Rightarrow> bool" where
  "is_mouse_move (MouseMove x y) = True"
| "is_mouse_move _ = False"

subsection \<open>The permission filter\<close>

definition assign_slot :: "u8 \<Rightarrow> gamepad_state \<Rightarrow> gamepad_state" where
  "assign_slot slot st = (if gamepad_id st = 0 then st\<lparr>gamepad_id := slot\<rparr> else st)"

datatype input_route = DropEvent | ToGamepad gamepad_state | ToWorker

definition route_event :: "session_permissions \<Rightarrow> u8 \<Rightarrow> remote_input_event \<Rightarrow> input_route" where
  "route_event p slot ev =
     (case ev of
        Gamepad st \<Rightarrow> if allow_gamepad p then ToGamepad (assign_slot slot st) else DropEvent
      | Keyboard _ _ \<Rightarrow> if \<not> allow_keyboard p then DropEvent else ToWorker
      | MouseMove _ _ \<Rightarrow> if \<not> allow_mouse p then DropEvent else ToWorker
      | RelativeMouseMove _ _ \<Rightarrow> if \<not> allow_mouse p then DropEvent else ToWorker
      | MouseButton _ _ _ _ \<Rightarrow> if \<not> allow_mouse p then DropEvent else ToWorker
      | MouseWheel _ _ \<Rightarrow> if \<not> allow_mouse p then DropEvent else ToWorker
      | _ \<Rightarrow> ToWorker)"

text \<open>\<open>tx\<close> is the channel to the injection worker: none when it could not be started, otherwise the
  number of sends before the worker stops. The result is what goes to the gamepad task and what goes
  to the worker.\<close>

fun input_loop ::
    "session_permissions \<Rightarrow> u8 \<Rightarrow> nat option \<Rightarrow> remote_input_event list \<Rightarrow>
     gamepad_state list \<times> remote_input_event list" where
  "input_loop p slot tx [] = ([], [])"
| "input_loop p slot tx (ev # evs) =
     (case route_event p slot ev of
        DropEvent \<Rightarrow> input_loop p slot tx evs
      | ToGamepad st \<Rightarrow> (case input_loop p slot tx evs of (gs, is) \<Rightarrow> (st # gs, is))
      | ToWorker \<Rightarrow>
         (case tx of
            None \<Rightarrow> input_loop p slot tx evs
          | Some k \<Rightarrow> if k = 0 then ([], [])
              else (case input_loop p slot (Some (k - 1)) evs of (gs, is) \<Rightarrow> (gs, ev # is))))"

definition handle_remote_input_events ::
    "session_permissions \<Rightarrow> u8 \<Rightarrow> nat option \<Rightarrow> remote_input_event list \<Rightarrow>
     gamepad_state list \<times> remote_input_event list" where
  "handle_remote_input_events p slot tx evs =
     (if decide_input p = DropStream then ([], []) else input_loop p slot tx evs)"

text \<open>The datagram path: no permission is consulted.\<close>

definition datagram_gamepad :: "u8 \<Rightarrow> bytes list \<Rightarrow> gamepad_state list" where
  "datagram_gamepad slot ds = map (assign_slot slot) (List.map_filter gamepad_from_bytes ds)"

subsection \<open>The injection worker\<close>

fun drain_moves ::
    "remote_input_event \<Rightarrow> remote_input_event list \<Rightarrow>
     remote_input_event \<times> remote_input_event option \<times> remote_input_event list" where
  "drain_moves e [] = (e, None, [])"
| "drain_moves e (x # xs) = (if is_mouse_move x then drain_moves x xs else (e, Some x, xs))"

text \<open>\<open>k\<close> is the number of queued events \<open>try_recv\<close> can see at this call; the rest arrives later.\<close>

definition next_injected_input_event ::
    "nat \<Rightarrow> remote_input_event option \<Rightarrow> remote_input_event list \<Rightarrow>
     (remote_input_event \<times> remote_input_event option \<times> remote_input_event list) option" where
  "next_injected_input_event k pending queue =
     (case (case pending of Some e \<Rightarrow> Some (e, queue)
            | None \<Rightarrow> (case queue of [] \<Rightarrow> None | e # q \<Rightarrow> Some (e, q))) of
        None \<Rightarrow> None
      | Some (e, q) \<Rightarrow>
         if is_mouse_move e
         then (case drain_moves e (take k q) of (e', p', rest) \<Rightarrow> Some (e', p', rest @ drop k q))
         else Some (e, None, q))"

lemma drain_moves_length:
  "drain_moves e xs = (e', p', rest) \<Longrightarrow>
   length rest + (if p' = None then 0 else 1) \<le> length xs"
  by (induction e xs rule: drain_moves.induct) (auto split: if_splits)

lemma next_injected_decreases:
  assumes "next_injected_input_event k pending queue = Some (e, p', q')"
  shows "length q' + (if p' = None then 0 else 1) < length queue + (if pending = None then 0 else 1)"
proof -
  obtain e0 q where q: "(pending = Some e0 \<and> q = queue) \<or> (pending = None \<and> queue = e0 # q)"
    and r: "(if is_mouse_move e0
       then (case drain_moves e0 (take k q) of (e', p', rest) \<Rightarrow> Some (e', p', rest @ drop k q))
       else Some (e0, None, q)) = Some (e, p', q')"
    using assms by (auto simp: next_injected_input_event_def split: option.splits list.splits)
  have "length q' + (if p' = None then 0 else 1) \<le> length q"
  proof (cases "is_mouse_move e0")
    case True
    obtain rest where d: "drain_moves e0 (take k q) = (e, p', rest)" "q' = rest @ drop k q"
      using r True by (auto split: prod.splits)
    from drain_moves_length [OF d(1)] d(2) show ?thesis by auto
  qed (use r in auto)
  with q show ?thesis by auto
qed

text \<open>The worker until its queue is closed and empty; \<open>sched\<close> is what each call sees of the queue.\<close>

function worker_run ::
    "(nat \<Rightarrow> nat) \<Rightarrow> nat \<Rightarrow> remote_input_event option \<Rightarrow> remote_input_event list \<Rightarrow> remote_input_event list" where
  "worker_run sched i pending queue =
     (case next_injected_input_event (sched i) pending queue of
        None \<Rightarrow> []
      | Some (e, p', q') \<Rightarrow> e # worker_run sched (Suc i) p' q')"
  by pat_completeness auto
termination
  by (relation "measure (\<lambda>(sched, i, pending, queue). length queue + (if pending = None then 0 else 1))")
    (auto dest: next_injected_decreases)

declare worker_run.simps [simp del]

subsection \<open>Injection\<close>

definition scale_input_coordinate :: "u32 \<Rightarrow> u32 \<Rightarrow> 32 word \<Rightarrow> 32 word" where
  "scale_input_coordinate value source_extent target_extent =
     (if source_extent \<le> 1 \<or> sint target_extent \<le> 1 then 0
      else let source_max = ucast (source_extent - 1) :: u64;
               target_max = ucast (target_extent - 1) :: u64;
               clamped = ucast (min value (source_extent - 1)) :: u64
           in ucast ((clamped * target_max) div source_max))"

datatype target_os = TargetWindows | TargetUnix | TargetOther

datatype enigo_key = UnicodeKey char | NamedKey string

datatype inject_action =
    MoveAbs "32 word" "32 word"
  | ButtonAction input_mouse_button bool
  | KeyAction enigo_key bool

definition single_character_table :: "(string \<times> char) list" where
  "single_character_table =
    [(''Key0'', CHR ''0''), (''Key1'', CHR ''1''), (''Key2'', CHR ''2''), (''Key3'', CHR ''3''),
     (''Key4'', CHR ''4''), (''Key5'', CHR ''5''), (''Key6'', CHR ''6''), (''Key7'', CHR ''7''),
     (''Key8'', CHR ''8''), (''Key9'', CHR ''9''), (''Apostrophe'', CHR 0x27), (''Backquote'', CHR 0x60),
     (''Backslash'', CHR 0x5C), (''Comma'', CHR '',''), (''Equal'', CHR ''=''), (''LeftBracket'', CHR ''[''),
     (''Minus'', CHR ''-''), (''Period'', CHR ''.''), (''RightBracket'', CHR '']''), (''Semicolon'', CHR '';''),
     (''Slash'', CHR ''/'')]"

definition is_ascii_alphanumeric :: "char \<Rightarrow> bool" where
  "is_ascii_alphanumeric c =
     (let n = of_char c :: nat in (48 \<le> n \<and> n \<le> 57) \<or> (65 \<le> n \<and> n \<le> 90) \<or> (97 \<le> n \<and> n \<le> 122))"

definition ascii_lower :: "char \<Rightarrow> char" where
  "ascii_lower c = (let n = of_char c :: nat in if 65 \<le> n \<and> n \<le> 90 then char_of (n + 32) else c)"

definition single_character_key :: "string \<Rightarrow> char option" where
  "single_character_key key =
     (case key of
        [c] \<Rightarrow> if is_ascii_alphanumeric c then Some (ascii_lower c) else map_of single_character_table key
      | _ \<Rightarrow> map_of single_character_table key)"

definition os_key :: "string option \<Rightarrow> string option \<Rightarrow> target_os \<Rightarrow> enigo_key option" where
  "os_key win unix tos = map_option NamedKey
     (case tos of TargetWindows \<Rightarrow> win | TargetUnix \<Rightarrow> unix | TargetOther \<Rightarrow> None)"

definition named_key_table :: "(string \<times> string) list" where
  "named_key_table =
    [(''Down'', ''DownArrow''), (''Left'', ''LeftArrow''), (''Right'', ''RightArrow''), (''Up'', ''UpArrow''),
     (''Backspace'', ''Backspace''), (''Delete'', ''Delete''), (''End'', ''End''), (''Enter'', ''Return''),
     (''Escape'', ''Escape''), (''Home'', ''Home''), (''PageDown'', ''PageDown''), (''PageUp'', ''PageUp''),
     (''Space'', ''Space''), (''Tab'', ''Tab''), (''CapsLock'', ''CapsLock''), (''LeftShift'', ''LShift''),
     (''RightShift'', ''RShift''), (''LeftCtrl'', ''LControl''), (''RightCtrl'', ''RControl''),
     (''LeftSuper'', ''Meta''), (''RightSuper'', ''Meta''),
     (''NumPad0'', ''Numpad0''), (''NumPad1'', ''Numpad1''), (''NumPad2'', ''Numpad2''), (''NumPad3'', ''Numpad3''),
     (''NumPad4'', ''Numpad4''), (''NumPad5'', ''Numpad5''), (''NumPad6'', ''Numpad6''), (''NumPad7'', ''Numpad7''),
     (''NumPad8'', ''Numpad8''), (''NumPad9'', ''Numpad9''), (''NumPadDot'', ''Decimal''), (''NumPadSlash'', ''Divide''),
     (''NumPadAsterisk'', ''Multiply''), (''NumPadMinus'', ''Subtract''), (''NumPadPlus'', ''Add''),
     (''F1'', ''F1''), (''F2'', ''F2''), (''F3'', ''F3''), (''F4'', ''F4''), (''F5'', ''F5''), (''F6'', ''F6''),
     (''F7'', ''F7''), (''F8'', ''F8''), (''F9'', ''F9''), (''F10'', ''F10''), (''F11'', ''F11''), (''F12'', ''F12''),
     (''F13'', ''F13''), (''F14'', ''F14''), (''F15'', ''F15'')]"

text \<open>The keys whose existence depends on the platform: their Windows and their other-Unix names.\<close>

definition os_key_table :: "(string \<times> string option \<times> string option) list" where
  "os_key_table =
    [(''Insert'', Some ''Insert'', Some ''Insert''), (''Menu'', Some ''Apps'', Some ''LMenu''),
     (''Pause'', Some ''Pause'', Some ''Pause''), (''NumLock'', Some ''Numlock'', Some ''Numlock''),
     (''ScrollLock'', Some ''Scroll'', Some ''ScrollLock''), (''LeftAlt'', Some ''LMenu'', Some ''LMenu''),
     (''RightAlt'', Some ''RMenu'', Some ''Alt''), (''NumPadEnter'', Some ''Return'', Some ''Return'')]"

definition map_remote_key :: "target_os \<Rightarrow> string \<Rightarrow> enigo_key option" where
  "map_remote_key tos key =
     (case single_character_key key of
        Some c \<Rightarrow> Some (UnicodeKey c)
      | None \<Rightarrow>
         (case map_of os_key_table key of
            Some (win, unix) \<Rightarrow> os_key win unix tos
          | None \<Rightarrow> map_option NamedKey (map_of named_key_table key)))"

record input_injector =
  ij_stream_width :: u32
  ij_stream_height :: u32
  ij_display_width :: "32 word"
  ij_display_height :: "32 word"

definition injector_new :: "u32 \<Rightarrow> u32 \<Rightarrow> 32 word \<Rightarrow> 32 word \<Rightarrow> input_injector" where
  "injector_new vw vh dw dh = \<lparr>ij_stream_width = max vw 1, ij_stream_height = max vh 1,
     ij_display_width = dw, ij_display_height = dh\<rparr>"

fun perform :: "(inject_action \<Rightarrow> bool) \<Rightarrow> inject_action list \<Rightarrow> inject_action list \<times> bool" where
  "perform ok [] = ([], True)"
| "perform ok (a # as) =
     (if ok a then (case perform ok as of (done, r) \<Rightarrow> (a # done, r)) else ([], False))"

definition move_action :: "input_injector \<Rightarrow> u32 \<Rightarrow> u32 \<Rightarrow> inject_action" where
  "move_action ij x y = MoveAbs (scale_input_coordinate x (ij_stream_width ij) (ij_display_width ij))
     (scale_input_coordinate y (ij_stream_height ij) (ij_display_height ij))"

definition injector_apply ::
    "target_os \<Rightarrow> (inject_action \<Rightarrow> bool) \<Rightarrow> input_injector \<Rightarrow> remote_input_event \<Rightarrow> inject_action list \<times> bool" where
  "injector_apply tos ok ij ev =
     (case ev of
        MouseMove x y \<Rightarrow> perform ok [move_action ij x y]
      | MouseButton b pressed x y \<Rightarrow>
          (case (x, y) of
             (Some px, Some py) \<Rightarrow> perform ok [move_action ij px py, ButtonAction b pressed]
           | _ \<Rightarrow> perform ok [ButtonAction b pressed])
      | Keyboard key pressed \<Rightarrow>
          (case map_remote_key tos key of
             None \<Rightarrow> ([], True)
           | Some k \<Rightarrow> perform ok [KeyAction k pressed])
      | _ \<Rightarrow> ([], True))"

subsection \<open>WebTransport input\<close>

definition key_hash :: "string \<Rightarrow> u32" where
  "key_hash name = foldl (\<lambda>hash b. push_bit 5 hash - hash + of_char b) 0 name"

definition key_names :: "string list" where
  "key_names =
     map (\<lambda>c. ''Key'' @ [c]) ''ABCDEFGHIJKLMNOPQRSTUVWXYZ'' @
     map (\<lambda>c. ''Digit'' @ [c]) ''0123456789'' @
     [''F1'', ''F2'', ''F3'', ''F4'', ''F5'', ''F6'', ''F7'', ''F8'', ''F9'', ''F10'', ''F11'', ''F12''] @
     [''ArrowLeft'', ''ArrowRight'', ''ArrowUp'', ''ArrowDown'', ''Enter'', ''Escape'', ''Backspace'', ''Tab'',
      ''Space'', ''Delete'', ''Insert'', ''Home'', ''End'', ''PageUp'', ''PageDown'', ''ShiftLeft'', ''ShiftRight'',
      ''ControlLeft'', ''ControlRight'', ''AltLeft'', ''AltRight'', ''MetaLeft'', ''MetaRight'', ''CapsLock'',
      ''NumLock'', ''ScrollLock'', ''Minus'', ''Equal'', ''BracketLeft'', ''BracketRight'', ''Backslash'',
      ''Semicolon'', ''Quote'', ''Backquote'', ''Comma'', ''Period'', ''Slash'']"

definition hash_to_key_string :: "u32 \<Rightarrow> string option" where
  "hash_to_key_string h = find (\<lambda>name. key_hash name = h) key_names"

definition gamepad_of_wt :: "bytes \<Rightarrow> gamepad_state" where
  "gamepad_of_wt d = \<lparr>gamepad_id = d ! 0, gp_flags = d ! 1, buttons_lo = d ! 2, buttons_hi = d ! 3,
     lt = d ! 4, rt = d ! 5, lx = from_le_bytes [d ! 6, d ! 7], ly = from_le_bytes [d ! 8, d ! 9],
     rx = from_le_bytes [d ! 10, d ! 11], ry = from_le_bytes [d ! 12, d ! 13], gp_pad = [d ! 14, d ! 15]\<rparr>"

text \<open>The whole stream as received; the loop ends with an error when a read runs into its end.\<close>

function webtransport_input_loop :: "bytes \<Rightarrow> remote_input_event list" where
  "webtransport_input_loop [] = []"
| "webtransport_input_loop (op # bs) =
     (if op = 1 then
        if length bs < 8 then []
        else RelativeMouseMove (from_le_bytes (take 4 bs)) (from_le_bytes (take 4 (drop 4 bs)))
               # webtransport_input_loop (drop 8 bs)
      else if op = 2 then
        if length bs < 5 then []
        else (case hash_to_key_string (from_le_bytes (take 4 bs)) of
            Some key \<Rightarrow> Keyboard key (bs ! 4 \<noteq> 0) # webtransport_input_loop (drop 5 bs)
          | None \<Rightarrow> webtransport_input_loop (drop 5 bs))
      else if op = 3 then
        if length bs < 16 then []
        else Gamepad (gamepad_of_wt (take 16 bs)) # webtransport_input_loop (drop 16 bs)
      else webtransport_input_loop bs)"
  by pat_completeness auto
termination by (relation "measure length") auto

subsection \<open>Audio channels\<close>

definition normalize_audio_channels :: "'a \<Rightarrow> 'a list \<Rightarrow> u16 \<Rightarrow> 'a list" where
  "normalize_audio_channels zero samples channels =
     (if channels = 0 then []
      else if channels = 1 then concat (map (\<lambda>s. [s, s]) samples)
      else if channels = 2 then samples
      else concat (map (\<lambda>frame.
         let left = (case frame of [] \<Rightarrow> zero | x # _ \<Rightarrow> x);
             right = (if 1 < length frame then frame ! 1 else left)
         in [left, right]) (chunks_of (unat channels) samples)))"

subsection \<open>Properties\<close>

definition event_allowed :: "session_permissions \<Rightarrow> remote_input_event \<Rightarrow> bool" where
  "event_allowed p ev = (case ev of
       Gamepad _ \<Rightarrow> False
     | Keyboard _ _ \<Rightarrow> perm_input p \<and> perm_keyboard p
     | HoverDisplay _ \<Rightarrow> perm_input p | PenInput _ _ _ _ _ _ _ _ _ \<Rightarrow> perm_input p
     | _ \<Rightarrow> perm_input p \<and> perm_mouse p)"

lemma input_loop_allowed:
  assumes "perm_input p" "input_loop p slot tx evs = (gs, is)"
  shows "subseq is evs \<and> list_all (event_allowed p) is \<and> (gs = [] \<or> perm_gamepad p) \<and>
    (\<exists>sts. subseq (map Gamepad sts) evs \<and> gs = map (assign_slot slot) sts)"
  using assms
proof (induction p slot tx evs arbitrary: gs "is" rule: input_loop.induct)
  case (2 p slot tx ev evs)
  show ?case
  proof (cases "route_event p slot ev")
    case DropEvent
    then show ?thesis using 2 by (auto intro: subseq_Cons')
  next
    case (ToGamepad st)
    then obtain st0 where ev: "ev = Gamepad st0" "allow_gamepad p" "st = assign_slot slot st0"
      by (auto simp: route_event_def split: remote_input_event.splits if_splits)
    obtain gs' where g: "input_loop p slot tx evs = (gs', is)" "gs = st # gs'"
      using "2.prems" ToGamepad by (auto split: prod.splits)
    from "2.IH"(2) [OF ToGamepad "2.prems"(1) g(1)] obtain sts where
      "subseq (map Gamepad sts) evs" "gs' = map (assign_slot slot) sts" "subseq is evs" "list_all (event_allowed p) is"
      by blast
    then show ?thesis using ev g(2)
      by (auto simp: allow_gamepad_def intro!: exI [of _ "st0 # sts"] intro: subseq_Cons')
  next
    case ToWorker
    then have al: "event_allowed p ev" using "2.prems"(1)
      by (auto simp: route_event_def event_allowed_def allow_keyboard_def allow_mouse_def
          split: remote_input_event.splits if_splits)
    show ?thesis
    proof (cases tx)
      case None
      then show ?thesis using ToWorker 2 by (auto intro: subseq_Cons')
    next
      case (Some k)
      show ?thesis
      proof (cases "k = 0")
        case False
        obtain is' where g: "input_loop p slot (Some (k - 1)) evs = (gs, is')" "is = ev # is'"
          using "2.prems" ToWorker Some False by (auto split: prod.splits)
        from "2.IH"(4) [OF ToWorker Some False "2.prems"(1) g(1)] al show ?thesis
          by (auto simp: g(2) intro: subseq_Cons')
      qed (use Some ToWorker "2.prems" in auto)
    qed
  qed
qed simp

text \<open>C33: On the reliable input stream the host injects only what the session permits: the events that
  reach the injection worker are, in order, a selection of the received ones, each of a kind the
  permissions allow; gamepad states reach the gamepad task only with the gamepad permission; and
  without the input permission nothing passes.\<close>

theorem input_permissions_enforced:
  assumes "handle_remote_input_events p slot tx evs = (gs, is)"
  shows "subseq is evs \<and> list_all (event_allowed p) is \<and>
    (gs = [] \<or> allow_gamepad p) \<and> (\<exists>sts. subseq (map Gamepad sts) evs \<and> gs = map (assign_slot slot) sts) \<and>
    (perm_input p \<or> (gs = [] \<and> is = []))"
proof (cases "decide_input p = DropStream")
  case True
  then show ?thesis using assms by (simp add: handle_remote_input_events_def)
next
  case False
  then have p: "perm_input p" by (auto simp: decide_input_def allow_input_def split: if_splits)
  have "input_loop p slot tx evs = (gs, is)" using assms False by (simp add: handle_remote_input_events_def)
  from input_loop_allowed [OF p this] p show ?thesis by (simp add: allow_gamepad_def)
qed

definition demo_pad :: gamepad_state where
  "demo_pad = \<lparr>gamepad_id = 0, gp_flags = 0, buttons_lo = 1, buttons_hi = 0, lt = 0, rt = 0,
     lx = 0, ly = 0, rx = 0, ry = 0, gp_pad = [0, 0]\<rparr>"

theorem input_permissions_enforced_witness:
  "handle_remote_input_events coop_guest 2 (Some 9)
     [Keyboard ''A'' True, Gamepad demo_pad, MouseMove 1 2, HoverDisplay 4] =
     ([demo_pad\<lparr>gamepad_id := 2\<rparr>], [HoverDisplay 4]) \<and>
   list_all (event_allowed coop_guest) [HoverDisplay 4]"
proof -
  have "handle_remote_input_events coop_guest 2 (Some 9)
     [Keyboard ''A'' True, Gamepad demo_pad, MouseMove 1 2, HoverDisplay 4] =
     ([demo_pad\<lparr>gamepad_id := 2\<rparr>], [HoverDisplay 4])"
    by (simp add: handle_remote_input_events_def decide_input_def allow_input_def coop_guest_def route_event_def
        allow_gamepad_def allow_keyboard_def allow_mouse_def assign_slot_def demo_pad_def)
  from this input_permissions_enforced [OF this] show ?thesis by simp
qed

text \<open>The events with every run of mouse moves reduced to its last one: what the host's cursor and
  buttons do as far as anything but intermediate cursor positions is concerned.\<close>

fun collapse :: "remote_input_event list \<Rightarrow> remote_input_event list" where
  "collapse [] = []"
| "collapse [e] = [e]"
| "collapse (e # e' # es) = (if is_mouse_move e \<and> is_mouse_move e' then collapse (e' # es) else e # collapse (e' # es))"

lemma collapse_drain:
  assumes "is_mouse_move e" "drain_moves e xs = (e', p', rest)"
  shows "is_mouse_move e' \<and> collapse (e # xs @ ys) = collapse (e' # (case p' of None \<Rightarrow> [] | Some x \<Rightarrow> [x]) @ rest @ ys) \<and>
    (case p' of None \<Rightarrow> rest = [] | Some x \<Rightarrow> \<not> is_mouse_move x)"
  using assms by (induction e xs rule: drain_moves.induct) (auto split: if_splits)

lemma collapse_head:
  "xs \<noteq> [] \<Longrightarrow> collapse xs \<noteq> [] \<and> is_mouse_move (hd (collapse xs)) = is_mouse_move (hd xs)"
  by (induction xs rule: collapse.induct) auto

lemma collapse_Cons_cong: "collapse xs = collapse ys \<Longrightarrow> collapse (e # xs) = collapse (e # ys)"
  using collapse_head [of xs] collapse_head [of ys] by (cases xs; cases ys) auto

lemma worker_run_collapse:
  "collapse (worker_run sched i pending queue) =
     collapse ((case pending of None \<Rightarrow> [] | Some e \<Rightarrow> [e]) @ queue)"
proof (induction sched i pending queue rule: worker_run.induct)
  case (1 sched i pending queue)
  show ?case
  proof (cases "next_injected_input_event (sched i) pending queue")
    case None
    then have "pending = None" "queue = []"
      by (auto simp: next_injected_input_event_def split: option.splits list.splits prod.splits if_splits)
    with None show ?thesis by (simp add: worker_run.simps)
  next
    case (Some r)
    obtain e p' q' where r: "r = (e, p', q')" by (cases r)
    obtain e0 q where q: "(case pending of None \<Rightarrow> [] | Some e \<Rightarrow> [e]) @ queue = e0 # q"
      and n: "(if is_mouse_move e0
         then (case drain_moves e0 (take (sched i) q) of (e', p', rest) \<Rightarrow> Some (e', p', rest @ drop (sched i) q))
         else Some (e0, None, q)) = Some (e, p', q')"
      using Some by (auto simp: r next_injected_input_event_def split: option.splits list.splits)
    have "collapse (e # (case p' of None \<Rightarrow> [] | Some e \<Rightarrow> [e]) @ q') = collapse (e0 # q)"
    proof (cases "is_mouse_move e0")
      case True
      obtain rest where d: "drain_moves e0 (take (sched i) q) = (e, p', rest)" "q' = rest @ drop (sched i) q"
        using n True by (auto split: prod.splits)
      from collapse_drain [OF True d(1), of "drop (sched i) q"] d(2) show ?thesis by simp
    qed (use n in auto)
    with collapse_Cons_cong [OF "1.IH" [OF Some r [symmetric] refl]] show ?thesis
      using Some q by (simp add: worker_run.simps r)
  qed
qed

text \<open>The injection worker may skip mouse positions but nothing else, whatever part of the queue each
  of its calls sees: reducing every run of moves to its last one, what it injects equals what was
  queued. So no button, key or wheel event is lost or reordered, and each happens with the cursor
  where the client had it.\<close>

theorem worker_keeps_input:
  "collapse (worker_run sched 0 None queue) = collapse queue"
  by (simp add: worker_run_collapse)

lemma sint_pos_unat:
  assumes "0 \<le> sint (t :: 32 word)"
  shows "int (unat t) = sint t" and "unat t < 2 ^ 31"
proof -
  have "sint t = uint t - 2 ^ 32 * of_bool (bit (uint t) 31)"
    using uint_bounded [of t]
    by (simp add: sint_uint signed_take_bit_eq_take_bit_minus take_bit_int_eq_self)
  moreover have "uint t < 2 ^ 32" using uint_bounded [of t] by simp
  ultimately have u: "uint t = sint t" using assms by (auto simp: of_bool_def split: if_splits)
  then show "int (unat t) = sint t" by simp
  have "sint t < 2 ^ 31" using signed_take_bit_int_less_exp [of 31 "uint t"] by (simp add: sint_uint)
  with u show "unat t < 2 ^ 31" by (simp add: unat_eq_nat_uint nat_less_iff)
qed

lemma unat_small_sint:
  assumes "unat (t :: 32 word) < 2 ^ 31" shows "sint t = int (unat t)"
proof -
  have u: "uint t = int (unat t)" by (rule uint_nat)
  have "signed_take_bit 31 (int (unat t)) = int (unat t)"
  proof (rule signed_take_bit_int_eq_self)
    have "int (unat t) < int (2 ^ 31)" using assms by (simp only: of_nat_less_iff)
    then show "int (unat t) < 2 ^ 31" by (simp only: of_nat_power of_nat_numeral)
    have "- (2 ^ 31) \<le> (0 :: int)" by simp
    also have "0 \<le> int (unat t)" by (rule of_nat_0_le_iff)
    finally show "- (2 ^ 31) \<le> int (unat t)" .
  qed
  moreover have "sint t = signed_take_bit 31 (int (unat t))" unfolding u [symmetric] by (simp add: sint_uint)
  ultimately show ?thesis by (simp only:)
qed

lemma unat_pred: "0 < unat w \<Longrightarrow> unat (w - 1) = unat w - 1" for w :: "'a::len word"
  by (rule unat_minus_one) auto

lemma unat_ucast_u64: "unat (ucast (x :: u32) :: u64) = unat x"
proof -
  have "unat x < 2 ^ 32" using unsigned_less [of x, where 'a = nat] by simp
  then have "unat x < 2 ^ 64" by (rule less_trans) simp
  then show ?thesis by (simp add: unsigned_ucast_eq take_bit_nat_eq_self)
qed

lemma scale_nat:
  assumes "1 < source" "1 < sint target"
  shows "unat (scale_input_coordinate v source target) =
      min (unat v) (unat source - 1) * (unat target - 1) div (unat source - 1)" (is ?eq)
    and "unat (scale_input_coordinate v source target) \<le> unat target - 1" (is ?le)
proof -
  have t: "1 < unat target" "unat target < 2 ^ 31"
    using sint_pos_unat [of target] assms(2) by linarith+
  have s: "1 < unat source" using assms(1) by (simp add: word_less_nat_alt)
  have ds: "unat (source - 1) = unat source - 1" "unat (target - 1) = unat target - 1"
    using s t by (simp_all add: unat_pred)
  let ?c = "min (unat v) (unat source - 1)" and ?t = "unat target - 1" and ?s = "unat source - 1"
  have mn: "unat (min v (source - 1)) = ?c" by (simp add: min_def word_le_nat_alt ds)
  have c32: "?c < 2 ^ 32" using unsigned_less [of v, where 'a = nat] by simp
  have "?c * ?t < 2 ^ 32 * 2 ^ 31" using c32 t by (intro mult_strict_mono) auto
  then have p: "?c * ?t < 2 ^ 64" by simp
  have "?c * ?t \<le> ?s * ?t" by (intro mult_le_mono1) simp
  then have le: "?c * ?t div ?s \<le> ?t"
    using s div_le_mono [of "?c * ?t" "?s * ?t" ?s] by simp
  let ?w = "(ucast (min v (source - 1)) * ucast (target - 1)) div (ucast (source - 1) :: u64)"
  have "unat ?w = ?c * ?t div ?s"
    using p by (simp add: unat_div_distrib unat_word_ariths unat_ucast_u64 mn ds)
  moreover have "unat (ucast ?w :: 32 word) = unat ?w"
  proof -
    have "unat ?w \<le> unat target" using calculation le by linarith
    also have "\<dots> < 2 ^ 32" using t(2) by simp
    finally have "unat ?w < 2 ^ 32" .
    then show ?thesis by (simp add: unsigned_ucast_eq take_bit_nat_eq_self)
  qed
  moreover have "scale_input_coordinate v source target = ucast ?w"
  proof -
    have "\<not> (source \<le> 1 \<or> sint target \<le> 1)" using assms by (simp add: not_le)
    then show ?thesis unfolding scale_input_coordinate_def Let_def by (rule if_not_P)
  qed
  ultimately show ?eq ?le using le by simp_all
qed

text \<open>A client coordinate is mapped into the host's display: the result lies in it, the first and
  the last source position (and everything past it) go to the first and last pixel, and the map is
  monotone.\<close>

theorem scale_input_bounds:
  assumes "1 < source" and "1 < sint target"
  shows "0 \<le> sint (scale_input_coordinate v source target) \<and>
    sint (scale_input_coordinate v source target) \<le> sint target - 1 \<and>
    scale_input_coordinate 0 source target = 0 \<and>
    (source - 1 \<le> v \<longrightarrow> scale_input_coordinate v source target = target - 1) \<and>
    (v \<le> v' \<longrightarrow> sint (scale_input_coordinate v source target) \<le> sint (scale_input_coordinate v' source target))"
proof -
  have t: "int (unat target) = sint target" "unat target < 2 ^ 31" "1 < unat target"
    using sint_pos_unat [of target] assms(2) by linarith+
  have s: "1 < unat source" using assms(1) by (simp add: word_less_nat_alt)
  have small: "sint (scale_input_coordinate x source target) = int (unat (scale_input_coordinate x source target))" for x
  proof -
    have "unat (scale_input_coordinate x source target) < 2 ^ 31" using scale_nat(2) [OF assms, of x] t by linarith
    then show ?thesis by (rule unat_small_sint)
  qed
  let ?f = "\<lambda>x. unat (scale_input_coordinate x source target)"
  have f0: "?f 0 = 0" using s by (simp add: scale_nat(1) [OF assms])
  have f1: "?f v = unat (target - 1)" if "source - 1 \<le> v"
  proof -
    have "unat source - 1 \<le> unat v"
      using that s by (simp add: word_le_nat_alt unat_pred)
    then show ?thesis using s t(3) by (simp add: scale_nat(1) [OF assms] min_def unat_pred)
  qed
  have fm: "?f v \<le> ?f v'" if "v \<le> v'"
    using that by (auto simp: scale_nat(1) [OF assms] word_le_nat_alt intro!: div_le_mono mult_le_mono1)
  have "int (?f v) \<le> sint target - 1" using scale_nat(2) [OF assms, of v] t(1,3) by linarith
  with f0 f1 fm show ?thesis unfolding small
    by (simp only: of_nat_le_iff unsigned_eq_0_iff word_eq_iff_unsigned [where 'a = nat, symmetric]) simp
qed

theorem scale_input_bounds_witness:
  "scale_input_coordinate 1279 1280 1920 = 1919 \<and> scale_input_coordinate 0 1280 1920 = 0 \<and>
   sint (scale_input_coordinate 639 1280 1920 :: 32 word) \<le> 1919"
proof -
  have *: "(1 :: 32 word) < 1280" "1 < sint (1920 :: 32 word)" by simp_all
  show ?thesis
    using scale_input_bounds [OF *, of 639 639] scale_input_bounds [OF *, of 1279 1279] by simp
qed

text \<open>The hash as a number: a polynomial in 31 modulo \<open>2 ^ 32\<close>.\<close>

definition key_hash_int :: "string \<Rightarrow> int" where
  "key_hash_int name = foldl (\<lambda>h b. (31 * h + of_char b) mod 4294967296) 0 name"

lemma push_bit_5: "push_bit 5 h - h = 31 * (h :: u32)"
  by (simp add: push_bit_eq_mult)

lemma uint_key_hash: "uint (key_hash name) = key_hash_int name"
proof (induction name rule: rev_induct)
  case (snoc b bs)
  have "(of_char b :: u32) = word_of_int (of_char b)"
    by (simp add: of_char_def)
  then show ?case using snoc
    by (simp add: key_hash_def key_hash_int_def push_bit_5 uint_word_ariths uint_word_of_int mod_simps)
qed (simp add: key_hash_def key_hash_int_def)

lemma key_hash_int_distinct: "distinct (map key_hash_int key_names)"
  by code_simp

lemma key_hash_distinct: "distinct (map key_hash key_names)"
proof -
  have "map key_hash_int key_names = map uint (map key_hash key_names)" by (simp add: uint_key_hash)
  with key_hash_int_distinct show ?thesis by (metis distinct_map)
qed

lemma find_inj:
  "distinct (map f xs) \<Longrightarrow> x \<in> set xs \<Longrightarrow> find (\<lambda>y. f y = f x) xs = Some x"
  by (induction xs) auto

text \<open>The key hashes of the WebTransport input stream are a faithful code: no two known key names
  collide, so a name hashed by the client is recovered by the host; and a hash is only ever turned
  into a name that has it.\<close>

theorem key_hash_roundtrip:
  "(name \<in> set key_names \<longrightarrow> hash_to_key_string (key_hash name) = Some name) \<and>
   (hash_to_key_string h = Some n \<longrightarrow> key_hash n = h \<and> n \<in> set key_names)"
  using find_inj [OF key_hash_distinct]
  by (auto simp: hash_to_key_string_def find_Some_iff)

theorem key_hash_roundtrip_witness:
  "hash_to_key_string (key_hash ''ArrowLeft'') = Some ''ArrowLeft''"
  using key_hash_roundtrip [of "''ArrowLeft''"] by (simp add: key_names_def)

text \<open>The names that the hash table delivers are browser codes, the injector's table has others: no
  letter or digit key of the WebTransport stream is injected.\<close>

definition injector_names :: "string list" where
  "injector_names = map fst single_character_table @ map fst os_key_table @ map fst named_key_table"

lemma map_remote_key_None:
  assumes "length n \<noteq> 1" "n \<notin> set injector_names" shows "map_remote_key tos n = None"
proof -
  have m: "map_of single_character_table n = None" "map_of os_key_table n = None" "map_of named_key_table n = None"
    using assms(2) by (simp_all add: map_of_eq_None_iff injector_names_def)
  have "single_character_key n = None"
    using assms(1) m(1) by (cases n; cases "tl n") (simp_all add: single_character_key_def)
  with m(2,3) show ?thesis by (simp add: map_remote_key_def)
qed

lemma injector_key_names:
  "filter (\<lambda>n. take 3 n = ''Key'') injector_names = map (\<lambda>c. ''Key'' @ [c]) ''0123456789''"
  "filter (\<lambda>n. take 5 n = ''Digit'') injector_names = []"
  by (simp_all add: injector_names_def single_character_table_def os_key_table_def named_key_table_def)

lemma webtransport_keys_unmapped:
  "c \<in> set ''ABCDEFGHIJKLMNOPQRSTUVWXYZ'' \<Longrightarrow> map_remote_key tos (''Key'' @ [c]) = None"
  "map_remote_key tos (''Digit'' @ [d]) = None"
proof -
  have "''Digit'' @ [d] \<notin> set (filter (\<lambda>n. take 5 n = ''Digit'') injector_names)"
    by (simp only: injector_key_names(2)) simp
  then show "map_remote_key tos (''Digit'' @ [d]) = None"
    by (intro map_remote_key_None) simp_all
  assume c: "c \<in> set ''ABCDEFGHIJKLMNOPQRSTUVWXYZ''"
  then have "''Key'' @ [c] \<notin> set (filter (\<lambda>n. take 3 n = ''Key'') injector_names)"
    by (simp only: injector_key_names(1)) auto
  then show "map_remote_key tos (''Key'' @ [c]) = None"
    by (intro map_remote_key_None) simp_all
qed

end
