(* ===== verification/Sync_Core.thy ===== *)
theory Sync_Core
  imports Proto_Trust
begin

text \<open>
  The pure logic of file synchronisation, \<open>crates/qubox-sync\<close>: vector clocks and the transfer plan
  made from two manifests, ignore rules and process locks, outbox eligibility, the conflict name, and
  the decision on a file-system event. Paths are Unix paths: the text, and its components as
  \<open>std::path\<close> splits it. The clocks are shown to be the pointwise order with joins, and the plans two
  peers make of each other's manifests to be dual.
\<close>

subsection \<open>Vector clocks\<close>

type_synonym vector_clock = "(string, u64) hmap"

datatype clock_relation = Ahead | Behind | EqualClock | ConflictClock

definition clock_get :: "vector_clock \<Rightarrow> string \<Rightarrow> u64" where
  "clock_get c k = (case map_of c k of Some v \<Rightarrow> v | None \<Rightarrow> 0)"

definition compare_step :: "vector_clock \<Rightarrow> vector_clock \<Rightarrow> bool \<times> bool \<Rightarrow> string \<Rightarrow> bool \<times> bool" where
  "compare_step x y gt k =
     (let a = clock_get x k; b = clock_get y k in (fst gt \<or> a > b, snd gt \<or> b > a))"

definition clock_compare :: "vector_clock \<Rightarrow> vector_clock \<Rightarrow> clock_relation" where
  "clock_compare x y =
     (let keys = remdups (map fst x @ map fst y) in
      case foldl (compare_step x y) (False, False) keys of
        (True, False) \<Rightarrow> Ahead
      | (False, True) \<Rightarrow> Behind
      | (False, False) \<Rightarrow> EqualClock
      | (True, True) \<Rightarrow> ConflictClock)"

definition merge_entry :: "vector_clock \<Rightarrow> string \<times> u64 \<Rightarrow> vector_clock" where
  "merge_entry c kv = (case kv of (k, v) \<Rightarrow>
     let e = clock_get c k in AList.update k (if v > e then v else e) c)"

definition clock_merge :: "vector_clock \<Rightarrow> vector_clock \<Rightarrow> vector_clock" where
  "clock_merge c other = foldl merge_entry c other"

definition clock_bump :: "vector_clock \<Rightarrow> string \<Rightarrow> vector_clock" where
  "clock_bump c node = AList.update node (clock_get c node + 1) c"

subsection \<open>Domain types\<close>

datatype sync_state = Synced | LockedByProcess | SyncPending | SyncConflict | SyncDisabled
datatype outbox_status = Queued | InFlight | OutboxFailed | OutboxDone
datatype conflict_resolution = KeepLocal | KeepRemote | KeepBoth

record sync_rule =
  sr_rule_id :: string
  sr_paths :: "string list"
  sr_process_names :: "string list"
  sr_peer_ids :: "string list"
  sr_enabled :: bool
  sr_max_file_bytes :: u64
  sr_ignore_globs :: "string list"

record tracked_file =
  tf_file_id :: string
  tf_local_path :: string
  tf_vector_clock :: vector_clock
  tf_content_hash :: string
  tf_size_bytes :: u64
  tf_sync_state :: sync_state
  tf_rule_id :: "string option"
  tf_updated_at :: u64

record outbox_job =
  ob_job_id :: string
  ob_file_id :: string
  ob_target_peer :: string
  ob_status :: outbox_status
  ob_retry_count :: u32
  ob_queued_at :: u64
  ob_last_error :: "string option"

record manifest_entry =
  me_file_id :: string
  me_clock :: vector_clock
  me_hash :: string
  me_size :: u64

definition default_ignore_globs :: "string list" where
  "default_ignore_globs = [''.git'', ''.git/**'', ''.svn'', ''.hg'', ''node_modules'', ''node_modules/**'',
     ''target'', ''target/**'', ''*.tmp'', ''*.part'', ''*~'', ''*.sa~'', ''*.qubox-partial'', ''.DS_Store'', ''Thumbs.db'']"

definition default_sync_rule :: sync_rule where
  "default_sync_rule = \<lparr>sr_rule_id = [], sr_paths = [], sr_process_names = [], sr_peer_ids = [],
     sr_enabled = True, sr_max_file_bytes = 256 * 1024 * 1024, sr_ignore_globs = default_ignore_globs\<rparr>"

definition ignore_preset :: "string \<Rightarrow> string list option" where
  "ignore_preset name =
     (let n = to_ascii_lowercase name in
      if n = ''default'' \<or> n = ''safe'' then Some default_ignore_globs
      else if n = ''git'' then Some [''.git'', ''.git/**'']
      else if n = ''emulator-saves'' then Some [''.git'', ''.git/**'', ''*.gba'', ''*.nes'', ''*.sfc'', ''*.smc'',
        ''*.iso'', ''*.rom'', ''*.tmp'', ''*.part'']
      else if n = ''dev'' then Some [''.git'', ''.git/**'', ''node_modules'', ''node_modules/**'', ''target'',
        ''target/**'', ''.venv'', ''__pycache__'', ''*.o'', ''*.pyc'']
      else None)"

definition merge_ignore_globs :: "string list \<Rightarrow> string list \<Rightarrow> string list" where
  "merge_ignore_globs global rule =
     fst (foldl (\<lambda>(out, seen) g. if g \<in> set seen then (out, seen) else (out @ [g], g # seen)) ([], [])
       (global @ rule))"

subsection \<open>Paths\<close>

datatype path_component = RootDir | CurDir | ParentDir | Normal string

fun split_on :: "char \<Rightarrow> string \<Rightarrow> string list" where
  "split_on d [] = [[]]"
| "split_on d (c # cs) =
     (if c = d then [] # split_on d cs
      else (case split_on d cs of [] \<Rightarrow> [[c]] | p # ps \<Rightarrow> (c # p) # ps))"

text \<open>\<open>Path::components\<close>: a leading slash is the root; empty pieces are dropped; \<open>.\<close> is kept only at
  the start of a relative path.\<close>

definition component_of :: "string \<Rightarrow> path_component option" where
  "component_of p = (if p = [] \<or> p = ''.'' then None else if p = ''..'' then Some ParentDir else Some (Normal p))"

definition path_components :: "string \<Rightarrow> path_component list" where
  "path_components s =
     (if starts_with s ''/'' then RootDir # List.map_filter component_of (split_on CHR ''/'' s)
      else (case split_on CHR ''/'' s of
         [] \<Rightarrow> []
       | p # ps \<Rightarrow> (if p = ''.'' then [CurDir] else case component_of p of None \<Rightarrow> [] | Some c \<Rightarrow> [c]) @
           List.map_filter component_of ps))"

definition path_file_name :: "string \<Rightarrow> string option" where
  "path_file_name s =
     (if path_components s = [] then None
      else (case last (path_components s) of Normal n \<Rightarrow> Some n | _ \<Rightarrow> None))"

definition ends_with :: "string \<Rightarrow> string \<Rightarrow> bool" where
  "ends_with s p = (length p \<le> length s \<and> drop (length s - length p) s = p)"

fun str_infix :: "string \<Rightarrow> string \<Rightarrow> bool" where
  "str_infix s [] = starts_with [] s"
| "str_infix s (c # cs) = (starts_with (c # cs) s \<or> str_infix s cs)"

definition component_text :: "path_component \<Rightarrow> string" where
  "component_text c = (case c of RootDir \<Rightarrow> ''/'' | CurDir \<Rightarrow> ''.'' | ParentDir \<Rightarrow> ''..'' | Normal n \<Rightarrow> n)"

definition glob_matches :: "string \<Rightarrow> string \<Rightarrow> string \<Rightarrow> bool" where
  "glob_matches path name glob =
     (let g = to_ascii_lowercase glob in
      case g of
        CHR ''*'' # suf \<Rightarrow> ends_with name suf
      | _ \<Rightarrow> name = g \<or> str_infix g path)"

definition should_ignore_path :: "string \<Rightarrow> string list \<Rightarrow> bool" where
  "should_ignore_path path extra_globs =
     (let name = to_ascii_lowercase (case path_file_name path of Some n \<Rightarrow> n | None \<Rightarrow> []) in
      if ends_with name ''.tmp'' \<or> ends_with name ''.part'' \<or> ends_with name ''~'' \<or> ends_with name ''.sa~'' \<or>
         ends_with name ''.qubox-partial'' \<or> name = ''.git'' then True
      else if list_ex (\<lambda>c. component_text c = ''.git'') (path_components path) then True
      else list_ex (glob_matches path name) extra_globs)"

text \<open>\<open>trim_end_matches\<close> removes the suffix as often as it occurs.\<close>

function trim_exe :: "string \<Rightarrow> string" where
  "trim_exe s = (if ends_with s ''.exe'' then trim_exe (take (length s - 4) s) else s)"
  by pat_completeness auto
termination by (relation "measure length") (auto simp: ends_with_def)

declare trim_exe.simps [simp del]

definition process_matches :: "string list \<Rightarrow> string list \<Rightarrow> bool" where
  "process_matches running_names matchers =
     (let running = map to_ascii_lowercase running_names in
      list_ex (\<lambda>m0. let m = to_ascii_lowercase m0; m_stem = trim_exe m in
        list_ex (\<lambda>r. r = m \<or> trim_exe r = m_stem \<or> str_infix m_stem r) running) matchers)"

definition job_eligible_for_peer :: "outbox_job \<Rightarrow> string \<Rightarrow> bool" where
  "job_eligible_for_peer job peer_hint =
     (if ob_status job = InFlight \<or> ob_status job = OutboxDone then False
      else if peer_hint \<noteq> [] \<and> ob_target_peer job \<noteq> [] \<and> ob_target_peer job \<noteq> peer_hint then False
      else True)"

definition tracked_file_pushable :: "tracked_file \<Rightarrow> bool" where
  "tracked_file_pushable tf = (\<not> (tf_sync_state tf = LockedByProcess \<or> tf_sync_state tf = SyncConflict))"

subsection \<open>The conflict name\<close>

text \<open>\<open>rsplit_file_at_dot\<close>: the stem and the extension of a file name; \<open>..\<close> and names whose only dot
  is the first character have no extension.\<close>

fun rsplit_dot :: "string \<Rightarrow> (string \<times> string) option" where
  "rsplit_dot [] = None"
| "rsplit_dot (c # cs) =
     (case rsplit_dot cs of
        Some (a, b) \<Rightarrow> Some (c # a, b)
      | None \<Rightarrow> if c = CHR ''.'' then Some ([], cs) else None)"

definition file_stem :: "string \<Rightarrow> string" where
  "file_stem name = (case rsplit_dot name of Some (a, b) \<Rightarrow> if a = [] then name else a | None \<Rightarrow> name)"

definition file_extension :: "string \<Rightarrow> string option" where
  "file_extension name = (case rsplit_dot name of Some (a, b) \<Rightarrow> if a = [] then None else Some b | None \<Rightarrow> None)"

definition dec_digit :: "nat \<Rightarrow> char" where "dec_digit n = char_of (48 + n)"

fun dec_text :: "nat \<Rightarrow> string" where
  "dec_text n = (if n < 10 then [dec_digit n] else dec_text (n div 10) @ [dec_digit (n mod 10)])"

declare dec_text.simps [simp del]

definition safe_peer :: "string \<Rightarrow> string" where
  "safe_peer p = map (\<lambda>c. let n = of_char c :: nat in
     if (48 \<le> n \<and> n \<le> 57) \<or> (65 \<le> n \<and> n \<le> 90) \<or> (97 \<le> n \<and> n \<le> 122) then c else CHR ''_'')
     (filter (\<lambda>c. \<not> ((128 :: nat) \<le> of_char c \<and> of_char c < (192 :: nat))) p)"

text \<open>The new file name; \<open>local.with_file_name\<close> puts it in the directory of \<open>local\<close>. The filter above keeps
  the first byte of every UTF-8 character, so a non-ASCII character is one underscore.\<close>

definition conflict_name :: "string \<Rightarrow> string \<Rightarrow> u64 \<Rightarrow> string" where
  "conflict_name local peer utc =
     (let name = path_file_name local;
          stem = (case name of Some n \<Rightarrow> file_stem n | None \<Rightarrow> ''file'');
          ext = (case name of Some n \<Rightarrow> (case file_extension n of Some e \<Rightarrow> CHR ''.'' # e | None \<Rightarrow> []) | None \<Rightarrow> [])
      in stem @ ''.conflict.'' @ safe_peer peer @ ''.'' @ dec_text (unat utc) @ ext)"

subsection \<open>Transfer plan\<close>

datatype transfer_action = Pull string | Push string | Conflict string | Skip string

definition remote_action :: "(string, manifest_entry) hmap \<Rightarrow> string \<times> manifest_entry \<Rightarrow> transfer_action" where
  "remote_action local r = (case r of (fid, rem) \<Rightarrow>
     case map_of local fid of
       None \<Rightarrow> Pull fid
     | Some loc \<Rightarrow>
        (case clock_compare (me_clock loc) (me_clock rem) of
           EqualClock \<Rightarrow> if me_hash loc \<noteq> me_hash rem then Conflict fid else Skip fid
         | Behind \<Rightarrow> Pull fid
         | Ahead \<Rightarrow> Push fid
         | ConflictClock \<Rightarrow> Conflict fid))"

definition plan_transfers ::
    "(string, manifest_entry) hmap \<Rightarrow> (string, manifest_entry) hmap \<Rightarrow> transfer_action list" where
  "plan_transfers local remote =
     map (remote_action local) remote @
     map Push (filter (\<lambda>fid. fid \<notin> set (map fst remote)) (map fst local))"

subsection \<open>File-system events\<close>

datatype watch_action = WatchEnqueue | WatchIgnored | WatchLocked | OutsideRule

definition path_starts_with :: "string \<Rightarrow> string \<Rightarrow> bool" where
  "path_starts_with p base = (take (length (path_components base)) (path_components p) = path_components base)"

definition evaluate_watch_event :: "string \<Rightarrow> sync_rule \<Rightarrow> string list \<Rightarrow> string list \<Rightarrow> watch_action" where
  "evaluate_watch_event path rule running global_ignores =
     (if \<not> sr_enabled rule then OutsideRule
      else if \<not> list_ex (\<lambda>root. starts_with path root \<or> path_starts_with path root) (sr_paths rule) then OutsideRule
      else if should_ignore_path path (global_ignores @ sr_ignore_globs rule) then WatchIgnored
      else if process_matches running (sr_process_names rule) then WatchLocked
      else WatchEnqueue)"

definition action_to_sync_state :: "watch_action \<Rightarrow> sync_state option" where
  "action_to_sync_state a = (case a of
       WatchEnqueue \<Rightarrow> Some SyncPending | WatchLocked \<Rightarrow> Some LockedByProcess | _ \<Rightarrow> None)"

subsection \<open>Clocks are the pointwise order\<close>

definition clock_le :: "vector_clock \<Rightarrow> vector_clock \<Rightarrow> bool" where
  "clock_le x y \<longleftrightarrow> (\<forall>k. clock_get x k \<le> clock_get y k)"

lemma foldl_compare_step:
  "foldl (compare_step x y) (p, q) ks =
     (p \<or> (\<exists>k \<in> set ks. clock_get y k < clock_get x k), q \<or> (\<exists>k \<in> set ks. clock_get x k < clock_get y k))"
  by (induction ks arbitrary: p q) (auto simp: compare_step_def Let_def)

lemma clock_get_not_key: "k \<notin> fst ` set c \<Longrightarrow> clock_get c k = 0"
  by (simp add: clock_get_def map_of_eq_None_iff [THEN iffD2])

lemma not_clock_le_iff:
  "\<not> clock_le x y \<longleftrightarrow> (\<exists>k \<in> fst ` set x \<union> fst ` set y. clock_get y k < clock_get x k)"
  using clock_get_not_key [of _ x] unfolding clock_le_def not_all not_le
  by (metis UnI1 word_not_simps(1))

text \<open>Comparing two vector clocks is comparing them pointwise: the verdict is equal, behind or ahead
  exactly when the clocks are ordered that way in every node's counter, absent counters being zero,
  and a conflict exactly when they are incomparable.\<close>

theorem clock_compare_order:
  "clock_compare x y =
     (if clock_le x y then if clock_le y x then EqualClock else Behind
      else if clock_le y x then Ahead else ConflictClock)"
proof -
  have k: "set (remdups (map fst x @ map fst y)) = fst ` set x \<union> fst ` set y" by simp
  have "foldl (compare_step x y) (False, False) (remdups (map fst x @ map fst y)) = (\<not> clock_le x y, \<not> clock_le y x)"
    unfolding foldl_compare_step k not_clock_le_iff by (simp add: Un_commute)
  then show ?thesis by (simp add: clock_compare_def Let_def)
qed

lemma clock_get_update: "clock_get (AList.update k v c) j = (if j = k then v else clock_get c j)"
  by (simp add: clock_get_def)

lemma clock_get_merge:
  assumes "wf_map other"
  shows "clock_get (clock_merge c other) k = max (clock_get c k) (clock_get other k)"
  using assms unfolding clock_merge_def
proof (induction other arbitrary: c)
  case (Cons e es)
  obtain j v where e: "e = (j, v)" by (cases e)
  have w: "wf_map es" "j \<notin> fst ` set es" using Cons.prems by (auto simp: wf_map_def e)
  have "clock_get es j = 0" using w(2) by (rule clock_get_not_key)
  moreover have "clock_get (e # es) k = (if k = j then v else clock_get es k)" by (simp add: clock_get_def e)
  moreover have "clock_get (merge_entry c e) k = (if k = j then max (clock_get c j) v else clock_get c k)"
    by (auto simp: e merge_entry_def Let_def clock_get_update max_def)
  ultimately show ?case using Cons.IH [OF w(1), of "merge_entry c e"]
    by (cases "k = j") (simp_all add: max_def)
qed (simp add: clock_get_def)

text \<open>Merging takes the least upper bound: the merged clock is not behind either of the two, and no
  later than any clock with that property; so after a merge the receiver never counts as behind or
  in conflict with what it merged. Bumping a counter below the maximum moves strictly ahead.\<close>

theorem clock_merge_lub:
  assumes "wf_map other"
  shows "clock_le c (clock_merge c other) \<and> clock_le other (clock_merge c other) \<and>
    (\<forall>z. clock_le c z \<and> clock_le other z \<longrightarrow> clock_le (clock_merge c other) z) \<and>
    clock_compare other (clock_merge c other) \<in> {EqualClock, Behind} \<and>
    (clock_get c n \<noteq> - 1 \<longrightarrow> clock_compare (clock_bump c n) c = Ahead)"
proof -
  have "clock_compare (clock_bump c n) c = Ahead" if "clock_get c n \<noteq> - 1"
  proof -
    have "clock_get c n < clock_get c n + 1" using that by (simp add: inc_less_eq_iff flip: not_le)
    then have "clock_le c (clock_bump c n)" "\<not> clock_le (clock_bump c n) c"
      by (auto simp: clock_le_def clock_bump_def clock_get_update not_le intro!: exI [of _ n])
    then show ?thesis by (simp add: clock_compare_order)
  qed
  moreover have "clock_le other (clock_merge c other)"
    by (simp add: clock_le_def clock_get_merge [OF assms])
  ultimately show ?thesis
    by (simp add: clock_compare_order) (simp add: clock_le_def clock_get_merge [OF assms])
qed

theorem clock_merge_lub_witness:
  "clock_compare [(''b'', 4)] (clock_merge [(''a'', 2), (''b'', 1)] [(''b'', 4)]) \<in> {EqualClock, Behind}"
  using clock_merge_lub [of "[(''b'', 4)]" "[(''a'', 2), (''b'', 1)]"] by (simp add: wf_map_def)

subsection \<open>Plans of two peers agree\<close>

fun action_file :: "transfer_action \<Rightarrow> string" where
  "action_file (Pull f) = f" | "action_file (Push f) = f" | "action_file (Conflict f) = f" | "action_file (Skip f) = f"

fun flip_action :: "transfer_action \<Rightarrow> transfer_action" where
  "flip_action (Pull f) = Push f" | "flip_action (Push f) = Pull f"
| "flip_action (Conflict f) = Conflict f" | "flip_action (Skip f) = Skip f"

lemma flip_action_inj: "flip_action a = flip_action b \<Longrightarrow> a = b"
  by (cases a; cases b) auto

definition planned :: "(string, manifest_entry) hmap \<Rightarrow> (string, manifest_entry) hmap \<Rightarrow> string \<Rightarrow> transfer_action option" where
  "planned l r f = (case (map_of l f, map_of r f) of
     (None, None) \<Rightarrow> None
   | (Some _, None) \<Rightarrow> Some (Push f)
   | (_, Some rem) \<Rightarrow> Some (remote_action l (f, rem)))"

lemma action_file_remote [simp]: "action_file (remote_action l (f, e)) = f"
  by (simp add: remote_action_def split: option.split clock_relation.split)

lemma in_plan_iff:
  assumes "wf_map l" "wf_map r"
  shows "a \<in> set (plan_transfers l r) \<longleftrightarrow> planned l r (action_file a) = Some a"
proof -
  have k: "f \<in> fst ` set m \<longleftrightarrow> map_of m f \<noteq> None" for f and m :: "(string, manifest_entry) hmap"
    by (simp add: map_of_eq_None_iff)
  have "a \<in> set (plan_transfers l r) \<longleftrightarrow>
      (\<exists>f rem. map_of r f = Some rem \<and> a = remote_action l (f, rem)) \<or>
      (\<exists>f. map_of l f \<noteq> None \<and> map_of r f = None \<and> a = Push f)"
  proof -
    have r: "set (map (remote_action l) r) = {remote_action l (f, rem) | f rem. map_of r f = Some rem}"
      using map_of_in_set [OF assms(2)] by force
    have p: "set (map Push (filter (\<lambda>f. f \<notin> set (map fst r)) (map fst l))) =
        {Push f | f. map_of l f \<noteq> None \<and> map_of r f = None}"
      by (simp only: set_map set_filter k) (auto simp: k)
    show ?thesis unfolding plan_transfers_def set_append r p by blast
  qed
  also have "\<dots> \<longleftrightarrow> planned l r (action_file a) = Some a"
    by (auto simp: planned_def split: option.splits) (metis option.distinct(1))+
  finally show ?thesis .
qed

lemma distinct_plan:
  assumes "wf_map l" "wf_map r"
  shows "distinct (map action_file (plan_transfers l r)) \<and>
    set (map action_file (plan_transfers l r)) = fst ` set l \<union> fst ` set r"
proof -
  have "map action_file (plan_transfers l r) = map fst r @ filter (\<lambda>f. f \<notin> set (map fst r)) (map fst l)"
    by (auto simp: plan_transfers_def comp_def)
  then show ?thesis using assms by (auto simp: wf_map_def)
qed

text \<open>The plans two peers make from the same two manifests are dual: one pulls exactly the files the
  other pushes, both see the same conflicts and skip the same files, and each plan has exactly one
  action for every file either of them has.\<close>

theorem plan_transfers_dual:
  assumes "wf_map l" and "wf_map r"
  shows "(Pull f \<in> set (plan_transfers l r) \<longleftrightarrow> Push f \<in> set (plan_transfers r l)) \<and>
    (Conflict f \<in> set (plan_transfers l r) \<longleftrightarrow> Conflict f \<in> set (plan_transfers r l)) \<and>
    (Skip f \<in> set (plan_transfers l r) \<longleftrightarrow> Skip f \<in> set (plan_transfers r l)) \<and>
    distinct (map action_file (plan_transfers l r)) \<and>
    set (map action_file (plan_transfers l r)) = fst ` set l \<union> fst ` set r"
proof -
  have "clock_compare y x = (case clock_compare x y of
      Ahead \<Rightarrow> Behind | Behind \<Rightarrow> Ahead | EqualClock \<Rightarrow> EqualClock | ConflictClock \<Rightarrow> ConflictClock)" for x y
    by (simp add: clock_compare_order)
  note swap = this
  have "planned r l f = map_option flip_action (planned l r f)"
    using swap [of "me_clock (the (map_of l f))" "me_clock (the (map_of r f))"]
    by (auto simp: planned_def remote_action_def split: option.split clock_relation.split)
  then have "planned r l f = Some (flip_action a) \<longleftrightarrow> planned l r f = Some a" for a
    by (auto dest: flip_action_inj)
  from this [of "Pull f"] this [of "Conflict f"] this [of "Skip f"] show ?thesis
    using distinct_plan [OF assms] by (simp add: in_plan_iff [OF assms] in_plan_iff [OF assms(2,1)])
qed

definition demo_entry :: "vector_clock \<Rightarrow> string \<Rightarrow> manifest_entry" where
  "demo_entry c h = \<lparr>me_file_id = [], me_clock = c, me_hash = h, me_size = 1\<rparr>"

theorem plan_transfers_dual_witness:
  "Pull ''f'' \<in> set (plan_transfers [(''f'', demo_entry [(''a'', 1)] ''h''), (''g'', demo_entry [] ''x'')]
      [(''f'', demo_entry [(''a'', 2)] ''k'')]) \<and>
   Push ''f'' \<in> set (plan_transfers [(''f'', demo_entry [(''a'', 2)] ''k'')]
      [(''f'', demo_entry [(''a'', 1)] ''h''), (''g'', demo_entry [] ''x'')])"
proof -
  let ?l = "[(''f'', demo_entry [(''a'', 1)] ''h''), (''g'', demo_entry [] ''x'')]"
  let ?r = "[(''f'', demo_entry [(''a'', 2)] ''k'')]"
  have "wf_map ?l" "wf_map ?r" by (simp_all add: wf_map_def)
  moreover have "Pull ''f'' \<in> set (plan_transfers ?l ?r)"
    by (simp add: plan_transfers_def remote_action_def demo_entry_def clock_compare_def compare_step_def clock_get_def)
  ultimately show ?thesis using plan_transfers_dual [of ?l ?r "''f''"] by blast
qed

text \<open>The root test of a rule is also textual: a directory whose name merely begins like a root is
  treated as inside it.\<close>

lemma watch_prefix_leak:
  "evaluate_watch_event ''/a/saves-old/x'' (default_sync_rule\<lparr>sr_paths := [''/a/saves'']\<rparr>) [] [] = WatchEnqueue"
  by code_simp

end
