(* ===== verification/Text_Parse.thy ===== *)
theory Text_Parse
  imports Sync_Core
begin

text \<open>
  Text functions of Rust's standard library that several components use: \<open>split_whitespace\<close>,
  \<open>lines\<close> and \<open>parse\<close> for unsigned integers, with the laws between parsing and printing
  decimal numbers. Texts are their UTF-8 bytes.
\<close>

definition text_bytes :: "string \<Rightarrow> bytes" where
  "text_bytes s = map of_char s"

lemma length_text_bytes [simp]: "length (text_bytes s) = length s"
  by (simp add: text_bytes_def)

definition trim_text :: "string \<Rightarrow> string" where
  "trim_text s = trim_end (trim_start s)"

text \<open>The number of bytes before the next white space.\<close>

fun token_len :: "string \<Rightarrow> nat" where
  "token_len [] = 0"
| "token_len (c # cs) = (if ws_len (c # cs) \<noteq> 0 then 0 else Suc (token_len cs))"

lemma trim_start_no_space: "ws_len (trim_start s) = 0"
  by (induction s rule: trim_start.induct) (subst trim_start.simps, auto)

lemma trim_start_length: "length (trim_start s) \<le> length s"
proof (induction s rule: trim_start.induct)
  case (1 s)
  then show ?case by (subst trim_start.simps) auto
qed

function split_whitespace :: "string \<Rightarrow> string list" where
  "split_whitespace s =
     (let t = trim_start s
      in if t = [] then [] else take (token_len t) t # split_whitespace (drop (token_len t) t))"
  by pat_completeness auto
termination
proof (relation "measure length", goal_cases)
  case (2 s t)
  have "token_len u \<noteq> 0" if "u \<noteq> []" "ws_len u = 0" for u using that by (cases u) auto
  then have "token_len t \<noteq> 0" "length t \<le> length s" "t \<noteq> []"
    using 2 trim_start_no_space[of s] trim_start_length[of s] by auto
  then have "length t - token_len t < length s" by (cases t) auto
  then show ?case by simp
qed simp

declare split_whitespace.simps [simp del]

text \<open>\<open>str::lines\<close>: no empty last line, and a carriage return before the line feed is dropped.\<close>

definition str_lines :: "string \<Rightarrow> string list" where
  "str_lines s =
     (let ls = split_on (char_of (10 :: nat)) s;
          ls' = (if last ls = [] then butlast ls else ls)
      in map (\<lambda>l. if l \<noteq> [] \<and> last l = char_of (13 :: nat) then butlast l else l) ls')"

subsection \<open>Decimal numbers\<close>

definition is_digit :: "char \<Rightarrow> bool" where
  "is_digit c \<longleftrightarrow> (48 :: nat) \<le> of_char c \<and> of_char c \<le> (57 :: nat)"

definition dec_value :: "string \<Rightarrow> nat" where
  "dec_value s = foldl (\<lambda>n c. 10 * n + (of_char c - 48)) 0 s"

text \<open>\<open>str::parse\<close> for an unsigned integer below \<open>limit\<close>: an optional plus sign, then digits.\<close>

definition parse_dec :: "nat \<Rightarrow> string \<Rightarrow> nat option" where
  "parse_dec limit s =
     (let ds = (if starts_with s ''+'' then tl s else s)
      in if ds = [] \<or> \<not> list_all is_digit ds \<or> dec_value ds \<ge> limit then None else Some (dec_value ds))"

definition parse_u8 :: "string \<Rightarrow> 8 word option" where "parse_u8 s = map_option of_nat (parse_dec (2 ^ 8) s)"
definition parse_u32 :: "string \<Rightarrow> u32 option" where "parse_u32 s = map_option of_nat (parse_dec (2 ^ 32) s)"
definition parse_u64 :: "string \<Rightarrow> u64 option" where "parse_u64 s = map_option of_nat (parse_dec (2 ^ 64) s)"

lemma of_char_digit: "n < 10 \<Longrightarrow> (of_char (dec_digit n) :: nat) = 48 + n"
  by (simp add: dec_digit_def)

lemma dec_text_step:
  "dec_text n = (if n < 10 then [dec_digit n] else dec_text (n div 10) @ [dec_digit (n mod 10)])"
  by (rule dec_text.simps)

lemma dec_text_digits: "list_all is_digit (dec_text n)"
proof (induction n rule: dec_text.induct)
  case (1 n)
  then show ?case by (subst dec_text_step) (auto simp: is_digit_def of_char_digit list_all_iff)
qed

lemma dec_text_not_Nil [simp]: "dec_text n \<noteq> []"
  by (subst dec_text_step) simp

lemma dec_value_snoc: "dec_value (s @ [c]) = 10 * dec_value s + (of_char c - 48)"
  by (simp add: dec_value_def)

lemma dec_value_text [simp]: "dec_value (dec_text n) = n"
proof (induction n rule: dec_text.induct)
  case (1 n)
  show ?case
  proof (cases "n < 10")
    case True
    then show ?thesis by (subst dec_text_step) (simp add: dec_value_def of_char_digit)
  next
    case False
    then have "dec_value (dec_text n) = 10 * dec_value (dec_text (n div 10)) + n mod 10"
      by (subst dec_text_step) (simp add: dec_value_snoc of_char_digit)
    with 1 False show ?thesis by simp
  qed
qed

lemma not_digit_in_dec: "\<not> is_digit c \<Longrightarrow> c \<notin> set (dec_text n)"
  using dec_text_digits[of n] by (auto simp: list_all_iff)

lemma special_chars [simp]:
  "\<not> is_digit (CHR '':'')" "\<not> is_digit (CHR ''+'')" "\<not> is_digit (CHR ''-'')" "\<not> is_digit (CHR ''x'')"
  by (simp_all add: is_digit_def)

lemma dec_text_no_plus: "starts_with (dec_text n) ''+'' \<longleftrightarrow> False"
proof -
  have "CHR ''+'' \<notin> set (dec_text n)" by (rule not_digit_in_dec) simp
  then show ?thesis by (cases "dec_text n") (auto simp: starts_with_def)
qed

lemma parse_dec_text [simp]: "n < limit \<Longrightarrow> parse_dec limit (dec_text n) = Some n"
  by (simp add: parse_dec_def dec_text_no_plus dec_text_digits)

lemma parse_u32_text [simp]: "parse_u32 (dec_text (unat w)) = Some w"
  using unsigned_less[of w, where 'a = nat] by (simp add: parse_u32_def)

lemma parse_u64_text [simp]: "parse_u64 (dec_text (unat w)) = Some w"
  using unsigned_less[of w, where 'a = nat] by (simp add: parse_u64_def)

lemma takeWhile_dec:
  assumes "\<not> is_digit d"
  shows "takeWhile (\<lambda>c. c \<noteq> d) (dec_text n @ d # r) = dec_text n" "dropWhile (\<lambda>c. c \<noteq> d) (dec_text n @ d # r) = d # r"
proof -
  have "\<forall>c\<in>set (dec_text n). c \<noteq> d" using not_digit_in_dec[OF assms, of n] by auto
  then show "takeWhile (\<lambda>c. c \<noteq> d) (dec_text n @ d # r) = dec_text n" "dropWhile (\<lambda>c. c \<noteq> d) (dec_text n @ d # r) = d # r"
    by (simp_all add: takeWhile_append2 dropWhile_append2)
qed

lemma split_once_dec: "\<not> is_digit d \<Longrightarrow> split_once d (dec_text n @ d # r) = Some (dec_text n, r)"
  using not_digit_in_dec[of d n] by (simp add: split_once_Some)

end
