(* ===== verification/File_Transfer.thy ===== *)
theory File_Transfer
  imports Text_Parse Jti_Cache
begin

text \<open>
  File transfer over a QUIC stream, \<open>crates/qubox-transport/src/filesync.rs\<close>: the path checks, the
  binary header, sending a file, receiving it into a partial file with hash check and rename, and the
  congestion gate. A stream is the list of bytes still to be read; the file system is a map from
  path texts to contents together with the answers of the operating system to \<open>canonicalize\<close>,
  \<open>exists\<close> and \<open>create_dir_all\<close>. BLAKE3 is a parameter.
\<close>

definition MAX_FILESYNC_BYTES :: nat where "MAX_FILESYNC_BYTES = 512 * 1024 * 1024"
definition MAX_FILESYNC_CONCURRENT :: nat where "MAX_FILESYNC_CONCURRENT = 4"
definition MAX_REL_PATH_BYTES :: nat where "MAX_REL_PATH_BYTES = 4096"
definition MAX_FILE_ID_BYTES :: nat where "MAX_FILE_ID_BYTES = 256"

datatype transfer_error =
    EmptyPath | PathTooLong | PathNul | PathControl | PathSeparator | PathDrive | PathUnsafe
  | DestDir | PathEscapes | HeaderShort | BadUtf8 | BadFileId | SizeCap | StreamEnd | HashMismatch | FileIo
  | SizeChanged

subsection \<open>UTF-8 text\<close>

text \<open>The well-formedness table of UTF-8, which \<open>String::from_utf8\<close> checks.\<close>

definition cont_byte :: "nat \<Rightarrow> bool" where "cont_byte b \<longleftrightarrow> 128 \<le> b \<and> b \<le> 191"

fun utf8_ok :: "nat list \<Rightarrow> bool" where
  "utf8_ok [] = True"
| "utf8_ok (a # bs) =
     (if a < 128 then utf8_ok bs
      else (case bs of
         b # bs1 \<Rightarrow>
           if 194 \<le> a \<and> a \<le> 223 then cont_byte b \<and> utf8_ok bs1
           else (case bs1 of
              c # bs2 \<Rightarrow>
                if 224 \<le> a \<and> a \<le> 239
                then (if a = 224 then 160 \<le> b \<and> b \<le> 191 else if a = 237 then 128 \<le> b \<and> b \<le> 159 else cont_byte b)
                  \<and> cont_byte c \<and> utf8_ok bs2
                else (case bs2 of
                   d # bs3 \<Rightarrow> 240 \<le> a \<and> a \<le> 244 \<and>
                     (if a = 240 then 144 \<le> b \<and> b \<le> 191 else if a = 244 then 128 \<le> b \<and> b \<le> 143 else cont_byte b)
                     \<and> cont_byte c \<and> cont_byte d \<and> utf8_ok bs3
                 | [] \<Rightarrow> False)
            | [] \<Rightarrow> False)
       | [] \<Rightarrow> False))"

definition from_utf8 :: "bytes \<Rightarrow> string option" where
  "from_utf8 bs = (if utf8_ok (map unat bs) then Some (map (\<lambda>b. char_of (unat b)) bs) else None)"

definition rust_string :: "string \<Rightarrow> bool" where
  "rust_string s \<longleftrightarrow> utf8_ok (map of_char s)"

subsection \<open>Path checks\<close>

text \<open>The second character of a UTF-8 text: the byte after the first character.\<close>

definition second_char_colon :: "string \<Rightarrow> bool" where
  "second_char_colon s =
     (case s of
        [] \<Rightarrow> False
      | _ # cs \<Rightarrow> (case dropWhile (\<lambda>c. cont_byte (of_char c)) cs of [] \<Rightarrow> False | d # _ \<Rightarrow> d = CHR '':''))"

definition validate_relative_path :: "string \<Rightarrow> (transfer_error, unit) result" where
  "validate_relative_path p =
     (if p = [] then Err EmptyPath
      else if length p > MAX_REL_PATH_BYTES then Err PathTooLong
      else if CHR 0x00 \<in> set p then Err PathNul
      else if contains_control p then Err PathControl
      else if starts_with p [CHR 0x5C] \<or> starts_with p ''/'' then Err PathSeparator
      else if second_char_colon p then Err PathDrive
      else if list_ex (\<lambda>c. c = ParentDir \<or> c = RootDir) (path_components p) then Err PathUnsafe
      else Ok ())"

text \<open>The operating system's answers, and the contents of files by path text.\<close>

record file_system =
  fs_canonicalize :: "string \<Rightarrow> string option"
  fs_exists :: "path_component list \<Rightarrow> bool"
  fs_mkdirs :: "string \<Rightarrow> bool"
  fs_write_ok :: bool
  fs_rename_ok :: bool
  fs_files :: "(string, bytes) hmap"

definition path_join :: "string \<Rightarrow> string \<Rightarrow> string" where
  "path_join base rel = (if starts_with rel ''/'' then rel
     else if base = [] \<or> last base = CHR ''/'' then base @ rel else base @ ''/'' @ rel)"

fun components_text :: "path_component list \<Rightarrow> string" where
  "components_text [] = []"
| "components_text [c] = component_text c"
| "components_text (RootDir # cs) = ''/'' @ components_text cs"
| "components_text (c # cs) = component_text c @ ''/'' @ components_text cs"

text \<open>The deepest existing ancestor: the loop drops the last component until the path exists.\<close>

function existing_ancestor :: "(path_component list \<Rightarrow> bool) \<Rightarrow> path_component list \<Rightarrow> path_component list option" where
  "existing_ancestor ex cs =
     (if ex cs then Some cs
      else if cs = [] \<or> cs = [RootDir] then None
      else existing_ancestor ex (butlast cs))"
  by pat_completeness auto
termination by (relation "measure (\<lambda>(ex, cs). length cs)") auto

declare existing_ancestor.simps [simp del]

definition resolve_safe_target :: "file_system \<Rightarrow> string \<Rightarrow> string \<Rightarrow> (transfer_error, string) result" where
  "resolve_safe_target fs dest_dir rel =
     (case validate_relative_path rel of
        Inl e \<Rightarrow> Err e
      | Inr _ \<Rightarrow>
         if \<not> fs_mkdirs fs dest_dir then Err DestDir
         else (case fs_canonicalize fs dest_dir of
            None \<Rightarrow> Err DestDir
          | Some dest_canon \<Rightarrow>
             let target = path_join dest_canon rel in
             if \<not> fs_mkdirs fs (components_text (butlast (path_components target))) then Err DestDir
             else (case existing_ancestor (fs_exists fs) (path_components target) of
                None \<Rightarrow> Err PathEscapes
              | Some check \<Rightarrow>
                 (case fs_canonicalize fs (components_text check) of
                    None \<Rightarrow> Err DestDir
                  | Some check_canon \<Rightarrow>
                     if \<not> path_starts_with check_canon dest_canon then Err PathEscapes else Ok target))))"

subsection \<open>The header\<close>

record file_transfer_header =
  fh_file_id :: string
  fh_relative_path :: string
  fh_size :: u64
  fh_blake3 :: bytes

definition header_encode :: "file_transfer_header \<Rightarrow> bytes" where
  "header_encode h =
     to_be_bytes 2 (of_nat (length (fh_relative_path h)) :: u16) @ text_bytes (fh_relative_path h) @
     to_be_bytes 8 (fh_size h) @ fh_blake3 h @
     to_be_bytes 2 (of_nat (length (fh_file_id h)) :: u16) @ text_bytes (fh_file_id h)"

definition header_decode :: "bytes \<Rightarrow> (transfer_error, file_transfer_header \<times> nat) result" where
  "header_decode buf =
     (if length buf < 2 then Err HeaderShort
      else let path_len = unat (from_be_bytes (take 2 buf) :: u16); off = 2 in
      if length buf < off + path_len + 8 + 32 + 2 then Err HeaderShort
      else (case from_utf8 (take path_len (drop off buf)) of
         None \<Rightarrow> Err BadUtf8
       | Some rel \<Rightarrow>
          let off = off + path_len;
              sz = from_be_bytes (take 8 (drop off buf)); off = off + 8;
              hash = take 32 (drop off buf); off = off + 32;
              id_len = unat (from_be_bytes (take 2 (drop off buf)) :: u16); off = off + 2 in
          if length buf < off + id_len then Err HeaderShort
          else (case from_utf8 (take id_len (drop off buf)) of
             None \<Rightarrow> Err BadUtf8
           | Some fid \<Rightarrow> Ok (\<lparr>fh_file_id = fid, fh_relative_path = rel, fh_size = sz, fh_blake3 = hash\<rparr>,
               off + id_len))))"

subsection \<open>Sending and receiving\<close>

definition hash_file_streaming :: "(bytes \<Rightarrow> bytes) \<Rightarrow> bytes \<Rightarrow> (transfer_error, bytes \<times> u64) result" where
  "hash_file_streaming blake3 content =
     (if length content > MAX_FILESYNC_BYTES then Err SizeCap
      else Ok (blake3 content, of_nat (length content)))"

text \<open>\<open>content\<close> is the file at the moment it is copied; it may differ from what was hashed.\<close>

definition send_file_bulk :: "file_transfer_header \<Rightarrow> bytes \<Rightarrow> (transfer_error, bytes) result" where
  "send_file_bulk h content =
     (if unat (fh_size h) > MAX_FILESYNC_BYTES then Err SizeCap
      else if of_nat (length content) \<noteq> fh_size h then Err SizeChanged
      else Ok (header_encode h @ content))"

definition push_file :: "(bytes \<Rightarrow> bytes) \<Rightarrow> bytes \<Rightarrow> string \<Rightarrow> string \<Rightarrow> (transfer_error, bytes) result" where
  "push_file blake3 content file_id rel =
     (case validate_relative_path rel of
        Inl e \<Rightarrow> Err e
      | Inr _ \<Rightarrow>
         if file_id = [] \<or> length file_id > MAX_FILE_ID_BYTES \<or> CHR 0x00 \<in> set file_id then Err BadFileId
         else (case hash_file_streaming blake3 content of
            Inl e \<Rightarrow> Err e
          | Inr (arr, sz) \<Rightarrow> send_file_bulk \<lparr>fh_file_id = file_id, fh_relative_path = rel,
              fh_size = sz, fh_blake3 = arr\<rparr> content))"

definition partial_path :: "string \<Rightarrow> string" where
  "partial_path target = target @ ''.qubox-partial''"

definition read_exact :: "nat \<Rightarrow> bytes \<Rightarrow> (bytes \<times> bytes) option" where
  "read_exact n s = (if length s < n then None else Some (take n s, drop n s))"

text \<open>The header fields in the order the receiver reads them, with its limits.\<close>

definition recv_header :: "bytes \<Rightarrow> (transfer_error, file_transfer_header \<times> bytes) result" where
  "recv_header s0 =
     (case read_exact 2 s0 of
        None \<Rightarrow> Err StreamEnd
      | Some (path_len_buf, s1) \<Rightarrow>
         let path_len = unat (from_be_bytes path_len_buf :: u16) in
         if path_len > MAX_REL_PATH_BYTES then Err PathTooLong
         else (case read_exact (path_len + 8 + 32 + 2) s1 of
            None \<Rightarrow> Err StreamEnd
          | Some (rest_prefix, s2) \<Rightarrow>
             let id_len_off = path_len + 8 + 32;
                 id_len = unat (from_be_bytes [rest_prefix ! id_len_off, rest_prefix ! (id_len_off + 1)] :: u16) in
             if id_len > MAX_FILE_ID_BYTES then Err BadFileId
             else (case read_exact id_len s2 of
                None \<Rightarrow> Err StreamEnd
              | Some (id_buf, s3) \<Rightarrow>
                 (case header_decode (path_len_buf @ rest_prefix @ id_buf) of
                    Inl e \<Rightarrow> Err e
                  | Inr (h, _) \<Rightarrow>
                     if fh_file_id h = [] \<or> CHR 0x00 \<in> set (fh_file_id h) then Err BadFileId else Ok (h, s3)))))"

text \<open>
  \<open>recv_file_bulk\<close>: the chunked copy loop writes the body to the partial file as it arrives; a stream
  that ends early leaves the bytes read so far there.
\<close>

definition recv_file_bulk ::
    "(bytes \<Rightarrow> bytes) \<Rightarrow> file_system \<Rightarrow> bytes \<Rightarrow> string \<Rightarrow> nat \<Rightarrow>
     file_system \<times> (transfer_error, file_transfer_header \<times> string) result" where
  "recv_file_bulk blake3 fs s0 dest_dir max_bytes =
     (case recv_header s0 of
        Inl e \<Rightarrow> (fs, Err e)
      | Inr (h, s) \<Rightarrow>
         if unat (fh_size h) > min max_bytes MAX_FILESYNC_BYTES then (fs, Err SizeCap)
         else (case resolve_safe_target fs dest_dir (fh_relative_path h) of
            Inl e \<Rightarrow> (fs, Err e)
          | Inr target \<Rightarrow>
             let partial = partial_path target in
             if \<not> fs_write_ok fs then (fs, Err FileIo)
             else (case read_exact (unat (fh_size h)) s of
                None \<Rightarrow> (fs\<lparr>fs_files := AList.update partial s (fs_files fs)\<rparr>, Err StreamEnd)
              | Some (body, _) \<Rightarrow>
                 let fs1 = fs\<lparr>fs_files := AList.update partial body (fs_files fs)\<rparr> in
                 if blake3 body \<noteq> fh_blake3 h
                 then (fs1\<lparr>fs_files := AList.delete partial (fs_files fs1)\<rparr>, Err HashMismatch)
                 else if \<not> fs_rename_ok fs then (fs1, Err FileIo)
                 else (fs1\<lparr>fs_files := AList.update target body (AList.delete partial (fs_files fs1))\<rparr>,
                       Ok (h, target)))))"

definition atomic_apply_file ::
    "(bytes \<Rightarrow> bytes) \<Rightarrow> file_system \<Rightarrow> string \<Rightarrow> bytes \<Rightarrow> bytes \<Rightarrow> file_system \<times> (transfer_error, unit) result" where
  "atomic_apply_file blake3 fs target data expected =
     (if blake3 data \<noteq> expected then (fs, Err HashMismatch)
      else if \<not> fs_write_ok fs then (fs, Err FileIo)
      else let fs1 = fs\<lparr>fs_files := AList.update (partial_path target) data (fs_files fs)\<rparr> in
      if \<not> fs_rename_ok fs then (fs1, Err FileIo)
      else (fs1\<lparr>fs_files := AList.update target data (AList.delete (partial_path target) (fs_files fs1))\<rparr>, Ok ()))"

definition atomic_finalize_partial ::
    "(bytes \<Rightarrow> bytes) \<Rightarrow> file_system \<Rightarrow> string \<Rightarrow> bytes \<Rightarrow> file_system \<times> (transfer_error, unit) result" where
  "atomic_finalize_partial blake3 fs target expected =
     (case map_of (fs_files fs) (partial_path target) of
        None \<Rightarrow> (fs, Err FileIo)
      | Some data \<Rightarrow>
         if blake3 data \<noteq> expected
         then (fs\<lparr>fs_files := AList.delete (partial_path target) (fs_files fs)\<rparr>, Err HashMismatch)
         else if \<not> fs_rename_ok fs then (fs, Err FileIo)
         else (fs\<lparr>fs_files := AList.update target data (AList.delete (partial_path target) (fs_files fs))\<rparr>, Ok ()))"

subsection \<open>Congestion gate\<close>

text \<open>The two thresholds as the comparisons the code makes with the measured ratio. The default ratios
  0.85 and 0.55 are compared exactly: for 32-bit rates the rounding of the division cannot cross them.\<close>

record congestion_gate =
  cg_above :: "u32 \<Rightarrow> u32 \<Rightarrow> bool"
  cg_below :: "u32 \<Rightarrow> u32 \<Rightarrow> bool"
  cg_paused :: bool

definition default_gate :: congestion_gate where
  "default_gate = \<lparr>cg_above = (\<lambda>cur tgt. 100 * unat cur > 85 * unat tgt),
     cg_below = (\<lambda>cur tgt. 100 * unat cur < 55 * unat tgt), cg_paused = False\<rparr>"

definition should_pause :: "congestion_gate \<Rightarrow> u32 \<Rightarrow> u32 \<Rightarrow> congestion_gate \<times> bool" where
  "should_pause g cur tgt =
     (if tgt = 0 then (g, False)
      else let g1 = (if cg_paused g then if cg_below g cur tgt then g\<lparr>cg_paused := False\<rparr> else g
                     else if cg_above g cur tgt then g\<lparr>cg_paused := True\<rparr> else g)
           in (g1, cg_paused g1))"

subsection \<open>The header is a round trip\<close>

lemma unat_of_char: "unat (of_char c :: u8) = of_char c"
proof -
  have "unat (of_char c :: u8) = unat (of_nat (of_char c) :: u8)" by (simp add: of_nat_of_char)
  also have "\<dots> = of_char c mod 256" by (simp add: unsigned_of_nat take_bit_eq_mod)
  finally show ?thesis by simp
qed

lemma from_utf8_text: "rust_string s \<Longrightarrow> from_utf8 (text_bytes s) = Some s"
  by (simp add: from_utf8_def text_bytes_def rust_string_def comp_def unat_of_char)

lemma from_utf8_length: "from_utf8 bs = Some s \<Longrightarrow> length s = length bs"
  by (auto simp: from_utf8_def split: if_splits)

definition transfer_header_ok :: "file_transfer_header \<Rightarrow> bool" where
  "transfer_header_ok h \<longleftrightarrow> rust_string (fh_file_id h) \<and> rust_string (fh_relative_path h) \<and>
     length (fh_file_id h) < 65536 \<and> length (fh_relative_path h) < 65536 \<and> length (fh_blake3 h) = 32"

lemma unat_len16: "n < 65536 \<Longrightarrow> unat (of_nat n :: u16) = n"
  by (simp add: unsigned_of_nat take_bit_nat_eq_self)

lemma header_decode_encode:
  assumes "transfer_header_ok h"
  shows "header_decode (header_encode h @ rest) = Ok (h, length (header_encode h))"
proof -
  let ?p = "text_bytes (fh_relative_path h)" and ?i = "text_bytes (fh_file_id h)"
  let ?lp = "to_be_bytes 2 (of_nat (length (fh_relative_path h)) :: u16)"
  let ?li = "to_be_bytes 2 (of_nat (length (fh_file_id h)) :: u16)"
  have t: "from_be_bytes ?lp = (of_nat (length (fh_relative_path h)) :: u16)"
    "from_be_bytes ?li = (of_nat (length (fh_file_id h)) :: u16)"
    "from_be_bytes (to_be_bytes 8 (fh_size h)) = fh_size h" by simp_all
  have l: "unat (of_nat (length (fh_relative_path h)) :: u16) = length (fh_relative_path h)"
    "unat (of_nat (length (fh_file_id h)) :: u16) = length (fh_file_id h)" "length (fh_blake3 h) = 32"
    using assms by (simp_all add: transfer_header_ok_def unat_len16)
  have u: "from_utf8 ?p = Some (fh_relative_path h)" "from_utf8 ?i = Some (fh_file_id h)"
    using assms by (simp_all add: transfer_header_ok_def from_utf8_text)
  show ?thesis
    by (simp add: header_decode_def header_encode_def Let_def t l u)
qed

text \<open>The transfer header is a round trip: decoding what was encoded gives the same header and the
  number of bytes it took, whatever follows on the stream, as long as both texts are below 64 KiB.\<close>

theorem header_roundtrip:
  assumes "transfer_header_ok h"
  shows "header_decode (header_encode h @ rest) = Ok (h, length (header_encode h))"
  using assms by (rule header_decode_encode)

theorem header_roundtrip_witness:
  "header_decode (header_encode \<lparr>fh_file_id = ''id'', fh_relative_path = ''a/b'', fh_size = 3,
      fh_blake3 = replicate 32 7\<rparr> @ [1, 2, 3]) =
    Ok (\<lparr>fh_file_id = ''id'', fh_relative_path = ''a/b'', fh_size = 3, fh_blake3 = replicate 32 7\<rparr>, 49)"
  by (subst header_roundtrip) (simp_all add: transfer_header_ok_def rust_string_def header_encode_def)

subsection \<open>What is sent is what is stored\<close>

lemma length_2_nth: "length xs = 2 \<Longrightarrow> [xs ! 0, xs ! 1] = xs"
  by (cases xs; cases "tl xs") auto

lemma recv_header_encode:
  assumes "transfer_header_ok h" "length (fh_relative_path h) \<le> MAX_REL_PATH_BYTES"
    "length (fh_file_id h) \<le> MAX_FILE_ID_BYTES" "fh_file_id h \<noteq> []" "CHR 0x00 \<notin> set (fh_file_id h)"
  shows "recv_header (header_encode h @ body) = Ok (h, body)"
proof -
  let ?p = "text_bytes (fh_relative_path h)" and ?i = "text_bytes (fh_file_id h)"
  let ?lp = "to_be_bytes 2 (of_nat (length (fh_relative_path h)) :: u16)"
  let ?li = "to_be_bytes 2 (of_nat (length (fh_file_id h)) :: u16)"
  let ?rest = "?p @ to_be_bytes 8 (fh_size h) @ fh_blake3 h @ ?li"
  have l: "unat (from_be_bytes ?lp :: u16) = length (fh_relative_path h)"
    "unat (from_be_bytes ?li :: u16) = length (fh_file_id h)" "length (fh_blake3 h) = 32"
    using assms(1) by (simp_all add: transfer_header_ok_def unat_len16)
  let ?o = "length (fh_relative_path h) + 8 + 32"
  have "?rest ! ?o = ?li ! 0" "?rest ! (?o + 1) = ?li ! 1" using l(3) by (simp_all add: nth_append)
  then have o: "[?rest ! ?o, ?rest ! (?o + 1)] = ?li" using length_2_nth [of ?li] by simp
  have e: "header_encode h = ?lp @ ?rest @ ?i" by (simp add: header_encode_def)
  have r1: "read_exact 2 (header_encode h @ body) = Some (?lp, ?rest @ ?i @ body)"
    by (simp add: e read_exact_def)
  have r2: "read_exact (length (fh_relative_path h) + 8 + 32 + 2) (?rest @ ?i @ body) = Some (?rest, ?i @ body)"
    using l(3) by (simp add: read_exact_def)
  have r3: "read_exact (length (fh_file_id h)) (?i @ body) = Some (?i, body)"
    by (simp add: read_exact_def)
  have d: "header_decode (?lp @ ?rest @ ?i) = Ok (h, length (header_encode h))"
    using header_decode_encode [OF assms(1), of "[]"] by (simp add: e)
  show ?thesis
    unfolding recv_header_def r1 option.case prod.case Let_def l(1) r2 o l(2) r3 d sum.case
    using assms(2-5) by simp
qed

lemma validate_ok:
  "validate_relative_path p = Ok () \<Longrightarrow> p \<noteq> [] \<and> length p \<le> MAX_REL_PATH_BYTES \<and> \<not> starts_with p ''/'' \<and>
     ParentDir \<notin> set (path_components p)"
  by (auto simp: validate_relative_path_def list_ex_iff split: if_splits)

text \<open>C34: A pushed file arrives: when the sender accepts the file, and the receiver's checks resolve the
  path, its cap admits the size and its disk writes succeed, the receiver stores exactly the bytes
  that were sent under that path, with no partial file left, and reports the sender's header.\<close>

theorem file_transfer_roundtrip:
  assumes "\<And>x. length (blake3 x) = 32" and "rust_string rel" and "rust_string fid"
    and "push_file blake3 content fid rel = Ok stream"
    and "resolve_safe_target fs dest rel = Ok target" and "fs_write_ok fs" and "fs_rename_ok fs"
    and "length content \<le> max_bytes"
  shows "\<exists>fs' h. recv_file_bulk blake3 fs stream dest max_bytes = (fs', Ok (h, target)) \<and>
    fh_file_id h = fid \<and> fh_relative_path h = rel \<and> map_of (fs_files fs') target = Some content \<and>
    map_of (fs_files fs') (partial_path target) = None"
proof -
  let ?h = "\<lparr>fh_file_id = fid, fh_relative_path = rel, fh_size = of_nat (length content), fh_blake3 = blake3 content\<rparr>"
  have v: "validate_relative_path rel = Ok ()"
    using assms(4) by (auto simp: push_file_def split: sum.splits)
  then have p: "length rel \<le> MAX_REL_PATH_BYTES" by (simp add: validate_ok)
  have f: "fid \<noteq> []" "length fid \<le> MAX_FILE_ID_BYTES" "CHR 0x00 \<notin> set fid" "length content \<le> MAX_FILESYNC_BYTES"
    using assms(4) v by (auto simp: push_file_def hash_file_streaming_def split: if_splits)
  have n: "unat (of_nat (length content) :: u64) = length content"
    using f(4) by (simp add: MAX_FILESYNC_BYTES_def unsigned_of_nat take_bit_nat_eq_self)
  have s: "stream = header_encode ?h @ content"
    using assms(4) v f n by (auto simp: push_file_def hash_file_streaming_def send_file_bulk_def split: if_splits)
  have "transfer_header_ok ?h"
    using assms(1-3) p f(2) by (simp add: transfer_header_ok_def MAX_REL_PATH_BYTES_def MAX_FILE_ID_BYTES_def)
  then have r: "recv_header stream = Ok (?h, content)"
    unfolding s using p f by (intro recv_header_encode) simp_all
  have ne: "target \<noteq> partial_path target" by (simp add: partial_path_def)
  show ?thesis
    using assms(5-8) f(4) ne by (simp add: recv_file_bulk_def r n read_exact_def Let_def)
qed

definition demo_fs :: file_system where
  "demo_fs = \<lparr>fs_canonicalize = (\<lambda>p. if p = ''/in'' \<or> p = ''/'' then Some p else None),
     fs_exists = (\<lambda>cs. cs = [RootDir, Normal ''in'']), fs_mkdirs = (\<lambda>_. True), fs_write_ok = True,
     fs_rename_ok = True, fs_files = []\<rparr>"

lemma demo_resolve: "resolve_safe_target demo_fs ''/in'' ''a.sav'' = Ok ''/in/a.sav''"
  by code_simp

theorem file_transfer_roundtrip_witness:
  "\<exists>fs' h. recv_file_bulk (\<lambda>_. replicate 32 1) demo_fs
      (case push_file (\<lambda>_. replicate 32 1) [5, 6] ''id'' ''a.sav'' of Inr s \<Rightarrow> s | Inl _ \<Rightarrow> []) ''/in'' 100 =
      (fs', Ok (h, ''/in/a.sav'')) \<and> map_of (fs_files fs') ''/in/a.sav'' = Some [5, 6]"
proof -
  have v: "validate_relative_path ''a.sav'' = Ok ()" by code_simp
  have p: "push_file (\<lambda>_. replicate 32 1) [5, 6] ''id'' ''a.sav'' = Ok (header_encode
      \<lparr>fh_file_id = ''id'', fh_relative_path = ''a.sav'', fh_size = 2, fh_blake3 = replicate 32 1\<rparr> @ [5, 6])"
    by (simp add: push_file_def v hash_file_streaming_def send_file_bulk_def MAX_FILE_ID_BYTES_def MAX_FILESYNC_BYTES_def)
  have "fs_write_ok demo_fs" "fs_rename_ok demo_fs" by (simp_all add: demo_fs_def)
  from file_transfer_roundtrip [OF _ _ _ p demo_resolve this, of 100] show ?thesis
    unfolding p by (auto simp: rust_string_def)
qed

subsection \<open>Receiving is safe\<close>

lemma recv_file_bulk_cases:
  assumes "recv_file_bulk blake3 fs s dest max_bytes = (fs', r)"
  obtains (early) e where "fs' = fs" "r = Err e"
    | (resolved) h s1 target where "recv_header s = Ok (h, s1)"
      "unat (fh_size h) \<le> min max_bytes MAX_FILESYNC_BYTES"
      "resolve_safe_target fs dest (fh_relative_path h) = Ok target" "fs_write_ok fs"
proof (cases "recv_header s")
  case (Inr hs)
  obtain h s1 where hs: "hs = (h, s1)" by (cases hs)
  show thesis
  proof (cases "unat (fh_size h) \<le> min max_bytes MAX_FILESYNC_BYTES \<and> fs_write_ok fs")
    case True
    show thesis
    proof (cases "resolve_safe_target fs dest (fh_relative_path h)")
      case (Inl e)
      with True assms Inr hs have "fs' = fs" "r = Err e" by (auto simp: recv_file_bulk_def split: if_splits)
      then show thesis by (rule that(1))
    next
      case (Inr target)
      then show thesis using True that(2) \<open>recv_header s = Inr hs\<close> hs by blast
    qed
  next
    case False
    then have "fs' = fs \<and> (\<exists>e. r = Err e)"
      using assms Inr hs by (auto simp: recv_file_bulk_def Let_def split: sum.splits if_splits)
    then show thesis using that(1) by blast
  qed
qed (use assms that(1) in \<open>auto simp: recv_file_bulk_def\<close>)


definition demo_header :: file_transfer_header where
  "demo_header = \<lparr>fh_file_id = ''id'', fh_relative_path = ''a.sav'', fh_size = 2, fh_blake3 = replicate 32 1\<rparr>"

lemma demo_received: "recv_header (header_encode demo_header @ body) = Ok (demo_header, body)"
  by (rule recv_header_encode)
    (simp_all add: demo_header_def transfer_header_ok_def rust_string_def MAX_REL_PATH_BYTES_def MAX_FILE_ID_BYTES_def)


subsection \<open>Confinement\<close>

lemma split_on_not_Nil [simp]: "split_on d s \<noteq> []"
  by (cases s) (auto split: list.split)

lemma split_on_append: "split_on d (a @ d # b) = split_on d a @ split_on d b"
proof (induction a)
  case (Cons c cs)
  have "split_on d cs \<noteq> []" by simp
  then show ?case using Cons.IH by (auto split: list.split)
qed simp

lemma map_filter_append: "List.map_filter f (xs @ ys) = List.map_filter f xs @ List.map_filter f ys"
  by (simp add: List.map_filter_def)

lemma map_filter_Cons: "List.map_filter f (x # xs) = (case f x of None \<Rightarrow> [] | Some y \<Rightarrow> [y]) @ List.map_filter f xs"
  by (simp add: List.map_filter_def split: option.split)

lemma components_join:
  assumes "starts_with base ''/''" "\<not> starts_with rel ''/''"
  shows "path_components (path_join base rel) =
    path_components base @ List.map_filter component_of (split_on CHR ''/'' rel)"
proof -
  have ne: "base \<noteq> []" using assms(1) by (auto simp: starts_with_def)
  have st: "starts_with (base @ x) ''/''" for x
    using assms(1) ne by (cases base) (simp_all add: starts_with_def)
  show ?thesis
  proof (cases "last base = CHR ''/''")
    case True
    then obtain b where b: "base = b @ ''/''" using ne by (metis append_butlast_last_id)
    have "split_on CHR ''/'' (base @ rel) = split_on CHR ''/'' b @ split_on CHR ''/'' rel"
      "split_on CHR ''/'' base = split_on CHR ''/'' b @ [[]]"
      using split_on_append [of "CHR ''/''" b rel] split_on_append [of "CHR ''/''" b "[]"] by (simp_all add: b)
    then show ?thesis
      using True assms st by (simp add: path_join_def path_components_def map_filter_append map_filter_Cons
          component_of_def List.map_filter_simps)
  next
    case False
    then show ?thesis
      using ne assms st split_on_append [of "CHR ''/''" base rel]
      by (simp add: path_join_def path_components_def map_filter_append)
  qed
qed

lemma relative_components_normal:
  assumes "\<not> starts_with rel ''/''" "ParentDir \<notin> set (path_components rel)"
  shows "\<exists>ns. List.map_filter component_of (split_on CHR ''/'' rel) = map Normal ns"
proof -
  have "\<exists>n. c = Normal n" if "c \<in> set (List.map_filter component_of (split_on CHR ''/'' rel))" for c
  proof -
    have "c \<noteq> ParentDir"
      using assms that by (cases "split_on CHR ''/'' rel")
        (auto simp: path_components_def map_filter_Cons component_of_def split: option.splits if_splits)
    moreover from that obtain p where "component_of p = Some c" by (auto simp: List.map_filter_def)
    ultimately show ?thesis by (auto simp: component_of_def split: if_splits)
  qed
  then show ?thesis unfolding ex_map_conv by blast
qed

lemma existing_ancestor_prefix:
  "existing_ancestor ex cs = Some r \<Longrightarrow> ex r \<and> (\<exists>k. r = take k cs)"
proof (induction ex cs rule: existing_ancestor.induct)
  case (1 ex cs)
  show ?case
  proof (cases "ex cs")
    case True
    with "1.prems" show ?thesis by (auto simp: existing_ancestor.simps [of ex cs] intro: exI [of _ "length cs"])
  next
    case False
    then have n: "\<not> (cs = [] \<or> cs = [RootDir])" "existing_ancestor ex (butlast cs) = Some r"
      using "1.prems" by (auto simp: existing_ancestor.simps [of ex cs] split: if_splits)
    from "1.IH" [OF False n] obtain k where "ex r" "r = take k (butlast cs)" by blast
    then show ?thesis by (metis butlast_conv_take take_take)
  qed
qed

text \<open>A received file cannot be placed outside the destination: a path the receiver resolves is the
  canonical destination followed by plain names only (no parent, root or drive component), and the
  deepest part of it that already exists lies under the destination after symbolic links are
  resolved.\<close>

theorem resolve_safe_target_confined:
  assumes "resolve_safe_target fs dest rel = Ok target"
    and "\<And>c. fs_canonicalize fs dest = Some c \<Longrightarrow> starts_with c ''/''"
  shows "\<exists>canon ns k. fs_canonicalize fs dest = Some canon \<and>
    path_components target = path_components canon @ map Normal ns \<and>
    fs_exists fs (take k (path_components target)) \<and>
    (\<exists>real. fs_canonicalize fs (components_text (take k (path_components target))) = Some real \<and>
       path_starts_with real canon)"
proof -
  obtain canon check real where r: "validate_relative_path rel = Ok ()" "fs_canonicalize fs dest = Some canon"
    "target = path_join canon rel" "existing_ancestor (fs_exists fs) (path_components target) = Some check"
    "fs_canonicalize fs (components_text check) = Some real" "path_starts_with real canon"
    using assms(1)
    by (auto simp: resolve_safe_target_def Let_def split: sum.splits option.splits if_splits)
  have v: "\<not> starts_with rel ''/''" "ParentDir \<notin> set (path_components rel)"
    using validate_ok [OF r(1)] by simp_all
  obtain ns where "path_components target = path_components canon @ map Normal ns"
    using components_join [OF assms(2) [OF r(2)] v(1)] relative_components_normal [OF v] r(3) by auto
  moreover have "fs_exists fs check \<and> (\<exists>k. check = take k (path_components target))"
    using r(4) by (rule existing_ancestor_prefix)
  ultimately show ?thesis using r by blast
qed

theorem resolve_safe_target_confined_witness:
  "\<exists>canon ns. fs_canonicalize demo_fs ''/in'' = Some canon \<and>
     path_components ''/in/a.sav'' = path_components canon @ map Normal ns"
proof -
  have "\<And>c. fs_canonicalize demo_fs ''/in'' = Some c \<Longrightarrow> starts_with c ''/''"
    by (simp add: demo_fs_def starts_with_def)
  from resolve_safe_target_confined [OF demo_resolve this] show ?thesis by blast
qed

end
