(* ===== verification/Jitter_Buffer.thy ===== *)
theory Jitter_Buffer
  imports Media_Fec Proto_Types
begin

text \<open>
  The sending and receiving ends of the datagram media path
  (\<open>qubox-transport/src/media/mod.rs\<close>): \<open>MediaDatagramSender::send_frame\<close> with the XOR chunker, the
  routing of \<open>DatagramDispatcher\<close>, and \<open>JitterBuffer\<close>. Times are nanoseconds on the monotonic
  clock, passed in. The smoothed jitter is a 64-bit float in the code; its type and the three
  operations on it are the record \<open>f64_ops\<close>, and no statement below depends on them. The seconds
  counter \<open>low_jitter_secs\<close> only ever holds the integers 0 to 5 and is a natural number; the
  statistics counters are natural numbers.
\<close>

definition FLAG_KEYFRAME :: u8 where "FLAG_KEYFRAME = 0x01"
definition FLAG_PARITY :: u8 where "FLAG_PARITY = 0x02"
definition FLAG_LAST_CHUNK :: u8 where "FLAG_LAST_CHUNK = 0x04"
definition MEDIA_DISCRIMINATOR_MAX :: u8 where "MEDIA_DISCRIMINATOR_MAX = 0x3F"
definition ORIGINAL_LEN_TRAILER :: nat where "ORIGINAL_LEN_TRAILER = 4"

definition codec_from_byte :: "u8 \<Rightarrow> video_codec" where
  "codec_from_byte b = (if b = 1 then H265 else if b = 2 then Av1 else H264)"

definition codec_to_byte :: "video_codec \<Rightarrow> u8" where
  "codec_to_byte c = (case c of H264 \<Rightarrow> 0 | H265 \<Rightarrow> 1 | Av1 \<Rightarrow> 2)"

subsection \<open>Sending\<close>

datatype send_error = TooLarge | Closed

record media_sender =
  ms_chunker :: frame_chunker
  ms_stream_id :: u16
  next_frame_id :: u32

text \<open>\<open>send_chunk\<close> and \<open>send_chunk_with_original_len\<close>: the bytes handed to \<open>send_datagram\<close>.\<close>

definition chunk_datagram :: "media_header \<Rightarrow> bytes \<Rightarrow> bytes" where
  "chunk_datagram h payload = header_write_into h @ payload"

definition last_chunk_datagram :: "media_header \<Rightarrow> bytes \<Rightarrow> nat \<Rightarrow> (send_error, bytes) result" where
  "last_chunk_datagram h payload original_len =
     (if original_len < 2 ^ 32
      then Ok (header_write_into h @ payload @ to_be_bytes 4 (of_nat original_len :: u32))
      else Err TooLarge)"

definition frame_header :: "media_sender \<Rightarrow> video_codec \<Rightarrow> u8 \<Rightarrow> u16 \<Rightarrow> nat \<Rightarrow> media_header" where
  "frame_header ms codec flags chunk_count i =
     \<lparr>md_magic = MEDIA_DATAGRAM_MAGIC, md_flags = flags, md_codec = codec_to_byte codec,
      md_stream_id = ms_stream_id ms, md_frame_id = next_frame_id ms, md_chunk_id = of_nat i,
      md_chunk_count = chunk_count\<rparr>"

definition data_datagrams ::
    "media_sender \<Rightarrow> bool \<Rightarrow> video_codec \<Rightarrow> bytes list \<Rightarrow> nat \<Rightarrow> (send_error, bytes) result list" where
  "data_datagrams ms keyframe codec data original_len =
     (let n = of_nat (length data) :: u16; base = (if keyframe then FLAG_KEYFRAME else 0) in
      map (\<lambda>i. if (of_nat i :: u16) = saturating_sub n 1
               then last_chunk_datagram (frame_header ms codec (base OR FLAG_LAST_CHUNK) n i) (data ! i) original_len
               else Ok (chunk_datagram (frame_header ms codec base n i) (data ! i)))
        [0..<length data])"

definition parity_datagrams ::
    "media_sender \<Rightarrow> bool \<Rightarrow> video_codec \<Rightarrow> u16 \<Rightarrow> bytes list \<Rightarrow> bytes list" where
  "parity_datagrams ms keyframe codec n parity =
     (let base = (if keyframe then FLAG_KEYFRAME else 0) in
      map (\<lambda>i. chunk_datagram (frame_header ms codec (base OR FLAG_PARITY) n i) (parity ! i))
        [0..<length parity])"

text \<open>The datagrams are handed to the connection in order until one is refused.\<close>

fun send_all ::
    "(bytes \<Rightarrow> (send_error, unit) result) \<Rightarrow> (send_error, bytes) result list \<Rightarrow>
     bytes list \<times> (send_error, unit) result" where
  "send_all send [] = ([], Ok ())"
| "send_all send (Inl e # ds) = ([], Err e)"
| "send_all send (Inr d # ds) =
     (case send d of
        Inl e \<Rightarrow> ([], Err e)
      | Inr _ \<Rightarrow> (case send_all send ds of (sent, r) \<Rightarrow> (d # sent, r)))"

definition send_frame ::
    "(bytes \<Rightarrow> (send_error, unit) result) \<Rightarrow> media_sender \<Rightarrow> bool \<Rightarrow> video_codec \<Rightarrow> bytes \<Rightarrow>
     media_sender \<times> bytes list \<times> (send_error, unit) result" where
  "send_frame send ms keyframe codec bytes =
     (let ms' = ms\<lparr>next_frame_id := next_frame_id ms + 1\<rparr>;
          (data, parity, original_len) = chunk_and_encode (ms_chunker ms) bytes;
          n = of_nat (length data) :: u16
      in if n = 0 then (ms', [], Ok ())
         else (ms', send_all send (data_datagrams ms keyframe codec data original_len @
                 map Inr (parity_datagrams ms keyframe codec n parity))))"

subsection \<open>Routing\<close>

datatype routed =
    ToMedia media_header bytes bool
  | ToGamepad bytes
  | ToPen bytes
  | Dropped

definition dispatch :: "bytes \<Rightarrow> routed" where
  "dispatch buf =
     (if length buf < 3 then Dropped
      else if take 2 buf \<noteq> MEDIA_DATAGRAM_MAGIC then Dropped
      else if buf ! 2 = 0x47 then ToGamepad buf
      else if buf ! 2 = PEN_DATAGRAM_DISCRIMINATOR then ToPen buf
      else if buf ! 2 \<le> MEDIA_DISCRIMINATOR_MAX then
        (if length buf < WIRE_HEADER_SIZE then Dropped
         else case header_from_bytes buf of
           Inl _ \<Rightarrow> Dropped
         | Inr h \<Rightarrow> ToMedia h (drop WIRE_HEADER_SIZE buf) (md_flags h AND FLAG_PARITY \<noteq> 0))
      else Dropped)"

subsection \<open>The jitter buffer\<close>

record jb_stats =
  frames_received :: nat
  frames_completed :: nat
  frames_dropped_deadline :: nat
  frames_recovered_via_fec :: nat
  chunks_received :: nat

record pending_frame =
  pf_chunks :: "bytes option list"
  pf_parity :: "bytes list"
  pf_first_arrival :: nat
  pf_deadline :: nat
  pf_codec :: video_codec
  pf_flags :: u8
  pf_stream_id :: u16
  pf_frame_id :: u32
  pf_original_len :: "nat option"

record 'f f64_ops =
  f_zero :: 'f
  ewma_step :: "'f \<Rightarrow> nat \<Rightarrow> 'f"
  above_5 :: "'f \<Rightarrow> bool"
  below_1 :: "'f \<Rightarrow> bool"

record 'f jitter_buffer =
  target_delay :: nat
  max_inflight :: nat
  jb_frames :: "(u32 \<times> pending_frame) list"
  jitter_ewma :: 'f
  last_adaptive_eval :: "nat option"
  low_jitter_secs :: nat
  last_chunk_ts :: "nat option"
  stats :: jb_stats

record reassembled_frame =
  rf_codec :: video_codec
  rf_stream_id :: u16
  rf_frame_id :: u32
  rf_flags :: u8
  rf_bytes :: bytes
  reassembled_at :: nat

record deadline_frame =
  df_codec :: video_codec
  df_stream_id :: u16
  df_frame_id :: u32
  df_flags :: u8
  missing_chunks :: "u16 list"

definition jitter_new :: "'f f64_ops \<Rightarrow> nat \<Rightarrow> nat \<Rightarrow> 'f jitter_buffer" where
  "jitter_new F delay inflight =
     \<lparr>target_delay = delay, max_inflight = inflight, jb_frames = [], jitter_ewma = f_zero F,
      last_adaptive_eval = None, low_jitter_secs = 0, last_chunk_ts = None,
      stats = \<lparr>frames_received = 0, frames_completed = 0, frames_dropped_deadline = 0,
        frames_recovered_via_fec = 0, chunks_received = 0\<rparr>\<rparr>"

text \<open>\<open>BTreeMap::insert\<close> on a list sorted by key.\<close>

fun bt_insert :: "'k::linorder \<Rightarrow> 'v \<Rightarrow> ('k \<times> 'v) list \<Rightarrow> ('k \<times> 'v) list" where
  "bt_insert k v [] = [(k, v)]"
| "bt_insert k v ((k', v') # m) =
     (if k < k' then (k, v) # (k', v') # m
      else if k = k' then (k, v) # m
      else (k', v') # bt_insert k v m)"

definition new_frame :: "media_header \<Rightarrow> nat \<Rightarrow> nat \<Rightarrow> pending_frame" where
  "new_frame h now deadline =
     \<lparr>pf_chunks = replicate (unat (md_chunk_count h)) None, pf_parity = [], pf_first_arrival = now,
      pf_deadline = deadline, pf_codec = codec_from_byte (md_codec h), pf_flags = md_flags h,
      pf_stream_id = md_stream_id h, pf_frame_id = md_frame_id h, pf_original_len = None\<rparr>"

definition store_data :: "media_header \<Rightarrow> bytes \<Rightarrow> pending_frame \<Rightarrow> pending_frame" where
  "store_data h payload fr =
     (let i = unat (md_chunk_id h) in
      if md_flags h AND FLAG_LAST_CHUNK \<noteq> 0 \<and> ORIGINAL_LEN_TRAILER \<le> length payload
      then let split = length payload - ORIGINAL_LEN_TRAILER in
        fr\<lparr>pf_original_len := Some (unat (from_be_bytes (drop split payload) :: u32)),
           pf_chunks := (pf_chunks fr)[i := Some (take split payload)]\<rparr>
      else fr\<lparr>pf_chunks := (pf_chunks fr)[i := Some payload]\<rparr>)"

fun enforce_inflight :: "nat \<Rightarrow> (u32 \<times> pending_frame) list \<Rightarrow> nat \<Rightarrow> (u32 \<times> pending_frame) list \<times> nat" where
  "enforce_inflight mx [] n = ([], n)"
| "enforce_inflight mx (f # fs) n =
     (if length (f # fs) > mx then enforce_inflight mx fs (Suc n) else (f # fs, n))"

definition push_chunk ::
    "'f f64_ops \<Rightarrow> 'f jitter_buffer \<Rightarrow> media_header \<Rightarrow> bytes \<Rightarrow> bool \<Rightarrow> nat \<Rightarrow> 'f jitter_buffer" where
  "push_chunk F jb h payload parity now =
     (let fid = md_frame_id h;
          fr = (case map_of (jb_frames jb) fid of
                  Some fr \<Rightarrow> fr | None \<Rightarrow> new_frame h now (now + target_delay jb));
          jb1 = jb\<lparr>jb_frames := bt_insert fid fr (jb_frames jb)\<rparr>
      in if unat (md_chunk_id h) \<ge> length (pf_chunks fr) then jb1
         else let fr1 = (if parity then fr\<lparr>pf_parity := pf_parity fr @ [payload]\<rparr> else store_data h payload fr);
             ewma = (case last_chunk_ts jb of
                       None \<Rightarrow> jitter_ewma jb | Some prev \<Rightarrow> ewma_step F (jitter_ewma jb) (now - prev));
             (kept, dropped) = enforce_inflight (max_inflight jb) (bt_insert fid fr1 (jb_frames jb1)) 0
         in jb1\<lparr>jb_frames := kept, jitter_ewma := ewma, last_chunk_ts := Some now,
              stats := (stats jb)\<lparr>chunks_received := chunks_received (stats jb) + 1,
                frames_dropped_deadline := frames_dropped_deadline (stats jb) + dropped\<rparr>\<rparr>)"

text \<open>\<open>None\<close> is the panic of \<open>recover_with_parity\<close>.\<close>

fun fec_frames :: "nat \<Rightarrow> (u32 \<times> pending_frame) list \<Rightarrow> ((u32 \<times> pending_frame) list \<times> nat) option" where
  "fec_frames bs [] = Some ([], 0)"
| "fec_frames bs ((k, fr) # fs) =
     (case recover_with_parity (pf_chunks fr) (pf_parity fr) bs of
        (_, Inl RecoveryPanic) \<Rightarrow> None
      | (cs, r) \<Rightarrow>
         (case fec_frames bs fs of
            None \<Rightarrow> None
          | Some (fs', n) \<Rightarrow> Some ((k, fr\<lparr>pf_chunks := cs\<rparr>) # fs', if is_ok r then Suc n else n)))"

definition try_fec_recovery :: "'f jitter_buffer \<Rightarrow> nat \<Rightarrow> ('f jitter_buffer \<times> nat) option" where
  "try_fec_recovery jb block_size =
     (case fec_frames (max block_size 1) (jb_frames jb) of
        None \<Rightarrow> None
      | Some (fs, n) \<Rightarrow> Some (jb\<lparr>jb_frames := fs, stats := (stats jb)\<lparr>frames_recovered_via_fec :=
            frames_recovered_via_fec (stats jb) + n\<rparr>\<rparr>, n))"

definition assemble_frame :: "pending_frame \<Rightarrow> nat \<Rightarrow> reassembled_frame" where
  "assemble_frame fr t =
     (let bytes = concat (map (\<lambda>c. case c of None \<Rightarrow> [] | Some b \<Rightarrow> b) (pf_chunks fr)) in
      \<lparr>rf_codec = pf_codec fr, rf_stream_id = pf_stream_id fr, rf_frame_id = pf_frame_id fr,
       rf_flags = pf_flags fr,
       rf_bytes = (case pf_original_len fr of
          Some n \<Rightarrow> if n \<le> length bytes then take n bytes else bytes
        | None \<Rightarrow> bytes),
       reassembled_at = t\<rparr>)"

definition maybe_adapt_target_delay :: "'f f64_ops \<Rightarrow> 'f jitter_buffer \<Rightarrow> nat \<Rightarrow> 'f jitter_buffer" where
  "maybe_adapt_target_delay F jb now =
     (if (case last_adaptive_eval jb of None \<Rightarrow> False | Some l \<Rightarrow> now - l < 1000000000) then jb
      else let jb1 = jb\<lparr>last_adaptive_eval := Some now\<rparr> in
        if above_5 F (jitter_ewma jb)
        then jb1\<lparr>target_delay := min (target_delay jb + 1000000) 15000000, low_jitter_secs := 0\<rparr>
        else if below_1 F (jitter_ewma jb)
        then if low_jitter_secs jb + 1 \<ge> 5
             then jb1\<lparr>target_delay := max (target_delay jb - 1000000) 3000000, low_jitter_secs := 0\<rparr>
             else jb1\<lparr>low_jitter_secs := low_jitter_secs jb + 1\<rparr>
        else jb1\<lparr>low_jitter_secs := 0\<rparr>)"

definition frame_complete :: "pending_frame \<Rightarrow> bool" where
  "frame_complete fr \<longleftrightarrow> None \<notin> set (pf_chunks fr)"

definition pop_ready ::
    "'f f64_ops \<Rightarrow> 'f jitter_buffer \<Rightarrow> nat \<Rightarrow> 'f jitter_buffer \<times> reassembled_frame list" where
  "pop_ready F jb now =
     (let ready = filter (\<lambda>(_, fr). frame_complete fr) (jb_frames jb);
          jb1 = jb\<lparr>jb_frames := filter (\<lambda>(_, fr). \<not> frame_complete fr) (jb_frames jb),
            stats := (stats jb)\<lparr>frames_completed := frames_completed (stats jb) + length ready\<rparr>\<rparr>
      in (maybe_adapt_target_delay F jb1 now, map (\<lambda>(_, fr). assemble_frame fr now) ready))"

definition pop_deadline_passed ::
    "'f jitter_buffer \<Rightarrow> nat \<Rightarrow> 'f jitter_buffer \<times> deadline_frame list" where
  "pop_deadline_passed jb now =
     (let expired = filter (\<lambda>(_, fr). pf_deadline fr \<le> now) (jb_frames jb) in
      (jb\<lparr>jb_frames := filter (\<lambda>(_, fr). \<not> pf_deadline fr \<le> now) (jb_frames jb),
          stats := (stats jb)\<lparr>frames_dropped_deadline := frames_dropped_deadline (stats jb) + length expired\<rparr>\<rparr>,
       map (\<lambda>(_, fr). \<lparr>df_codec = pf_codec fr, df_stream_id = pf_stream_id fr,
              df_frame_id = pf_frame_id fr, df_flags = pf_flags fr,
              missing_chunks = map of_nat (missing_in (pf_chunks fr))\<rparr>) expired))"

text \<open>One datagram from the wire to the buffer (\<open>spawn\<close> then \<open>drain_into\<close>).\<close>

definition receive_datagram :: "'f f64_ops \<Rightarrow> nat \<Rightarrow> 'f jitter_buffer \<Rightarrow> bytes \<Rightarrow> 'f jitter_buffer" where
  "receive_datagram F now jb d =
     (case dispatch d of ToMedia h payload parity \<Rightarrow> push_chunk F jb h payload parity now | _ \<Rightarrow> jb)"

subsection \<open>The sorted map\<close>

definition bt_sorted :: "('k::linorder \<times> 'v) list \<Rightarrow> bool" where
  "bt_sorted m \<longleftrightarrow> sorted_wrt (<) (map fst m)"

lemma map_of_bt_insert [simp]: "map_of (bt_insert k v m) = (map_of m)(k \<mapsto> v)"
  by (induction k v m rule: bt_insert.induct) (auto simp: fun_eq_iff)

lemma set_bt_insert: "set (bt_insert k v m) \<subseteq> insert (k, v) (set m)"
  by (induction k v m rule: bt_insert.induct) auto

lemma bt_sorted_insert: "bt_sorted m \<Longrightarrow> bt_sorted (bt_insert k v m)"
proof (induction k v m rule: bt_insert.induct)
  case (2 k v k' v' m)
  have "x \<in> fst ` set (bt_insert k v m) \<Longrightarrow> x = k \<or> x \<in> fst ` set m" for x
    using set_bt_insert[of k v m] by auto
  with 2 show ?case by (fastforce simp: bt_sorted_def)
qed (simp add: bt_sorted_def)

lemma length_bt_insert_new: "length (bt_insert k v m) \<le> Suc (length m)"
  by (induction k v m rule: bt_insert.induct) auto

lemma length_bt_insert_old:
  "bt_sorted m \<Longrightarrow> map_of m k \<noteq> None \<Longrightarrow> length (bt_insert k v m) = length m"
proof (induction k v m rule: bt_insert.induct)
  case (2 k v k' v' m)
  have "k < k' \<Longrightarrow> map_of m k = None"
    using "2.prems"(1) by (fastforce simp: bt_sorted_def map_of_eq_None_iff)
  with 2 show ?case by (auto simp: bt_sorted_def split: if_splits)
qed simp

lemma bt_sorted_in_set: "bt_sorted m \<Longrightarrow> map_of m k = Some v \<longleftrightarrow> (k, v) \<in> set m"
proof -
  assume "bt_sorted m"
  then have "distinct (map fst m)"
    unfolding bt_sorted_def by (simp add: strict_sorted_iff)
  then show ?thesis by (simp add: map_of_eq_Some_iff)
qed

lemma enforce_inflight_id: "length fs \<le> mx \<Longrightarrow> enforce_inflight mx fs n = (fs, n)"
  by (cases fs) auto

lemma enforce_inflight_bound: "length (fst (enforce_inflight mx fs n)) \<le> mx"
  by (induction mx fs n rule: enforce_inflight.induct) auto

subsection \<open>One frame on its way\<close>

lemma dispatch_chunk:
  assumes "md_magic h = MEDIA_DATAGRAM_MAGIC" "md_flags h \<le> MEDIA_DISCRIMINATOR_MAX"
  shows "dispatch (header_write_into h @ p) = ToMedia h p (md_flags h AND FLAG_PARITY \<noteq> 0)"
proof -
  have ok: "header_ok h" using assms(1) by (simp add: header_ok_def)
  have b: "take 2 (header_write_into h @ p) = MEDIA_DATAGRAM_MAGIC" "(header_write_into h @ p) ! 2 = md_flags h"
    using assms(1) by (simp_all add: header_write_into_def MEDIA_DATAGRAM_MAGIC_def)
  have "md_flags h \<noteq> 0x47" "md_flags h \<noteq> PEN_DATAGRAM_DISCRIMINATOR"
    using assms(2) by (auto simp: MEDIA_DISCRIMINATOR_MAX_def PEN_DATAGRAM_DISCRIMINATOR_def)
  with ok b assms(2) media.enc_size[OF ok] media.dec_enc[OF ok, of p] show ?thesis
    by (simp add: dispatch_def WIRE_HEADER_SIZE_def)
qed

text \<open>What the buffer holds of a frame after receiving the data chunks \<open>got\<close> and the parity
  chunks \<open>par\<close>.\<close>

definition frame_rx ::
    "bytes list \<Rightarrow> nat \<Rightarrow> media_sender \<Rightarrow> video_codec \<Rightarrow> nat set \<Rightarrow> bytes list \<Rightarrow> pending_frame \<Rightarrow> bool" where
  "frame_rx data len ms codec got par fr \<longleftrightarrow>
     pf_chunks fr = map (\<lambda>i. if i \<in> got then Some (data ! i) else None) [0..<length data] \<and>
     pf_original_len fr = (if length data - 1 \<in> got then Some len else None) \<and>
     pf_parity fr = par \<and> pf_frame_id fr = next_frame_id ms \<and> pf_stream_id fr = ms_stream_id ms \<and>
     pf_codec fr = codec"

lemma codec_byte_roundtrip [simp]: "codec_from_byte (codec_to_byte c) = c"
  by (cases c) (simp_all add: codec_from_byte_def codec_to_byte_def)

lemma frame_header_simps [simp]:
  "md_magic (frame_header ms codec fl n i) = MEDIA_DATAGRAM_MAGIC"
  "md_flags (frame_header ms codec fl n i) = fl"
  "md_frame_id (frame_header ms codec fl n i) = next_frame_id ms"
  "md_stream_id (frame_header ms codec fl n i) = ms_stream_id ms"
  "md_chunk_id (frame_header ms codec fl n i) = of_nat i"
  "md_chunk_count (frame_header ms codec fl n i) = n"
  "md_codec (frame_header ms codec fl n i) = codec_to_byte codec"
  by (simp_all add: frame_header_def)

lemma new_frame_rx:
  assumes "length data < 2 ^ 16" "0 < length data"
  shows "frame_rx data len ms codec {} [] (new_frame (frame_header ms codec fl (of_nat (length data)) i) now dl)"
  using assms by (simp add: frame_rx_def new_frame_def unat_of_nat take_bit_nat_eq_self map_replicate_trivial)

lemma unat_chunk_id: "i < 2 ^ 16 \<Longrightarrow> unat (of_nat i :: u16) = i"
  by (simp add: unat_of_nat take_bit_nat_eq_self)

lemma rx_chunks_update:
  "i < length data \<Longrightarrow>
   (map (\<lambda>j. if j \<in> got then Some (data ! j) else None) [0..<length data])[i := Some (data ! i)] =
   map (\<lambda>j. if j \<in> insert i got then Some (data ! j) else None) [0..<length data]"
  by (rule nth_equalityI) (auto simp: nth_list_update)

lemma store_data_rx:
  assumes "frame_rx data len ms codec got par fr" "i < length data" "length data < 2 ^ 16" "len < 2 ^ 32"
    and "i \<noteq> length data - 1 \<longrightarrow> fl AND FLAG_LAST_CHUNK = 0 \<and> p = data ! i"
    and "i = length data - 1 \<longrightarrow> fl AND FLAG_LAST_CHUNK \<noteq> 0 \<and> p = data ! i @ to_be_bytes 4 (of_nat len :: u32)"
  shows "frame_rx data len ms codec (insert i got) par (store_data (frame_header ms codec fl n i) p fr)"
proof (cases "i = length data - 1")
  case True
  have l: "unat (of_nat len :: u32) = len" using assms(4) by (simp add: unat_of_nat take_bit_nat_eq_self)
  have f: "fl AND FLAG_LAST_CHUNK \<noteq> 0" and p: "p = data ! i @ to_be_bytes 4 (of_nat len :: u32)"
    using True assms(6) by auto
  have "store_data (frame_header ms codec fl n i) p fr =
      fr\<lparr>pf_original_len := Some len, pf_chunks := (pf_chunks fr)[i := Some (data ! i)]\<rparr>"
    using f p l unat_chunk_id[of i] assms(2,3)
    by (simp add: store_data_def Let_def ORIGINAL_LEN_TRAILER_def)
  with assms(1,2) True rx_chunks_update[of i data got] show ?thesis by (simp add: frame_rx_def)
next
  case False
  then have "store_data (frame_header ms codec fl n i) p fr =
      fr\<lparr>pf_chunks := (pf_chunks fr)[i := Some (data ! i)]\<rparr>"
    using assms(2,3,5) unat_chunk_id[of i] by (simp add: store_data_def Let_def)
  with assms(1,2) False rx_chunks_update[of i data got] show ?thesis by (simp add: frame_rx_def)
qed

text \<open>The state of the buffer while the frame is arriving; \<open>old\<close> are the ids of the frames that were
  in it before.\<close>

definition rx_inv ::
    "bytes list \<Rightarrow> nat \<Rightarrow> media_sender \<Rightarrow> video_codec \<Rightarrow> u32 set \<Rightarrow> nat set \<Rightarrow> bytes list \<Rightarrow>
     'f jitter_buffer \<Rightarrow> bool" where
  "rx_inv data len ms codec old got par jb \<longleftrightarrow>
     bt_sorted (jb_frames jb) \<and> fst ` set (jb_frames jb) \<subseteq> insert (next_frame_id ms) old \<and>
     (case map_of (jb_frames jb) (next_frame_id ms) of
        Some fr \<Rightarrow> frame_rx data len ms codec got par fr \<and> length (jb_frames jb) \<le> max_inflight jb
      | None \<Rightarrow> got = {} \<and> par = [] \<and> length (jb_frames jb) < max_inflight jb)"

lemma push_rx:
  assumes inv: "rx_inv data len ms codec old got par jb" and n: "length data < 2 ^ 16" "0 < length data"
    and i: "i < length data"
    and step: "\<And>fr. frame_rx data len ms codec got par fr \<Longrightarrow>
      frame_rx data len ms codec got' par'
        (if parity then fr\<lparr>pf_parity := pf_parity fr @ [p]\<rparr>
         else store_data (frame_header ms codec fl (of_nat (length data)) i) p fr)"
  shows "rx_inv data len ms codec old got' par'
    (push_chunk F jb (frame_header ms codec fl (of_nat (length data)) i) p parity now)"
proof -
  let ?h = "frame_header ms codec fl (of_nat (length data)) i" and ?id = "next_frame_id ms"
  define fr where "fr = (case map_of (jb_frames jb) ?id of Some fr \<Rightarrow> fr
    | None \<Rightarrow> new_frame ?h now (now + target_delay jb))"
  let ?m1 = "bt_insert ?id fr (jb_frames jb)"
  define fr1 where "fr1 = (if parity then fr\<lparr>pf_parity := pf_parity fr @ [p]\<rparr> else store_data ?h p fr)"
  let ?m2 = "bt_insert ?id fr1 ?m1"
  have fr: "frame_rx data len ms codec got par fr"
    using inv new_frame_rx[OF n] unfolding fr_def rx_inv_def by (cases "map_of (jb_frames jb) ?id") auto
  then have small: "i < length (pf_chunks fr)" using i by (simp add: frame_rx_def)
  have fr1: "frame_rx data len ms codec got' par' fr1" unfolding fr1_def by (rule step[OF fr])
  have s1: "bt_sorted ?m1" "bt_sorted ?m2" using inv by (simp_all add: rx_inv_def bt_sorted_insert)
  have "length ?m2 = length ?m1" using s1(1) by (rule length_bt_insert_old) simp
  also have "length ?m1 \<le> max_inflight jb"
    using inv length_bt_insert_new[of ?id fr "jb_frames jb"] length_bt_insert_old[of "jb_frames jb" ?id fr]
    unfolding rx_inv_def by (cases "map_of (jb_frames jb) ?id") auto
  finally have len: "length ?m2 \<le> max_inflight jb" .
  have "jb_frames (push_chunk F jb ?h p parity now) = ?m2 \<and>
      max_inflight (push_chunk F jb ?h p parity now) = max_inflight jb"
    using small unat_chunk_id[of i] i n(1) len unfolding fr1_def
    by (cases parity) (simp_all add: push_chunk_def Let_def fr_def[symmetric] enforce_inflight_id)
  moreover have "fst ` set ?m2 \<subseteq> insert ?id old"
    using set_bt_insert[of ?id fr1 ?m1] set_bt_insert[of ?id fr "jb_frames jb"] inv
    unfolding rx_inv_def by force
  ultimately show ?thesis using fr1 s1(2) len by (simp add: rx_inv_def)
qed

lemma flag_facts:
  assumes "base \<in> {0, FLAG_KEYFRAME}"
  shows "base \<le> MEDIA_DISCRIMINATOR_MAX" "base OR FLAG_LAST_CHUNK \<le> MEDIA_DISCRIMINATOR_MAX"
    "base OR FLAG_PARITY \<le> MEDIA_DISCRIMINATOR_MAX" "base AND FLAG_PARITY = 0"
    "(base OR FLAG_LAST_CHUNK) AND FLAG_PARITY = 0" "(base OR FLAG_PARITY) AND FLAG_PARITY \<noteq> 0"
    "base AND FLAG_LAST_CHUNK = 0" "(base OR FLAG_LAST_CHUNK) AND FLAG_LAST_CHUNK \<noteq> 0"
  using assms
  by (auto simp: FLAG_KEYFRAME_def FLAG_LAST_CHUNK_def FLAG_PARITY_def MEDIA_DISCRIMINATOR_MAX_def)

text \<open>The datagrams of a frame by position: first the data chunks, then the parity chunks.\<close>

definition sent_datagram ::
    "media_sender \<Rightarrow> bool \<Rightarrow> video_codec \<Rightarrow> bytes list \<Rightarrow> bytes list \<Rightarrow> nat \<Rightarrow> nat \<Rightarrow> bytes" where
  "sent_datagram ms kf codec data parity len k =
     (let n = of_nat (length data) :: u16; base = (if kf then FLAG_KEYFRAME else 0) in
      if k < length data
      then if k = length data - 1
           then header_write_into (frame_header ms codec (base OR FLAG_LAST_CHUNK) n k) @
                  data ! k @ to_be_bytes 4 (of_nat len :: u32)
           else header_write_into (frame_header ms codec base n k) @ data ! k
      else header_write_into (frame_header ms codec (base OR FLAG_PARITY) n (k - length data)) @
             parity ! (k - length data))"

lemma receive_sent:
  assumes inv: "rx_inv data len ms codec old got par jb" and n: "length data < 2 ^ 16" "0 < length data"
    and len: "len < 2 ^ 32" and par_le: "length parity \<le> length data"
    and k: "k < length data + length parity"
  shows "rx_inv data len ms codec old (if k < length data then insert k got else got)
    (if k < length data then par else par @ [parity ! (k - length data)])
    (receive_datagram F now jb (sent_datagram ms kf codec data parity len k))"
proof -
  let ?base = "if kf then FLAG_KEYFRAME else 0" and ?n = "of_nat (length data) :: u16"
  have b: "?base \<in> {0, FLAG_KEYFRAME}" by auto
  note ff = flag_facts[OF b]
  consider (data) "k < length data" "k \<noteq> length data - 1" | (last) "k < length data" "k = length data - 1"
    | (parity) "\<not> k < length data" by blast
  then show ?thesis
  proof cases
    case data
    have "frame_rx data len ms codec got par fr \<Longrightarrow> frame_rx data len ms codec (insert k got) par
        (store_data (frame_header ms codec ?base ?n k) (data ! k) fr)" for fr
      by (rule store_data_rx) (use data n len ff(7) in simp_all)
    then have "rx_inv data len ms codec old (insert k got) par
        (push_chunk F jb (frame_header ms codec ?base ?n k) (data ! k) False now)"
      by (intro push_rx[OF inv n data(1)]) simp
    with data ff(1,4) show ?thesis
      by (simp add: receive_datagram_def sent_datagram_def Let_def dispatch_chunk)
  next
    case last
    have "frame_rx data len ms codec got par fr \<Longrightarrow> frame_rx data len ms codec (insert k got) par
        (store_data (frame_header ms codec (?base OR FLAG_LAST_CHUNK) ?n k)
          (data ! k @ to_be_bytes 4 (of_nat len :: u32)) fr)" for fr
      by (rule store_data_rx) (use last n len ff(8) in simp_all)
    then have "rx_inv data len ms codec old (insert k got) par
        (push_chunk F jb (frame_header ms codec (?base OR FLAG_LAST_CHUNK) ?n k)
          (data ! k @ to_be_bytes 4 (of_nat len :: u32)) False now)"
      by (intro push_rx[OF inv n last(1)]) simp
    with last ff(2,5) show ?thesis
      by (simp add: receive_datagram_def sent_datagram_def Let_def dispatch_chunk)
  next
    case parity
    then have j: "k - length data < length data" using k par_le by linarith
    have "rx_inv data len ms codec old got (par @ [parity ! (k - length data)])
        (push_chunk F jb (frame_header ms codec (?base OR FLAG_PARITY) ?n (k - length data))
          (parity ! (k - length data)) True now)"
      by (rule push_rx[OF inv n j]) (simp add: frame_rx_def)
    with parity ff(3,6) show ?thesis
      by (simp add: receive_datagram_def sent_datagram_def Let_def dispatch_chunk)
  qed
qed

lemma receive_schedule:
  assumes "rx_inv data len ms codec old got par jb" "length data < 2 ^ 16" "0 < length data"
    "len < 2 ^ 32" "length parity \<le> length data" "\<forall>k \<in> set sched. k < length data + length parity"
  shows "rx_inv data len ms codec old (got \<union> {k \<in> set sched. k < length data})
    (par @ map (\<lambda>k. parity ! (k - length data)) (filter (\<lambda>k. length data \<le> k) sched))
    (foldl (receive_datagram F now) jb (map (sent_datagram ms kf codec data parity len) sched))"
  using assms
proof (induction sched arbitrary: jb got par)
  case (Cons k sched)
  let ?jb = "receive_datagram F now jb (sent_datagram ms kf codec data parity len k)"
  have "rx_inv data len ms codec old (if k < length data then insert k got else got)
    (if k < length data then par else par @ [parity ! (k - length data)]) ?jb"
    using Cons.prems by (intro receive_sent) auto
  note IH = Cons.IH[OF this Cons.prems(2-5)]
  have "(if k < length data then insert k got else got) \<union> {k \<in> set sched. k < length data} =
      got \<union> {k' \<in> set (k # sched). k' < length data}" by auto
  with IH Cons.prems(6) show ?case by (cases "k < length data") simp_all
qed simp

subsection \<open>What the sender sends\<close>

lemma send_all_ok: "send_all send ds = (sent, Ok ()) \<Longrightarrow> ds = map Inr sent"
  by (induction send ds arbitrary: sent rule: send_all.induct) (auto split: sum.splits prod.splits)

lemma last_chunk_id:
  assumes "i < length data" "length data < 2 ^ 16"
  shows "(of_nat i :: u16) = saturating_sub (of_nat (length data)) 1 \<longleftrightarrow> i = length data - 1"
proof -
  have n: "unat (of_nat (length data) :: u16) = length data" using assms(2) by (rule unat_chunk_id)
  then have "(1 :: u16) \<le> of_nat (length data)" using assms(1) by (simp add: word_le_nat_alt)
  moreover have "(of_nat (length data) - 1 :: u16) = of_nat (length data - 1)"
    using assms(1) by (simp add: of_nat_diff)
  ultimately have "saturating_sub (of_nat (length data)) 1 = (of_nat (length data - 1) :: u16)"
    by (simp add: saturating_sub_def)
  moreover have "unat (of_nat i :: u16) = i" "unat (of_nat (length data - 1) :: u16) = length data - 1"
    by (rule unat_chunk_id, use assms in linarith)+
  ultimately show ?thesis by metis
qed

lemma send_frame_sent:
  assumes s: "send_frame send ms kf codec frame = (ms', sent, Ok ())"
    and e: "chunk_and_encode (ms_chunker ms) frame = (data, parity, len)"
    and n: "length data < 2 ^ 16" "0 < length data"
  shows "sent = map (sent_datagram ms kf codec data parity len) [0..<length data + length parity] \<and> len < 2 ^ 32"
proof -
  let ?d = "sent_datagram ms kf codec data parity len" and ?I = "Inr :: bytes \<Rightarrow> (send_error, bytes) result"
  let ?base = "if kf then FLAG_KEYFRAME else 0" and ?n = "of_nat (length data) :: u16"
  have "unat ?n \<noteq> 0" using unat_chunk_id[OF n(1)] n(2) by simp
  then have "?n \<noteq> 0" by auto
  then have all: "data_datagrams ms kf codec data len @ map Inr (parity_datagrams ms kf codec ?n parity) = map Inr sent"
    using s e by (auto simp: send_frame_def Let_def dest: send_all_ok)
  define m where "m = length data - 1"
  have m: "m < length data" using n(2) by (simp add: m_def)
  have nth: "data_datagrams ms kf codec data len ! i = (if i = m
      then last_chunk_datagram (frame_header ms codec (?base OR FLAG_LAST_CHUNK) ?n i) (data ! i) len
      else Ok (chunk_datagram (frame_header ms codec ?base ?n i) (data ! i)))" if "i < length data" for i
    using that last_chunk_id[OF that n(1)] by (simp add: data_datagrams_def Let_def m_def)
  have ld: "length (data_datagrams ms kf codec data len) = length data"
    by (simp add: data_datagrams_def Let_def)
  have "length sent \<ge> length data"
    using arg_cong[OF all, of length] ld by simp
  then have "data_datagrams ms kf codec data len ! m = Inr (sent ! m)"
    using arg_cong[OF all, of "\<lambda>xs. xs ! m"] m ld by (simp add: nth_append)
  then have len: "len < 2 ^ 32" using nth[OF m] by (auto simp: last_chunk_datagram_def split: if_splits)
  have "data_datagrams ms kf codec data len = map (?I \<circ> ?d) [0..<length data]"
    using nth len by (intro nth_equalityI)
      (auto simp: data_datagrams_def sent_datagram_def last_chunk_datagram_def chunk_datagram_def m_def Let_def)
  moreover have "map ?I (parity_datagrams ms kf codec ?n parity) =
      map (?I \<circ> ?d) [length data..<length data + length parity]"
    by (rule nth_equalityI) (auto simp: parity_datagrams_def sent_datagram_def chunk_datagram_def Let_def)
  ultimately have "map ?I sent = map (?I \<circ> ?d) [0..<length data] @
      map (?I \<circ> ?d) [length data..<length data + length parity]"
    using all by metis
  then have "map ?I sent = map ?I (map ?d [0..<length data + length parity])"
    by (simp add: upt_add_eq_append[of 0, simplified])
  then have "sent = map ?d [0..<length data + length parity]"
    by (metis inj_map_eq_map inj_Inr)
  with len show ?thesis by blast
qed

lemma parity_count:
  assumes "chunk_and_encode c frame = (data, parity, n)" "0 < fc_block_size c" "0 < max_chunk_payload c"
  shows "length parity \<le> length data"
proof -
  have "\<not> length data < length (chunks_of (fc_block_size c) data)"
    using length_chunks_of[OF assms(2), of "length data" data] assms(2) by auto
  then show ?thesis using chunk_and_encode_data(5)[OF assms(1,3)] by simp
qed

subsection \<open>Properties\<close>

lemma complete_frame_popped:
  assumes "bt_sorted (jb_frames jb)" "map_of (jb_frames jb) fid = Some fr" "None \<notin> set (pf_chunks fr)"
  shows "assemble_frame fr now \<in> set (snd (pop_ready F jb now))"
  using assms bt_sorted_in_set[of "jb_frames jb" fid fr]
  by (force simp: pop_ready_def Let_def frame_complete_def)

lemma assemble_rx:
  assumes "frame_rx data len ms codec got par fr" "\<forall>i < length data. i \<in> got"
    "0 < length data" "take len (concat data) = frame" "len = length frame"
  shows "rf_bytes (assemble_frame fr t) = frame"
proof -
  have "pf_chunks fr = map Some data"
    using assms(1,2) by (auto simp: frame_rx_def intro!: nth_equalityI)
  then have c: "concat (map (\<lambda>c. case c of None \<Rightarrow> [] | Some b \<Rightarrow> b) (pf_chunks fr)) = concat data"
    by (simp add: comp_def)
  have "length (take len (concat data)) = len" using assms(4,5) by simp
  then have "len \<le> length (concat data)" by simp
  moreover have "pf_original_len fr = Some len" using assms(1-3) by (simp add: frame_rx_def)
  ultimately show ?thesis unfolding assemble_frame_def Let_def c by (simp add: assms(4))
qed

lemma rx_inv_start:
  "bt_sorted (jb_frames jb) \<Longrightarrow> map_of (jb_frames jb) (next_frame_id ms) = None \<Longrightarrow>
   length (jb_frames jb) < max_inflight jb \<Longrightarrow>
   rx_inv data len ms codec (fst ` set (jb_frames jb)) {} [] jb"
  by (auto simp: rx_inv_def)

lemma schedule_of_sent:
  "\<forall>k \<in> set sched. k < n \<Longrightarrow> map ((!) (map f [0..<n])) sched = map f sched"
  by simp

lemma receive_frame:
  assumes "send_frame send ms kf codec frame = (ms', sent, Ok ())" and "frame \<noteq> []"
    and "chunk_and_encode (ms_chunker ms) frame = (data, parity, len)" and "length data < 2 ^ 16"
    and "0 < fc_block_size (ms_chunker ms)" and "0 < max_chunk_payload (ms_chunker ms)"
    and "bt_sorted (jb_frames jb)" and "map_of (jb_frames jb) (next_frame_id ms) = None"
    and "length (jb_frames jb) < max_inflight jb"
    and "\<forall>k \<in> set sched. k < length sent" and "sched \<noteq> []"
  shows "\<exists>fr. map_of (jb_frames (foldl (receive_datagram F now) jb (map ((!) sent) sched))) (next_frame_id ms) = Some fr \<and>
    frame_rx data len ms codec {k \<in> set sched. k < length data}
      (map (\<lambda>k. parity ! (k - length data)) (filter (\<lambda>k. length data \<le> k) sched)) fr \<and>
    bt_sorted (jb_frames (foldl (receive_datagram F now) jb (map ((!) sent) sched))) \<and>
    fst ` set (jb_frames (foldl (receive_datagram F now) jb (map ((!) sent) sched))) \<subseteq>
      insert (next_frame_id ms) (fst ` set (jb_frames jb)) \<and>
    0 < length data \<and> length sent = length data + length parity"
proof -
  have n0: "0 < length data" using chunk_and_encode_data(4)[OF assms(3,6)] assms(2) by auto
  note sf = send_frame_sent[OF assms(1,3,4) n0]
  have pl: "length parity \<le> length data" using assms(3,5,6) by (rule parity_count)
  have k: "\<forall>k \<in> set sched. k < length data + length parity" using assms(10) sf by simp
  have eq: "map ((!) sent) sched = map (sent_datagram ms kf codec data parity len) sched"
    using sf k by (simp add: schedule_of_sent)
  let ?par = "map (\<lambda>k. parity ! (k - length data)) (filter (\<lambda>k. length data \<le> k) sched)"
  have inv: "rx_inv data len ms codec (fst ` set (jb_frames jb)) ({} \<union> {k \<in> set sched. k < length data})
      ([] @ ?par) (foldl (receive_datagram F now) jb (map ((!) sent) sched))"
    using receive_schedule[OF rx_inv_start[OF assms(7-9)] assms(4) n0 _ pl k, of len codec F now kf] sf
    unfolding eq by blast
  have "{k \<in> set sched. k < length data} \<noteq> {} \<or> ?par \<noteq> []"
    using assms(11) by (cases sched) (auto simp: not_less)
  with inv sf n0 show ?thesis by (auto simp: rx_inv_def split: option.splits)
qed

text \<open>C8: End to end without loss: when a frame was sent successfully and its datagrams arrive in any
  order, with any repetitions, all data datagrams among them, then the jitter buffer (with room
  for one more frame) delivers exactly the frame's bytes, codec, stream and frame id.\<close>

theorem media_delivery_any_order:
  assumes "send_frame send ms kf codec frame = (ms', sent, Ok ())" and "frame \<noteq> []"
    and "chunk_and_encode (ms_chunker ms) frame = (data, parity, len)" and "length data < 2 ^ 16"
    and "0 < fc_block_size (ms_chunker ms)" and "0 < max_chunk_payload (ms_chunker ms)"
    and "bt_sorted (jb_frames jb)" and "map_of (jb_frames jb) (next_frame_id ms) = None"
    and "length (jb_frames jb) < max_inflight jb"
    and "\<forall>k \<in> set sched. k < length sent" and "\<forall>i < length data. i \<in> set sched"
  shows "\<exists>r \<in> set (snd (pop_ready F (foldl (receive_datagram F now) jb (map ((!) sent) sched)) now')).
    rf_bytes r = frame \<and> rf_frame_id r = next_frame_id ms \<and> rf_stream_id r = ms_stream_id ms \<and>
    rf_codec r = codec"
proof -
  note d = chunk_and_encode_data[OF assms(3,6)]
  have "sched \<noteq> []" using d(4) assms(2,11) by (cases data) auto
  from receive_frame[OF assms(1-10) this, of F now] obtain fr where
    fr: "map_of (jb_frames (foldl (receive_datagram F now) jb (map ((!) sent) sched))) (next_frame_id ms) = Some fr"
      "bt_sorted (jb_frames (foldl (receive_datagram F now) jb (map ((!) sent) sched)))" and n0: "0 < length data" and
    rx: "frame_rx data len ms codec {k \<in> set sched. k < length data}
      (map (\<lambda>k. parity ! (k - length data)) (filter (\<lambda>k. length data \<le> k) sched)) fr" by blast
  have "None \<notin> set (pf_chunks fr)" using rx assms(11) by (auto simp: frame_rx_def)
  then have "assemble_frame fr now' \<in> set (snd (pop_ready F
      (foldl (receive_datagram F now) jb (map ((!) sent) sched)) now'))"
    using fr by (intro complete_frame_popped)
  moreover have "rf_bytes (assemble_frame fr now') = frame"
    by (rule assemble_rx[OF rx _ n0 d(3) d(2)]) (use assms(11) in simp)
  moreover have "rf_frame_id (assemble_frame fr now') = next_frame_id ms \<and>
      rf_stream_id (assemble_frame fr now') = ms_stream_id ms \<and> rf_codec (assemble_frame fr now') = codec"
    using rx by (simp add: assemble_frame_def frame_rx_def Let_def)
  ultimately show ?thesis by blast
qed

lemma single_frame:
  assumes "bt_sorted m" "fst ` set m \<subseteq> {k}" "map_of m k = Some v" shows "m = [(k, v)]"
proof (cases m)
  case (Cons x xs)
  obtain k0 v0 where x: "x = (k0, v0)" by fastforce
  have "k' \<notin> fst ` set xs" for k'
    using assms(1,2) Cons x by (fastforce simp: bt_sorted_def)
  then have "xs = []" by (cases xs) auto
  with assms(2,3) Cons x show ?thesis by (auto split: if_splits)
qed (use assms in simp)

text \<open>Receiving into an empty buffer and then recovering: everything follows from what
  \<open>recover_with_parity\<close> makes of the one frame.\<close>

lemma recover_received:
  assumes "send_frame send ms kf codec frame = (ms', sent, Ok ())" and "frame \<noteq> []"
    and "chunk_and_encode (ms_chunker ms) frame = (data, parity, len)" and "length data < 2 ^ 16"
    and "0 < fc_block_size (ms_chunker ms)" and "0 < max_chunk_payload (ms_chunker ms)"
    and "jb_frames jb = []" and "0 < max_inflight jb" and "\<forall>k \<in> set sched. k < length sent" and "sched \<noteq> []"
    and "\<And>fr. frame_rx data len ms codec {k \<in> set sched. k < length data}
      (map (\<lambda>k. parity ! (k - length data)) (filter (\<lambda>k. length data \<le> k) sched)) fr \<Longrightarrow>
      recover_with_parity (pf_chunks fr) (pf_parity fr) (fc_block_size (ms_chunker ms)) = (map Some cs, Ok i)"
  shows "\<exists>jb' r. try_fec_recovery (foldl (receive_datagram F now) jb (map ((!) sent) sched))
      (fc_block_size (ms_chunker ms)) = Some (jb', 1) \<and>
    snd (pop_ready F jb' now') = [r] \<and> rf_frame_id r = next_frame_id ms \<and>
    rf_bytes r = (if length data - 1 \<in> set sched \<and> len \<le> length (concat cs) then take len (concat cs) else concat cs)"
proof -
  let ?jb = "foldl (receive_datagram F now) jb (map ((!) sent) sched)"
  have "bt_sorted (jb_frames jb)" "map_of (jb_frames jb) (next_frame_id ms) = None"
    "length (jb_frames jb) < max_inflight jb" using assms(7,8) by (simp_all add: bt_sorted_def)
  from receive_frame[OF assms(1-6) this assms(9,10), of F now] obtain fr where
    fr: "map_of (jb_frames ?jb) (next_frame_id ms) = Some fr" "bt_sorted (jb_frames ?jb)"
      "fst ` set (jb_frames ?jb) \<subseteq> {next_frame_id ms}" and n0: "0 < length data" and
    rx: "frame_rx data len ms codec {k \<in> set sched. k < length data}
      (map (\<lambda>k. parity ! (k - length data)) (filter (\<lambda>k. length data \<le> k) sched)) fr"
    using assms(7) by auto
  have one: "jb_frames ?jb = [(next_frame_id ms, fr)]" using fr(2,3,1) by (rule single_frame)
  let ?fr = "fr\<lparr>pf_chunks := map Some cs\<rparr>"
  obtain jb' where t: "try_fec_recovery ?jb (fc_block_size (ms_chunker ms)) = Some (jb', 1)"
      and f: "jb_frames jb' = [(next_frame_id ms, ?fr)]"
    using assms(11)[OF rx] assms(5) by (simp add: try_fec_recovery_def one max_absorb1)
  have ol: "pf_original_len ?fr = (if length data - 1 \<in> set sched then Some len else None)"
    and id: "pf_frame_id ?fr = next_frame_id ms"
    using rx n0 by (simp_all add: frame_rx_def)
  have "snd (pop_ready F jb' now') = [assemble_frame ?fr now']"
    by (simp add: pop_ready_def f frame_complete_def Let_def)
  moreover have "rf_bytes (assemble_frame ?fr now') = (if length data - 1 \<in> set sched \<and> len \<le> length (concat cs)
      then take len (concat cs) else concat cs)"
    using ol by (simp add: assemble_frame_def Let_def comp_def)
  moreover have "rf_frame_id (assemble_frame ?fr now') = next_frame_id ms"
    using id by (simp add: assemble_frame_def Let_def)
  ultimately show ?thesis using t by blast
qed

text \<open>A concrete sender and buffer for the witnesses: chunks of two bytes, two chunks per block.\<close>

definition demo_sender :: "nat \<Rightarrow> media_sender" where
  "demo_sender bs = \<lparr>ms_chunker = \<lparr>fc_block_size = bs, max_chunk_payload = 2\<rparr>, ms_stream_id = 7, next_frame_id = 9\<rparr>"

definition demo_f64 :: "unit f64_ops" where
  "demo_f64 = \<lparr>f_zero = (), ewma_step = \<lambda>_ _. (), above_5 = \<lambda>_. False, below_1 = \<lambda>_. False\<rparr>"

definition demo_jb :: "unit jitter_buffer" where
  "demo_jb = jitter_new demo_f64 5000000 4"

lemma demo_chunks:
  "chunk_and_encode (ms_chunker (demo_sender 2)) [1, 2, 3, 4, 5] = ([[1, 2], [3, 4], [5, 0]], [[2, 6], [5, 0]], 5)"
  "chunk_and_encode (ms_chunker (demo_sender 1)) [1, 2, 3] = ([[1, 2], [3, 0]], [[1, 2], [3, 0]], 3)"
  by (simp_all add: chunk_and_encode_def demo_sender_def Let_def chunks_of.simps pad_last_def parity_of_def
      eval_nat_numeral)

lemma send_all_accepted: "send_all (\<lambda>_. Ok ()) (map Inr ds) = (ds, Ok ())"
  by (induction ds) auto

lemma demo_sent:
  "\<exists>ms' sent. send_frame (\<lambda>_. Ok ()) (demo_sender 2) True H264 [1, 2, 3, 4, 5] = (ms', sent, Ok ()) \<and> length sent = 5"
  "\<exists>ms' sent. send_frame (\<lambda>_. Ok ()) (demo_sender 1) True H264 [1, 2, 3] = (ms', sent, Ok ()) \<and> length sent = 4"
  by (simp_all add: send_frame_def demo_chunks data_datagrams_def parity_datagrams_def
      last_chunk_datagram_def Let_def del: One_nat_def)

lemma demo_jb_simps: "jb_frames demo_jb = []" "max_inflight demo_jb = 4"
  by (simp_all add: demo_jb_def jitter_new_def)

lemma demo_sender_simps: "fc_block_size (ms_chunker (demo_sender bs)) = bs"
  "max_chunk_payload (ms_chunker (demo_sender bs)) = 2" "next_frame_id (demo_sender bs) = 9"
  by (simp_all add: demo_sender_def)

theorem media_delivery_any_order_witness:
  "\<exists>ms' sent r. send_frame (\<lambda>_. Ok ()) (demo_sender 2) True H264 [1, 2, 3, 4, 5] = (ms', sent, Ok ()) \<and>
     r \<in> set (snd (pop_ready demo_f64 (foldl (receive_datagram demo_f64 0) demo_jb (map ((!) sent) [2, 0, 2, 1])) 1)) \<and>
     rf_bytes r = [1, 2, 3, 4, 5]"
proof -
  obtain ms' sent where e: "send_frame (\<lambda>_. Ok ()) (demo_sender 2) True H264 [1, 2, 3, 4, 5] = (ms', sent, Ok ())"
    and l: "length sent = 5" using demo_sent(1) by blast
  have "\<forall>i < length [[1, 2], [3, 4], [5, 0 :: u8]]. i \<in> set [2, 0, 2, 1]"
    by (auto simp: less_Suc_eq)
  with media_delivery_any_order[OF e _ demo_chunks(1), of demo_jb "[2, 0, 2, 1]" demo_f64 0 1] e l show ?thesis
    by (auto simp: demo_jb_simps demo_sender_simps bt_sorted_def)
qed

text \<open>End to end with one loss: when one data datagram of a frame is lost and the parity datagrams
  arrive in order, recovery succeeds and the buffer delivers the frame; but when the lost one is
  the last data datagram, the length trailer is lost with it and what is delivered is the frame
  padded to whole chunks.\<close>

theorem media_delivery_single_loss:
  assumes "send_frame send ms kf codec frame = (ms', sent, Ok ())" and "frame \<noteq> []"
    and "chunk_and_encode (ms_chunker ms) frame = (data, parity, len)" and "length data < 2 ^ 16"
    and "0 < fc_block_size (ms_chunker ms)" and "0 < max_chunk_payload (ms_chunker ms)"
    and "jb_frames jb = []" and "0 < max_inflight jb"
    and "{k \<in> set sched. k < length data} = {..<length data} - {i}" and "i < length data"
    and "i div fc_block_size (ms_chunker ms) \<le> 1024"
    and "filter (\<lambda>k. length data \<le> k) sched = [length data..<length data + length parity]"
  shows "\<exists>jb' r. try_fec_recovery (foldl (receive_datagram F now) jb (map ((!) sent) sched))
      (fc_block_size (ms_chunker ms)) = Some (jb', 1) \<and>
    snd (pop_ready F jb' now') = [r] \<and> rf_frame_id r = next_frame_id ms \<and>
    rf_bytes r = (if i = length data - 1 then concat data else frame)"
proof -
  note d = chunk_and_encode_data[OF assms(3,6)]
  have n0: "0 < length data" using assms(10) by linarith
  have ls: "length sent = length data + length parity"
    using send_frame_sent[OF assms(1,3,4) n0] by simp
  have lt: "k \<in> set sched \<Longrightarrow> k < length sent" for k
  proof (cases "k < length data")
    case False
    moreover assume "k \<in> set sched"
    ultimately have "k \<in> set (filter (\<lambda>k. length data \<le> k) sched)" by simp
    then show ?thesis unfolding assms(12) ls by simp
  qed (simp add: ls)
  have "parity \<noteq> []" using d(5) n0 assms(5) chunks_of_Nil_iff[of "fc_block_size (ms_chunker ms)" data] by auto
  then have "[length data..<length data + length parity] \<noteq> []" by simp
  then have ne: "sched \<noteq> []" unfolding assms(12)[symmetric] by auto
  have par: "map (\<lambda>k. parity ! (k - length data)) (filter (\<lambda>k. length data \<le> k) sched) = parity"
    unfolding assms(12) by (rule nth_equalityI) auto
  have rec: "recover_with_parity (pf_chunks fr) (pf_parity fr) (fc_block_size (ms_chunker ms)) = (map Some data, Ok i)"
    if "frame_rx data len ms codec {k \<in> set sched. k < length data}
      (map (\<lambda>k. parity ! (k - length data)) (filter (\<lambda>k. length data \<le> k) sched)) fr" for fr
  proof -
    have "pf_chunks fr = (map Some data)[i := None]"
      using that assms(10) unfolding frame_rx_def assms(9)
      by (auto intro!: nth_equalityI simp: nth_list_update)
    moreover have "pf_parity fr = parity" using that unfolding par frame_rx_def by simp
    moreover have "recover_loop ((map Some data)[i := None]) parity (fc_block_size (ms_chunker ms)) 0 = (map Some data, Ok i)"
      using assms(5,10,11) d(1,5) by (intro recover_loop_finds) auto
    ultimately show ?thesis using n0 by (auto simp: recover_with_parity_def)
  qed
  have got: "length data - 1 \<in> set sched \<longleftrightarrow> i \<noteq> length data - 1"
  proof -
    have "length data - 1 \<in> {k \<in> set sched. k < length data} \<longleftrightarrow> length data - 1 \<in> {..<length data} - {i}"
      unfolding assms(9) by (rule refl)
    then show ?thesis using n0 by auto
  qed
  have len: "length (take len (concat data)) = len" using d(2,3) by simp
  show ?thesis
    using recover_received[OF assms(1-8) _ ne rec, of F now now'] lt got d(3) len by auto
qed

theorem media_delivery_single_loss_witness:
  "\<exists>ms' sent jb' r. send_frame (\<lambda>_. Ok ()) (demo_sender 2) True H264 [1, 2, 3, 4, 5] = (ms', sent, Ok ()) \<and>
     try_fec_recovery (foldl (receive_datagram demo_f64 0) demo_jb (map ((!) sent) [2, 3, 0, 4])) 2 = Some (jb', 1) \<and>
     snd (pop_ready demo_f64 jb' 1) = [r] \<and> rf_bytes r = [1, 2, 3, 4, 5]"
proof -
  obtain ms' sent where e: "send_frame (\<lambda>_. Ok ()) (demo_sender 2) True H264 [1, 2, 3, 4, 5] = (ms', sent, Ok ())"
    using demo_sent(1) by blast
  have g: "{k \<in> set [2, 3, 0, 4]. k < length [[1, 2], [3, 4], [5, 0 :: u8]]} =
      {..<length [[1, 2], [3, 4], [5, 0 :: u8]]} - {1}" by (auto simp: less_Suc_eq)
  have p: "filter (\<lambda>k. length [[1, 2], [3, 4], [5, 0 :: u8]] \<le> k) [2, 3, 0, 4] =
      [length [[1, 2], [3, 4], [5, 0 :: u8]]..<length [[1, 2], [3, 4], [5, 0 :: u8]] + length [[2, 6], [5, 0 :: u8]]]"
    by (simp add: eval_nat_numeral)
  from media_delivery_single_loss[OF e _ demo_chunks(1) _ _ _ _ _ g _ _ p, of demo_jb demo_f64 0 1] e show ?thesis
    by (auto simp: demo_jb_simps demo_sender_simps)
qed

text \<open>Parity chunks are kept in arrival order and used by block number. With one chunk per block and
  two chunks, losing the first data datagram and its parity makes the recovery take the second
  block's parity for the first block: a frame with the second chunk twice is delivered as complete.\<close>

theorem lost_parity_corrupts_frame:
  assumes "send_frame send ms kf codec frame = (ms', sent, Ok ())"
    and "chunk_and_encode (ms_chunker ms) frame = ([a, b], parity, len)"
    and "fc_block_size (ms_chunker ms) = 1" and "0 < max_chunk_payload (ms_chunker ms)"
    and "jb_frames jb = []" and "0 < max_inflight jb"
  shows "\<exists>jb' r. try_fec_recovery (foldl (receive_datagram F now) jb (map ((!) sent) [1, 3])) 1 = Some (jb', 1) \<and>
    snd (pop_ready F jb' now') = [r] \<and> rf_frame_id r = next_frame_id ms \<and> rf_bytes r = take len (b @ b)"
proof -
  note d = chunk_and_encode_data[OF assms(2,4)]
  have ne: "frame \<noteq> []" using d(4) by simp
  have "parity_of [c] = c" for c
    using parity_of_uniform[of "[c]" "length c"] by simp
  then have par: "parity = [a, b]"
    unfolding d(5) assms(3) by (simp add: chunks_of.simps)
  have ls: "length sent = 4"
    using send_frame_sent[OF assms(1,2)] par by simp
  have rec: "recover_with_parity (pf_chunks fr) (pf_parity fr) (fc_block_size (ms_chunker ms)) = (map Some [b, b], Ok 0)"
    if "frame_rx [a, b] len ms codec {k \<in> set [1, 3]. k < length [a, b]}
      (map (\<lambda>k. parity ! (k - length [a, b])) (filter (\<lambda>k. length [a, b] \<le> k) [1, 3])) fr" for fr
  proof -
    have "pf_chunks fr = [None, Some b]" "pf_parity fr = [b]"
      using that by (simp_all add: frame_rx_def par)
    then show ?thesis
      by (simp add: recover_with_parity_def assms(3) recover_loop.simps missing_in_def)
  qed
  have "length a = length b" using d(1) by simp
  moreover have "length (take len (a @ b)) = len" using d(2,3) by simp
  ultimately have "len \<le> length (concat [b, b])" by simp
  then show ?thesis
    using recover_received[where sched = "[1, 3]" and cs = "[b, b]" and i = 0 and F = F and now = now and now' = now',
        OF assms(1) ne assms(2) _ _ assms(4-6) _ _ rec] assms(3) ls by simp
qed

theorem lost_parity_corrupts_frame_witness:
  "\<exists>ms' sent jb' r. send_frame (\<lambda>_. Ok ()) (demo_sender 1) True H264 [1, 2, 3] = (ms', sent, Ok ()) \<and>
     try_fec_recovery (foldl (receive_datagram demo_f64 0) demo_jb (map ((!) sent) [1, 3])) 1 = Some (jb', 1) \<and>
     snd (pop_ready demo_f64 jb' 1) = [r] \<and> rf_bytes r = [3, 0, 3]"
proof -
  obtain ms' sent where e: "send_frame (\<lambda>_. Ok ()) (demo_sender 1) True H264 [1, 2, 3] = (ms', sent, Ok ())"
    using demo_sent(2) by blast
  from lost_parity_corrupts_frame[OF e demo_chunks(2), of demo_jb demo_f64 0 1] e show ?thesis
    by (auto simp: demo_jb_simps demo_sender_simps)
qed

lemma length_bt_insert_absent: "map_of m k = None \<Longrightarrow> length (bt_insert k v m) = Suc (length m)"
  by (induction k v m rule: bt_insert.induct) (auto split: if_splits)

text \<open>The cap on frames in flight holds after every chunk the buffer accepts; but a chunk whose
  index is not below its declared count leaves before the cap is enforced and still opens a frame,
  so any number of such datagrams with fresh frame ids opens as many frames, whatever the cap.\<close>

theorem inflight_cap_bypassed:
  assumes "distinct ids" and "\<And>f. unat (md_chunk_count (h f)) \<le> unat (md_chunk_id (h f)) \<and> md_frame_id (h f) = f"
  shows "(unat (md_chunk_id g) < (case map_of (jb_frames jb) (md_frame_id g) of
        Some fr \<Rightarrow> length (pf_chunks fr) | None \<Rightarrow> unat (md_chunk_count g)) \<longrightarrow>
      length (jb_frames (push_chunk F jb g p parity now)) \<le> max_inflight jb) \<and>
    length (jb_frames (foldl (\<lambda>jb f. push_chunk F jb (h f) p parity now) (jitter_new F delay cap) ids)) = length ids"
proof -
  have "length (jb_frames (push_chunk F jb g p parity now)) \<le> max_inflight jb"
    if "unat (md_chunk_id g) < (case map_of (jb_frames jb) (md_frame_id g) of
        Some fr \<Rightarrow> length (pf_chunks fr) | None \<Rightarrow> unat (md_chunk_count g))"
    using that enforce_inflight_bound[of "max_inflight jb" _ 0]
    by (auto simp: push_chunk_def Let_def new_frame_def split: option.splits prod.splits)
       (metis fst_conv)+
  moreover have "length (jb_frames (foldl (\<lambda>jb f. push_chunk F jb (h f) p parity now) jb' ids)) =
      length (jb_frames jb') + length ids"
    if "\<forall>f \<in> set ids. map_of (jb_frames jb') f = None" for jb' :: "'a jitter_buffer"
    using assms(1) that
  proof (induction ids arbitrary: jb')
    case (Cons f ids)
    let ?j = "push_chunk F jb' (h f) p parity now"
    have "jb_frames ?j = bt_insert f (new_frame (h f) now (now + target_delay jb')) (jb_frames jb')"
      using Cons.prems assms(2)[of f] by (simp add: push_chunk_def Let_def new_frame_def)
    moreover from this have "\<forall>f' \<in> set ids. map_of (jb_frames ?j) f' = None" using Cons.prems by auto
    ultimately show ?case using Cons.IH[of ?j] Cons.prems by (simp add: length_bt_insert_absent)
  qed simp
  ultimately show ?thesis by (simp add: jitter_new_def)
qed

definition demo_stray :: "u32 \<Rightarrow> media_header" where
  "demo_stray f = \<lparr>md_magic = MEDIA_DATAGRAM_MAGIC, md_flags = 0, md_codec = 0, md_stream_id = 0,
     md_frame_id = f, md_chunk_id = 5, md_chunk_count = 2\<rparr>"

theorem inflight_cap_bypassed_witness:
  "length (jb_frames (foldl (\<lambda>jb f. push_chunk demo_f64 jb (demo_stray f) [] False 0)
     (jitter_new demo_f64 5000000 1) [1, 2, 3])) = 3"
  using inflight_cap_bypassed[of "[1, 2, 3]" demo_stray "demo_stray 1" demo_jb demo_f64 "[]" False 0 5000000 1]
  by (simp add: demo_stray_def)

end
