(* ===== verification/Rs_Fec.thy ===== *)
theory Rs_Fec
  imports Jitter_Buffer
begin

text \<open>
  Reed-Solomon forward error correction of the media path
  (\<open>qubox-transport/src/media/rs_fec.rs\<close>, \<open>fec_decoder.rs\<close> and the \<open>ChunkEncoder\<close> of
  \<open>media/mod.rs\<close>). The codec itself is the crate \<open>reed-solomon-erasure\<close>: a parameter
  \<open>rs_lib\<close>, whose documented contract is \<open>erasure_code\<close>. A panic of the source (a slice out of
  range, \<open>chunks(0)\<close>, a failed \<open>expect\<close>) is the outcome \<open>None\<close>.
\<close>

subsection \<open>The codec library\<close>

record 'e rs_lib =
  lib_new :: "nat \<Rightarrow> nat \<Rightarrow> ('e, unit) result"
  lib_encode :: "nat \<Rightarrow> nat \<Rightarrow> bytes list \<Rightarrow> ('e, bytes list) result"
  lib_reconstruct :: "nat \<Rightarrow> nat \<Rightarrow> bytes option list \<Rightarrow> ('e, bytes option list) result"

text \<open>\<open>received\<close> is what is left of \<open>sent\<close> after some shards were lost.\<close>

definition erased :: "'a list \<Rightarrow> 'a option list \<Rightarrow> bool" where
  "erased sent received \<longleftrightarrow> list_all2 (\<lambda>s r. r = None \<or> r = Some s) sent received"

definition missing :: "'a option list \<Rightarrow> nat" where
  "missing xs = length (filter (\<lambda>x. x = None) xs)"

text \<open>
  The contract of the crate for \<open>k\<close> data and \<open>m\<close> parity shards of one length: encoding keeps the
  data shards and fills the parity slots; reconstruction restores every shard when at most \<open>m\<close> are
  missing and refuses (\<open>TooFewShardsPresent\<close>) otherwise.
\<close>

definition erasure_code :: "'e rs_lib \<Rightarrow> nat \<Rightarrow> nat \<Rightarrow> bool" where
  "erasure_code L k m \<longleftrightarrow>
     lib_new L k m = Ok () \<and>
     (\<forall>n ds zs. 0 < n \<and> length ds = k \<and> length zs = m \<and> (\<forall>s \<in> set (ds @ zs). length s = n) \<longrightarrow>
        (\<exists>ps. length ps = m \<and> lib_encode L k m (ds @ zs) = Ok (ds @ ps) \<and>
           (\<forall>sh. erased (ds @ ps) sh \<longrightarrow>
              (if missing sh \<le> m then lib_reconstruct L k m sh = Ok (map Some (ds @ ps))
               else \<exists>e. lib_reconstruct L k m sh = Err e))))"

subsection \<open>Encoder\<close>

definition MAX_PARITY_SHARDS :: nat where "MAX_PARITY_SHARDS = 4"
definition DEFAULT_BLOCK_SIZE :: nat where "DEFAULT_BLOCK_SIZE = 4"
definition DEFAULT_PARITY_SHARDS :: nat where "DEFAULT_PARITY_SHARDS = 2"

datatype 'e rs_fec_error =
  ZeroBlockSize | TooManyParity nat | BlockTooLarge nat | EmptyFrame | Library 'e

record rs_fec =
  rs_block_size :: nat
  rs_parity_shards :: nat

definition rs_fec_new :: "'e rs_lib \<Rightarrow> nat \<Rightarrow> nat \<Rightarrow> ('e rs_fec_error, rs_fec) result" where
  "rs_fec_new L block_size parity_shards =
     (if block_size = 0 then Err ZeroBlockSize
      else if parity_shards > MAX_PARITY_SHARDS then Err (TooManyParity parity_shards)
      else if block_size + parity_shards > 255 then Err (BlockTooLarge (block_size + parity_shards))
      else let ok = Ok \<lparr>rs_block_size = block_size, rs_parity_shards = parity_shards\<rparr> in
        if parity_shards > 0
        then (case lib_new L block_size parity_shards of Inl e \<Rightarrow> Err (Library e) | Inr _ \<Rightarrow> ok)
        else ok)"

definition TARGET_CHUNK_BYTES :: nat where "TARGET_CHUNK_BYTES = 1200"

definition shard_len_for :: "rs_fec \<Rightarrow> nat \<Rightarrow> nat" where
  "shard_len_for rs frame_len =
     (if frame_len = 0 then 0
      else let needed_chunks = (frame_len + TARGET_CHUNK_BYTES - 1) div TARGET_CHUNK_BYTES;
               total_chunks = max needed_chunks (rs_block_size rs);
               shard_len = (frame_len + total_chunks - 1) div total_chunks
           in (shard_len + 15) div 16 * 16)"

record encoded_frame =
  ef_data :: "bytes list"
  ef_parity :: "bytes list"
  ef_shard_len :: nat
  ef_original_len :: nat

text \<open>\<open>v.resize(n, 0)\<close>.\<close>

definition resize_zero :: "nat \<Rightarrow> bytes \<Rightarrow> bytes" where
  "resize_zero n v = take n v @ replicate (n - length v) 0"

text \<open>One block of \<open>all_shards\<close>: the data shards, zero shards up to \<open>block_size\<close>, zeroed parity
  slots. \<open>all_shards\<close> is the concatenation of these blocks, and each slice handed to the library is
  exactly one of them.\<close>

definition block_shards :: "rs_fec \<Rightarrow> nat \<Rightarrow> bytes list \<Rightarrow> nat \<Rightarrow> bytes list" where
  "block_shards rs shard_len frame_chunks block_idx =
     (let d_lo = block_idx * rs_block_size rs;
          d_hi = min (d_lo + rs_block_size rs) (length frame_chunks)
      in map (\<lambda>i. frame_chunks ! i) [d_lo..<d_hi] @
         replicate (d_lo + rs_block_size rs - d_hi) (replicate shard_len 0) @
         replicate (rs_parity_shards rs) (replicate shard_len 0))"

fun encode_blocks ::
    "'e rs_lib \<Rightarrow> rs_fec \<Rightarrow> bytes list list \<Rightarrow> ('e rs_fec_error, bytes list list) result" where
  "encode_blocks L rs [] = Ok []"
| "encode_blocks L rs (b # bs) =
     (case lib_encode L (rs_block_size rs) (rs_parity_shards rs) b of
        Inl e \<Rightarrow> Err (Library e)
      | Inr b' \<Rightarrow> (case encode_blocks L rs bs of Inl e \<Rightarrow> Err e | Inr bs' \<Rightarrow> Ok (b' # bs')))"

definition rs_encode ::
    "'e rs_lib \<Rightarrow> rs_fec \<Rightarrow> bytes \<Rightarrow> ('e rs_fec_error, encoded_frame) result option" where
  "rs_encode L rs frame =
     (let shard_len = shard_len_for rs (length frame);
          k = rs_block_size rs; m = rs_parity_shards rs in
      if shard_len = 0 then None
      else if m = 0 then
        Some (Ok \<lparr>ef_data = chunks_of shard_len frame, ef_parity = [],
                  ef_shard_len = shard_len, ef_original_len = length frame\<rparr>)
      else let frame_chunks = map (resize_zero shard_len) (chunks_of shard_len frame) in
        if frame_chunks = [] then Some (Err EmptyFrame)
        else let blocks = (length frame_chunks + k - 1) div k in
          (case lib_new L k m of
             Inl _ \<Rightarrow> None
           | Inr _ \<Rightarrow>
             (case encode_blocks L rs (map (block_shards rs shard_len frame_chunks) [0..<blocks]) of
                Inl e \<Rightarrow> Some (Err e)
              | Inr bs \<Rightarrow> Some (Ok
                  \<lparr>ef_data = concat (map (take k) bs),
                   ef_parity = concat (map (\<lambda>b. take m (drop k b)) bs),
                   ef_shard_len = shard_len, ef_original_len = length frame\<rparr>))))"

subsection \<open>Reconstruction\<close>

text \<open>Write the restored shards into the empty slots from \<open>lo\<close> on, counting them.\<close>

fun fill_missing :: "nat \<Rightarrow> 'a option list \<Rightarrow> 'a option list \<Rightarrow> nat \<Rightarrow> 'a option list \<times> nat" where
  "fill_missing lo [] xs n = (xs, n)"
| "fill_missing lo (s # ss) xs n =
     (if xs ! lo = None \<and> s \<noteq> None then fill_missing (Suc lo) ss (xs[lo := s]) (Suc n)
      else fill_missing (Suc lo) ss xs n)"

definition pad_none :: "nat \<Rightarrow> 'a option list \<Rightarrow> 'a option list" where
  "pad_none n xs = xs @ replicate (n - length xs) None"

text \<open>One pass of the loop body.\<close>

definition reconstruct_block ::
    "'e rs_lib \<Rightarrow> rs_fec \<Rightarrow> nat \<Rightarrow> bytes option list \<Rightarrow> bytes option list \<Rightarrow> nat \<Rightarrow>
     (bytes option list \<times> bytes option list \<times> ('e rs_fec_error, nat) result) option" where
  "reconstruct_block L rs block_idx data parity recovered =
     (let k = rs_block_size rs; m = rs_parity_shards rs;
          d_lo = block_idx * k; d_hi = min (d_lo + k) (length data);
          p_lo = block_idx * m; p_hi = min (p_lo + m) (length parity) in
      if p_lo > p_hi then None
      else let shards = pad_none (k + m) (pad_none k (take (d_hi - d_lo) (drop d_lo data)) @
                          take (p_hi - p_lo) (drop p_lo parity)) in
        (case lib_reconstruct L k m shards of
           Inl e \<Rightarrow> Some (data, parity, Err (Library e))
         | Inr sh \<Rightarrow>
           (let (data', n') = fill_missing d_lo (take (d_hi - d_lo) sh) data recovered;
                (parity', n'') = fill_missing p_lo (take (p_hi - p_lo) (drop k sh)) parity n'
            in Some (data', parity', Ok n''))))"

fun reconstruct_blocks ::
    "'e rs_lib \<Rightarrow> rs_fec \<Rightarrow> nat list \<Rightarrow> bytes option list \<Rightarrow> bytes option list \<Rightarrow> nat \<Rightarrow>
     (bytes option list \<times> bytes option list \<times> ('e rs_fec_error, nat) result) option" where
  "reconstruct_blocks L rs [] data parity recovered = Some (data, parity, Ok recovered)"
| "reconstruct_blocks L rs (block_idx # is) data parity recovered =
     (case reconstruct_block L rs block_idx data parity recovered of
        Some (data', parity', Inr n) \<Rightarrow> reconstruct_blocks L rs is data' parity' n
      | stop \<Rightarrow> stop)"

definition rs_reconstruct ::
    "'e rs_lib \<Rightarrow> rs_fec \<Rightarrow> bytes option list \<Rightarrow> bytes option list \<Rightarrow>
     (bytes option list \<times> bytes option list \<times> ('e rs_fec_error, nat) result) option" where
  "rs_reconstruct L rs data parity =
     (if rs_parity_shards rs = 0 then Some (data, parity, Ok 0)
      else if data = [] then Some (data, parity, Err EmptyFrame)
      else (case lib_new L (rs_block_size rs) (rs_parity_shards rs) of
              Inl _ \<Rightarrow> None
            | Inr _ \<Rightarrow> reconstruct_blocks L rs
                [0..<(length data + rs_block_size rs - 1) div rs_block_size rs] data parity 0))"

subsection \<open>Adaptive parity count\<close>

record loss_threshold =
  above_x1000 :: u32
  parity_count :: nat

record fec_controller =
  ctl_block_size :: nat
  last_parity :: nat
  thresholds :: "loss_threshold list"

definition controller_new :: "nat \<Rightarrow> fec_controller" where
  "controller_new block_size =
     \<lparr>ctl_block_size = max block_size 1, last_parity = 0,
      thresholds = [\<lparr>above_x1000 = 5000, parity_count = 4\<rparr>, \<lparr>above_x1000 = 2000, parity_count = 3\<rparr>,
                    \<lparr>above_x1000 = 1000, parity_count = 2\<rparr>, \<lparr>above_x1000 = 300, parity_count = 1\<rparr>]\<rparr>"

definition target_parity :: "fec_controller \<Rightarrow> u32 \<Rightarrow> nat" where
  "target_parity c loss =
     (case find (\<lambda>t. loss \<ge> above_x1000 t) (thresholds c) of Some t \<Rightarrow> parity_count t | None \<Rightarrow> 0)"

definition adjust_for_loss :: "fec_controller \<Rightarrow> u32 \<Rightarrow> fec_controller \<times> nat" where
  "adjust_for_loss c loss =
     (let target = target_parity c loss;
          nxt = (if target > last_parity c then min (last_parity c + 1) target
                 else if target < last_parity c then target else last_parity c)
      in (c\<lparr>last_parity := nxt\<rparr>, nxt))"

definition controller_force :: "fec_controller \<Rightarrow> nat \<Rightarrow> fec_controller" where
  "controller_force c parity = c\<lparr>last_parity := min parity MAX_PARITY_SHARDS\<rparr>"

subsection \<open>Decoder\<close>

definition FEC_BLOCK_TIMEOUT :: nat where "FEC_BLOCK_TIMEOUT = 200000"
definition FEC_MAX_PENDING_BLOCKS :: nat where "FEC_MAX_PENDING_BLOCKS = 16"

datatype block_state = BlockPending | BlockEmitted

record pending_block =
  pb_data :: "bytes option list"
  pb_parity :: "bytes option list"
  pb_chunk_count :: u16
  first_arrival :: nat
  pb_deadline :: nat
  pb_state :: block_state

record fec_decoder_stats =
  blocks_started :: u64
  blocks_recovered_via_fec :: u64
  blocks_emitted_direct :: u64
  blocks_discarded :: u64
  late_shards_dropped :: u64

record fec_decoder =
  dec_rs :: rs_fec
  dec_timeout :: nat
  dec_pending :: "(u32 \<times> pending_block) list"
  dec_stats :: fec_decoder_stats

definition decoder_new :: "rs_fec \<Rightarrow> nat \<Rightarrow> nat \<Rightarrow> fec_decoder" where
  "decoder_new rs timeout max_pending =
     \<lparr>dec_rs = rs, dec_timeout = timeout, dec_pending = [],
      dec_stats = \<lparr>blocks_started = 0, blocks_recovered_via_fec = 0, blocks_emitted_direct = 0,
        blocks_discarded = 0, late_shards_dropped = 0\<rparr>\<rparr>"

definition assemble_shards :: "bytes option list \<Rightarrow> bytes" where
  "assemble_shards data = concat (map (\<lambda>s. case s of Some b \<Rightarrow> b | None \<Rightarrow> []) data)"

text \<open>Store a shard at its index, growing the vector; \<open>None\<close> when the slot is taken.\<close>

definition store_shard :: "nat \<Rightarrow> bytes \<Rightarrow> bytes option list \<Rightarrow> bytes option list option" where
  "store_shard idx shard xs =
     (let xs' = pad_none (idx + 1) xs in
      if xs' ! idx \<noteq> None then None else Some (xs'[idx := Some shard]))"

abbreviation put_block :: "u32 \<Rightarrow> pending_block \<Rightarrow> fec_decoder \<Rightarrow> fec_decoder" where
  "put_block fid b d \<equiv> d\<lparr>dec_pending := bt_insert fid b (dec_pending d)\<rparr>"

abbreviation present :: "'a option list \<Rightarrow> nat" where
  "present xs \<equiv> length (filter (\<lambda>x. x \<noteq> None) xs)"

text \<open>The part of \<open>add_shard\<close> after the shard has been stored.\<close>

definition try_emit ::
    "'e rs_lib \<Rightarrow> fec_decoder \<Rightarrow> u32 \<Rightarrow> pending_block \<Rightarrow> (fec_decoder \<times> bytes option) option" where
  "try_emit L d fid b =
     (let k = rs_block_size (dec_rs d); m = rs_parity_shards (dec_rs d);
          data_count = present (pb_data b);
          total = data_count + present (pb_parity b);
          cc = unat (pb_chunk_count b) in
      if total \<ge> k \<and> data_count > 0 \<and> cc > 0 then
        let b1 = b\<lparr>pb_data := pad_none cc (pb_data b),
                   pb_parity := pad_none ((cc + k - 1) div k * m) (pb_parity b)\<rparr> in
        if data_count = cc then
          Some (put_block fid (b1\<lparr>pb_state := BlockEmitted\<rparr>)
                  (d\<lparr>dec_stats := (dec_stats d)\<lparr>blocks_emitted_direct := blocks_emitted_direct (dec_stats d) + 1\<rparr>\<rparr>),
                Some (assemble_shards (pb_data b1)))
        else (case rs_reconstruct L (dec_rs d) (pb_data b1) (pb_parity b1) of
                None \<Rightarrow> None
              | Some (data', parity', Inr _) \<Rightarrow>
                  Some (put_block fid (b1\<lparr>pb_data := data', pb_parity := parity', pb_state := BlockEmitted\<rparr>)
                          (d\<lparr>dec_stats := (dec_stats d)\<lparr>blocks_recovered_via_fec :=
                             blocks_recovered_via_fec (dec_stats d) + 1\<rparr>\<rparr>),
                        Some (assemble_shards data'))
              | Some (_, _, Inl _) \<Rightarrow> Some (put_block fid b1 d, None))
      else Some (put_block fid b d, None))"

text \<open>\<open>self.pending.entry(frame_id).or_insert_with(..)\<close>.\<close>

definition block_entry :: "fec_decoder \<Rightarrow> u32 \<Rightarrow> u16 \<Rightarrow> nat \<Rightarrow> fec_decoder \<times> pending_block" where
  "block_entry d fid chunk_count now =
     (case map_of (dec_pending d) fid of
        Some b \<Rightarrow> (d, b)
      | None \<Rightarrow>
          (let b = \<lparr>pb_data = [], pb_parity = [], pb_chunk_count = chunk_count, first_arrival = now,
                    pb_deadline = now + dec_timeout d, pb_state = BlockPending\<rparr>
           in (put_block fid b (d\<lparr>dec_stats := (dec_stats d)\<lparr>blocks_started := blocks_started (dec_stats d) + 1\<rparr>\<rparr>), b)))"

definition add_shard ::
    "'e rs_lib \<Rightarrow> fec_decoder \<Rightarrow> u32 \<Rightarrow> u16 \<Rightarrow> u16 \<Rightarrow> bool \<Rightarrow> bytes \<Rightarrow> nat \<Rightarrow>
     (fec_decoder \<times> bytes option) option" where
  "add_shard L d0 fid chunk_id chunk_count is_parity payload now =
     (let (d, b0) = block_entry d0 fid chunk_count now
      in if pb_state b0 \<noteq> BlockPending then
           Some (d\<lparr>dec_stats := (dec_stats d)\<lparr>late_shards_dropped := late_shards_dropped (dec_stats d) + 1\<rparr>\<rparr>, None)
         else let b = (if \<not> is_parity \<and> chunk_count > pb_chunk_count b0
                       then b0\<lparr>pb_chunk_count := chunk_count\<rparr> else b0) in
           if is_parity then
             (case store_shard (unat chunk_id) payload (pb_parity b) of
                None \<Rightarrow> Some (put_block fid b d, None)
              | Some p \<Rightarrow> try_emit L d fid (b\<lparr>pb_parity := p\<rparr>))
           else
             (case store_shard (unat chunk_id) payload (pb_data b) of
                None \<Rightarrow> Some (put_block fid b d, None)
              | Some ds \<Rightarrow> try_emit L d fid (b\<lparr>pb_data := ds\<rparr>)))"

definition drain_expired :: "fec_decoder \<Rightarrow> nat \<Rightarrow> fec_decoder \<times> u32 list" where
  "drain_expired d now =
     (let expired = map fst (filter (\<lambda>(_, b). pb_state b = BlockPending \<and> now \<ge> pb_deadline b) (dec_pending d)) in
      (d\<lparr>dec_pending := filter (\<lambda>(_, b). pb_state b = BlockPending \<and> \<not> now \<ge> pb_deadline b) (dec_pending d),
         dec_stats := (dec_stats d)\<lparr>blocks_discarded := blocks_discarded (dec_stats d) + of_nat (length expired)\<rparr>\<rparr>,
       expired))"

subsection \<open>The pluggable chunk encoder\<close>

datatype chunk_encoder = EncXor frame_chunker | EncReedSolomon rs_fec

definition chunk_encoder_encode ::
    "'e rs_lib \<Rightarrow> chunk_encoder \<Rightarrow> bytes \<Rightarrow> ('e rs_fec_error, bytes list \<times> bytes list \<times> nat) result option" where
  "chunk_encoder_encode L enc frame =
     (case enc of
        EncXor c \<Rightarrow> Some (Ok (chunk_and_encode c frame))
      | EncReedSolomon rs \<Rightarrow>
          map_option (\<lambda>r. case r of Inl e \<Rightarrow> Err e | Inr e \<Rightarrow> Ok (ef_data e, ef_parity e, ef_original_len e))
            (rs_encode L rs frame))"

subsection \<open>Erasures\<close>

lemma erased_length: "erased xs ys \<Longrightarrow> length ys = length xs"
  by (simp add: erased_def list_all2_lengthD)

lemma erased_take: "erased xs ys \<Longrightarrow> erased (take n xs) (take n ys)"
  by (simp add: erased_def list_all2_takeI)

lemma erased_drop: "erased xs ys \<Longrightarrow> erased (drop n xs) (drop n ys)"
  by (simp add: erased_def list_all2_dropI)

lemma erased_append: "erased xs ys \<Longrightarrow> erased xs' ys' \<Longrightarrow> erased (xs @ xs') (ys @ ys')"
  by (simp add: erased_def list_all2_appendI)

lemma missing_append [simp]: "missing (xs @ ys) = missing xs + missing ys"
  by (simp add: missing_def)

lemma missing_take_drop: "missing (take n xs) + missing (drop n xs) = missing xs"
  by (metis append_take_drop_id missing_append)

lemma fill_erased:
  assumes "erased seg (take (length seg) (drop lo xs))" "lo + length seg \<le> length xs"
  shows "fill_missing lo (map Some seg) xs n =
           (take lo xs @ map Some seg @ drop (lo + length seg) xs,
            n + missing (take (length seg) (drop lo xs)))"
  using assms
proof (induction seg arbitrary: lo xs n)
  case Nil
  then show ?case by (simp add: missing_def)
next
  case (Cons s seg)
  obtain x where x: "drop lo xs = x # drop (Suc lo) xs" "x = xs ! lo"
    using Cons.prems(2) by (simp add: Cons_nth_drop_Suc)
  have e: "x = None \<or> x = Some s" "erased seg (take (length seg) (drop (Suc lo) xs))"
    using Cons.prems(1) by (simp_all add: erased_def x(1))
  have up: "take (Suc lo) (xs[lo := Some s]) = take lo xs @ [Some s]"
    using Cons.prems(2) by (simp add: take_Suc_conv_app_nth)
  have keep: "xs ! lo = Some s \<Longrightarrow> xs[lo := Some s] = xs" by (metis list_update_id)
  have "fill_missing (Suc lo) (map Some seg) (xs[lo := Some s]) j =
      (take (Suc lo) (xs[lo := Some s]) @ map Some seg @ drop (Suc lo + length seg) (xs[lo := Some s]),
       j + missing (take (length seg) (drop (Suc lo) (xs[lo := Some s]))))" for j
    using Cons.IH[of "Suc lo" "xs[lo := Some s]" j] Cons.prems(2) e(2) by simp
  then show ?case using e(1) keep up by (auto simp: x missing_def)
qed

lemma pad_none_id [simp]: "n \<le> length xs \<Longrightarrow> pad_none n xs = xs"
  by (simp add: pad_none_def)

subsection \<open>Blocks of a code\<close>

text \<open>A list of encoded blocks, each a code word of the library.\<close>

definition code_word :: "'e rs_lib \<Rightarrow> nat \<Rightarrow> nat \<Rightarrow> bytes list \<times> bytes list \<Rightarrow> bool" where
  "code_word L k m w \<longleftrightarrow> length (fst w) = k \<and> length (snd w) = m \<and>
     (\<forall>sh. erased (fst w @ snd w) sh \<longrightarrow>
        (if missing sh \<le> m then lib_reconstruct L k m sh = Ok (map Some (fst w @ snd w))
         else \<exists>e. lib_reconstruct L k m sh = Err e))"

abbreviation seg :: "nat \<Rightarrow> nat \<Rightarrow> 'a list \<Rightarrow> 'a list" where
  "seg n i xs \<equiv> take n (drop (i * n) xs)"

lemma concat_seg:
  assumes "\<forall>x \<in> set xs. length x = n" "i < length xs"
  shows "seg n i (concat xs) = xs ! i"
  using assms
proof (induction xs arbitrary: i)
  case (Cons x xs)
  then show ?case by (cases i) auto
qed simp

lemma length_concat_uniform: "\<forall>x \<in> set xs. length x = n \<Longrightarrow> length (concat xs) = length xs * n"
  by (induction xs) auto

definition lost_in :: "nat \<Rightarrow> nat \<Rightarrow> bytes option list \<Rightarrow> bytes option list \<Rightarrow> nat \<Rightarrow> nat" where
  "lost_in k m d p i = missing (seg k i d) + missing (seg m i p)"

lemma reconstruct_block_full:
  assumes "i * k + k \<le> length data" "i * m + m \<le> length parity"
  shows "reconstruct_block L \<lparr>rs_block_size = k, rs_parity_shards = m\<rparr> i data parity n =
      (case lib_reconstruct L k m (seg k i data @ seg m i parity) of
         Inl e \<Rightarrow> Some (data, parity, Err (Library e))
       | Inr sh \<Rightarrow> (let (data', n') = fill_missing (i * k) (take k sh) data n;
                       (parity', n'') = fill_missing (i * m) (take m (drop k sh)) parity n'
                   in Some (data', parity', Ok n'')))"
proof -
  have "min (i * k + k) (length data) = i * k + k" "min (i * m + m) (length parity) = i * m + m"
    "min (length data - i * k) k = k" "min (length parity - i * m) m = m" using assms by simp_all
  then show ?thesis by (simp add: reconstruct_block_def Let_def split: sum.split)
qed

lemma reconstruct_from:
  assumes cw: "\<forall>w \<in> set ws. code_word L k m w" and km: "0 < k" "0 < m"
    and rs: "rs = \<lparr>rs_block_size = k, rs_parity_shards = m\<rparr>"
    and D: "D = concat (map fst ws)" and P: "P = concat (map snd ws)"
    and d: "erased D d" and p: "erased P p"
  shows "j \<le> length ws \<Longrightarrow>
    (if \<forall>i \<in> {j..<length ws}. lost_in k m d p i \<le> m
     then reconstruct_blocks L rs [j..<length ws] (map Some (take (j * k) D) @ drop (j * k) d)
            (map Some (take (j * m) P) @ drop (j * m) p) n =
          Some (map Some D, map Some P, Ok (n + missing (drop (j * k) d) + missing (drop (j * m) p)))
     else \<exists>d' p' e. reconstruct_blocks L rs [j..<length ws] (map Some (take (j * k) D) @ drop (j * k) d)
            (map Some (take (j * m) P) @ drop (j * m) p) n = Some (d', p', Err (Library e)))"
proof (induction "length ws - j" arbitrary: j n)
  case 0
  have "length D = length ws * k" "length P = length ws * m"
    using cw by (auto simp: D P code_word_def length_concat_uniform[of _ k] length_concat_uniform[of _ m])
  with 0 d p show ?case by (simp add: erased_length missing_def)
next
  case (Suc x)
  then have j: "j < length ws" by simp
  let ?data = "map Some (take (j * k) D) @ drop (j * k) d"
  let ?par = "map Some (take (j * m) P) @ drop (j * m) p"
  have len: "length D = length ws * k" "length P = length ws * m"
    using cw by (auto simp: D P code_word_def length_concat_uniform[of _ k] length_concat_uniform[of _ m])
  have le: "j * k + k \<le> length ws * k" "j * m + m \<le> length ws * m"
    using j mult_le_mono1[of "Suc j" "length ws" k] mult_le_mono1[of "Suc j" "length ws" m] by auto
  have w: "code_word L k m (ws ! j)" using cw j by simp
  have sD: "seg k j D = fst (ws ! j)" "seg m j P = snd (ws ! j)"
    using concat_seg[of "map fst ws" k j] concat_seg[of "map snd ws" m j] cw j
    by (auto simp: D P code_word_def)
  have ld: "length d = length ws * k" "length p = length ws * m"
    using d p len by (simp_all add: erased_length)
  have lens: "length ?data = length ws * k" "length ?par = length ws * m"
    "length (take (j * k) D) = j * k" "length (take (j * m) P) = j * m"
    using le len ld by auto
  have segs: "take k (drop (j * k) ?data) = seg k j d" "take m (drop (j * m) ?par) = seg m j p"
    using lens by simp_all
  have er: "erased (fst (ws ! j)) (seg k j d)" "erased (snd (ws ! j)) (seg m j p)"
    using erased_take[OF erased_drop[OF d]] erased_take[OF erased_drop[OF p]] by (simp_all flip: sD)
  have lw: "length (fst (ws ! j)) = k" "length (snd (ws ! j)) = m" using w by (simp_all add: code_word_def)
  have sl: "length (seg k j d) = k" "length (seg m j p) = m" using er[THEN erased_length] lw by simp_all
  have bounds: "j * k + k \<le> length ?data" "j * m + m \<le> length ?par" using lens le by linarith+
  have unf: "reconstruct_blocks L rs [j..<length ws] ?data ?par n =
      (case lib_reconstruct L k m (seg k j d @ seg m j p) of
         Inl e \<Rightarrow> Some (?data, ?par, Err (Library e))
       | Inr sh \<Rightarrow> (let (data', n') = fill_missing (j * k) (take k sh) ?data n;
                       (parity', n'') = fill_missing (j * m) (take m (drop k sh)) ?par n'
                   in reconstruct_blocks L rs [Suc j..<length ws] data' parity' n''))"
    unfolding upt_conv_Cons[OF j] reconstruct_blocks.simps rs reconstruct_block_full[OF bounds] segs
    by (simp split: sum.split prod.split)
  have res: "if lost_in k m d p j \<le> m
      then lib_reconstruct L k m (seg k j d @ seg m j p) = Ok (map Some (fst (ws ! j) @ snd (ws ! j)))
      else \<exists>e. lib_reconstruct L k m (seg k j d @ seg m j p) = Err e"
    using w erased_append[OF er] by (simp add: code_word_def lost_in_def)
  show ?case
  proof (cases "lost_in k m d p j \<le> m")
    case False
    with res unf j show ?thesis by (auto intro!: bexI[of _ j])
  next
    case True
    have f1: "fill_missing (j * k) (map Some (fst (ws ! j))) ?data n =
        (map Some (take (Suc j * k) D) @ drop (Suc j * k) d, n + missing (seg k j d))"
      using fill_erased[of "fst (ws ! j)" "j * k" ?data n] er(1) lw(1) lens le(1) segs(1)
      by (simp add: sD(1)[symmetric] take_add add.commute[of k])
    have f2: "fill_missing (j * m) (map Some (snd (ws ! j))) ?par n' =
        (map Some (take (Suc j * m) P) @ drop (Suc j * m) p, n' + missing (seg m j p))" for n'
      using fill_erased[of "snd (ws ! j)" "j * m" ?par n'] er(2) lw(2) lens le(2) segs(2)
      by (simp add: sD(2)[symmetric] take_add add.commute[of m])
    have step: "reconstruct_blocks L rs [j..<length ws] ?data ?par n =
        reconstruct_blocks L rs [Suc j..<length ws]
          (map Some (take (Suc j * k) D) @ drop (Suc j * k) d)
          (map Some (take (Suc j * m) P) @ drop (Suc j * m) p) (n + missing (seg k j d) + missing (seg m j p))"
      using unf res True lw f1 f2 by simp
    have cnt: "n + missing (drop (j * k) d) + missing (drop (j * m) p) =
        n + missing (seg k j d) + missing (seg m j p) + missing (drop (Suc j * k) d) + missing (drop (Suc j * m) p)"
      using missing_take_drop[of k "drop (j * k) d"] missing_take_drop[of m "drop (j * m) p"]
      by (simp add: add.commute)
    have all: "(\<forall>i \<in> {j..<length ws}. lost_in k m d p i \<le> m) \<longleftrightarrow> (\<forall>i \<in> {Suc j..<length ws}. lost_in k m d p i \<le> m)"
      using True j by (auto simp: Suc_le_eq nat_less_le)
    show ?thesis
      unfolding step all cnt by (rule Suc.hyps(1)) (use Suc.hyps(2) j in auto)
  qed
qed

subsection \<open>Encoded frames\<close>

lemma concat_pad_chunks:
  "0 < n \<Longrightarrow> \<exists>r. concat (map (\<lambda>c. c @ replicate (n - length c) z) (chunks_of n xs)) = xs @ replicate r z"
proof (induction n xs rule: chunks_of.induct)
  case (1 n xs)
  show ?case
  proof (cases "length xs \<le> n")
    case True
    with 1 show ?thesis by (cases "xs = []") (auto simp: chunks_of_step[of n xs])
  next
    case False
    then have ne: "xs \<noteq> []" by auto
    with 1 obtain r where "concat (map (\<lambda>c. c @ replicate (n - length c) z) (chunks_of n (drop n xs))) =
        drop n xs @ replicate r z" by auto
    with 1 False ne have "concat (map (\<lambda>c. c @ replicate (n - length c) z) (chunks_of n xs)) = xs @ replicate r z"
      by (simp add: chunks_of_step[of n xs] flip: append_assoc)
    then show ?thesis by blast
  qed
qed

lemma length_chunks_of_ceil: "0 < n \<Longrightarrow> length (chunks_of n xs) = (length xs + n - 1) div n"
proof (induction n xs rule: chunks_of.induct)
  case (1 n xs)
  show ?case
  proof (cases "xs = []")
    case False
    with 1 have "length (chunks_of n xs) = Suc ((length xs - n + n - 1) div n)"
      by (simp add: chunks_of_step[of n xs])
    also have "\<dots> = (length xs + n - 1) div n"
    proof (cases "length xs \<le> n")
      case True
      obtain l where l: "length xs = Suc l" using False by (cases xs) auto
      with True have "l div n = 0" by simp
      with l True 1(2) show ?thesis by (simp add: div_add_self2)
    next
      case False
      with 1(2) show ?thesis by (simp add: le_div_geq)
    qed
    finally show ?thesis .
  qed (use 1 in simp)
qed

lemma map_nth_range: "map (\<lambda>i. xs ! i) [a..<min (a + n) (length xs)] = take n (drop a xs)"
  by (rule nth_equalityI) (auto simp: less_diff_conv add.commute)

lemma rs_blocks:
  assumes "0 < rs_block_size rs"
  shows "map (block_shards rs n fc) [0..<(length fc + rs_block_size rs - 1) div rs_block_size rs] =
         map (\<lambda>c. (c @ replicate (rs_block_size rs - length c) (replicate n 0)) @
                  replicate (rs_parity_shards rs) (replicate n 0)) (chunks_of (rs_block_size rs) fc)"
    (is "map ?f _ = map ?g _")
proof (rule nth_equalityI)
  fix i assume "i < length (map ?f [0..<(length fc + rs_block_size rs - 1) div rs_block_size rs])"
  then have i: "i < length (chunks_of (rs_block_size rs) fc)" using assms by (simp add: length_chunks_of_ceil)
  then have lt: "i * rs_block_size rs < length fc" using assms by (simp add: length_chunks_of)
  have pad: "i * rs_block_size rs + rs_block_size rs - min (i * rs_block_size rs + rs_block_size rs) (length fc) =
      rs_block_size rs - length (seg (rs_block_size rs) i fc)" using lt by (auto simp: min_def)
  have "?f i = ?g (chunks_of (rs_block_size rs) fc ! i)"
    unfolding block_shards_def Let_def map_nth_range nth_chunks_of[OF assms lt] pad by simp
  with i assms show "map ?f [0..<(length fc + rs_block_size rs - 1) div rs_block_size rs] ! i =
      map ?g (chunks_of (rs_block_size rs) fc) ! i"
    by (simp add: length_chunks_of_ceil)
qed (use assms in \<open>simp add: length_chunks_of_ceil\<close>)

lemma encode_blocks_code:
  assumes "erasure_code L k m" "0 < n"
    and "\<forall>b \<in> set bs. length b = k \<and> (\<forall>s \<in> set b. length s = n)"
  shows "\<exists>ws. encode_blocks L \<lparr>rs_block_size = k, rs_parity_shards = m\<rparr> (map (\<lambda>b. b @ replicate m (replicate n 0)) bs) =
            Ok (map (\<lambda>w. fst w @ snd w) ws) \<and> map fst ws = bs \<and> (\<forall>w \<in> set ws. code_word L k m w)"
  using assms(3)
proof (induction bs)
  case (Cons b bs)
  then obtain ws where ws: "encode_blocks L \<lparr>rs_block_size = k, rs_parity_shards = m\<rparr>
      (map (\<lambda>b. b @ replicate m (replicate n 0)) bs) = Ok (map (\<lambda>w. fst w @ snd w) ws)"
    "map fst ws = bs" "\<forall>w \<in> set ws. code_word L k m w" by auto
  have "\<forall>s \<in> set (b @ replicate m (replicate n 0)). length s = n" "length b = k" using Cons.prems by auto
  with assms(1,2) obtain ps where ps: "length ps = m"
    "lib_encode L k m (b @ replicate m (replicate n 0)) = Ok (b @ ps)"
    "\<forall>sh. erased (b @ ps) sh \<longrightarrow> (if missing sh \<le> m then lib_reconstruct L k m sh = Ok (map Some (b @ ps))
               else \<exists>e. lib_reconstruct L k m sh = Err e)"
    unfolding erasure_code_def by (metis length_replicate)
  then have "code_word L k m (b, ps)" using Cons.prems by (simp add: code_word_def)
  with ps(2) ws show ?case by (intro exI[of _ "(b, ps) # ws"]) simp
qed simp

text \<open>An encoded frame is a list of code words whose data shards spell the frame and zero padding.\<close>

definition coded :: "'e rs_lib \<Rightarrow> rs_fec \<Rightarrow> bytes \<Rightarrow> encoded_frame \<Rightarrow> (bytes list \<times> bytes list) list \<Rightarrow> bool" where
  "coded L rs frame e ws \<longleftrightarrow> ws \<noteq> [] \<and>
     (\<forall>w \<in> set ws. code_word L (rs_block_size rs) (rs_parity_shards rs) w) \<and>
     ef_data e = concat (map fst ws) \<and> ef_parity e = concat (map snd ws) \<and>
     ef_original_len e = length frame \<and> take (length frame) (concat (ef_data e)) = frame"

lemma shard_len_pos: "0 < l \<Longrightarrow> 0 < rs_block_size rs \<Longrightarrow> 0 < shard_len_for rs l"
proof -
  assume a: "0 < l" "0 < rs_block_size rs"
  define t where "t = max ((l + TARGET_CHUNK_BYTES - 1) div TARGET_CHUNK_BYTES) (rs_block_size rs)"
  have "t \<le> l + t - 1" "0 < t" using a by (auto simp: t_def less_max_iff_disj)
  then have "0 < (l + t - 1) div t" by (simp add: div_greater_zero_iff)
  moreover have "shard_len_for rs l = ((l + t - 1) div t + 15) div 16 * 16"
    using a(1) by (simp add: shard_len_for_def t_def Let_def)
  ultimately show ?thesis by (simp add: div_greater_zero_iff Suc_le_eq)
qed

lemma length_resize_zero [simp]: "length (resize_zero n v) = n"
  by (simp add: resize_zero_def)

lemma rs_encode_coded:
  assumes code: "erasure_code L k m" and new: "rs_fec_new L k m = Ok rs" and m: "0 < m" and f: "frame \<noteq> []"
  shows "\<exists>e ws. rs_encode L rs frame = Some (Ok e) \<and> coded L rs frame e ws"
proof -
  have k: "0 < k" and rs: "rs = \<lparr>rs_block_size = k, rs_parity_shards = m\<rparr>" and lib: "lib_new L k m = Ok ()"
    using new m code by (auto simp: rs_fec_new_def erasure_code_def Let_def split: if_splits)
  let ?n = "shard_len_for rs (length frame)"
  let ?fc = "map (resize_zero ?n) (chunks_of ?n frame)"
  let ?bs = "map (\<lambda>c. c @ replicate (k - length c) (replicate ?n 0)) (chunks_of k ?fc)"
  have n: "0 < ?n" using f k by (simp add: shard_len_pos rs)
  have fc: "?fc = map (\<lambda>c. c @ replicate (?n - length c) 0) (chunks_of ?n frame)"
  proof (rule map_cong[OF refl])
    fix c assume "c \<in> set (chunks_of ?n frame)"
    then have "length c \<le> ?n" by (rule chunks_of_le[OF n])
    then show "resize_zero ?n c = c @ replicate (?n - length c) 0" by (simp add: resize_zero_def)
  qed
  have fc_ne: "?fc \<noteq> []" using n f by (simp add: chunks_of_Nil_iff)
  obtain r where r: "concat ?fc = frame @ replicate r 0" using concat_pad_chunks[OF n, of 0 frame] unfolding fc by blast
  obtain r' where r': "concat ?bs = ?fc @ replicate r' (replicate ?n 0)" using concat_pad_chunks[OF k, of "replicate ?n 0" ?fc] by blast
  have len: "\<forall>b \<in> set ?bs. length b = k \<and> (\<forall>s \<in> set b. length s = ?n)"
  proof (intro ballI conjI)
    fix b assume "b \<in> set ?bs"
    then obtain c where c: "c \<in> set (chunks_of k ?fc)" "b = c @ replicate (k - length c) (replicate ?n 0)" by auto
    then show "length b = k" using chunks_of_le[OF k c(1)] by simp
    have "set c \<subseteq> set ?fc" using c(1) concat_chunks_of[OF k, of ?fc] by (metis UN_upper set_concat)
    then show "length s = ?n" if "s \<in> set b" for s
      using that by (auto simp: c(2))
  qed
  obtain ws where ws: "encode_blocks L rs (map (\<lambda>b. b @ replicate m (replicate ?n 0)) ?bs) =
      Ok (map (\<lambda>w. fst w @ snd w) ws)" "map fst ws = ?bs" "\<forall>w \<in> set ws. code_word L k m w"
    using encode_blocks_code[OF code n len] unfolding rs by blast
  have blocks: "map (block_shards rs ?n ?fc) [0..<(length ?fc + k - 1) div k] =
      map (\<lambda>b. b @ replicate m (replicate ?n 0)) ?bs"
    using rs_blocks[of rs ?n ?fc] k by (simp add: rs)
  have out: "map (take k) (map (\<lambda>w. fst w @ snd w) ws) = map fst ws"
    "map (\<lambda>b. take m (drop k b)) (map (\<lambda>w. fst w @ snd w) ws) = map snd ws"
    using ws(3) by (auto simp: code_word_def)
  let ?e = "\<lparr>ef_data = concat (map fst ws), ef_parity = concat (map snd ws), ef_shard_len = ?n, ef_original_len = length frame\<rparr>"
  have "rs_encode L rs frame = Some (Ok ?e)"
    using n m fc_ne lib ws(1) blocks out unfolding rs_encode_def Let_def
    by (simp add: rs del: map_map)
  moreover have "take (length frame) (concat (concat (map fst ws))) = frame"
    by (simp add: ws(2) r' r)
  moreover have "ws \<noteq> []" using ws(2) fc_ne k by (auto simp: chunks_of_Nil_iff)
  ultimately show ?thesis using ws(3) by (auto simp: coded_def rs intro!: exI[of _ ?e] exI[of _ ws])
qed

lemma coded_lengths:
  assumes "coded L rs frame e ws"
  shows "length (ef_data e) = length ws * rs_block_size rs" "length (ef_parity e) = length ws * rs_parity_shards rs"
proof -
  have "\<forall>x \<in> set (map fst ws). length x = rs_block_size rs" "\<forall>x \<in> set (map snd ws). length x = rs_parity_shards rs"
    using assms by (auto simp: coded_def code_word_def)
  then show "length (ef_data e) = length ws * rs_block_size rs" "length (ef_parity e) = length ws * rs_parity_shards rs"
    using assms length_concat_uniform[of "map fst ws"] length_concat_uniform[of "map snd ws"]
    by (simp_all add: coded_def)
qed

lemma coded_reconstruct:
  assumes c: "coded L rs frame e ws" and km: "0 < rs_block_size rs" "0 < rs_parity_shards rs"
    and lib: "lib_new L (rs_block_size rs) (rs_parity_shards rs) = Ok ()"
    and d: "erased (ef_data e) d" and p: "erased (ef_parity e) p"
  shows "if \<forall>i < length ws. lost_in (rs_block_size rs) (rs_parity_shards rs) d p i \<le> rs_parity_shards rs
     then rs_reconstruct L rs d p = Some (map Some (ef_data e), map Some (ef_parity e), Ok (missing d + missing p))
     else \<exists>d' p' x. rs_reconstruct L rs d p = Some (d', p', Err (Library x))"
proof -
  have len: "length d = length ws * rs_block_size rs" using erased_length[OF d] coded_lengths[OF c] by simp
  have "ws \<noteq> []" using c by (simp add: coded_def)
  then have "d \<noteq> []" using len km by (cases ws) auto
  moreover have "(length d + rs_block_size rs - 1) div rs_block_size rs = length ws"
    using km div_mult_self3[of "rs_block_size rs" "length ws" "rs_block_size rs - 1"] by (simp add: len)
  ultimately have unf: "rs_reconstruct L rs d p = reconstruct_blocks L rs [0..<length ws] d p 0"
    using km lib by (simp add: rs_reconstruct_def)
  have "\<forall>w \<in> set ws. code_word L (rs_block_size rs) (rs_parity_shards rs) w"
    "ef_data e = concat (map fst ws)" "ef_parity e = concat (map snd ws)" using c by (simp_all add: coded_def)
  from reconstruct_from[OF this(1) km _ this(2,3) d p, of rs 0 0] show ?thesis
    unfolding unf by (auto simp: atLeast0LessThan split: if_splits)
qed

subsection \<open>Feeding the shards of a frame to the decoder\<close>

text \<open>Shard \<open>i\<close> of an encoded frame arrives at time \<open>now\<close>: the header fields are those the sender
  writes (\<open>send_frame\<close>). The result lists the access units handed out.\<close>

fun feed ::
    "'e rs_lib \<Rightarrow> u32 \<Rightarrow> encoded_frame \<Rightarrow> fec_decoder \<Rightarrow> (bool \<times> nat \<times> nat) list \<Rightarrow>
     (fec_decoder \<times> bytes list) option" where
  "feed L fid e d [] = Some (d, [])"
| "feed L fid e d ((is_parity, i, now) # evs) =
     (case add_shard L d fid (of_nat i) (of_nat (length (ef_data e))) is_parity
             ((if is_parity then ef_parity e else ef_data e) ! i) now of
        None \<Rightarrow> None
      | Some (d', out) \<Rightarrow>
          map_option (\<lambda>(d'', outs). (d'', case out of Some b \<Rightarrow> b # outs | None \<Rightarrow> outs)) (feed L fid e d' evs))"

definition view :: "(nat \<Rightarrow> bool) \<Rightarrow> 'a list \<Rightarrow> 'a option list" where
  "view R xs = map (\<lambda>i. if R i then Some (xs ! i) else None) [0..<length xs]"

lemma erased_view: "erased xs (view R xs)"
  by (auto simp: erased_def view_def list_all2_conv_all_nth)

lemma length_view [simp]: "length (view R xs) = length xs"
  by (simp add: view_def)

lemma view_all: "(\<And>i. i < length xs \<Longrightarrow> R i) \<Longrightarrow> view R xs = map Some xs"
  by (rule nth_equalityI) (auto simp: view_def)

lemma missing_seg_view:
  assumes "b * n + n \<le> length xs"
  shows "missing (seg n b (view R xs)) + length (filter R [b * n..<b * n + n]) = n"
proof -
  have "seg n b (view R xs) = map (\<lambda>i. if R i then Some (xs ! i) else None) [b * n..<b * n + n]"
    using assms by (intro nth_equalityI) (auto simp: view_def)
  moreover have "filter (\<lambda>x. x = None) (map (\<lambda>i. if R i then Some (xs ! i) else None) is) =
      map (\<lambda>i. None) (filter (\<lambda>i. \<not> R i) is)" for "is"
    by (induction "is") auto
  ultimately show ?thesis using sum_length_filter_compl[of R "[b * n..<b * n + n]"]
    by (simp add: missing_def)
qed

text \<open>Enough of the frame has arrived: some data shard, and \<open>k\<close> shards of every block.\<close>

definition frame_recoverable :: "rs_fec \<Rightarrow> encoded_frame \<Rightarrow> (bool \<Rightarrow> nat \<Rightarrow> bool) \<Rightarrow> bool" where
  "frame_recoverable rs e R \<longleftrightarrow>
     (let k = rs_block_size rs; m = rs_parity_shards rs in
      (\<exists>i \<in> set [0..<length (ef_data e)]. R False i) \<and>
      (\<forall>b \<in> set [0..<length (ef_data e) div k].
         k \<le> length (filter (R False) [b * k..<b * k + k]) + length (filter (R True) [b * m..<b * m + m])))"

lemma recoverable_iff:
  assumes c: "coded L rs frame e ws" and km: "0 < rs_block_size rs" "0 < rs_parity_shards rs"
  shows "frame_recoverable rs e R \<longleftrightarrow> (\<exists>i < length (ef_data e). R False i) \<and>
    (\<forall>i < length ws. lost_in (rs_block_size rs) (rs_parity_shards rs) (view (R False) (ef_data e))
       (view (R True) (ef_parity e)) i \<le> rs_parity_shards rs)"
proof -
  let ?k = "rs_block_size rs" and ?m = "rs_parity_shards rs"
  note len = coded_lengths[OF c]
  have "?k \<le> length (filter (R False) [b * ?k..<b * ?k + ?k]) + length (filter (R True) [b * ?m..<b * ?m + ?m]) \<longleftrightarrow>
      lost_in ?k ?m (view (R False) (ef_data e)) (view (R True) (ef_parity e)) b \<le> ?m" if b: "b < length ws" for b
  proof -
    have "b * ?k + ?k \<le> length (ef_data e)" "b * ?m + ?m \<le> length (ef_parity e)"
      using mult_le_mono1[of "Suc b" "length ws"] b by (simp_all add: len add.commute)
    from this[THEN missing_seg_view, of "R False"] this[THEN missing_seg_view, of "R True"]
    show ?thesis unfolding lost_in_def by linarith
  qed
  moreover have "length (ef_data e) div ?k = length ws" using km len by simp
  ultimately show ?thesis by (auto simp: frame_recoverable_def Let_def)
qed

subsection \<open>What the decoder holds of a frame\<close>

definition rx_block :: "encoded_frame \<Rightarrow> (bool \<Rightarrow> nat \<Rightarrow> bool) \<Rightarrow> pending_block \<Rightarrow> bool" where
  "rx_block e R b \<longleftrightarrow> pb_state b = BlockPending \<and> pb_chunk_count b = of_nat (length (ef_data e)) \<and>
     length (pb_data b) \<le> length (ef_data e) \<and> pad_none (length (ef_data e)) (pb_data b) = view (R False) (ef_data e) \<and>
     length (pb_parity b) \<le> length (ef_parity e) \<and> pad_none (length (ef_parity e)) (pb_parity b) = view (R True) (ef_parity e)"

lemma present_missing: "present xs + missing xs = length xs"
  unfolding missing_def using sum_length_filter_compl[of "\<lambda>x. x = None" xs] by simp

lemma present_pad: "present (pad_none n xs) = present xs"
  by (simp add: pad_none_def)

lemma present_take: "present (take n xs) \<le> present xs"
  by (metis append_take_drop_id filter_append le_add1 length_append)

lemma present_view_full: "present (view R xs) = length xs \<Longrightarrow> view R xs = map Some xs"
proof -
  assume full: "present (view R xs) = length xs"
  have "R i" if i: "i < length xs" for i
  proof (rule ccontr)
    assume "\<not> R i"
    then have "None \<in> set (view R xs)" using i by (auto simp: view_def)
    from length_filter_less[OF this, of "\<lambda>x. x \<noteq> None"] show False using full by simp
  qed
  then show ?thesis by (rule view_all)
qed

lemma present_view_0: "present (view R xs) = 0 \<longleftrightarrow> (\<forall>i < length xs. \<not> R i)"
  by (auto simp: view_def filter_empty_conv)

lemma store_shard_view:
  assumes "length xs \<le> length ys" "pad_none (length ys) xs = view R ys" "i < length ys"
  shows "if R i then store_shard i (ys ! i) xs = None
         else \<exists>xs'. store_shard i (ys ! i) xs = Some xs' \<and> length xs' \<le> length ys \<and>
                pad_none (length ys) xs' = view (R(i := True)) ys"
proof -
  have nth: "pad_none n xs ! j = view R ys ! j" if "j < n" "n \<le> length ys" for n j
  proof -
    have "pad_none n xs ! j = pad_none (length ys) xs ! j"
      using that assms(1) by (auto simp: pad_none_def nth_append)
    then show ?thesis using assms(2) by simp
  qed
  have v: "view R ys ! i = (if R i then Some (ys ! i) else None)" using assms(3) by (simp add: view_def)
  let ?p = "pad_none (i + 1) xs"
  have len: "length ?p = max (i + 1) (length xs)" by (simp add: pad_none_def)
  have "pad_none (length ys) (?p[i := Some (ys ! i)]) = view (R(i := True)) ys"
  proof (rule nth_equalityI)
    fix j assume "j < length (pad_none (length ys) (?p[i := Some (ys ! i)]))"
    then have j: "j < length ys" using len assms(1,3) by (auto simp: pad_none_def)
    have "view R ys ! j = pad_none (length ys) ?p ! j"
      using assms(2)[symmetric] j by (auto simp: pad_none_def nth_append)
    with j len assms(3) show "pad_none (length ys) (?p[i := Some (ys ! i)]) ! j = view (R(i := True)) ys ! j"
      by (auto simp: pad_none_def nth_append nth_list_update view_def split: if_splits)
  qed (use assms len in \<open>auto simp: pad_none_def\<close>)
  moreover have "length (?p[i := Some (ys ! i)]) \<le> length ys" using len assms by simp
  ultimately show ?thesis
    using nth[of i "i + 1"] v assms(3) by (auto simp: store_shard_def Let_def)
qed

lemma assemble_full [simp]: "assemble_shards (map Some xs) = concat xs"
  by (simp add: assemble_shards_def comp_def)

lemma try_emit_step:
  assumes c: "coded L rs frame e ws" and km: "0 < rs_block_size rs" "0 < rs_parity_shards rs"
    and lib: "lib_new L (rs_block_size rs) (rs_parity_shards rs) = Ok ()"
    and size: "length (ef_data e) < 2 ^ 16"
    and b: "rx_block e R b" and d: "dec_rs d = rs"
  shows "\<exists>d' b'. dec_rs d' = rs \<and> map_of (dec_pending d') fid = Some b' \<and>
    (if frame_recoverable rs e R
     then try_emit L d fid b = Some (d', Some (concat (ef_data e))) \<and> pb_state b' = BlockEmitted
     else try_emit L d fid b = Some (d', None) \<and> rx_block e R b')"
proof -
  let ?k = "rs_block_size rs" and ?m = "rs_parity_shards rs"
  let ?D = "view (R False) (ef_data e)" and ?P = "view (R True) (ef_parity e)"
  note len = coded_lengths[OF c]
  note rec = recoverable_iff[OF c km, of R]
  have ws: "0 < length ws" using c by (simp add: coded_def)
  have cc: "unat (pb_chunk_count b) = length (ef_data e)"
    using b size by (simp add: rx_block_def unat_of_nat take_bit_nat_eq_self)
  have cc0: "0 < length (ef_data e)" using ws km by (simp add: len)
  have blocks: "(length (ef_data e) + ?k - 1) div ?k * ?m = length (ef_parity e)"
    using km div_mult_self3[of ?k "length ws" "?k - 1"] by (simp add: len)
  have pads: "pad_none (length (ef_data e)) (pb_data b) = ?D" "pad_none (length (ef_parity e)) (pb_parity b) = ?P"
    using b by (simp_all add: rx_block_def)
  have counts: "present (pb_data b) = present ?D" "present (pb_parity b) = present ?P"
    by (simp_all only: pads[symmetric] present_pad)
  let ?go = "present ?D + present ?P \<ge> ?k \<and> present ?D > 0"
  have enough: "?go" if r: "frame_recoverable rs e R"
  proof -
    have "lost_in ?k ?m ?D ?P 0 \<le> ?m" using r ws rec by blast
    moreover have "length (take ?k ?D) = ?k" "length (take ?m ?P) = ?m" using ws by (cases ws; simp add: len)+
    ultimately have "?k \<le> present (take ?k ?D) + present (take ?m ?P)"
      using present_missing[of "take ?k ?D"] present_missing[of "take ?m ?P"]
      unfolding lost_in_def mult_0 drop_0 by linarith
    moreover have "present ?D > 0" using r rec present_view_0[of "R False" "ef_data e"] by auto
    ultimately show ?thesis using present_take[of ?k ?D] present_take[of ?m ?P] by linarith
  qed
  note unf = try_emit_def[of L d fid b, unfolded Let_def d cc counts blocks pads]
  show ?thesis
  proof (cases ?go)
    case False
    then have "try_emit L d fid b = Some (put_block fid b d, None)" "\<not> frame_recoverable rs e R"
      using unf enough by auto
    then show ?thesis using b d by (intro exI[of _ "put_block fid b d"] exI[of _ b]) simp
  next
    case go: True
    let ?b1 = "b\<lparr>pb_data := ?D, pb_parity := ?P\<rparr>"
    have b1: "rx_block e R ?b1" using b by (simp add: rx_block_def)
    show ?thesis
    proof (cases "present ?D = length (ef_data e)")
      case True
      have full: "?D = map Some (ef_data e)" using present_view_full True by metis
      have "missing (seg ?k i ?D) = 0" "missing (seg ?m i ?P) \<le> ?m" for i
        by (simp add: full missing_def take_map drop_map filter_map comp_def)
           (metis length_filter_le length_take min.bounded_iff missing_def)
      then have "frame_recoverable rs e R"
        using rec go present_view_0[of "R False" "ef_data e"] unfolding lost_in_def by auto
      then show ?thesis using go cc0 True unf d full
        by (intro exI[of _ "put_block fid (?b1\<lparr>pb_state := BlockEmitted\<rparr>)
              (d\<lparr>dec_stats := (dec_stats d)\<lparr>blocks_emitted_direct := blocks_emitted_direct (dec_stats d) + 1\<rparr>\<rparr>)"]) simp
    next
      case notfull: False
      have nz: "\<exists>i < length (ef_data e). R False i" using go present_view_0[of "R False" "ef_data e"] by auto
      note step = coded_reconstruct[OF c km lib erased_view[of _ "R False"] erased_view[of _ "R True"]]
      have unf2: "try_emit L d fid b = (case rs_reconstruct L rs ?D ?P of
          None \<Rightarrow> None
        | Some (data', parity', Inr _) \<Rightarrow>
            Some (put_block fid (?b1\<lparr>pb_data := data', pb_parity := parity', pb_state := BlockEmitted\<rparr>)
                    (d\<lparr>dec_stats := (dec_stats d)\<lparr>blocks_recovered_via_fec := blocks_recovered_via_fec (dec_stats d) + 1\<rparr>\<rparr>),
                  Some (assemble_shards data'))
        | Some (_, _, Inl _) \<Rightarrow> Some (put_block fid ?b1 d, None))"
        unfolding unf using go cc0 notfull by simp
      show ?thesis
      proof (cases "frame_recoverable rs e R")
        case True
        then have "rs_reconstruct L rs ?D ?P =
            Some (map Some (ef_data e), map Some (ef_parity e), Ok (missing ?D + missing ?P))"
          using step rec by auto
        then show ?thesis using unf2 True d
          by (intro exI[of _ "put_block fid (b\<lparr>pb_data := map Some (ef_data e), pb_parity := map Some (ef_parity e),
                pb_state := BlockEmitted\<rparr>) (d\<lparr>dec_stats := (dec_stats d)\<lparr>blocks_recovered_via_fec :=
                  blocks_recovered_via_fec (dec_stats d) + 1\<rparr>\<rparr>)"]) simp
      next
        case False
        then obtain d' p' x where "rs_reconstruct L rs ?D ?P = Some (d', p', Err (Library x))"
          using step rec nz by (auto split: if_splits)
        then show ?thesis using unf2 False d b1 by (intro exI[of _ "put_block fid ?b1 d"]) simp
      qed
    qed
  qed
qed

text \<open>The state of one frame after the shards of \<open>R\<close>: not seen, waiting, or handed out.\<close>

definition frame_state :: "rs_fec \<Rightarrow> u32 \<Rightarrow> encoded_frame \<Rightarrow> (bool \<Rightarrow> nat \<Rightarrow> bool) \<Rightarrow> fec_decoder \<Rightarrow> bool" where
  "frame_state rs fid e R d \<longleftrightarrow> dec_rs d = rs \<and>
     (if frame_recoverable rs e R
      then (\<exists>b. map_of (dec_pending d) fid = Some b \<and> pb_state b = BlockEmitted)
      else (case map_of (dec_pending d) fid of None \<Rightarrow> (\<forall>p i. \<not> R p i) | Some b \<Rightarrow> rx_block e R b))"

abbreviation got :: "(bool \<Rightarrow> nat \<Rightarrow> bool) \<Rightarrow> bool \<Rightarrow> nat \<Rightarrow> bool \<Rightarrow> nat \<Rightarrow> bool" where
  "got R p i \<equiv> (\<lambda>q j. R q j \<or> (q = p \<and> j = i))"

lemma recoverable_union: "frame_recoverable rs e R \<Longrightarrow> frame_recoverable rs e (\<lambda>p i. R p i \<or> S p i)"
proof -
  assume r: "frame_recoverable rs e R"
  have "length (filter (R q) xs) \<le> length (filter (\<lambda>i. R q i \<or> S q i) xs)" for q xs
    by (induction xs) auto
  with r show ?thesis unfolding frame_recoverable_def Let_def
    by (meson add_mono order_trans)
qed

lemmas recoverable_mono = recoverable_union[of _ _ _ "\<lambda>q j. q = p \<and> j = i" for p i]

lemma rx_block_store:
  assumes b: "rx_block e R b" and i: "i < length (if p then ef_parity e else ef_data e)"
  shows "if R p i then store_shard i ((if p then ef_parity e else ef_data e) ! i) (if p then pb_parity b else pb_data b) = None
         else \<exists>xs. store_shard i ((if p then ef_parity e else ef_data e) ! i) (if p then pb_parity b else pb_data b) = Some xs \<and>
                rx_block e (got R p i) (if p then b\<lparr>pb_parity := xs\<rparr> else b\<lparr>pb_data := xs\<rparr>)"
proof -
  have upd: "(R p)(i := True) = got R p i p" "got R p i (\<not> p) = R (\<not> p)" by auto
  show ?thesis
  proof (cases p)
    case True
    then show ?thesis using store_shard_view[of "pb_parity b" "ef_parity e" "R True" i] b i upd
      by (auto simp: rx_block_def)
  next
    case False
    then show ?thesis using store_shard_view[of "pb_data b" "ef_data e" "R False" i] b i upd
      by (auto simp: rx_block_def)
  qed
qed

lemma add_shard_frame:
  assumes c: "coded L rs frame e ws" and km: "0 < rs_block_size rs" "0 < rs_parity_shards rs"
    and lib: "lib_new L (rs_block_size rs) (rs_parity_shards rs) = Ok ()"
    and size: "length (ef_data e) < 2 ^ 16" "length (ef_parity e) < 2 ^ 16"
    and st: "frame_state rs fid e R d" and i: "i < length (if p then ef_parity e else ef_data e)"
  shows "\<exists>d'. add_shard L d fid (of_nat i) (of_nat (length (ef_data e))) p
                ((if p then ef_parity e else ef_data e) ! i) now =
              Some (d', if frame_recoverable rs e (got R p i) \<and> \<not> frame_recoverable rs e R
                        then Some (concat (ef_data e)) else None) \<and>
            frame_state rs fid e (got R p i) d'"
proof -
  have ui: "unat (of_nat i :: u16) = i"
    using i size by (auto simp: unat_of_nat take_bit_nat_eq_self split: if_splits)
  show ?thesis
  proof (cases "frame_recoverable rs e R")
    case True
    then obtain b where b: "map_of (dec_pending d) fid = Some b" "pb_state b = BlockEmitted"
      using st by (auto simp: frame_state_def)
    then show ?thesis using True recoverable_mono[OF True, of p i] st
      by (auto simp: add_shard_def block_entry_def frame_state_def)
  next
    case False
    obtain d0 b0 where be: "block_entry d fid (of_nat (length (ef_data e))) now = (d0, b0)" by fastforce
    have empty: "pad_none (length xs) [] = view (\<lambda>j. False) xs" for xs :: "bytes list"
      by (intro nth_equalityI) (auto simp: pad_none_def view_def)
    have rx: "rx_block e R b0"
    proof (cases "map_of (dec_pending d) fid")
      case None
      then have "R = (\<lambda>p i. False)" using st False by (auto simp: frame_state_def)
      then show ?thesis using be None by (auto simp: block_entry_def Let_def rx_block_def empty)
    qed (use st False be in \<open>simp add: frame_state_def block_entry_def\<close>)
    have d0: "dec_rs d0 = rs" "map_of (dec_pending d0) fid = Some b0"
      using st be by (auto simp: block_entry_def frame_state_def Let_def split: option.splits)
    have pend: "pb_state b0 = BlockPending" "pb_chunk_count b0 = of_nat (length (ef_data e))"
      using rx by (simp_all add: rx_block_def)
    have unf: "add_shard L d fid (of_nat i) (of_nat (length (ef_data e))) p x now =
        (case store_shard i x (if p then pb_parity b0 else pb_data b0) of
           None \<Rightarrow> Some (put_block fid b0 d0, None)
         | Some xs \<Rightarrow> try_emit L d0 fid (if p then b0\<lparr>pb_parity := xs\<rparr> else b0\<lparr>pb_data := xs\<rparr>))" for x
      by (simp add: add_shard_def be pend ui split: option.split)
    note store = rx_block_store[OF rx i]
    show ?thesis
    proof (cases "R p i")
      case True
      then have "got R p i = R" by (auto simp: fun_eq_iff)
      then show ?thesis using unf store True False rx d0 by (simp add: frame_state_def)
    next
      case fresh: False
      then obtain xs where xs: "store_shard i ((if p then ef_parity e else ef_data e) ! i)
            (if p then pb_parity b0 else pb_data b0) = Some xs"
          "rx_block e (got R p i) (if p then b0\<lparr>pb_parity := xs\<rparr> else b0\<lparr>pb_data := xs\<rparr>)"
        using store by auto
      from try_emit_step[OF c km lib size(1) xs(2) d0(1), of fid]
      show ?thesis using unf xs(1) False by (auto simp: frame_state_def split: if_splits)
    qed
  qed
qed

lemma feed_frame:
  assumes c: "coded L rs frame e ws" and km: "0 < rs_block_size rs" "0 < rs_parity_shards rs"
    and lib: "lib_new L (rs_block_size rs) (rs_parity_shards rs) = Ok ()"
    and size: "length (ef_data e) < 2 ^ 16" "length (ef_parity e) < 2 ^ 16"
  shows "frame_state rs fid e R d \<Longrightarrow> \<forall>(p, i, t) \<in> set evs. i < length (if p then ef_parity e else ef_data e) \<Longrightarrow>
    \<exists>d'. feed L fid e d evs =
      Some (d', if frame_recoverable rs e (\<lambda>p i. R p i \<or> (\<exists>t. (p, i, t) \<in> set evs)) \<and> \<not> frame_recoverable rs e R
                then [concat (ef_data e)] else [])"
proof (induction evs arbitrary: R d)
  case (Cons ev evs)
  obtain p i t where ev: "ev = (p, i, t)" by (cases ev)
  then have i: "i < length (if p then ef_parity e else ef_data e)" using Cons.prems(2) by simp
  obtain d' where d': "add_shard L d fid (of_nat i) (of_nat (length (ef_data e))) p
        ((if p then ef_parity e else ef_data e) ! i) t =
      Some (d', if frame_recoverable rs e (got R p i) \<and> \<not> frame_recoverable rs e R then Some (concat (ef_data e)) else None)"
    "frame_state rs fid e (got R p i) d'"
    using add_shard_frame[OF c km lib size Cons.prems(1) i] by blast
  have sets: "(\<lambda>q j. got R p i q j \<or> (\<exists>t. (q, j, t) \<in> set evs)) = (\<lambda>q j. R q j \<or> (\<exists>t. (q, j, t) \<in> set (ev # evs)))"
    by (auto simp: fun_eq_iff ev)
  have mono: "frame_recoverable rs e (got R p i) \<Longrightarrow>
      frame_recoverable rs e (\<lambda>q j. R q j \<or> (\<exists>t. (q, j, t) \<in> set (ev # evs)))"
    unfolding sets[symmetric] by (rule recoverable_union)
  obtain d'' where "feed L fid e d' evs = Some (d'',
      if frame_recoverable rs e (\<lambda>q j. R q j \<or> (\<exists>t. (q, j, t) \<in> set (ev # evs))) \<and>
         \<not> frame_recoverable rs e (got R p i) then [concat (ef_data e)] else [])"
    using Cons.IH[OF d'(2)] Cons.prems(2) unfolding sets by auto
  then show ?case
    using d' mono recoverable_mono[of rs e R p i] by (cases "frame_recoverable rs e (got R p i)"; cases "frame_recoverable rs e R") (simp_all add: ev)
qed simp

subsection \<open>A concrete code\<close>

text \<open>Two data shards and their XOR: one parity shard repairs any one loss.\<close>

definition xor_reconstruct :: "bytes option list \<Rightarrow> (unit, bytes option list) result" where
  "xor_reconstruct sh =
     (case sh of
        [Some a, Some b, _] \<Rightarrow> Ok [Some a, Some b, Some (xor_bytes a b)]
      | [Some a, None, Some c] \<Rightarrow> Ok [Some a, Some (xor_bytes a c), Some c]
      | [None, Some b, Some c] \<Rightarrow> Ok [Some (xor_bytes c b), Some b, Some c]
      | _ \<Rightarrow> Err ())"

definition xor_lib :: "unit rs_lib" where
  "xor_lib = \<lparr>lib_new = (\<lambda>_ _. Ok ()),
     lib_encode = (\<lambda>_ _ sh. case sh of [a, b, _] \<Rightarrow> Ok [a, b, xor_bytes a b] | _ \<Rightarrow> Err ()),
     lib_reconstruct = (\<lambda>_ _. xor_reconstruct)\<rparr>"

lemma xor_reconstruct_erased:
  assumes "length a = length b" "erased [a, b, xor_bytes a b] sh"
  shows "if missing sh \<le> 1 then xor_reconstruct sh = Ok [Some a, Some b, Some (xor_bytes a b)]
         else xor_reconstruct sh = Err ()"
proof -
  obtain x y z where sh: "sh = [x, y, z]" "x = None \<or> x = Some a" "y = None \<or> y = Some b"
      "z = None \<or> z = Some (xor_bytes a b)"
    using assms(2) by (auto simp: erased_def list_all2_Cons1)
  have "xor_bytes a (xor_bytes a b) = b" "xor_bytes (xor_bytes a b) b = a"
    using assms(1) xor_bytes_cancel[of a b] xor_bytes_cancel[of b a] xor_bytes_comm[of a b]
      xor_bytes_comm[of "xor_bytes b a" a] by simp_all
  with sh show ?thesis by (auto simp: missing_def xor_reconstruct_def)
qed

lemma xor_lib_code: "erasure_code xor_lib 2 1"
  unfolding erasure_code_def
proof (intro conjI allI impI)
  fix n :: nat and ds zs :: "bytes list"
  assume a: "0 < n \<and> length ds = 2 \<and> length zs = 1 \<and> (\<forall>s \<in> set (ds @ zs). length s = n)"
  then obtain x y z where d: "ds = [x, y]" "zs = [z]" "length x = length y"
    by (auto simp: length_Suc_conv numeral_2_eq_2)
  show "\<exists>ps. length ps = 1 \<and> lib_encode xor_lib 2 1 (ds @ zs) = Ok (ds @ ps) \<and>
      (\<forall>sh. erased (ds @ ps) sh \<longrightarrow>
        (if missing sh \<le> 1 then lib_reconstruct xor_lib 2 1 sh = Ok (map Some (ds @ ps))
         else \<exists>e. lib_reconstruct xor_lib 2 1 sh = Err e))"
    using xor_reconstruct_erased[OF d(3)]
    by (intro exI[of _ "[xor_bytes x y]"]) (auto simp: xor_lib_def d split: if_splits)
qed (simp add: xor_lib_def)

subsection \<open>Properties\<close>

text \<open>C12: Over any erasure code with the documented contract, a non-empty frame is encoded without
  error or panic, and for every loss pattern with at most \<open>parity_shards\<close> losses in each block
  \<open>reconstruct\<close> restores every data and parity shard, reports exactly the number of lost shards,
  and the data shards cut to \<open>original_len\<close> are the frame.\<close>

theorem rs_recovery_roundtrip:
  assumes code: "erasure_code L k m" and new: "rs_fec_new L k m = Ok rs" and m: "0 < m" and f: "frame \<noteq> []"
  shows "\<exists>e. rs_encode L rs frame = Some (Ok e) \<and> take (ef_original_len e) (concat (ef_data e)) = frame \<and>
    (\<forall>d p. erased (ef_data e) d \<and> erased (ef_parity e) p \<and>
       (\<forall>i < length (ef_data e) div k. lost_in k m d p i \<le> m) \<longrightarrow>
       rs_reconstruct L rs d p =
         Some (map Some (ef_data e), map Some (ef_parity e), Ok (missing d + missing p)))"
proof -
  have k: "0 < k" and rs: "rs = \<lparr>rs_block_size = k, rs_parity_shards = m\<rparr>" and lib: "lib_new L k m = Ok ()"
    using new m code by (auto simp: rs_fec_new_def erasure_code_def Let_def split: if_splits)
  obtain e ws where e: "rs_encode L rs frame = Some (Ok e)" and c: "coded L rs frame e ws"
    using rs_encode_coded[OF assms] by blast
  have "length (ef_data e) div k = length ws" using coded_lengths[OF c] k by (simp add: rs)
  with coded_reconstruct[OF c] k m lib rs c show ?thesis
    by (intro exI[of _ e] conjI e) (auto simp: coded_def)
qed

theorem rs_recovery_roundtrip_witness:
  "\<exists>e. rs_encode xor_lib \<lparr>rs_block_size = 2, rs_parity_shards = 1\<rparr> [1, 2, 3] = Some (Ok e) \<and>
     take (ef_original_len e) (concat (ef_data e)) = [1, 2, 3]"
  using rs_recovery_roundtrip[OF xor_lib_code, of "\<lparr>rs_block_size = 2, rs_parity_shards = 1\<rparr>" "[1, 2, 3]"]
  by (auto simp: rs_fec_new_def MAX_PARITY_SHARDS_def xor_lib_def)


definition demo_rs :: rs_fec where "demo_rs = \<lparr>rs_block_size = 2, rs_parity_shards = 1\<rparr>"

definition demo_encoded :: encoded_frame where
  "demo_encoded = \<lparr>ef_data = [[1, 2, 3] @ replicate 13 0, replicate 16 0], ef_parity = [[1, 2, 3] @ replicate 13 0],
     ef_shard_len = 16, ef_original_len = 3\<rparr>"

lemma demo_encode: "rs_encode xor_lib demo_rs [1, 2, 3] = Some (Ok demo_encoded)"
  by code_simp


text \<open>Raw datagrams, whatever their header says: the chunk index is not checked against the chunk
  count, so a handful of shards with indices past it makes \<open>reconstruct\<close> slice the parity vector out
  of range.\<close>

fun add_shards :: "'e rs_lib \<Rightarrow> fec_decoder \<Rightarrow> (u32 \<times> u16 \<times> u16 \<times> bool \<times> bytes) list \<Rightarrow> fec_decoder option" where
  "add_shards L d [] = Some d"
| "add_shards L d ((fid, cid, cc, par, payload) # rest) =
     (case add_shard L d fid cid cc par payload 0 of None \<Rightarrow> None | Some (d', _) \<Rightarrow> add_shards L d' rest)"

lemma stray_shards_panic:
  "add_shards xor_lib (decoder_new demo_rs 5 16)
     [(7, 0, 1, False, [1]), (7, 4, 1, False, [2]), (7, 1, 1, False, [3]), (7, 2, 1, False, [4]), (7, 3, 1, False, [5])] = None"
  by code_simp

lemma empty_frame_panics: "rs_encode L rs [] = None"
  by (simp add: rs_encode_def shard_len_for_def)

text \<open>Every shard of a frame fits the datagram target: the shard length is a positive multiple
  of 16 of at most 1200 bytes.\<close>

theorem shard_len_bounds:
  assumes "0 < l" "0 < rs_block_size rs"
  shows "0 < shard_len_for rs l \<and> 16 dvd shard_len_for rs l \<and> shard_len_for rs l \<le> 1200"
proof (intro conjI)
  define t where "t = max ((l + TARGET_CHUNK_BYTES - 1) div TARGET_CHUNK_BYTES) (rs_block_size rs)"
  have eq: "shard_len_for rs l = ((l + t - 1) div t + 15) div 16 * 16"
    using assms(1) by (simp add: shard_len_for_def t_def Let_def)
  have "l \<le> 1200 * ((l + 1199) div 1200)"
    using mult_div_mod_eq[of 1200 "l + 1199"] mod_less_divisor[of 1200 "l + 1199"] by linarith
  moreover have "(l + 1199) div 1200 \<le> t" by (simp add: t_def TARGET_CHUNK_BYTES_def add.commute)
  ultimately have "l \<le> 1200 * t" by linarith
  moreover have "0 < t" using assms(2) by (simp add: t_def less_max_iff_disj)
  ultimately have "l + t - 1 < 1201 * t" by linarith
  then have "(l + t - 1) div t < 1201" by (rule less_mult_imp_div_less)
  moreover have "(q + 15) div 16 * 16 \<le> 1200" if "q < 1201" for q :: nat
    using that div_le_mono[of "q + 15" "1200 + 15" 16] by simp
  ultimately show "shard_len_for rs l \<le> 1200" unfolding eq by blast
  show "16 dvd shard_len_for rs l" by (simp add: eq)
qed (use assms in \<open>simp add: shard_len_pos\<close>)

theorem shard_len_bounds_witness: "shard_len_for demo_rs 5000 \<le> 1200"
  using shard_len_bounds[of 5000 demo_rs] by (simp add: demo_rs_def)

text \<open>The parity controller rises by at most one shard per sample, never leaves the range of
  the wire (at most \<open>MAX_PARITY_SHARDS\<close>), and under a constant loss rate reaches the count the
  thresholds prescribe after at most four samples, from any starting point.\<close>

theorem controller_converges:
  assumes "thresholds c = thresholds (controller_new bs)" "last_parity c \<le> MAX_PARITY_SHARDS"
  shows "snd (adjust_for_loss c loss) \<le> last_parity c + 1 \<and>
    snd (adjust_for_loss c loss) \<le> MAX_PARITY_SHARDS \<and>
    (4 \<le> n \<longrightarrow> last_parity (((\<lambda>c. fst (adjust_for_loss c loss)) ^^ n) c) = target_parity c loss)"
proof -
  let ?f = "\<lambda>c. fst (adjust_for_loss c loss)"
  let ?T = "target_parity c loss"
  have T: "?T \<le> 4"
    using assms(1) by (auto simp: target_parity_def controller_new_def)
  have tgt: "target_parity (c\<lparr>last_parity := q\<rparr>) loss = ?T" for q by (simp add: target_parity_def)
  have iter: "(?f ^^ n) c = c\<lparr>last_parity := if ?T > last_parity c then min (last_parity c + n) ?T
      else if n = 0 then last_parity c else ?T\<rparr>" for n
  proof (induction n)
    case (Suc n)
    have "(?f ^^ Suc n) c = ?f ((?f ^^ n) c)" by simp
    also have "\<dots> = c\<lparr>last_parity := if ?T > last_parity c then min (last_parity c + Suc n) ?T else ?T\<rparr>"
      unfolding Suc.IH by (auto simp: adjust_for_loss_def tgt Let_def min_def)
    finally show ?case by simp
  qed (simp add: min_def)
  show ?thesis
  proof (intro conjI impI)
    show "last_parity ((?f ^^ n) c) = ?T" if "4 \<le> n" using that T by (simp add: iter min_def)
  qed (use T assms(2) in \<open>auto simp: adjust_for_loss_def Let_def MAX_PARITY_SHARDS_def\<close>)
qed

theorem controller_converges_witness:
  "last_parity (((\<lambda>c. fst (adjust_for_loss c 6000)) ^^ 4) (controller_new 4)) = 4"
  using controller_converges[of "controller_new 4" 4 6000 4]
  by (simp add: controller_new_def target_parity_def MAX_PARITY_SHARDS_def)

end
