(* ===== verification/Annex_B.thy ===== *)
theory Annex_B
  imports Jitter_Buffer "HOL-Library.Sublist"
begin

text \<open>
  Splitting an encoder's elementary stream into access units
  (\<open>qubox-media/src/lib.rs\<close>: \<open>AnnexBStreamFramer\<close>, the start-code and delimiter scanners, the
  AV1 boundary scanner, \<open>packetize_access_unit\<close>, \<open>read_annex_b_access_units\<close>). A slice out of
  range, where the code panics, is the outcome \<open>None\<close>. The two drain loops for H.264 and H.265 are
  the same code over two delimiter tests; what the proofs need of such a test is the locale
  \<open>delimiter\<close>.
\<close>

subsection \<open>Start codes\<close>

text \<open>The scanning loop, on the bytes from position \<open>index\<close> on.\<close>

function start_codes_from :: "nat \<Rightarrow> bytes \<Rightarrow> (nat \<times> nat) list" where
  "start_codes_from index bs =
     (if length bs < 3 then []
      else if take 3 bs = [0, 0, 1] then (index, 3) # start_codes_from (index + 3) (drop 3 bs)
      else if take 4 bs = [0, 0, 0, 1] then (index, 4) # start_codes_from (index + 4) (drop 4 bs)
      else start_codes_from (index + 1) (drop 1 bs))"
  by pat_completeness auto
termination by (relation "measure (length \<circ> snd)") auto

declare start_codes_from.simps [simp del]

definition find_annex_b_start_codes :: "bytes \<Rightarrow> (nat \<times> nat) list" where
  "find_annex_b_start_codes bytes = start_codes_from 0 bytes"

definition get_byte :: "bytes \<Rightarrow> nat \<Rightarrow> u8 option" where
  "get_byte bytes i = (if i < length bytes then Some (bytes ! i) else None)"

definition is_aud_h264 :: "bytes \<Rightarrow> nat \<Rightarrow> bool" where
  "is_aud_h264 bytes offset = (case get_byte bytes offset of Some b \<Rightarrow> b AND 0x1f = 9 | None \<Rightarrow> False)"

definition is_aud_h265 :: "bytes \<Rightarrow> nat \<Rightarrow> bool" where
  "is_aud_h265 bytes offset =
     (case get_byte bytes offset of
        None \<Rightarrow> False
      | Some byte0 \<Rightarrow> get_byte bytes (offset + 1) \<noteq> None \<and> drop_bit 1 byte0 AND 0x3f = 35)"

definition find_aud_start_codes_h264 :: "bytes \<Rightarrow> (nat \<times> nat) list" where
  "find_aud_start_codes_h264 bytes =
     filter (\<lambda>(start, prefix_len). is_aud_h264 bytes (start + prefix_len)) (find_annex_b_start_codes bytes)"

definition find_aud_start_codes_h265 :: "bytes \<Rightarrow> (nat \<times> nat) list" where
  "find_aud_start_codes_h265 bytes =
     filter (\<lambda>(start, prefix_len). is_aud_h265 bytes (start + prefix_len)) (find_annex_b_start_codes bytes)"

subsection \<open>Access units\<close>

record nal_unit_info =
  nal_type :: u8
  nal_offset :: nat
  nal_length :: nat

record access_unit =
  au_codec :: video_codec
  au_frame_id :: u64
  au_timestamp_micros :: u64
  au_keyframe :: bool
  au_nal_units :: "nal_unit_info list"
  au_bytes :: bytes
  au_display_id :: u32
  au_stream_id :: u16
  au_width :: u32
  au_height :: u32
  au_color_space :: "color_space option"
  au_bit_depth :: u8

fun nal_units_of :: "bytes \<Rightarrow> (nat \<times> nat) list \<Rightarrow> nal_unit_info list" where
  "nal_units_of bytes [] = []"
| "nal_units_of bytes ((start, prefix_len) # rest) =
     (let offset = start + prefix_len;
          stop = (case rest of [] \<Rightarrow> length bytes | (next_start, _) # _ \<Rightarrow> next_start) in
      (if offset \<ge> stop then []
       else [\<lparr>nal_type = bytes ! offset AND 0x1f, nal_offset = offset, nal_length = stop - offset\<rparr>]) @
      nal_units_of bytes rest)"

definition inspect_h264_annex_b_nal_units :: "bytes \<Rightarrow> nal_unit_info list" where
  "inspect_h264_annex_b_nal_units bytes = nal_units_of bytes (find_annex_b_start_codes bytes)"

datatype packetize_error = NoNalUnits | EmptyH265 | EmptyAv1 | ZeroFramerate

definition plain_unit :: "video_codec \<Rightarrow> u64 \<Rightarrow> u64 \<Rightarrow> bytes \<Rightarrow> access_unit" where
  "plain_unit codec frame_id timestamp_micros bytes =
     \<lparr>au_codec = codec, au_frame_id = frame_id, au_timestamp_micros = timestamp_micros, au_keyframe = False,
      au_nal_units = [], au_bytes = bytes, au_display_id = 0, au_stream_id = 0, au_width = 0, au_height = 0, au_color_space = None,
      au_bit_depth = 8\<rparr>"

definition packetize_h264_annex_b_access_unit ::
    "u64 \<Rightarrow> u64 \<Rightarrow> bytes \<Rightarrow> (packetize_error, access_unit) result" where
  "packetize_h264_annex_b_access_unit frame_id timestamp_micros bytes =
     (let nal_units = inspect_h264_annex_b_nal_units bytes in
      if nal_units = [] then Err NoNalUnits
      else Ok ((plain_unit H264 frame_id timestamp_micros bytes)
             \<lparr>au_keyframe := list_ex (\<lambda>u. nal_type u = 5) nal_units, au_nal_units := nal_units\<rparr>))"

definition packetize_access_unit ::
    "video_codec \<Rightarrow> u64 \<Rightarrow> u64 \<Rightarrow> bytes \<Rightarrow> (packetize_error, access_unit) result" where
  "packetize_access_unit codec frame_id timestamp_micros bytes =
     (case codec of
        H264 \<Rightarrow> packetize_h264_annex_b_access_unit frame_id timestamp_micros bytes
      | H265 \<Rightarrow> if bytes = [] then Err EmptyH265 else Ok (plain_unit codec frame_id timestamp_micros bytes)
      | Av1 \<Rightarrow> if bytes = [] then Err EmptyAv1 else Ok (plain_unit codec frame_id timestamp_micros bytes))"

subsection \<open>Stream framer\<close>

record framer =
  fr_codec :: video_codec
  fr_buffer :: bytes
  fr_next_frame_id :: u64
  fr_next_timestamp :: u64
  frame_duration_micros :: u64

definition framer_new :: "u32 \<Rightarrow> video_codec \<Rightarrow> (packetize_error, framer) result" where
  "framer_new framerate codec =
     (if framerate = 0 then Err ZeroFramerate
      else Ok \<lparr>fr_codec = codec, fr_buffer = [], fr_next_frame_id = 0, fr_next_timestamp = 0,
               frame_duration_micros = 1000000 div ucast framerate\<rparr>)"

definition next_access_unit :: "framer \<Rightarrow> bytes \<Rightarrow> framer \<times> (packetize_error, access_unit) result" where
  "next_access_unit f bytes =
     (f\<lparr>fr_next_frame_id := fr_next_frame_id f + 1,
        fr_next_timestamp := fr_next_timestamp f + frame_duration_micros f\<rparr>,
      packetize_access_unit (fr_codec f) (fr_next_frame_id f) (fr_next_timestamp f) bytes)"

lemma start_codes_step:
  "3 \<le> length bs \<Longrightarrow> start_codes_from i bs =
     (if take 3 bs = [0, 0, 1] then (i, 3) # start_codes_from (i + 3) (drop 3 bs)
      else if take 4 bs = [0, 0, 0, 1] then (i, 4) # start_codes_from (i + 4) (drop 4 bs)
      else start_codes_from (i + 1) (drop 1 bs))"
  by (subst start_codes_from.simps) simp

lemma start_codes_short: "length bs < 3 \<Longrightarrow> start_codes_from i bs = []"
  by (subst start_codes_from.simps) simp

lemma take4_length: "take 4 bs = [a, b, c, d] \<Longrightarrow> 4 \<le> length bs"
  by (drule arg_cong[of _ _ length]) (simp add: min_def split: if_splits)

lemma start_codes_sorted:
  "sorted_wrt (\<lambda>(s, p) (s', p'). s + p \<le> s') (start_codes_from i bs) \<and>
   (\<forall>(s, p) \<in> set (start_codes_from i bs). i \<le> s \<and> s + p \<le> i + length bs \<and> 0 < p)"
proof (induction i bs rule: start_codes_from.induct)
  case (1 i bs)
  show ?case
  proof (cases "length bs < 3")
    case False
    then have l: "\<not> length bs < 3" "3 \<le> length bs" by simp_all
    show ?thesis
      using 1[OF l(1)] l take4_length[of bs] unfolding start_codes_step[OF l(2), of i] by (auto; fastforce)
  qed (simp add: start_codes_short)
qed

definition find_auds :: "video_codec \<Rightarrow> bytes \<Rightarrow> (nat \<times> nat) list" where
  "find_auds codec = (if codec = H264 then find_aud_start_codes_h264 else find_aud_start_codes_h265)"

lemma find_auds_sorted:
  "sorted_wrt (\<lambda>(s, p) (s', p'). s + p \<le> s') (find_auds codec bs) \<and>
   (\<forall>(s, p) \<in> set (find_auds codec bs). s + p \<le> length bs \<and> 0 < p)"
  using start_codes_sorted[of 0 bs]
  by (auto simp: find_auds_def find_aud_start_codes_h264_def find_aud_start_codes_h265_def
      find_annex_b_start_codes_def intro: sorted_wrt_filter)

text \<open>\<open>drain_h264\<close> and \<open>drain_h265\<close>: the loop drops what precedes the first delimiter, then cuts
  off one access unit per pass until fewer than two delimiters are left.\<close>

function drain_auds :: "framer \<Rightarrow> access_unit list \<Rightarrow> framer \<times> (packetize_error, access_unit list) result" where
  "drain_auds f access_units =
     (case find_auds (fr_codec f) (fr_buffer f) of
        [] \<Rightarrow> (f, Ok access_units)
      | (first_aud, _) # rest \<Rightarrow>
          if first_aud > 0 then drain_auds (f\<lparr>fr_buffer := drop first_aud (fr_buffer f)\<rparr>) access_units
          else (case rest of
             [] \<Rightarrow> (f, Ok access_units)
           | (next_aud, _) # _ \<Rightarrow>
               (case next_access_unit (f\<lparr>fr_buffer := drop next_aud (fr_buffer f)\<rparr>) (take next_aud (fr_buffer f)) of
                  (f', Inl e) \<Rightarrow> (f', Err e)
                | (f', Inr au) \<Rightarrow> drain_auds f' (access_units @ [au]))))"
  by pat_completeness auto
termination
proof (relation "measure (\<lambda>(f, _). length (fr_buffer f))", goal_cases)
  case (2 f aus a b rest)
  then show ?case using find_auds_sorted[of "fr_codec f" "fr_buffer f"] by auto
next
  case (3 f aus a b rest c d r p f' q au)
  then show ?case using find_auds_sorted[of "fr_codec f" "fr_buffer f"]
    by (auto simp: next_access_unit_def)
qed simp

declare drain_auds.simps [simp del]

subsection \<open>AV1\<close>

fun read_leb128_from :: "nat \<Rightarrow> u64 \<Rightarrow> bytes \<Rightarrow> (nat \<times> nat) option" where
  "read_leb128_from i value [] = None"
| "read_leb128_from i value (b # bs) =
     (if i \<ge> 8 then None
      else let value' = value OR push_bit (i * 7) (ucast (b AND 0x7f)) in
        if b AND 0x80 = 0 then Some (unat value', i + 1) else read_leb128_from (i + 1) value' bs)"

definition read_leb128 :: "bytes \<Rightarrow> (nat \<times> nat) option" where
  "read_leb128 bytes = read_leb128_from 0 0 bytes"

definition obu_prefix_len :: "bytes \<Rightarrow> nat option" where
  "obu_prefix_len bs =
     (if take 4 bs = [0, 0, 0, 1] then Some 4 else if take 3 bs = [0, 0, 1] then Some 3 else None)"

function av1_boundaries_from :: "bytes \<Rightarrow> nat \<Rightarrow> nat list \<Rightarrow> nat list option" where
  "av1_boundaries_from bytes i boundaries =
     (if \<not> i < length bytes then Some boundaries
      else case obu_prefix_len (drop i bytes) of
        None \<Rightarrow> Some boundaries
      | Some prefix_len \<Rightarrow>
        (case get_byte bytes (i + prefix_len) of
           None \<Rightarrow> Some boundaries
         | Some header \<Rightarrow>
           if header AND 0x02 = 0 then Some boundaries
           else let size_offset = i + prefix_len + 1 + (if header AND 0x04 \<noteq> 0 then 1 else 0) in
             if size_offset > length bytes then None
             else (case read_leb128 (drop size_offset bytes) of
                     None \<Rightarrow> Some boundaries
                   | Some (obu_size, consumed) \<Rightarrow>
                       (let next = size_offset + consumed + obu_size in
                        av1_boundaries_from bytes next
                          (if drop_bit 3 header AND 0x0f = 2 then boundaries @ [i, next] else boundaries)))))"
  by pat_completeness auto
termination by (relation "measure (\<lambda>(bytes, i, _). length bytes - i)") auto

declare av1_boundaries_from.simps [simp del]

definition find_av1_obu_boundaries :: "bytes \<Rightarrow> nat list option" where
  "find_av1_obu_boundaries bytes = av1_boundaries_from bytes 0 [0]"

fun av1_units ::
    "framer \<Rightarrow> nat list \<Rightarrow> access_unit list \<Rightarrow> (framer \<times> (packetize_error, access_unit list) result) option" where
  "av1_units f (start # stop # rest) access_units =
     (if start \<ge> stop then av1_units f (stop # rest) access_units
      else if stop > length (fr_buffer f) then None
      else (case next_access_unit f (take (stop - start) (drop start (fr_buffer f))) of
              (f', Inl e) \<Rightarrow> Some (f', Err e)
            | (f', Inr au) \<Rightarrow> av1_units f' (stop # rest) (access_units @ [au])))"
| "av1_units f _ access_units = Some (f, Ok access_units)"

definition drain_av1 :: "framer \<Rightarrow> (framer \<times> (packetize_error, access_unit list) result) option" where
  "drain_av1 f =
     (case find_av1_obu_boundaries (fr_buffer f) of
        None \<Rightarrow> None
      | Some boundaries \<Rightarrow>
          if length boundaries < 2 then Some (f, Ok [])
          else (case av1_units f boundaries [] of
                  None \<Rightarrow> None
                | Some (f', Inl e) \<Rightarrow> Some (f', Err e)
                | Some (f', Inr aus) \<Rightarrow>
                    if last boundaries > length (fr_buffer f') then None
                    else Some (f'\<lparr>fr_buffer := drop (last boundaries) (fr_buffer f')\<rparr>, Ok aus)))"

subsection \<open>Pushing, finishing, reading\<close>

definition push_chunk_framer ::
    "framer \<Rightarrow> bytes \<Rightarrow> (framer \<times> (packetize_error, access_unit list) result) option" where
  "push_chunk_framer f chunk =
     (let f' = f\<lparr>fr_buffer := fr_buffer f @ chunk\<rparr> in
      case fr_codec f of H264 \<Rightarrow> Some (drain_auds f' []) | H265 \<Rightarrow> Some (drain_auds f' []) | Av1 \<Rightarrow> drain_av1 f')"

definition framer_finish :: "framer \<Rightarrow> framer \<times> (packetize_error, access_unit option) result" where
  "framer_finish f =
     (if fr_buffer f = [] then (f, Ok None)
      else case next_access_unit (f\<lparr>fr_buffer := []\<rparr>) (fr_buffer f) of
             (f', Inl e) \<Rightarrow> (f', Err e)
           | (f', Inr au) \<Rightarrow> (f', Ok (Some au)))"

datatype pipeline_read = AccessUnits "access_unit list" | EndOfStream "access_unit list"
datatype 'io runtime_error = EmptyScratch | ReadError 'io | PacketizeError packetize_error

text \<open>\<open>read_annex_b_access_units\<close>: \<open>read\<close> is what the reader returns for a scratch buffer of the
  given length.\<close>

definition read_annex_b_access_units ::
    "(nat \<Rightarrow> ('io, bytes) result) \<Rightarrow> framer \<Rightarrow> nat \<Rightarrow> (framer \<times> ('io runtime_error, pipeline_read) result) option" where
  "read_annex_b_access_units read f scratch_len =
     (if scratch_len = 0 then Some (f, Err EmptyScratch)
      else case read scratch_len of
        Inl e \<Rightarrow> Some (f, Err (ReadError e))
      | Inr [] \<Rightarrow>
          (case framer_finish f of
             (f', Inl e) \<Rightarrow> Some (f', Err (PacketizeError e))
           | (f', Inr tail) \<Rightarrow> Some (f', Ok (EndOfStream (case tail of None \<Rightarrow> [] | Some au \<Rightarrow> [au]))))
      | Inr chunk \<Rightarrow>
          map_option (\<lambda>(f', r). (f', case r of Inl e \<Rightarrow> Err (PacketizeError e) | Inr aus \<Rightarrow> Ok (AccessUnits aus)))
            (push_chunk_framer f chunk))"

subsection \<open>Delimiter tests\<close>

text \<open>What the chunk-by-chunk scan relies on: a test looks at no byte past its offset's successor,
  and more bytes never revoke a hit.\<close>

locale delimiter =
  fixes aud :: "bytes \<Rightarrow> nat \<Rightarrow> bool"
  assumes in_range: "aud bs off \<Longrightarrow> off < length bs"
    and mono: "aud bs off \<Longrightarrow> aud (bs @ x) off"
    and late: "aud (bs @ x) off \<Longrightarrow> \<not> aud bs off \<Longrightarrow> length bs \<le> off + 1"
begin

abbreviation hits :: "bytes \<Rightarrow> (nat \<times> nat) list \<Rightarrow> (nat \<times> nat) list" where
  "hits bs cs \<equiv> filter (\<lambda>(s, p). aud bs (s + p)) cs"

lemma hits_beyond: "length bs \<le> i + 1 \<Longrightarrow> hits bs (start_codes_from i b) = []"
  using start_codes_sorted[of i b] in_range by (fastforce simp: filter_empty_conv)

lemma hits_cons:
  assumes "prefix (hits bs cs) (hits (bs @ x) cs')" "length bs \<le> s + p + 1 \<Longrightarrow> hits bs cs = []"
  shows "prefix (hits bs ((s, p) # cs)) (hits (bs @ x) ((s, p) # cs'))"
  using assms mono[of bs "s + p" x] late[of bs x "s + p"] by (cases "aud bs (s + p)") auto

lemma hits_prefix:
  "bs = pre @ b \<Longrightarrow> length pre = i \<Longrightarrow>
     prefix (hits bs (start_codes_from i b)) (hits (bs @ x) (start_codes_from i (b @ x)))"
proof (induction i b arbitrary: pre rule: start_codes_from.induct)
  case (1 i b)
  show ?case
  proof (cases "length b < 3")
    case False
    then have l: "3 \<le> length b" "3 \<le> length (b @ x)" by simp_all
    have sp: "bs = (pre @ take n b) @ drop n b" "n \<le> length b \<Longrightarrow> length (pre @ take n b) = i + n" for n
      using 1(4,5) by simp_all
    show ?thesis
    proof (cases "take 3 b = [0, 0, 1]")
      case True
      with 1(1)[OF False True sp(1)[of 3]] sp(2)[of 3] l show ?thesis
        unfolding start_codes_step[OF l(1)] start_codes_step[OF l(2)]
        using hits_cons[of bs "start_codes_from (i + 3) (drop 3 b)" x "start_codes_from (i + 3) (drop 3 b @ x)" i 3]
          hits_beyond[of bs "i + 3" "drop 3 b"] by simp
    next
      case no3: False
      show ?thesis
      proof (cases "length b = 3")
        case True
        then have "start_codes_from (i + 1) (drop 1 b) = []" "take 4 b \<noteq> [0, 0, 0, 1]"
          by (auto simp: start_codes_short)
        then show ?thesis unfolding start_codes_step[OF l(1)] using no3 by simp
      next
        case False
        then have l4: "4 \<le> length b" using l by simp
        show ?thesis
        proof (cases "take 4 b = [0, 0, 0, 1]")
          case True
          with 1(2)[OF _ no3 True sp(1)[of 4]] sp(2)[of 4] l l4 no3 show ?thesis
            unfolding start_codes_step[OF l(1)] start_codes_step[OF l(2)]
            using hits_cons[of bs "start_codes_from (i + 4) (drop 4 b)" x "start_codes_from (i + 4) (drop 4 b @ x)" i 4]
              hits_beyond[of bs "i + 4" "drop 4 b"] by simp
        next
          case no4: False
          with 1(3)[OF _ no3 no4 sp(1)[of 1]] sp(2)[of 1] l l4 no3 show ?thesis
            unfolding start_codes_step[OF l(1)] start_codes_step[OF l(2)] by simp
        qed
      qed
    qed
  qed (simp add: start_codes_short)
qed

lemma auds_prefix:
  "prefix (hits b (find_annex_b_start_codes b)) (hits (b @ x) (find_annex_b_start_codes (b @ x)))"
  using hits_prefix[of b "[]" b 0 x] by (simp add: find_annex_b_start_codes_def)

end

interpretation h264: delimiter is_aud_h264
  by unfold_locales (auto simp: is_aud_h264_def get_byte_def nth_append split: if_splits option.splits)

interpretation h265: delimiter is_aud_h265
  by unfold_locales (auto simp: is_aud_h265_def get_byte_def nth_append split: if_splits option.splits)

lemma find_auds_prefix: "prefix (find_auds codec b) (find_auds codec (b @ x))"
  using h264.auds_prefix[of b x] h265.auds_prefix[of b x]
  by (simp add: find_auds_def find_aud_start_codes_h264_def find_aud_start_codes_h265_def)

subsection \<open>Access units of a delimited stream\<close>

definition code_at :: "nat \<Rightarrow> nat \<Rightarrow> bytes \<Rightarrow> bool" where
  "code_at k p bs \<longleftrightarrow> k + p \<le> length bs \<and>
     (if take 3 (drop k bs) = [0, 0, 1] then p = 3 else p = 4 \<and> take 4 (drop k bs) = [0, 0, 0, 1])"

lemma start_codes_at: "(s, p) \<in> set (start_codes_from i bs) \<Longrightarrow> i \<le> s \<and> code_at (s - i) p bs"
proof (induction i bs rule: start_codes_from.induct)
  case (1 i bs)
  show ?case
  proof (cases "length bs < 3")
    case True
    then show ?thesis using 1(4) by (simp add: start_codes_short)
  next
    case False
    then have l: "3 \<le> length bs" by simp
    have shift: "i + n \<le> s \<and> code_at (s - (i + n)) p (drop n bs) \<Longrightarrow> n \<le> length bs \<Longrightarrow> i \<le> s \<and> code_at (s - i) p bs" for n
      by (auto simp: code_at_def add.commute split: if_splits)
    show ?thesis
    proof (cases "take 3 bs = [0, 0, 1]")
      case True
      with 1(1,4) False l shift[of 3] show ?thesis
        unfolding start_codes_step[OF l, of i] by (auto simp: code_at_def)
    next
      case no3: False
      show ?thesis
      proof (cases "take 4 bs = [0, 0, 0, 1]")
        case True
        with 1(2,4) False l no3 shift[of 4] take4_length[OF True] show ?thesis
          unfolding start_codes_step[OF l, of i] by (auto simp: code_at_def)
      next
        case no4: False
        with 1(3,4) False l no3 shift[of 1] show ?thesis unfolding start_codes_step[OF l, of i] by auto
      qed
    qed
  qed
qed

lemma start_codes_zero: "(s, p) \<in> set (start_codes_from i bs) \<Longrightarrow> i \<le> s \<and> s - i < length bs \<and> bs ! (s - i) = 0"
proof -
  assume "(s, p) \<in> set (start_codes_from i bs)"
  then have c: "i \<le> s" "code_at (s - i) p bs" by (simp_all add: start_codes_at)
  then have "s - i < length bs" by (auto simp: code_at_def split: if_splits)
  then obtain y ys where "drop (s - i) bs = y # ys" "y = bs ! (s - i)" by (simp add: Cons_nth_drop_Suc[symmetric])
  with c show ?thesis by (auto simp: code_at_def split: if_splits)
qed

text \<open>Cutting a buffer at a delimiter leaves the delimiter at its start.\<close>

lemma code_at_0: "code_at 0 p bs \<Longrightarrow> \<exists>r. start_codes_from 0 bs = (0, p) # r"
proof -
  assume c: "code_at 0 p bs"
  then have l: "3 \<le> length bs" by (auto simp: code_at_def split: if_splits)
  from c show ?thesis unfolding start_codes_step[OF l] by (auto simp: code_at_def split: if_splits)
qed

lemma code_at_drop: "code_at k p bs \<Longrightarrow> code_at 0 p (drop k bs)"
  by (auto simp: code_at_def split: if_splits)

lemma rescan:
  assumes "(n, q) \<in> set (find_auds codec bs)"
  shows "\<exists>r. find_auds codec (drop n bs) = (0, q) # r"
proof -
  have m: "(n, q) \<in> set (start_codes_from 0 bs)"
    using assms by (auto simp: find_auds_def find_aud_start_codes_h264_def find_aud_start_codes_h265_def
        find_annex_b_start_codes_def split: if_splits)
  then obtain r where r: "start_codes_from 0 (drop n bs) = (0, q) # r"
    using start_codes_at[OF m] code_at_drop[of n q bs] code_at_0[of q "drop n bs"] by auto
  have "n \<le> length bs" using start_codes_at[OF m] by (simp add: code_at_def)
  then have "get_byte (drop n bs) i = get_byte bs (n + i)" for i by (auto simp: get_byte_def)
  then have "is_aud_h264 (drop n bs) q = is_aud_h264 bs (n + q)" "is_aud_h265 (drop n bs) q = is_aud_h265 bs (n + q)"
    by (simp_all add: is_aud_h264_def is_aud_h265_def split: option.split)
  with assms r show ?thesis
    by (auto simp: find_auds_def find_aud_start_codes_h264_def find_aud_start_codes_h265_def
        find_annex_b_start_codes_def split: if_splits)
qed

text \<open>A buffer that starts with a start code keeps it when it is cut at or after the code's end.\<close>

lemma start_codes_head:
  assumes "start_codes_from i bs = (i, p) # rest" "p \<le> n"
  shows "\<exists>rest'. start_codes_from i (take n bs) = (i, p) # rest'"
proof -
  have l: "3 \<le> length bs" using assms(1) start_codes_short[of bs i] by (cases "length bs < 3") auto
  consider (c3) "take 3 bs = [0, 0, 1]" "p = 3" | (c4) "take 3 bs \<noteq> [0, 0, 1]" "take 4 bs = [0, 0, 0, 1]" "p = 4"
    | (no) "start_codes_from (i + 1) (drop 1 bs) = (i, p) # rest"
    using assms(1) unfolding start_codes_step[OF l] by (auto split: if_splits)
  then show ?thesis
  proof cases
    case c3
    then show ?thesis using assms(2) l by (simp add: start_codes_step min_def)
  next
    case c4
    then have "4 \<le> length bs" by (simp add: take4_length)
    with c4 show ?thesis using assms(2) by (simp add: start_codes_step min_def)
  next
    case no
    then show ?thesis using start_codes_sorted[of "i + 1" "drop 1 bs"] by auto
  qed
qed

lemma first_start_code:
  assumes "(0, p) \<in> set (start_codes_from 0 bs)"
  shows "\<exists>rest. start_codes_from 0 bs = (0, p) # rest"
proof (cases "start_codes_from 0 bs")
  case (Cons c rest)
  have "c = (0, p)"
  proof (rule ccontr)
    assume "c \<noteq> (0, p)"
    then have "(0, p) \<in> set rest" using assms Cons by auto
    then show False using start_codes_sorted[of 0 bs] Cons by (cases c) auto
  qed
  with Cons show ?thesis by blast
qed (use assms in simp)

lemma aud_unit_has_nal:
  assumes "find_aud_start_codes_h264 bs = (0, p) # (n, q) # rest"
  shows "inspect_h264_annex_b_nal_units (take n bs) \<noteq> []"
proof -
  have m: "(0, p) \<in> set (start_codes_from 0 bs)" "(n, q) \<in> set (start_codes_from 0 bs)" "is_aud_h264 bs p"
  proof -
    have "(0, p) \<in> set (find_aud_start_codes_h264 bs)" "(n, q) \<in> set (find_aud_start_codes_h264 bs)"
      using assms by simp_all
    then show "(0, p) \<in> set (start_codes_from 0 bs)" "(n, q) \<in> set (start_codes_from 0 bs)" "is_aud_h264 bs p"
      by (auto simp: find_aud_start_codes_h264_def find_annex_b_start_codes_def)
  qed
  have pn: "p \<le> n" using find_auds_sorted[of H264 bs] assms by (simp add: find_auds_def)
  have "bs ! p \<noteq> 0" "p < length bs" using m(3) by (auto simp: is_aud_h264_def get_byte_def split: if_splits)
  moreover have "bs ! n = 0" "n < length bs" using start_codes_zero[OF m(2)] by auto
  ultimately have lt: "p < n" using pn by (cases "p = n") auto
  obtain rest' where r: "start_codes_from 0 (take n bs) = (0, p) # rest'"
    using first_start_code[OF m(1)] start_codes_head pn by blast
  have nz: "take n bs ! p \<noteq> 0" using lt \<open>bs ! p \<noteq> 0\<close> by simp
  have later: "p < s" if "(s, t) \<in> set rest'" for s t
  proof -
    have "p \<le> s" using start_codes_sorted[of 0 "take n bs"] that unfolding r by auto
    moreover have "take n bs ! s = 0" using start_codes_zero[of s t 0 "take n bs"] that r by auto
    ultimately show ?thesis using nz by (cases "p = s") auto
  qed
  show ?thesis
  proof (cases rest')
    case (Cons c cs)
    then have "p < fst c" using later[of "fst c" "snd c"] by simp
    then show ?thesis
      by (cases c) (simp add: inspect_h264_annex_b_nal_units_def find_annex_b_start_codes_def r Cons Let_def)
  qed (use lt \<open>n < length bs\<close> in \<open>simp add: inspect_h264_annex_b_nal_units_def find_annex_b_start_codes_def r Let_def\<close>)
qed

abbreviation delimited :: "framer \<Rightarrow> bool" where "delimited f \<equiv> fr_codec f \<noteq> Av1"

lemma next_unit_ok:
  assumes "delimited f" "find_auds (fr_codec f) bs = (0, p) # (n, q) # rest"
  shows "\<exists>au. next_access_unit f (take n bs) =
      (f\<lparr>fr_next_frame_id := fr_next_frame_id f + 1, fr_next_timestamp := fr_next_timestamp f + frame_duration_micros f\<rparr>, Ok au) \<and>
    au_bytes au = take n bs \<and> au_frame_id au = fr_next_frame_id f \<and> au_timestamp_micros au = fr_next_timestamp f"
proof -
  have "0 < n" "n \<le> length bs" using find_auds_sorted[of "fr_codec f" bs] assms(2) by auto
  moreover have "fr_codec f = H264 \<Longrightarrow> inspect_h264_annex_b_nal_units (take n bs) \<noteq> []"
    using aud_unit_has_nal[of bs p n q rest] assms(2) by (simp add: find_auds_def)
  ultimately show ?thesis using assms(1)
    by (cases "fr_codec f") (auto simp: next_access_unit_def packetize_access_unit_def
        packetize_h264_annex_b_access_unit_def plain_unit_def Let_def)
qed

text \<open>The units of one drain: they start at a delimiter, carry consecutive numbers and, with the rest
  of the buffer, spell the buffer from its first delimiter on.\<close>

definition numbered :: "framer \<Rightarrow> access_unit list \<Rightarrow> bool" where
  "numbered f aus \<longleftrightarrow> (\<forall>i < length aus.
     au_frame_id (aus ! i) = fr_next_frame_id f + of_nat i \<and>
     au_timestamp_micros (aus ! i) = fr_next_timestamp f + of_nat i * frame_duration_micros f)"

lemma numbered_Cons:
  assumes "au_frame_id au = fr_next_frame_id f" "au_timestamp_micros au = fr_next_timestamp f"
    "numbered (f\<lparr>fr_next_frame_id := fr_next_frame_id f + 1,
       fr_next_timestamp := fr_next_timestamp f + frame_duration_micros f, fr_buffer := b\<rparr>) aus"
  shows "numbered f (au # aus)"
  using assms by (auto simp: numbered_def nth_Cons algebra_simps split: nat.splits)

lemma drain_empty: "find_auds (fr_codec f) (fr_buffer f) = [] \<Longrightarrow> drain_auds f acc = (f, Ok acc)"
  by (subst drain_auds.simps) simp

lemma drain_skip:
  "find_auds (fr_codec f) (fr_buffer f) = (Suc a, p) # r \<Longrightarrow>
     drain_auds f acc = drain_auds (f\<lparr>fr_buffer := drop (Suc a) (fr_buffer f)\<rparr>) acc"
  by (subst drain_auds.simps) simp

lemma drain_wait: "find_auds (fr_codec f) (fr_buffer f) = [(0, p)] \<Longrightarrow> drain_auds f acc = (f, Ok acc)"
  by (subst drain_auds.simps) simp

text \<open>The framer after it has cut off one unit of \<open>n\<close> bytes.\<close>

abbreviation advanced :: "framer \<Rightarrow> nat \<Rightarrow> framer" where
  "advanced f n \<equiv> f\<lparr>fr_next_frame_id := fr_next_frame_id f + 1,
     fr_next_timestamp := fr_next_timestamp f + frame_duration_micros f, fr_buffer := drop n (fr_buffer f)\<rparr>"

lemma drain_cut:
  assumes "delimited f" "find_auds (fr_codec f) (fr_buffer f) = (0, p) # (n, q) # r"
  shows "\<exists>au. (\<forall>x acc. drain_auds (f\<lparr>fr_buffer := fr_buffer f @ x\<rparr>) acc =
                  drain_auds ((advanced f n)\<lparr>fr_buffer := drop n (fr_buffer f) @ x\<rparr>) (acc @ [au])) \<and>
    au_bytes au = take n (fr_buffer f) \<and> au_frame_id au = fr_next_frame_id f \<and>
    au_timestamp_micros au = fr_next_timestamp f"
proof -
  have n: "n \<le> length (fr_buffer f)" using find_auds_sorted[of "fr_codec f" "fr_buffer f"] assms(2) by auto
  obtain au where au: "next_access_unit f (take n (fr_buffer f)) =
      (f\<lparr>fr_next_frame_id := fr_next_frame_id f + 1, fr_next_timestamp := fr_next_timestamp f + frame_duration_micros f\<rparr>, Ok au)"
    "au_bytes au = take n (fr_buffer f)" "au_frame_id au = fr_next_frame_id f" "au_timestamp_micros au = fr_next_timestamp f"
    using next_unit_ok[OF assms] by blast
  have "drain_auds (f\<lparr>fr_buffer := fr_buffer f @ x\<rparr>) acc =
      drain_auds ((advanced f n)\<lparr>fr_buffer := drop n (fr_buffer f) @ x\<rparr>) (acc @ [au])" for x acc
  proof -
    obtain r' where r': "find_auds (fr_codec f) (fr_buffer f @ x) = (0, p) # (n, q) # r'"
      using find_auds_prefix[of "fr_codec f" "fr_buffer f" x] assms(2) by (auto simp: prefix_def)
    have "next_access_unit (f\<lparr>fr_buffer := drop n (fr_buffer f @ x)\<rparr>) (take n (fr_buffer f @ x)) =
        ((advanced f n)\<lparr>fr_buffer := drop n (fr_buffer f) @ x\<rparr>, Ok au)"
      using au(1) n by (simp add: next_access_unit_def)
    then show ?thesis by (subst drain_auds.simps) (simp add: r')
  qed
  with au show ?thesis by blast
qed

definition lead :: "framer \<Rightarrow> nat" where
  "lead f = (case find_auds (fr_codec f) (fr_buffer f) of [] \<Rightarrow> 0 | (a, _) # _ \<Rightarrow> a)"

text \<open>More input only continues the drain: what was emitted and kept does not change.\<close>

lemma drain_append:
  assumes "delimited f"
  shows "\<exists>f' aus. fr_codec f' = fr_codec f \<and> numbered f aus \<and>
    concat (map au_bytes aus) @ fr_buffer f' = drop (lead f) (fr_buffer f) \<and>
    (\<forall>acc. drain_auds f acc = (f', Ok (acc @ aus))) \<and>
    (\<forall>acc x. drain_auds (f\<lparr>fr_buffer := fr_buffer f @ x\<rparr>) acc =
         drain_auds (f'\<lparr>fr_buffer := fr_buffer f' @ x\<rparr>) (acc @ aus))"
  using assms
proof (induction "length (fr_buffer f)" arbitrary: f rule: less_induct)
  case less
  have stay: ?case if "\<And>acc. drain_auds f acc = (f, Ok acc)" "lead f = 0"
    using that by (intro exI[of _ f] exI[of _ "[]"]) (auto simp: numbered_def)
  consider (none) "find_auds (fr_codec f) (fr_buffer f) = []"
    | (skip) a p r where "find_auds (fr_codec f) (fr_buffer f) = (Suc a, p) # r"
    | (wait) p where "find_auds (fr_codec f) (fr_buffer f) = [(0, p)]"
    | (cut) p n q r where "find_auds (fr_codec f) (fr_buffer f) = (0, p) # (n, q) # r"
    by (metis list.exhaust not0_implies_Suc surj_pair)
  then show ?case
  proof cases
    case none
    then show ?thesis by (intro stay drain_empty) (simp_all add: lead_def)
  next
    case wait
    then show ?thesis by (intro stay drain_wait) (simp_all add: lead_def)
  next
    case skip
    let ?g = "f\<lparr>fr_buffer := drop (Suc a) (fr_buffer f)\<rparr>"
    have len: "Suc a \<le> length (fr_buffer f)"
      using find_auds_sorted[of "fr_codec f" "fr_buffer f"] skip by auto
    then have "length (fr_buffer ?g) < length (fr_buffer f)" by simp
    from less.hyps[OF this] less.prems obtain f' aus where IH: "fr_codec f' = fr_codec f" "numbered ?g aus"
      "concat (map au_bytes aus) @ fr_buffer f' = drop (lead ?g) (fr_buffer ?g)"
      "\<And>acc. drain_auds ?g acc = (f', Ok (acc @ aus))"
      "\<And>acc x. drain_auds (?g\<lparr>fr_buffer := fr_buffer ?g @ x\<rparr>) acc = drain_auds (f'\<lparr>fr_buffer := fr_buffer f' @ x\<rparr>) (acc @ aus)"
      by auto
    have lead: "lead ?g = 0" "lead f = Suc a" using rescan[of "Suc a" p "fr_codec f" "fr_buffer f"] skip
      by (auto simp: lead_def)
    have "drain_auds (f\<lparr>fr_buffer := fr_buffer f @ x\<rparr>) acc = drain_auds (?g\<lparr>fr_buffer := fr_buffer ?g @ x\<rparr>) acc" for acc x
    proof -
      obtain r' where "find_auds (fr_codec f) (fr_buffer f @ x) = (Suc a, p) # r'"
        using find_auds_prefix[of "fr_codec f" "fr_buffer f" x] skip by (auto simp: prefix_def)
      then show ?thesis using drain_skip[of "f\<lparr>fr_buffer := fr_buffer f @ x\<rparr>"] len by simp
    qed
    with IH lead drain_skip[OF skip] show ?thesis
      by (intro exI[of _ f'] exI[of _ aus]) (auto simp: numbered_def)
  next
    case cut
    have n: "0 < n" "n \<le> length (fr_buffer f)"
      using find_auds_sorted[of "fr_codec f" "fr_buffer f"] cut by auto
    obtain au where au: "\<And>x acc. drain_auds (f\<lparr>fr_buffer := fr_buffer f @ x\<rparr>) acc =
        drain_auds ((advanced f n)\<lparr>fr_buffer := drop n (fr_buffer f) @ x\<rparr>) (acc @ [au])"
      "au_bytes au = take n (fr_buffer f)" "au_frame_id au = fr_next_frame_id f" "au_timestamp_micros au = fr_next_timestamp f"
      using drain_cut[OF less.prems cut] by blast
    have "length (fr_buffer (advanced f n)) < length (fr_buffer f)" using n by simp
    from less.hyps[OF this] less.prems obtain f' aus where IH: "fr_codec f' = fr_codec f" "numbered (advanced f n) aus"
      "concat (map au_bytes aus) @ fr_buffer f' = drop (lead (advanced f n)) (drop n (fr_buffer f))"
      "\<And>acc. drain_auds (advanced f n) acc = (f', Ok (acc @ aus))"
      "\<And>acc x. drain_auds ((advanced f n)\<lparr>fr_buffer := drop n (fr_buffer f) @ x\<rparr>) acc =
         drain_auds (f'\<lparr>fr_buffer := fr_buffer f' @ x\<rparr>) (acc @ aus)" by auto
    have lead: "lead (advanced f n) = 0" "lead f = 0" using rescan[of n q "fr_codec f" "fr_buffer f"] cut
      by (auto simp: lead_def)
    have "drain_auds f acc = (f', Ok (acc @ au # aus))" for acc using au(1)[of "[]" acc] IH(4) by simp
    moreover have "numbered f (au # aus)" by (rule numbered_Cons[OF au(3,4) IH(2)])
    moreover have "concat (map au_bytes (au # aus)) @ fr_buffer f' = drop (lead f) (fr_buffer f)"
      using IH(3) au(2) lead by simp
    ultimately show ?thesis using au(1) IH(1,5) by (intro exI[of _ f'] exI[of _ "au # aus"]) auto
  qed
qed

subsection \<open>Properties\<close>

text \<open>A reader hands the framer one chunk after the other.\<close>

fun push_all :: "framer \<Rightarrow> bytes list \<Rightarrow> (framer \<times> access_unit list) option" where
  "push_all f [] = Some (f, [])"
| "push_all f (c # cs) =
     (case push_chunk_framer f c of
        Some (f', Inr aus) \<Rightarrow> map_option (\<lambda>(f'', aus'). (f'', aus @ aus')) (push_all f' cs)
      | _ \<Rightarrow> None)"

lemma push_delimited: "delimited f \<Longrightarrow> push_chunk_framer f c = Some (drain_auds (f\<lparr>fr_buffer := fr_buffer f @ c\<rparr>) [])"
  by (cases "fr_codec f") (simp_all add: push_chunk_framer_def)

lemma push_all_drain:
  "delimited f \<Longrightarrow> cs \<noteq> [] \<Longrightarrow> \<exists>f' aus. push_all f cs = Some (f', aus) \<and>
     drain_auds (f\<lparr>fr_buffer := fr_buffer f @ concat cs\<rparr>) [] = (f', Ok aus)"
proof (induction cs arbitrary: f)
  case (Cons c cs)
  let ?g = "f\<lparr>fr_buffer := fr_buffer f @ c\<rparr>"
  obtain f' aus where d: "fr_codec f' = fr_codec f" "drain_auds ?g [] = (f', Ok aus)"
    "\<And>x. drain_auds (?g\<lparr>fr_buffer := fr_buffer ?g @ x\<rparr>) [] = drain_auds (f'\<lparr>fr_buffer := fr_buffer f' @ x\<rparr>) aus"
    using drain_append[of ?g] Cons.prems by auto
  show ?case
  proof (cases "cs = []")
    case True
    then show ?thesis using d(2) push_delimited[of f c] Cons.prems by simp
  next
    case False
    then obtain g aus' where IH: "push_all f' cs = Some (g, aus')"
      "drain_auds (f'\<lparr>fr_buffer := fr_buffer f' @ concat cs\<rparr>) [] = (g, Ok aus')"
      using Cons.IH[of f'] Cons.prems d(1) by auto
    have "drain_auds (f'\<lparr>fr_buffer := fr_buffer f' @ concat cs\<rparr>) aus = (g, Ok (aus @ aus'))"
      using drain_append[of "f'\<lparr>fr_buffer := fr_buffer f' @ concat cs\<rparr>"] IH(2) d(1) Cons.prems by auto
    then show ?thesis using d(2) d(3)[of "concat cs"] IH(1) push_delimited[of f c] Cons.prems by simp
  qed
qed simp

text \<open>C16: The framer is insensitive to how the encoder's output is cut into reads: pushing an
  H.264 or H.265 stream chunk by chunk ends in the same framer state and emits the same access
  units as pushing it in one piece, whatever the chunk boundaries (inside start codes included).\<close>

theorem framer_chunking_invariant:
  assumes "fr_codec f \<noteq> Av1" "cs \<noteq> []"
  shows "\<exists>f' aus. push_all f cs = Some (f', aus) \<and> push_chunk_framer f (concat cs) = Some (f', Ok aus)"
  using push_all_drain[OF assms] push_delimited[OF assms(1)] by auto

definition demo_framer :: framer where
  "demo_framer = \<lparr>fr_codec = H264, fr_buffer = [], fr_next_frame_id = 0, fr_next_timestamp = 0,
     frame_duration_micros = 16666\<rparr>"

theorem framer_chunking_invariant_witness:
  "\<exists>f' aus. push_all demo_framer [[0, 0], [0, 1, 9, 16, 0], [0, 1, 9]] = Some (f', aus) \<and>
     push_chunk_framer demo_framer [0, 0, 0, 1, 9, 16, 0, 0, 1, 9] = Some (f', Ok aus)"
  using framer_chunking_invariant[of demo_framer "[[0, 0], [0, 1, 9, 16, 0], [0, 1, 9]]"]
  by (simp add: demo_framer_def)

text \<open>No byte of an H.264 or H.265 stream is lost or duplicated after its first delimiter:
  pushing a chunk never fails, the emitted access units followed by the kept buffer are exactly
  the buffered stream from its first delimiter on, and the units carry consecutive frame numbers
  and timestamps one frame duration apart.\<close>

theorem framer_lossless:
  assumes "fr_codec f \<noteq> Av1"
  shows "\<exists>f' aus. push_chunk_framer f chunk = Some (f', Ok aus) \<and> numbered f aus \<and>
    concat (map au_bytes aus) @ fr_buffer f' =
      drop (lead (f\<lparr>fr_buffer := fr_buffer f @ chunk\<rparr>)) (fr_buffer f @ chunk)"
  using drain_append[of "f\<lparr>fr_buffer := fr_buffer f @ chunk\<rparr>"] push_delimited[of f chunk] assms
  by (auto simp: numbered_def)

theorem framer_lossless_witness:
  "\<exists>f' aus. push_chunk_framer demo_framer [7, 0, 0, 1, 9, 16] = Some (f', Ok aus) \<and>
     concat (map au_bytes aus) @ fr_buffer f' = [0, 0, 1, 9, 16]"
proof -
  have "lead (demo_framer\<lparr>fr_buffer := [7, 0, 0, 1, 9, 16]\<rparr>) = 1" by code_simp
  then show ?thesis using framer_lossless[of demo_framer "[7, 0, 0, 1, 9, 16]"] by (auto simp: demo_framer_def)
qed

text \<open>Two truncated AV1 inputs make the framer panic instead of waiting for more bytes: an OBU
  header with the extension flag as the last byte of the buffer, and a temporal delimiter whose
  declared size reaches past the buffer.\<close>

theorem av1_truncation_panics:
  "push_chunk_framer (demo_framer\<lparr>fr_codec := Av1\<rparr>) [0, 0, 1, 0x16] = None \<and>
   push_chunk_framer (demo_framer\<lparr>fr_codec := Av1\<rparr>) [0, 0, 1, 0x12, 5] = None"
  by code_simp

text \<open>Every temporal delimiter is emitted as an access unit of its own, with a frame number and a
  timestamp, ahead of the frame it announces.\<close>

lemma av1_delimiter_own_unit:
  "map_option (\<lambda>(f', r). map_sum id (map (\<lambda>au. (au_frame_id au, au_bytes au))) r)
     (push_chunk_framer (demo_framer\<lparr>fr_codec := Av1\<rparr>)
        [0, 0, 1, 0x12, 0, 0, 0, 1, 0x32, 1, 7, 0, 0, 1, 0x12, 0]) =
   Some (Ok [(0, [0, 0, 1, 0x12, 0]), (1, [0, 0, 1, 0x32, 1, 7]), (2, [0, 0, 1, 0x12, 0])])"
  by code_simp

end
