(* ===== verification/Quic_Streams.thy ===== *)
theory Quic_Streams
  imports Annex_B Host_Input
begin

text \<open>
  The reliable QUIC path between a host and a client (\<open>qubox-transport/src/lib.rs\<close>): length-prefixed
  JSON frames with their size limits, the access-unit, audio, input and control streams, the
  authentication stream, the stream-purpose envelope and the router that collects the streams of a
  session on the client. A stream is the list of the bytes its sender wrote before finishing it; a
  read returns what is left. JSON encoders and decoders (serde) are arguments of the operations. A
  send half is represented by a number. Streams that do not arrive before a deadline are absent from
  the list of incoming streams; running out of that list is the timeout.
\<close>

subsection \<open>Constants\<close>

definition QUIC_VERSION_V2 :: u32 where "QUIC_VERSION_V2 = 0x6B3343CF"
definition QUIC_VERSION_V1 :: u32 where "QUIC_VERSION_V1 = 1"
definition PREFERRED_QUIC_VERSIONS :: "u32 list" where
  "PREFERRED_QUIC_VERSIONS = [QUIC_VERSION_V2, QUIC_VERSION_V1]"

definition MAX_JSON_FRAME :: nat where "MAX_JSON_FRAME = 256 * 1024"
definition MAX_VIDEO_AU_BYTES :: nat where "MAX_VIDEO_AU_BYTES = 8 * 1024 * 1024"
definition MAX_AUDIO_CHUNK_BYTES :: nat where "MAX_AUDIO_CHUNK_BYTES = 512 * 1024"

datatype ack_policy = AckMedia | AckControl | AckInputImmediate

definition min_ack_delay_us :: "ack_policy \<Rightarrow> u64" where
  "min_ack_delay_us p = (case p of AckMedia \<Rightarrow> 25000 | _ \<Rightarrow> 1000)"

definition ack_eliciting_threshold :: "ack_policy \<Rightarrow> u8" where
  "ack_eliciting_threshold p = (case p of AckInputImmediate \<Rightarrow> 0 | _ \<Rightarrow> 1)"

definition reordering_threshold :: "ack_policy \<Rightarrow> u8" where
  "reordering_threshold p = (case p of AckMedia \<Rightarrow> 2 | _ \<Rightarrow> 1)"

subsection \<open>Length-prefixed JSON\<close>

datatype stream_error =
    UnexpectedEof
  | FrameTooLong nat
  | BadJson
  | AuTooLong nat
  | AudioTooLong nat
  | WrongSession uuid
  | ConfigOnInput
  | UnknownPurpose u8

definition write_json_prefixed :: "('a \<Rightarrow> bytes) \<Rightarrow> 'a \<Rightarrow> bytes" where
  "write_json_prefixed to_json x = to_be_bytes 4 (of_nat (length (to_json x)) :: u32) @ to_json x"

definition read_u32 :: "bytes \<Rightarrow> (u32 \<times> bytes) option" where
  "read_u32 s = (if length s < 4 then None else Some (from_be_bytes (take 4 s), drop 4 s))"

text \<open>The part after the length, common to both readers.\<close>

definition read_json_body :: "(bytes \<Rightarrow> 'a option) \<Rightarrow> nat \<Rightarrow> bytes \<Rightarrow> (stream_error, 'a \<times> bytes) result" where
  "read_json_body of_json len s =
     (if len > MAX_JSON_FRAME then Err (FrameTooLong len)
      else if length s < len then Err UnexpectedEof
      else case of_json (take len s) of None \<Rightarrow> Err BadJson | Some x \<Rightarrow> Ok (x, drop len s))"

definition read_json_prefixed :: "(bytes \<Rightarrow> 'a option) \<Rightarrow> bytes \<Rightarrow> (stream_error, 'a \<times> bytes) result" where
  "read_json_prefixed of_json s =
     (case read_u32 s of None \<Rightarrow> Err UnexpectedEof | Some (len, s') \<Rightarrow> read_json_body of_json (unat len) s')"

definition maybe_read_json_prefixed ::
    "(bytes \<Rightarrow> 'a option) \<Rightarrow> bytes \<Rightarrow> (stream_error, ('a \<times> bytes) option) result" where
  "maybe_read_json_prefixed of_json s =
     (case read_u32 s of
        None \<Rightarrow> Ok None
      | Some (len, s') \<Rightarrow> map_sum id Some (read_json_body of_json (unat len) s'))"

subsection \<open>Video access units\<close>

text \<open>The refresh rate is carried as the bit pattern of the \<open>f32\<close>.\<close>

record wire_access_unit_header =
  wh_session_id :: uuid
  wh_frame_id :: u64
  wh_timestamp_micros :: u64
  wh_keyframe :: bool
  wh_byte_len :: nat
  wh_codec :: "video_codec option"
  wh_stream_id :: u16
  wh_display_id :: u32
  wh_width :: u32
  wh_height :: u32
  wh_refresh_hz :: u32
  wh_color_space_id :: u8
  wh_hdr_static_metadata :: "bytes option"

definition access_unit_header ::
    "uuid \<Rightarrow> access_unit \<Rightarrow> u16 \<Rightarrow> u32 \<Rightarrow> u32 \<Rightarrow> u32 \<Rightarrow> u32 \<Rightarrow> u8 \<Rightarrow> bytes option \<Rightarrow> wire_access_unit_header" where
  "access_unit_header sid au stream display width height refresh color hdr =
     \<lparr>wh_session_id = sid, wh_frame_id = au_frame_id au, wh_timestamp_micros = au_timestamp_micros au,
      wh_keyframe = au_keyframe au, wh_byte_len = length (au_bytes au), wh_codec = Some (au_codec au),
      wh_stream_id = stream, wh_display_id = display, wh_width = width, wh_height = height,
      wh_refresh_hz = refresh, wh_color_space_id = color, wh_hdr_static_metadata = hdr\<rparr>"

definition send_access_unit :: "(wire_access_unit_header \<Rightarrow> bytes) \<Rightarrow> uuid \<Rightarrow> access_unit \<Rightarrow> bytes" where
  "send_access_unit to_json sid au =
     write_json_prefixed to_json (access_unit_header sid au 0 0 0 0 0 0 None) @ au_bytes au"

definition send_access_unit_ext ::
    "(wire_access_unit_header \<Rightarrow> bytes) \<Rightarrow> uuid \<Rightarrow> access_unit \<Rightarrow> u16 \<Rightarrow> u32 \<Rightarrow> u32 \<Rightarrow> u32 \<Rightarrow> u32 \<Rightarrow> u8 \<Rightarrow>
     bytes option \<Rightarrow> bytes" where
  "send_access_unit_ext to_json sid au stream display width height refresh color hdr =
     write_json_prefixed to_json (access_unit_header sid au stream display width height refresh color hdr) @ au_bytes au"

definition read_access_unit_header ::
    "(bytes \<Rightarrow> wire_access_unit_header option) \<Rightarrow> bytes \<Rightarrow>
     (stream_error, (wire_access_unit_header \<times> bytes) option) result" where
  "read_access_unit_header of_json s =
     (case maybe_read_json_prefixed of_json s of
        Inl e \<Rightarrow> Err e
      | Inr None \<Rightarrow> Ok None
      | Inr (Some (h, s')) \<Rightarrow>
          if wh_byte_len h > MAX_VIDEO_AU_BYTES then Err (AuTooLong (wh_byte_len h)) else Ok (Some (h, s')))"

definition read_access_unit ::
    "(bytes \<Rightarrow> wire_access_unit_header option) \<Rightarrow> uuid \<Rightarrow> bytes \<Rightarrow>
     (stream_error, (access_unit \<times> bytes) option) result" where
  "read_access_unit of_json sid s =
     (case read_access_unit_header of_json s of
        Inl e \<Rightarrow> Err e
      | Inr None \<Rightarrow> Ok None
      | Inr (Some (h, s')) \<Rightarrow>
          if wh_session_id h \<noteq> sid then Err (WrongSession (wh_session_id h))
          else if length s' < wh_byte_len h then Err UnexpectedEof
          else let bytes = take (wh_byte_len h) s';
                   codec = (case wh_codec h of Some c \<Rightarrow> c | None \<Rightarrow> H264)
            in Ok (Some (\<lparr>au_codec = codec, au_frame_id = wh_frame_id h, au_timestamp_micros = wh_timestamp_micros h,
                 au_keyframe = wh_keyframe h,
                 au_nal_units = (case codec of H264 \<Rightarrow> inspect_h264_annex_b_nal_units bytes | _ \<Rightarrow> []),
                 au_bytes = bytes, au_display_id = wh_display_id h, au_stream_id = wh_stream_id h,
                 au_width = wh_width h, au_height = wh_height h, au_color_space = None, au_bit_depth = 8\<rparr>,
               drop (wh_byte_len h) s')))"

subsection \<open>Audio chunks\<close>

datatype audio_codec = PcmF32

record video_stream_params =
  vs_codec :: video_codec
  vs_width :: u32
  vs_height :: u32
  vs_framerate :: u32

record audio_stream_params =
  ap_codec :: audio_codec
  ap_sample_rate :: u32
  ap_channels :: u16

record wire_audio_stream_header =
  wa_session_id :: uuid
  wa_audio :: audio_stream_params

record wire_audio_chunk_header =
  wc_session_id :: uuid
  wc_chunk_id :: u64
  wc_byte_len :: nat

record audio_sender =
  snd_session_id :: uuid
  next_chunk_id :: u64

definition send_audio_chunk ::
    "(wire_audio_chunk_header \<Rightarrow> bytes) \<Rightarrow> audio_sender \<Rightarrow> bytes \<Rightarrow> audio_sender \<times> bytes" where
  "send_audio_chunk to_json a chunk =
     (a\<lparr>next_chunk_id := next_chunk_id a + 1\<rparr>,
      write_json_prefixed to_json
        \<lparr>wc_session_id = snd_session_id a, wc_chunk_id = next_chunk_id a, wc_byte_len = length chunk\<rparr> @ chunk)"

definition read_audio_chunk_header ::
    "(bytes \<Rightarrow> wire_audio_chunk_header option) \<Rightarrow> bytes \<Rightarrow>
     (stream_error, (wire_audio_chunk_header \<times> bytes) option) result" where
  "read_audio_chunk_header of_json s =
     (case maybe_read_json_prefixed of_json s of
        Inl e \<Rightarrow> Err e
      | Inr None \<Rightarrow> Ok None
      | Inr (Some (h, s')) \<Rightarrow>
          if wc_byte_len h > MAX_AUDIO_CHUNK_BYTES then Err (AudioTooLong (wc_byte_len h)) else Ok (Some (h, s')))"

definition read_audio_chunk ::
    "(bytes \<Rightarrow> wire_audio_chunk_header option) \<Rightarrow> uuid \<Rightarrow> bytes \<Rightarrow>
     (stream_error, ((u64 \<times> bytes) \<times> bytes) option) result" where
  "read_audio_chunk of_json sid s =
     (case read_audio_chunk_header of_json s of
        Inl e \<Rightarrow> Err e
      | Inr None \<Rightarrow> Ok None
      | Inr (Some (h, s')) \<Rightarrow>
          if wc_session_id h \<noteq> sid then Err (WrongSession (wc_session_id h))
          else if length s' < wc_byte_len h then Err UnexpectedEof
          else Ok (Some ((wc_chunk_id h, take (wc_byte_len h) s'), drop (wc_byte_len h) s')))"

subsection \<open>Input and control\<close>

datatype quic_control_message = VideoConfigMsg video_stream_params | InputMsg remote_input_event

definition send_input_event :: "(quic_control_message \<Rightarrow> bytes) \<Rightarrow> remote_input_event \<Rightarrow> bytes" where
  "send_input_event to_json ev = write_json_prefixed to_json (InputMsg ev)"

definition read_input_event ::
    "(bytes \<Rightarrow> quic_control_message option) \<Rightarrow> bytes \<Rightarrow>
     (stream_error, (remote_input_event \<times> bytes) option) result" where
  "read_input_event of_json s =
     (case maybe_read_json_prefixed of_json s of
        Inl e \<Rightarrow> Err e
      | Inr None \<Rightarrow> Ok None
      | Inr (Some (InputMsg ev, s')) \<Rightarrow> Ok (Some (ev, s'))
      | Inr (Some (VideoConfigMsg _, s')) \<Rightarrow> Err ConfigOnInput)"

definition send_control_msg :: "('m \<Rightarrow> bytes) \<Rightarrow> 'm \<Rightarrow> bytes" where
  "send_control_msg to_json msg = write_json_prefixed to_json msg"

definition read_control_msg :: "(bytes \<Rightarrow> 'm option) \<Rightarrow> bytes \<Rightarrow> (stream_error, ('m \<times> bytes) option) result" where
  "read_control_msg of_json s = maybe_read_json_prefixed of_json s"

subsection \<open>Authentication stream\<close>

record client_auth =
  ca_session_id :: uuid
  ca_credential :: session_credential

record auth_ack =
  ack_accepted :: bool
  ack_message :: string

datatype auth_error =
    AuthRead stream_error
  | SessionMismatch
  | SessionExpired
  | PubkeyMismatch
  | HmacMismatch
  | AuthTail

text \<open>\<open>accept_authenticated_connection\<close> from the authentication stream on: the acknowledgement
  written (if any) and the outcome. After a refusal the connection is closed and the endpoint, which
  serves one connection, is gone.\<close>

definition refuse :: "string \<Rightarrow> auth_error \<Rightarrow> auth_ack option \<times> (auth_error, uuid) result" where
  "refuse msg e = (Some \<lparr>ack_accepted = False, ack_message = msg\<rparr>, Err e)"

definition accept_authenticated_connection ::
    "(bytes \<Rightarrow> client_auth option) \<Rightarrow> uuid \<Rightarrow> session_credential \<Rightarrow> u64 \<Rightarrow> bytes \<Rightarrow>
     auth_ack option \<times> (auth_error, uuid) result" where
  "accept_authenticated_connection of_json sid expected now s =
     (case read_json_prefixed of_json s of
        Inl e \<Rightarrow> (None, Err (AuthRead e))
      | Inr (auth, tail) \<Rightarrow>
          if ca_session_id auth \<noteq> sid then refuse ''session mismatch'' SessionMismatch
          else if cred_expires (ca_credential auth) < now \<or> cred_expires expected < now
          then refuse ''session expired'' SessionExpired
          else if cred_client_pubkey (ca_credential auth) \<noteq> cred_client_pubkey expected
          then refuse ''credential pubkey does not match planned session'' PubkeyMismatch
          else if cred_hmac (ca_credential auth) \<noteq> cred_hmac expected
          then refuse ''credential HMAC does not match'' HmacMismatch
          else if length tail > 1024 then (None, Err AuthTail)
          else (Some \<lparr>ack_accepted = True, ack_message = ''ok''\<rparr>, Ok sid))"

definition client_auth_request :: "(client_auth \<Rightarrow> bytes) \<Rightarrow> uuid \<Rightarrow> session_credential \<Rightarrow> bytes" where
  "client_auth_request to_json sid cred = write_json_prefixed to_json \<lparr>ca_session_id = sid, ca_credential = cred\<rparr>"

subsection \<open>Stream-purpose envelope\<close>

definition STREAM_MAGIC :: u8 where "STREAM_MAGIC = 0xA1"

datatype stream_purpose = PVideoConfig | PAudio | PMedia | PHostControl | PInput | PFileSync

definition purpose_as_byte :: "stream_purpose \<Rightarrow> u8" where
  "purpose_as_byte p = (case p of PVideoConfig \<Rightarrow> 1 | PAudio \<Rightarrow> 2 | PMedia \<Rightarrow> 3 | PHostControl \<Rightarrow> 4
     | PInput \<Rightarrow> 5 | PFileSync \<Rightarrow> 6)"

definition purpose_from_byte :: "u8 \<Rightarrow> stream_purpose option" where
  "purpose_from_byte b = (if b = 1 then Some PVideoConfig else if b = 2 then Some PAudio
     else if b = 3 then Some PMedia else if b = 4 then Some PHostControl
     else if b = 5 then Some PInput else if b = 6 then Some PFileSync else None)"

record stream_envelope =
  env_magic :: u8
  env_purpose :: stream_purpose

definition envelope_new :: "stream_purpose \<Rightarrow> stream_envelope" where
  "envelope_new p = \<lparr>env_magic = STREAM_MAGIC, env_purpose = p\<rparr>"

definition envelope_encode :: "stream_envelope \<Rightarrow> bytes" where
  "envelope_encode e = [env_magic e, purpose_as_byte (env_purpose e)]"

datatype envelope_error = EnvShort | EnvBadMagic | EnvUnknownPurpose u8

definition envelope_decode :: "bytes \<Rightarrow> (envelope_error, stream_envelope) result" where
  "envelope_decode buf =
     (if length buf < 2 then Err EnvShort
      else if buf ! 0 \<noteq> STREAM_MAGIC then Err EnvBadMagic
      else case purpose_from_byte (buf ! 1) of
             None \<Rightarrow> Err (EnvUnknownPurpose (buf ! 1))
           | Some p \<Rightarrow> Ok \<lparr>env_magic = buf ! 0, env_purpose = p\<rparr>)"

definition write_stream_envelope :: "stream_purpose \<Rightarrow> bytes" where
  "write_stream_envelope p = envelope_encode (envelope_new p)"

text \<open>The two bytes are consumed whatever they are.\<close>

definition try_read_envelope :: "bytes \<Rightarrow> (stream_error, stream_envelope option \<times> bytes) result" where
  "try_read_envelope s =
     (if length s < 2 then Ok (None, [])
      else case envelope_decode (take 2 s) of
             Inr env \<Rightarrow> Ok (Some env, drop 2 s)
           | Inl (EnvUnknownPurpose b) \<Rightarrow> Err (UnknownPurpose b)
           | Inl _ \<Rightarrow> Ok (None, drop 2 s))"

subsection \<open>Collecting the streams of a session\<close>

datatype accepted_stream =
    AccBi stream_purpose nat bytes
  | AccUni stream_purpose bytes
  | LegacyBi nat bytes
  | LegacyUni bytes

datatype incoming = InBi nat bytes | InUni bytes | InClosed

datatype route_error =
    RouteTimeout
  | AcceptFailed
  | EnvelopeFailed stream_error
  | StreamFailed stream_error
  | NoVideoConfigFirst
  | AudioWrongSession uuid
  | MissingStream string

record stream_router =
  r_video_config :: "video_stream_params option"
  r_audio_header :: "wire_audio_stream_header option"
  r_audio_recv :: "bytes option"
  r_media_recv :: "bytes option"
  r_control_send :: "nat option"
  r_control_recv :: "bytes option"
  r_extra :: "accepted_stream list"

definition router_new :: stream_router where
  "router_new = \<lparr>r_video_config = None, r_audio_header = None, r_audio_recv = None, r_media_recv = None,
     r_control_send = None, r_control_recv = None, r_extra = []\<rparr>"

definition required_satisfied :: "stream_router \<Rightarrow> bool" where
  "required_satisfied r \<longleftrightarrow> r_video_config r \<noteq> None \<and> r_audio_header r \<noteq> None \<and> r_audio_recv r \<noteq> None \<and>
     r_media_recv r \<noteq> None \<and> r_control_send r \<noteq> None \<and> r_control_recv r \<noteq> None"

definition accept_next_stream_envelope :: "incoming \<Rightarrow> (route_error, accepted_stream) result" where
  "accept_next_stream_envelope ev =
     (case ev of
        InClosed \<Rightarrow> Err AcceptFailed
      | InBi h s \<Rightarrow>
          (case try_read_envelope s of
             Inl e \<Rightarrow> Err (EnvelopeFailed e)
           | Inr (Some env, s') \<Rightarrow> Ok (AccBi (env_purpose env) h s')
           | Inr (None, s') \<Rightarrow> Ok (LegacyBi h s'))
      | InUni s \<Rightarrow>
          (case try_read_envelope s of
             Inl e \<Rightarrow> Err (EnvelopeFailed e)
           | Inr (Some env, s') \<Rightarrow> Ok (AccUni (env_purpose env) s')
           | Inr (None, s') \<Rightarrow> Ok (LegacyUni s')))"

text \<open>The decoders of the two JSON headers the router reads.\<close>

record route_json =
  of_control :: "bytes \<Rightarrow> quic_control_message option"
  of_audio :: "bytes \<Rightarrow> wire_audio_stream_header option"

definition route_bi :: "route_json \<Rightarrow> stream_router \<Rightarrow> stream_purpose \<Rightarrow> nat \<Rightarrow> bytes \<Rightarrow> (route_error, stream_router) result" where
  "route_bi J r p h s =
     (case p of
        PVideoConfig \<Rightarrow>
          (case read_json_prefixed (of_control J) s of
             Inl e \<Rightarrow> Err (StreamFailed e)
           | Inr (VideoConfigMsg v, _) \<Rightarrow> Ok (r\<lparr>r_video_config := Some v, r_control_send := Some h\<rparr>)
           | Inr (InputMsg _, _) \<Rightarrow> Err NoVideoConfigFirst)
      | PFileSync \<Rightarrow> Ok (r\<lparr>r_extra := r_extra r @ [AccBi PFileSync h s]\<rparr>)
      | _ \<Rightarrow> Ok r)"

definition route_uni :: "route_json \<Rightarrow> uuid \<Rightarrow> stream_router \<Rightarrow> stream_purpose \<Rightarrow> bytes \<Rightarrow> (route_error, stream_router) result" where
  "route_uni J sid r p s =
     (case p of
        PAudio \<Rightarrow>
          (case read_json_prefixed (of_audio J) s of
             Inl e \<Rightarrow> Err (StreamFailed e)
           | Inr (h, s') \<Rightarrow>
               if wa_session_id h \<noteq> sid then Err (AudioWrongSession (wa_session_id h))
               else Ok (r\<lparr>r_audio_header := Some h, r_audio_recv := Some s'\<rparr>))
      | PMedia \<Rightarrow> Ok (r\<lparr>r_media_recv := Some s\<rparr>)
      | PHostControl \<Rightarrow> Ok (r\<lparr>r_control_recv := Some s\<rparr>)
      | PFileSync \<Rightarrow> Ok (r\<lparr>r_extra := r_extra r @ [AccUni PFileSync s]\<rparr>)
      | _ \<Rightarrow> Ok r)"

text \<open>The main loop; a legacy stream ends it. The result is the router and the streams not yet
  accepted.\<close>

fun route_loop ::
    "route_json \<Rightarrow> uuid \<Rightarrow> stream_router \<Rightarrow> incoming list \<Rightarrow> (route_error, stream_router \<times> incoming list) result" where
  "route_loop J sid r evs =
     (if required_satisfied r then Ok (r, evs)
      else case evs of
        [] \<Rightarrow> Err RouteTimeout
      | ev # rest \<Rightarrow>
        (case accept_next_stream_envelope ev of
           Inl e \<Rightarrow> Err e
         | Inr (AccBi p h s) \<Rightarrow> (case route_bi J r p h s of Inl e \<Rightarrow> Err e | Inr r' \<Rightarrow> route_loop J sid r' rest)
         | Inr (AccUni p s) \<Rightarrow> (case route_uni J sid r p s of Inl e \<Rightarrow> Err e | Inr r' \<Rightarrow> route_loop J sid r' rest)
         | Inr legacy \<Rightarrow> Ok (r\<lparr>r_extra := r_extra r @ [legacy]\<rparr>, rest)))"

declare route_loop.simps [simp del]

definition legacy_bi :: "route_json \<Rightarrow> stream_router \<Rightarrow> nat \<Rightarrow> bytes \<Rightarrow> (route_error, stream_router) result" where
  "legacy_bi J r h s =
     (case read_json_prefixed (of_control J) s of
        Inl e \<Rightarrow> Err (StreamFailed e)
      | Inr (VideoConfigMsg v, _) \<Rightarrow>
          Ok (if r_video_config r = None then r\<lparr>r_video_config := Some v, r_control_send := Some h\<rparr> else r)
      | Inr (InputMsg _, _) \<Rightarrow> Ok r)"

fun drain_extras :: "route_json \<Rightarrow> uuid \<Rightarrow> stream_router \<Rightarrow> accepted_stream list \<Rightarrow> (route_error, stream_router) result" where
  "drain_extras J sid r [] = Ok r"
| "drain_extras J sid r (LegacyBi h s # sts) =
     (case legacy_bi J r h s of Inl e \<Rightarrow> Err e | Inr r' \<Rightarrow> drain_extras J sid r' sts)"
| "drain_extras J sid r (LegacyUni s # sts) =
     (case read_json_prefixed (of_audio J) s of
        Inl e \<Rightarrow> Err (StreamFailed e)
      | Inr (h, s') \<Rightarrow>
          drain_extras J sid
            (if wa_session_id h = sid \<and> r_audio_header r = None
             then r\<lparr>r_audio_header := Some h, r_audio_recv := Some s'\<rparr>
             else r\<lparr>r_control_recv := Some s'\<rparr>) sts)"
| "drain_extras J sid r (_ # sts) = drain_extras J sid r sts"

fun legacy_loop :: "route_json \<Rightarrow> uuid \<Rightarrow> stream_router \<Rightarrow> incoming list \<Rightarrow> (route_error, stream_router) result" where
  "legacy_loop J sid r evs =
     (if required_satisfied r then Ok r
      else case evs of
        [] \<Rightarrow> Err RouteTimeout
      | ev # rest \<Rightarrow>
        (case accept_next_stream_envelope ev of
           Inl e \<Rightarrow> Err e
         | Inr (LegacyUni s) \<Rightarrow>
             (case read_json_prefixed (of_audio J) s of
                Inl e \<Rightarrow> Err (StreamFailed e)
              | Inr (h, s') \<Rightarrow>
                  legacy_loop J sid
                    (if wa_session_id h = sid \<and> r_audio_header r = None
                     then r\<lparr>r_audio_header := Some h, r_audio_recv := Some s'\<rparr>
                     else if r_media_recv r = None then r\<lparr>r_media_recv := Some s'\<rparr>
                     else r\<lparr>r_control_recv := Some s'\<rparr>) rest)
         | Inr (LegacyBi h s) \<Rightarrow> (case legacy_bi J r h s of Inl e \<Rightarrow> Err e | Inr r' \<Rightarrow> legacy_loop J sid r' rest)
         | Inr _ \<Rightarrow> legacy_loop J sid r rest))"

declare legacy_loop.simps [simp del]

definition drain_legacy_streams ::
    "route_json \<Rightarrow> uuid \<Rightarrow> stream_router \<Rightarrow> incoming list \<Rightarrow> (route_error, stream_router) result" where
  "drain_legacy_streams J sid r evs =
     (case drain_extras J sid (r\<lparr>r_extra := []\<rparr>) (r_extra r) of
        Inl e \<Rightarrow> Err e
      | Inr r' \<Rightarrow> legacy_loop J sid r' evs)"

record client_session =
  cs_video_config :: video_stream_params
  cs_audio_config :: audio_stream_params
  cs_media_recv :: bytes
  cs_audio_recv :: bytes
  cs_input_send :: nat
  cs_control_recv :: bytes

definition finish_router :: "stream_router \<Rightarrow> (route_error, client_session) result" where
  "finish_router r =
     (case r_video_config r of None \<Rightarrow> Err (MissingStream ''VideoConfig'') | Some v \<Rightarrow>
     (case r_audio_header r of None \<Rightarrow> Err (MissingStream ''Audio'') | Some a \<Rightarrow>
     (case r_media_recv r of None \<Rightarrow> Err (MissingStream ''Media'') | Some m \<Rightarrow>
     (case r_control_recv r of None \<Rightarrow> Err (MissingStream ''HostControl'') | Some c \<Rightarrow>
     (case r_control_send r of None \<Rightarrow> Err (MissingStream ''control bi-stream'') | Some i \<Rightarrow>
     (case r_audio_recv r of None \<Rightarrow> Err (MissingStream ''audio recv'') | Some ar \<Rightarrow>
       Ok \<lparr>cs_video_config = v, cs_audio_config = wa_audio a, cs_media_recv = m, cs_audio_recv = ar,
           cs_input_send = i, cs_control_recv = c\<rparr>))))))"

definition route_post_auth_streams ::
    "route_json \<Rightarrow> uuid \<Rightarrow> incoming list \<Rightarrow> (route_error, client_session) result" where
  "route_post_auth_streams J sid evs =
     (case route_loop J sid router_new evs of
        Inl e \<Rightarrow> Err e
      | Inr (r, rest) \<Rightarrow>
          if r_extra r \<noteq> []
          then (case drain_legacy_streams J sid r rest of Inl e \<Rightarrow> Err e | Inr r' \<Rightarrow> finish_router r')
          else finish_router r)"

subsection \<open>The streams a host opens\<close>

definition open_media_stream :: "bytes \<Rightarrow> incoming" where
  "open_media_stream body = InUni (write_stream_envelope PMedia @ body)"

definition open_audio_sender :: "(wire_audio_stream_header \<Rightarrow> bytes) \<Rightarrow> uuid \<Rightarrow> audio_stream_params \<Rightarrow> bytes \<Rightarrow> incoming" where
  "open_audio_sender to_json sid audio body =
     InUni (write_stream_envelope PAudio @ write_json_prefixed to_json \<lparr>wa_session_id = sid, wa_audio = audio\<rparr> @ body)"

definition open_input_receiver :: "(quic_control_message \<Rightarrow> bytes) \<Rightarrow> nat \<Rightarrow> video_stream_params \<Rightarrow> incoming" where
  "open_input_receiver to_json h video =
     InBi h (write_stream_envelope PVideoConfig @ write_json_prefixed to_json (VideoConfigMsg video))"

definition open_control_sender :: "bytes \<Rightarrow> incoming" where
  "open_control_sender body = InUni (write_stream_envelope PHostControl @ body)"

definition open_filesync_handshake :: "nat \<Rightarrow> bytes \<Rightarrow> incoming" where
  "open_filesync_handshake h body = InBi h (write_stream_envelope PFileSync @ body)"

definition open_filesync_bulk :: "bytes \<Rightarrow> incoming" where
  "open_filesync_bulk body = InUni (write_stream_envelope PFileSync @ body)"

subsection \<open>Framing\<close>

lemma read_u32_write: "read_u32 (to_be_bytes 4 w @ rest) = Some (w, rest)"
  by (simp add: read_u32_def)

lemma unat_frame_len: "n \<le> MAX_JSON_FRAME \<Longrightarrow> unat (of_nat n :: u32) = n"
  by (simp add: MAX_JSON_FRAME_def unat_of_nat take_bit_nat_eq_self)

lemma read_json_write:
  assumes "of_json (to_json x) = Some x" "length (to_json x) \<le> MAX_JSON_FRAME"
  shows "read_json_prefixed of_json (write_json_prefixed to_json x @ rest) = Ok (x, rest)"
    and "maybe_read_json_prefixed of_json (write_json_prefixed to_json x @ rest) = Ok (Some (x, rest))"
  using assms
  by (simp_all add: read_json_prefixed_def maybe_read_json_prefixed_def write_json_prefixed_def
      read_u32_write unat_frame_len read_json_body_def)

lemma read_json_write_end:
  assumes "of_json (to_json x) = Some x" "length (to_json x) \<le> MAX_JSON_FRAME"
  shows "read_json_prefixed of_json (write_json_prefixed to_json x) = Ok (x, [])"
  using read_json_write(1)[of of_json to_json x "[]"] assms by simp

lemma purpose_roundtrip [simp]: "purpose_from_byte (purpose_as_byte p) = Some p"
  by (cases p) (simp_all add: purpose_from_byte_def purpose_as_byte_def)

lemma try_read_write_envelope [simp]:
  "try_read_envelope (write_stream_envelope p @ s) = Ok (Some (envelope_new p), s)"
  by (simp add: try_read_envelope_def write_stream_envelope_def envelope_encode_def envelope_new_def envelope_decode_def)

subsection \<open>Properties of the streams\<close>

text \<open>The unit a receiver rebuilds: NAL units are found again in the bytes, colour metadata is lost.\<close>

definition received_unit :: "access_unit \<Rightarrow> access_unit" where
  "received_unit au = au\<lparr>au_nal_units := (case au_codec au of H264 \<Rightarrow> inspect_h264_annex_b_nal_units (au_bytes au) | _ \<Rightarrow> []),
     au_display_id := 0, au_stream_id := 0, au_width := 0, au_height := 0, au_color_space := None, au_bit_depth := 8\<rparr>"

text \<open>An access unit sent on the media stream is read back with its codec, number, timestamp,
  keyframe flag and bytes, and leaves the rest of the stream untouched, exactly when it is within
  the receiver's limit of 8 MiB; a longer one, which the sender does not refuse, ends the stream
  with an error. A stream that ends between units reads as the end.\<close>

theorem access_unit_roundtrip:
  fixes au :: access_unit and sid :: uuid
  defines "h \<equiv> access_unit_header sid au 0 0 0 0 0 0 None"
  assumes "of_json (to_json h) = Some h" "length (to_json h) \<le> MAX_JSON_FRAME"
  shows "read_access_unit of_json sid (send_access_unit to_json sid au @ rest) =
      (if length (au_bytes au) \<le> MAX_VIDEO_AU_BYTES then Ok (Some (received_unit au, rest))
       else Err (AuTooLong (length (au_bytes au)))) \<and>
    read_access_unit of_json sid [] = Ok None"
proof -
  have "maybe_read_json_prefixed of_json (send_access_unit to_json sid au @ rest) = Ok (Some (h, au_bytes au @ rest))"
    using read_json_write(2)[of of_json to_json h "au_bytes au @ rest"] assms(2,3) by (simp add: send_access_unit_def h_def)
  moreover have "maybe_read_json_prefixed of_json [] = Ok None"
    by (simp add: maybe_read_json_prefixed_def read_u32_def)
  ultimately show ?thesis
    by (auto simp: read_access_unit_def read_access_unit_header_def h_def access_unit_header_def received_unit_def Let_def)
qed

definition demo_unit :: access_unit where
  "demo_unit = plain_unit H265 4 100 [1, 2, 3]"

theorem access_unit_roundtrip_witness:
  "read_access_unit (\<lambda>_. Some (access_unit_header 7 demo_unit 0 0 0 0 0 0 None)) 7
     (send_access_unit (\<lambda>_. [123, 125]) 7 demo_unit @ [9]) = Ok (Some (demo_unit, [9]))"
  using access_unit_roundtrip[of "\<lambda>_. Some (access_unit_header 7 demo_unit 0 0 0 0 0 0 None)" "\<lambda>_. [123, 125]" 7 demo_unit "[9]"]
  by (simp add: demo_unit_def plain_unit_def MAX_VIDEO_AU_BYTES_def MAX_JSON_FRAME_def received_unit_def)

lemma audio_chunk_roundtrip:
  fixes a :: audio_sender and chunk :: bytes
  defines "h \<equiv> \<lparr>wc_session_id = snd_session_id a, wc_chunk_id = next_chunk_id a, wc_byte_len = length chunk\<rparr>"
  assumes "of_json (to_json h) = Some h" "length (to_json h) \<le> MAX_JSON_FRAME" "length chunk \<le> MAX_AUDIO_CHUNK_BYTES"
  shows "read_audio_chunk of_json (snd_session_id a) (snd (send_audio_chunk to_json a chunk) @ rest) =
    Ok (Some ((next_chunk_id a, chunk), rest))"
  using read_json_write(2)[of of_json to_json h "chunk @ rest"] assms(2-4)
  by (simp add: send_audio_chunk_def read_audio_chunk_def read_audio_chunk_header_def h_def)

lemma input_event_roundtrip:
  assumes "of_json (to_json (InputMsg ev)) = Some (InputMsg ev)" "length (to_json (InputMsg ev)) \<le> MAX_JSON_FRAME"
  shows "read_input_event of_json (send_input_event to_json ev @ rest) = Ok (Some (ev, rest))"
  using read_json_write(2)[of of_json to_json "InputMsg ev" rest] assms by (simp add: read_input_event_def send_input_event_def)

text \<open>The host admits a client on the authentication stream exactly when it names the planned
  session and presents an unexpired credential with the public key and MAC the relay planned; the
  acknowledgement the client reads says the same, and every refusal names its first reason.\<close>

theorem auth_handshake:
  fixes cred expected :: session_credential and sid sid' :: uuid
  defines "a \<equiv> \<lparr>ca_session_id = sid', ca_credential = cred\<rparr>"
  assumes "of_json (to_json a) = Some a" "length (to_json a) \<le> MAX_JSON_FRAME"
  shows "\<exists>ack r. accept_authenticated_connection of_json sid expected now (client_auth_request to_json sid' cred) = (Some ack, r) \<and>
    (is_ok r \<longleftrightarrow> sid' = sid \<and> now \<le> cred_expires cred \<and> now \<le> cred_expires expected \<and>
       cred_client_pubkey cred = cred_client_pubkey expected \<and> cred_hmac cred = cred_hmac expected) \<and>
    (ack_accepted ack \<longleftrightarrow> is_ok r) \<and> (r = Err SessionMismatch \<longleftrightarrow> sid' \<noteq> sid)"
proof -
  have "read_json_prefixed of_json (client_auth_request to_json sid' cred) = Ok (a, [])"
    using read_json_write_end[of of_json to_json a] assms(2,3) by (simp add: client_auth_request_def a_def)
  then show ?thesis
    by (auto simp: accept_authenticated_connection_def refuse_def a_def not_le)
qed

definition demo_credential :: session_credential where
  "demo_credential = \<lparr>cred_token = ''t'', cred_expires = 50, cred_session_id = 7, cred_host_pubkey = [1],
     cred_client_pubkey = [2], cred_issued = 1, cred_hmac = [3]\<rparr>"

theorem auth_handshake_witness:
  "\<exists>ack r. accept_authenticated_connection (\<lambda>_. Some \<lparr>ca_session_id = 7, ca_credential = demo_credential\<rparr>) 7 demo_credential 50
     (client_auth_request (\<lambda>_. [123, 125]) 7 demo_credential) = (Some ack, r) \<and> is_ok r \<and> ack_accepted ack"
  using auth_handshake[of "\<lambda>_. Some \<lparr>ca_session_id = 7, ca_credential = demo_credential\<rparr>" "\<lambda>_. [123, 125]" 7
      demo_credential 7 demo_credential 50]
  by (auto simp: demo_credential_def MAX_JSON_FRAME_def)

subsection \<open>Routing in any order\<close>

text \<open>A router that has so far only seen streams of the session \<open>cs\<close>, and file transfers.\<close>

definition is_filesync :: "accepted_stream \<Rightarrow> bool" where
  "is_filesync st = (case st of AccBi p _ _ \<Rightarrow> p = PFileSync | AccUni p _ \<Rightarrow> p = PFileSync | _ \<Rightarrow> False)"

definition collects :: "uuid \<Rightarrow> client_session \<Rightarrow> stream_router \<Rightarrow> bool" where
  "collects sid cs r \<longleftrightarrow>
     r_video_config r \<in> {None, Some (cs_video_config cs)} \<and>
     r_control_send r \<in> {None, Some (cs_input_send cs)} \<and>
     r_audio_header r \<in> {None, Some \<lparr>wa_session_id = sid, wa_audio = cs_audio_config cs\<rparr>} \<and>
     r_audio_recv r \<in> {None, Some (cs_audio_recv cs)} \<and>
     r_media_recv r \<in> {None, Some (cs_media_recv cs)} \<and>
     r_control_recv r \<in> {None, Some (cs_control_recv cs)} \<and> list_all is_filesync (r_extra r)"

record host_json =
  to_control :: "quic_control_message \<Rightarrow> bytes"
  to_audio :: "wire_audio_stream_header \<Rightarrow> bytes"

definition json_ok :: "host_json \<Rightarrow> route_json \<Rightarrow> uuid \<Rightarrow> client_session \<Rightarrow> bool" where
  "json_ok H J sid cs \<longleftrightarrow>
     of_control J (to_control H (VideoConfigMsg (cs_video_config cs))) = Some (VideoConfigMsg (cs_video_config cs)) \<and>
     length (to_control H (VideoConfigMsg (cs_video_config cs))) \<le> MAX_JSON_FRAME \<and>
     of_audio J (to_audio H \<lparr>wa_session_id = sid, wa_audio = cs_audio_config cs\<rparr>) =
       Some \<lparr>wa_session_id = sid, wa_audio = cs_audio_config cs\<rparr> \<and>
     length (to_audio H \<lparr>wa_session_id = sid, wa_audio = cs_audio_config cs\<rparr>) \<le> MAX_JSON_FRAME"

definition video_stream :: "host_json \<Rightarrow> client_session \<Rightarrow> incoming" where
  "video_stream H cs = open_input_receiver (to_control H) (cs_input_send cs) (cs_video_config cs)"
definition audio_stream :: "host_json \<Rightarrow> uuid \<Rightarrow> client_session \<Rightarrow> incoming" where
  "audio_stream H sid cs = open_audio_sender (to_audio H) sid (cs_audio_config cs) (cs_audio_recv cs)"

definition filesync_stream :: "incoming \<Rightarrow> bool" where
  "filesync_stream ev \<longleftrightarrow> (\<exists>h body. ev = open_filesync_handshake h body) \<or> (\<exists>body. ev = open_filesync_bulk body)"

definition session_streams :: "host_json \<Rightarrow> uuid \<Rightarrow> client_session \<Rightarrow> incoming set" where
  "session_streams H sid cs = {video_stream H cs, audio_stream H sid cs, open_media_stream (cs_media_recv cs),
     open_control_sender (cs_control_recv cs)}"

text \<open>What one stream adds.\<close>

definition router_put :: "host_json \<Rightarrow> uuid \<Rightarrow> client_session \<Rightarrow> stream_router \<Rightarrow> incoming \<Rightarrow> stream_router" where
  "router_put H sid cs r ev =
     (if ev = video_stream H cs then r\<lparr>r_video_config := Some (cs_video_config cs), r_control_send := Some (cs_input_send cs)\<rparr>
      else if ev = audio_stream H sid cs
      then r\<lparr>r_audio_header := Some \<lparr>wa_session_id = sid, wa_audio = cs_audio_config cs\<rparr>, r_audio_recv := Some (cs_audio_recv cs)\<rparr>
      else if ev = open_media_stream (cs_media_recv cs) then r\<lparr>r_media_recv := Some (cs_media_recv cs)\<rparr>
      else if ev = open_control_sender (cs_control_recv cs) then r\<lparr>r_control_recv := Some (cs_control_recv cs)\<rparr>
      else case accept_next_stream_envelope ev of Inr st \<Rightarrow> r\<lparr>r_extra := r_extra r @ [st]\<rparr> | Inl _ \<Rightarrow> r)"

lemma streams_distinct:
  "video_stream H cs \<noteq> audio_stream H sid cs" "video_stream H cs \<noteq> open_media_stream m"
  "video_stream H cs \<noteq> open_control_sender c" "audio_stream H sid cs \<noteq> open_media_stream m"
  "audio_stream H sid cs \<noteq> open_control_sender c" "open_media_stream m \<noteq> open_control_sender c"
  by (simp_all add: video_stream_def audio_stream_def open_input_receiver_def open_audio_sender_def
      open_media_stream_def open_control_sender_def write_stream_envelope_def envelope_encode_def envelope_new_def
      purpose_as_byte_def)

lemma filesync_distinct:
  assumes "filesync_stream ev" shows "ev \<notin> session_streams H sid cs"
  using assms
  by (auto simp: filesync_stream_def session_streams_def video_stream_def audio_stream_def open_input_receiver_def
      open_audio_sender_def open_media_stream_def open_control_sender_def open_filesync_handshake_def
      open_filesync_bulk_def write_stream_envelope_def envelope_encode_def envelope_new_def purpose_as_byte_def)

lemma route_step:
  assumes "json_ok H J sid cs" "ev \<in> session_streams H sid cs \<or> filesync_stream ev" "\<not> required_satisfied r"
  shows "route_loop J sid r (ev # evs) = route_loop J sid (router_put H sid cs r ev) evs"
  using assms filesync_distinct[of ev H sid cs]
  apply (subst route_loop.simps)
  apply (auto simp: session_streams_def router_put_def streams_distinct streams_distinct[symmetric]
      accept_next_stream_envelope_def route_bi_def route_uni_def envelope_new_def filesync_stream_def
      video_stream_def audio_stream_def open_input_receiver_def open_audio_sender_def open_media_stream_def
      open_control_sender_def open_filesync_handshake_def open_filesync_bulk_def json_ok_def read_json_write read_json_write_end)
  done

text \<open>Every stream of the session is in the router or still to come.\<close>

definition awaits :: "host_json \<Rightarrow> uuid \<Rightarrow> client_session \<Rightarrow> stream_router \<Rightarrow> incoming list \<Rightarrow> bool" where
  "awaits H sid cs r evs \<longleftrightarrow>
     (r_video_config r \<noteq> None \<and> r_control_send r \<noteq> None \<or> video_stream H cs \<in> set evs) \<and>
     (r_audio_header r \<noteq> None \<and> r_audio_recv r \<noteq> None \<or> audio_stream H sid cs \<in> set evs) \<and>
     (r_media_recv r \<noteq> None \<or> open_media_stream (cs_media_recv cs) \<in> set evs) \<and>
     (r_control_recv r \<noteq> None \<or> open_control_sender (cs_control_recv cs) \<in> set evs)"

lemma accept_filesync:
  "filesync_stream ev \<Longrightarrow> \<exists>st. accept_next_stream_envelope ev = Ok st \<and> is_filesync st"
  by (auto simp: filesync_stream_def open_filesync_handshake_def open_filesync_bulk_def
      accept_next_stream_envelope_def envelope_new_def is_filesync_def)

lemma collects_put:
  assumes "collects sid cs r" "ev \<in> session_streams H sid cs \<or> filesync_stream ev"
  shows "collects sid cs (router_put H sid cs r ev)"
proof (cases "ev \<in> session_streams H sid cs")
  case True
  then show ?thesis using assms(1) unfolding session_streams_def
    by (elim insertE emptyE) (simp_all add: collects_def router_put_def streams_distinct streams_distinct[symmetric])
next
  case False
  with assms(2) accept_filesync[of ev] obtain st where "accept_next_stream_envelope ev = Ok st" "is_filesync st" by blast
  with False assms(1) show ?thesis by (simp add: session_streams_def collects_def router_put_def)
qed

lemma router_put_fields:
  "r_video_config (router_put H sid cs r ev) = (if ev = video_stream H cs then Some (cs_video_config cs) else r_video_config r)"
  "r_control_send (router_put H sid cs r ev) = (if ev = video_stream H cs then Some (cs_input_send cs) else r_control_send r)"
  "r_audio_header (router_put H sid cs r ev) =
     (if ev = audio_stream H sid cs then Some \<lparr>wa_session_id = sid, wa_audio = cs_audio_config cs\<rparr> else r_audio_header r)"
  "r_audio_recv (router_put H sid cs r ev) = (if ev = audio_stream H sid cs then Some (cs_audio_recv cs) else r_audio_recv r)"
  "r_media_recv (router_put H sid cs r ev) =
     (if ev = open_media_stream (cs_media_recv cs) then Some (cs_media_recv cs) else r_media_recv r)"
  "r_control_recv (router_put H sid cs r ev) =
     (if ev = open_control_sender (cs_control_recv cs) then Some (cs_control_recv cs) else r_control_recv r)"
  by (simp_all add: router_put_def streams_distinct streams_distinct[symmetric] split: sum.split)

lemma awaits_put:
  assumes "awaits H sid cs r (ev # evs)"
  shows "awaits H sid cs (router_put H sid cs r ev) evs"
  using assms unfolding awaits_def router_put_fields by (elim conjE, intro conjI) auto

lemma route_loop_collects:
  assumes "json_ok H J sid cs" "\<forall>ev\<in>set evs. ev \<in> session_streams H sid cs \<or> filesync_stream ev"
    "collects sid cs r" "awaits H sid cs r evs"
  shows "\<exists>r' rest. route_loop J sid r evs = Ok (r', rest) \<and> collects sid cs r' \<and> required_satisfied r'"
  using assms(2-)
proof (induction evs arbitrary: r)
  case Nil
  then have "required_satisfied r" by (auto simp: awaits_def required_satisfied_def)
  with Nil show ?case by (simp add: route_loop.simps)
next
  case (Cons ev evs)
  show ?case
  proof (cases "required_satisfied r")
    case True
    with Cons show ?thesis by (simp add: route_loop.simps)
  next
    case False
    have "route_loop J sid r (ev # evs) = route_loop J sid (router_put H sid cs r ev) evs"
      by (rule route_step[OF assms(1) _ False]) (use Cons.prems in simp)
    with Cons.IH[of "router_put H sid cs r ev"] Cons.prems show ?thesis
      by (simp add: collects_put awaits_put)
  qed
qed

lemma drain_filesync: "list_all is_filesync sts \<Longrightarrow> drain_extras J sid r sts = Ok r"
  by (induction sts) (auto simp: is_filesync_def split: accepted_stream.splits)

lemma finish_collected:
  assumes "collects sid cs r" "required_satisfied r"
  shows "finish_router r = Ok cs"
  using assms by (auto simp: collects_def required_satisfied_def finish_router_def)

lemma routed_session:
  assumes "json_ok H J sid cs"
    "\<forall>ev\<in>set evs. ev \<in> session_streams H sid cs \<or> filesync_stream ev"
    "session_streams H sid cs \<subseteq> set evs"
  shows "route_post_auth_streams J sid evs = Ok cs"
proof -
  have "collects sid cs router_new" "awaits H sid cs router_new evs"
    using assms(3) by (auto simp: collects_def awaits_def router_new_def session_streams_def)
  with route_loop_collects[OF assms(1,2)] obtain r rest where r:
    "route_loop J sid router_new evs = Ok (r, rest)" "collects sid cs r" "required_satisfied r"
    by blast
  have "collects sid cs (r\<lparr>r_extra := []\<rparr>)" "required_satisfied (r\<lparr>r_extra := []\<rparr>)"
    using r(2,3) by (simp_all add: collects_def required_satisfied_def)
  then have "finish_router (r\<lparr>r_extra := []\<rparr>) = Ok cs"
      "drain_legacy_streams J sid r rest = Ok (r\<lparr>r_extra := []\<rparr>)"
    using r(2) by (simp_all add: finish_collected drain_legacy_streams_def drain_filesync collects_def legacy_loop.simps)
  with r show ?thesis by (simp add: route_post_auth_streams_def finish_collected)
qed

text \<open>C9: However the network orders the four streams a host opens (video configuration, audio,
  media and host control), and whatever file-transfer streams arrive among them or how often a
  stream is repeated, the client's router ends with the host's video and audio configuration and
  with each payload on the stream it was written to. The file-transfer streams it collected are
  then dropped: the session is the same as without them.\<close>

theorem streams_any_order:
  assumes "json_ok H J sid cs"
    "\<forall>ev\<in>set evs. ev \<in> session_streams H sid cs \<or> filesync_stream ev"
    "session_streams H sid cs \<subseteq> set evs"
  shows "route_post_auth_streams J sid evs = Ok cs"
  by (rule routed_session[OF assms])

definition demo_cs :: client_session where
  "demo_cs = \<lparr>cs_video_config = \<lparr>vs_codec = H264, vs_width = 640, vs_height = 480, vs_framerate = 60\<rparr>,
     cs_audio_config = \<lparr>ap_codec = PcmF32, ap_sample_rate = 48000, ap_channels = 2\<rparr>,
     cs_media_recv = [1], cs_audio_recv = [2], cs_input_send = 3, cs_control_recv = [4]\<rparr>"

definition demo_host_json :: host_json where
  "demo_host_json = \<lparr>to_control = \<lambda>_. [123, 1, 125], to_audio = \<lambda>_. [123, 2, 125]\<rparr>"

definition demo_route_json :: route_json where
  "demo_route_json = \<lparr>of_control = \<lambda>_. Some (VideoConfigMsg (cs_video_config demo_cs)),
     of_audio = \<lambda>_. Some \<lparr>wa_session_id = 7, wa_audio = cs_audio_config demo_cs\<rparr>\<rparr>"

theorem streams_any_order_witness:
  "route_post_auth_streams demo_route_json 7
     [open_control_sender [4], open_filesync_bulk [9], audio_stream demo_host_json 7 demo_cs,
      open_filesync_handshake 5 [], open_media_stream [1], video_stream demo_host_json demo_cs] = Ok demo_cs"
proof (rule streams_any_order[where H = demo_host_json])
  show "json_ok demo_host_json demo_route_json 7 demo_cs"
    by (simp add: json_ok_def demo_host_json_def demo_route_json_def MAX_JSON_FRAME_def)
qed (auto simp: session_streams_def filesync_stream_def demo_cs_def)

subsection \<open>Streams without an envelope\<close>

text \<open>A stream of the older protocol starts with a length-prefixed JSON object, with no envelope.\<close>

definition legacy_stream :: "bytes \<Rightarrow> incoming \<Rightarrow> bool" where
  "legacy_stream json ev \<longleftrightarrow>
     (\<exists>body. ev = InUni (write_json_prefixed (\<lambda>_. json) () @ body) \<or>
        (\<exists>h. ev = InBi h (write_json_prefixed (\<lambda>_. json) () @ body)))"

lemma to_be_bytes_4:
  "to_be_bytes 4 w = [ucast (drop_bit 24 w), ucast (drop_bit 16 w), ucast (drop_bit 8 w), ucast w]"
  by (simp add: to_be_bytes_def to_le_bytes_def upt_rec)

lemma shifted_length:
  fixes w :: u32
  assumes "take_bit 16 w = w"
  shows "drop_bit 16 (from_be_bytes [ucast (drop_bit 8 w), ucast w, x, y] :: u32) = w"
proof (rule bit_word_eqI)
  fix k assume k: "k < LENGTH(32)"
  have "bit w k \<longleftrightarrow> k < 16 \<and> bit w k" using arg_cong[OF assms, of "\<lambda>v. bit v k"] by (auto simp: bit_take_bit_iff)
  then show "bit (drop_bit 16 (from_be_bytes [ucast (drop_bit 8 w), ucast w, x, y] :: u32)) k = bit w k"
    using k by (auto simp: from_be_bytes_def bit_simps dest: bit_imp_le_length)
qed

text \<open>A frame that is too long is refused before it is decoded.\<close>

lemma read_json_kind:
  assumes "read_json_prefixed f s = Err (FrameTooLong n)"
  shows "read_json_prefixed g s = Err (FrameTooLong n)"
  using assms by (auto simp: read_json_prefixed_def read_json_body_def split: option.splits if_splits)

lemma legacy_prefix:
  assumes "5 \<le> length json" "length json < 65536"
  shows "\<exists>s n. n > MAX_JSON_FRAME \<and> try_read_envelope (write_json_prefixed (\<lambda>_. json) () @ body) = Ok (None, s) \<and>
    (\<forall>f :: bytes \<Rightarrow> 'x option. read_json_prefixed f s = Err (FrameTooLong n))"
proof -
  let ?w = "of_nat (length json) :: u32"
  have t: "take_bit 16 ?w = ?w"
    using assms(2) by (simp add: take_bit_of_nat take_bit_nat_eq_self)
  have "drop_bit 24 ?w = 0" "drop_bit 16 ?w = 0"
    by (subst t[symmetric], simp only: drop_bit_take_bit, simp)+
  note z = this
  obtain x y js where j: "json = x # y # js" using assms(1) by (cases json; cases "tl json") auto
  let ?v = "from_be_bytes [ucast (drop_bit 8 ?w), ucast ?w, x, y] :: u32"
  have "drop_bit 16 (unat ?v) = length json"
    using assms(2) arg_cong[OF shifted_length[OF t, of x y], of unat]
    by (simp add: unat_drop_bit_eq unat_of_nat take_bit_nat_eq_self)
  then have n: "unat ?v > MAX_JSON_FRAME"
    using assms(1) by (simp add: drop_bit_eq_div MAX_JSON_FRAME_def)
  have r: "read_json_prefixed f ([ucast (drop_bit 8 ?w), ucast ?w] @ json @ body) = Err (FrameTooLong (unat ?v))"
    for f :: "bytes \<Rightarrow> 'x option"
    using n by (simp add: j read_json_prefixed_def read_u32_def read_json_body_def)
  have "try_read_envelope (write_json_prefixed (\<lambda>_. json) () @ body) = Ok (None, [ucast (drop_bit 8 ?w), ucast ?w] @ json @ body)"
    by (simp add: write_json_prefixed_def to_be_bytes_4 z try_read_envelope_def envelope_decode_def STREAM_MAGIC_def)
  with n r show ?thesis by blast
qed

lemma route_filesync_prefix:
  assumes "\<forall>ev\<in>set pre. filesync_stream ev" "r_extra r = sts" "list_all is_filesync sts"
    "\<not> required_satisfied r"
  shows "\<exists>sts'. list_all is_filesync sts' \<and>
    route_loop J sid r (pre @ evs) = route_loop J sid (r\<lparr>r_extra := sts'\<rparr>) evs"
  using assms
proof (induction pre arbitrary: r sts)
  case Nil
  then show ?case by (cases r) (auto intro!: exI[of _ sts])
next
  case (Cons ev pre)
  obtain st where st: "accept_next_stream_envelope ev = Ok st" "is_filesync st"
    using accept_filesync[of ev] Cons.prems(1) by auto
  let ?r = "r\<lparr>r_extra := r_extra r @ [st]\<rparr>"
  have "route_loop J sid r ((ev # pre) @ evs) = route_loop J sid ?r (pre @ evs)"
    using st Cons.prems(4)
    by (subst route_loop.simps) (auto simp: is_filesync_def route_bi_def route_uni_def split: accepted_stream.splits)
  moreover have "\<not> required_satisfied ?r" "list_all is_filesync (r_extra r @ [st])"
    using Cons.prems st by (simp_all add: required_satisfied_def)
  ultimately show ?case using Cons.IH[of ?r "r_extra r @ [st]"] Cons.prems(1) by simp
qed

text \<open>The fallback for hosts that do not send envelopes cannot succeed. Looking for the envelope
  consumes two bytes of the length prefix, so the reader of the older format takes the rest of the
  prefix and the start of the JSON text as a length, which exceeds the frame limit for every header
  of 5 bytes to 64 KiB: the session setup fails with that error whatever follows.\<close>

theorem legacy_fallback_fails:
  assumes "5 \<le> length json" "length json < 65536" "legacy_stream json ev"
    "\<forall>ev\<in>set pre. filesync_stream ev"
  shows "\<exists>n > MAX_JSON_FRAME. route_post_auth_streams J sid (pre @ ev # rest) = Err (StreamFailed (FrameTooLong n))"
proof -
  have new: "\<not> required_satisfied router_new" by (simp add: required_satisfied_def router_new_def)
  obtain sts where sts: "list_all is_filesync sts"
    "route_loop J sid router_new (pre @ ev # rest) = route_loop J sid (router_new\<lparr>r_extra := sts\<rparr>) (ev # rest)"
    using route_filesync_prefix[OF assms(4) refl _ new, of J sid "ev # rest"] by (auto simp: router_new_def)
  obtain body where ev: "ev = InUni (write_json_prefixed (\<lambda>_. json) () @ body) \<or>
      (\<exists>h. ev = InBi h (write_json_prefixed (\<lambda>_. json) () @ body))"
    using assms(3) by (auto simp: legacy_stream_def)
  obtain s n where s: "n > MAX_JSON_FRAME" "try_read_envelope (write_json_prefixed (\<lambda>_. json) () @ body) = Ok (None, s)"
    "\<And>f :: bytes \<Rightarrow> quic_control_message option. read_json_prefixed f s = Err (FrameTooLong n)"
    using legacy_prefix[OF assms(1,2), of body] by blast
  then have s2: "read_json_prefixed f s = Err (FrameTooLong n)" for f :: "bytes \<Rightarrow> wire_audio_stream_header option"
    using read_json_kind by blast
  have d: "drain_extras J sid r (sts @ st # []) = drain_extras J sid r [st]" for r st
    using sts(1) by (induction sts) (auto simp: is_filesync_def split: accepted_stream.splits)
  have "\<not> required_satisfied (router_new\<lparr>r_extra := sts\<rparr>)" using new by (simp add: required_satisfied_def)
  then show ?thesis
    using ev s(1) s(3)[of "of_control J"] s2[of "of_audio J"]
    by (auto simp: route_post_auth_streams_def sts(2) route_loop.simps[of _ _ _ "ev # rest"] accept_next_stream_envelope_def s(2)
        drain_legacy_streams_def d legacy_bi_def)
qed

theorem legacy_fallback_fails_witness:
  "\<exists>n > MAX_JSON_FRAME. route_post_auth_streams demo_route_json 7
     ([open_filesync_bulk [1]] @ InUni (write_json_prefixed (\<lambda>_. [123, 34, 97, 34, 125]) () @ [9]) # []) =
       Err (StreamFailed (FrameTooLong n))"
  by (rule legacy_fallback_fails) (auto simp: legacy_stream_def filesync_stream_def)

end
