(* ===== verification/Quic_Endpoint.thy ===== *)
theory Quic_Endpoint
  imports Quic_Streams Sync_Core
begin

text \<open>
  Tickets, addressing and connection establishment of the native QUIC path
  (\<open>qubox-transport/src/lib.rs\<close>): what a host advertises, which addresses a client dials, the
  relay-only switch, the retry with the older protocol name, and the composition of the
  authentication stream with the stream router on the client. JSON, base64, the text form of
  endpoint keys, the operating system's sockets and the network are arguments: the network maps an
  endpoint address and protocol name to the behaviour of whatever answers there. Environment
  variables are a map; configuring the default relay returns the updated map.
\<close>

subsection \<open>Addresses and tickets\<close>

datatype ip_addr = V4 u32 | V6 "128 word"

definition LOCALHOST :: ip_addr where "LOCALHOST = V4 0x7F000001"

definition is_unspecified :: "ip_addr \<Rightarrow> bool" where
  "is_unspecified a = (case a of V4 w \<Rightarrow> w = 0 | V6 w \<Rightarrow> w = 0)"

type_synonym socket_addr = "ip_addr \<times> u16"
type_synonym env_vars = "string \<rightharpoonup> string"

record iroh_endpoint_ticket =
  it_endpoint_id :: bytes
  it_relay_urls :: "string list"
  it_ip_addrs :: "socket_addr list"

record native_quic_ticket =
  tk_session_id :: uuid
  tk_connect_addr :: socket_addr
  tk_server_name :: string
  tk_alpn :: string
  tk_cert_der_b64 :: string
  tk_expires :: u64

text \<open>The transport addresses of an endpoint are a set in iroh.\<close>

record endpoint_addr =
  ea_id :: bytes
  ea_relay_urls :: "string set"
  ea_ip_addrs :: "socket_addr set"

record ticket_codec =
  b64_encode :: "bytes \<Rightarrow> string"
  b64_decode :: "string \<Rightarrow> bytes option"
  iroh_to_json :: "iroh_endpoint_ticket \<Rightarrow> bytes"
  iroh_of_json :: "bytes \<Rightarrow> iroh_endpoint_ticket option"
  ticket_to_json :: "native_quic_ticket \<Rightarrow> bytes"
  ticket_of_json :: "bytes \<Rightarrow> native_quic_ticket option"
  id_from_bytes :: "bytes \<Rightarrow> bytes option"
  id_text :: "bytes \<Rightarrow> string"
  id_parse :: "string \<Rightarrow> bytes option"

definition NATIVE_QUIC_ALPN :: string where "NATIVE_QUIC_ALPN = ''qubox-native-quic/0''"
definition NATIVE_QUIC_ALPN_V2 :: string where "NATIVE_QUIC_ALPN_V2 = ''qubox-native-quic-v2/0''"

definition trim_ws :: "string \<Rightarrow> string" where "trim_ws s = trim_end (trim_start s)"

definition force_relay_only_from_env :: "env_vars \<Rightarrow> bool" where
  "force_relay_only_from_env env =
     list_ex (\<lambda>key. case env key of
         None \<Rightarrow> False
       | Some v \<Rightarrow> to_ascii_lowercase (trim_ws v) \<in> {''1'', ''true'', ''yes''})
       [''QUBOX_IROH_FORCE_RELAY'', ''QUBOX_TURN_ONLY'', ''QUBOX_TURN_FORCE'']"

definition to_endpoint_addr :: "env_vars \<Rightarrow> iroh_endpoint_ticket \<Rightarrow> socket_addr \<Rightarrow> endpoint_addr" where
  "to_endpoint_addr env t fallback =
     (let addr = \<lparr>ea_id = it_endpoint_id t, ea_relay_urls = set (it_relay_urls t), ea_ip_addrs = {}\<rparr>
      in if force_relay_only_from_env env \<and> it_relay_urls t \<noteq> [] then addr
         else if it_ip_addrs t = [] \<and> it_relay_urls t = [] then addr\<lparr>ea_ip_addrs := {fallback}\<rparr>
         else addr\<lparr>ea_ip_addrs := set (it_ip_addrs t)\<rparr>)"

definition direct_addr :: "bytes \<Rightarrow> socket_addr \<Rightarrow> endpoint_addr" where
  "direct_addr eid a = \<lparr>ea_id = eid, ea_relay_urls = {}, ea_ip_addrs = {a}\<rparr>"

definition iroh_payload :: "ticket_codec \<Rightarrow> native_quic_ticket \<Rightarrow> iroh_endpoint_ticket option" where
  "iroh_payload C t = Option.bind (b64_decode C (tk_cert_der_b64 t)) (iroh_of_json C)"

definition ticket_endpoint_addr :: "ticket_codec \<Rightarrow> env_vars \<Rightarrow> native_quic_ticket \<Rightarrow> endpoint_addr option" where
  "ticket_endpoint_addr C env t =
     (let by_name = map_option (\<lambda>eid. direct_addr eid (tk_connect_addr t)) (id_parse C (tk_server_name t))
      in case b64_decode C (tk_cert_der_b64 t) of
           None \<Rightarrow> by_name
         | Some raw \<Rightarrow>
            (case iroh_of_json C raw of
               Some it \<Rightarrow> Some (to_endpoint_addr env it (tk_connect_addr t))
             | None \<Rightarrow>
                 if length raw = 32
                 then (case id_from_bytes C raw of
                         Some eid \<Rightarrow> Some (direct_addr eid (tk_connect_addr t))
                       | None \<Rightarrow> by_name)
                 else by_name))"

definition encode_ticket_b64 :: "ticket_codec \<Rightarrow> native_quic_ticket \<Rightarrow> string" where
  "encode_ticket_b64 C t = b64_encode C (ticket_to_json C t)"

definition decode_ticket_b64 :: "ticket_codec \<Rightarrow> string \<Rightarrow> native_quic_ticket option" where
  "decode_ticket_b64 C s = Option.bind (b64_decode C s) (ticket_of_json C)"

definition is_valid_hex_pubkey :: "string \<Rightarrow> bool" where
  "is_valid_hex_pubkey s \<longleftrightarrow> length s = 64 \<and>
     list_all (\<lambda>c. let n = of_char c :: nat in 48 \<le> n \<and> n \<le> 57 \<or> 65 \<le> n \<and> n \<le> 70 \<or> 97 \<le> n \<and> n \<le> 102) s"

definition hex_digit :: "nat \<Rightarrow> char" where
  "hex_digit n = char_of (if n < 10 then 48 + n else 87 + n)"

definition pubkey_to_hex :: "bytes \<Rightarrow> string" where
  "pubkey_to_hex pk = concat (map (\<lambda>b. [hex_digit (unat b div 16), hex_digit (unat b mod 16)]) pk)"

subsection \<open>Relay configuration\<close>

definition default_advertised_ip :: "ip_addr \<Rightarrow> ip_addr" where
  "default_advertised_ip a = (if is_unspecified a then LOCALHOST else a)"

fun split_str :: "string \<Rightarrow> string \<Rightarrow> string list" where
  "split_str sep [] = [[]]"
| "split_str sep (c # cs) =
     (if sep \<noteq> [] \<and> starts_with (c # cs) sep then [] # split_str sep (drop (length sep - 1) cs)
      else (case split_str sep cs of [] \<Rightarrow> [[c]] | p # ps \<Rightarrow> (c # p) # ps))"

definition parse_u16 :: "string \<Rightarrow> u16 option" where
  "parse_u16 s =
     (let ds = (if starts_with s ''+'' then tl s else s) in
      if ds = [] \<or> \<not> list_all (\<lambda>c. (48 :: nat) \<le> of_char c \<and> of_char c \<le> (57 :: nat)) ds then None
      else let v = foldl (\<lambda>acc c. acc * 10 + (of_char c - 48)) (0 :: nat) ds
        in if v < 65536 then Some (of_nat v) else None)"

definition url_authority :: "string \<Rightarrow> string" where
  "url_authority url =
     (let after_scheme = (case split_str ''://'' url of _ # s # _ \<Rightarrow> s | _ \<Rightarrow> url)
      in last (split_on CHR ''@'' (takeWhile (\<lambda>c. c \<notin> {CHR ''/'', CHR ''?'', CHR ''#''}) after_scheme)))"

definition url_host :: "string \<Rightarrow> string" where
  "url_host url =
     (let authority = url_authority url
      in if starts_with authority ''['' then takeWhile (\<lambda>c. c \<noteq> CHR '']'') authority @ '']''
         else takeWhile (\<lambda>c. c \<noteq> CHR '':'') authority)"

definition configure_default_relay_from_signaling_url :: "env_vars \<Rightarrow> string \<Rightarrow> env_vars" where
  "configure_default_relay_from_signaling_url env url =
     (if (case env ''QUBOX_IROH_RELAY_URL'' of None \<Rightarrow> False | Some v \<Rightarrow> trim_ws v \<noteq> []) then env
      else if url_host url = [] then env
      else let port = (case Option.bind (env ''QUBOX_IROH_RELAY_PORT'') (\<lambda>p. parse_u16 (trim_ws p)) of
                 None \<Rightarrow> 3340 | Some p \<Rightarrow> p)
        in env(''QUBOX_IROH_RELAY_URL'' \<mapsto> ''http://'' @ url_host url @ '':'' @ dec_text (unat port) @ ''/''))"

datatype relay_mode = RelayDisabled | RelayStaging | RelayDefault | RelayCustom string

text \<open>\<open>parse_url\<close> is \<open>RelayUrl::from_str\<close>.\<close>

definition configured_relay_urls :: "(string \<Rightarrow> string option) \<Rightarrow> env_vars \<Rightarrow> string list" where
  "configured_relay_urls parse_url env =
     (case env ''QUBOX_IROH_RELAY_URL'' of
        None \<Rightarrow> []
      | Some v \<Rightarrow> if trim_ws v = [] then []
          else (case parse_url (trim_ws v) of None \<Rightarrow> [] | Some u \<Rightarrow> [u]))"

definition resolve_relay_mode :: "(string \<Rightarrow> string option) \<Rightarrow> env_vars \<Rightarrow> relay_mode" where
  "resolve_relay_mode parse_url env =
     (let mode = (case env ''QUBOX_IROH_RELAY_MODE'' of None \<Rightarrow> [] | Some m \<Rightarrow> to_ascii_lowercase (trim_ws m))
      in if mode \<in> {''disabled'', ''none'', ''off'', ''0''} then RelayDisabled
         else if mode = ''staging'' then RelayStaging
         else if mode \<in> {''default'', ''n0''} then RelayDefault
         else (case configured_relay_urls parse_url env of [] \<Rightarrow> RelayDisabled | u # _ \<Rightarrow> RelayCustom u))"

subsection \<open>What a host advertises\<close>

record native_quic_host =
  nh_ticket :: native_quic_ticket
  nh_expected :: session_credential
  nh_v2 :: bool

definition host_ticket ::
    "ticket_codec \<Rightarrow> iroh_endpoint_ticket \<Rightarrow> uuid \<Rightarrow> socket_addr \<Rightarrow> string \<Rightarrow> session_credential \<Rightarrow> native_quic_ticket" where
  "host_ticket C it sid addr alpn expected =
     \<lparr>tk_session_id = sid, tk_connect_addr = addr, tk_server_name = id_text C (it_endpoint_id it), tk_alpn = alpn,
      tk_cert_der_b64 = b64_encode C (iroh_to_json C it), tk_expires = cred_expires expected\<rparr>"

text \<open>\<open>local\<close> is the address the reserved UDP socket was bound to (\<open>None\<close> when the bind fails), \<open>eid\<close>
  the public half of the fresh secret key.\<close>

definition bind_internal ::
    "ticket_codec \<Rightarrow> string list \<Rightarrow> socket_addr option \<Rightarrow> bytes \<Rightarrow> ip_addr option \<Rightarrow> uuid \<Rightarrow> session_credential \<Rightarrow>
     bool \<Rightarrow> native_quic_host option" where
  "bind_internal C relays local eid advertised sid expected v2 =
     (case local of
        None \<Rightarrow> None
      | Some (ip, port) \<Rightarrow>
          let connect_ip = (case advertised of Some a \<Rightarrow> a | None \<Rightarrow> default_advertised_ip ip);
              addr = (connect_ip, port);
              it = \<lparr>it_endpoint_id = eid, it_relay_urls = relays, it_ip_addrs = [addr]\<rparr>
          in Some \<lparr>nh_ticket = host_ticket C it sid addr (if v2 then NATIVE_QUIC_ALPN_V2 else NATIVE_QUIC_ALPN) expected,
               nh_expected = expected, nh_v2 = v2\<rparr>)"

text \<open>\<open>bind_async\<close> once the endpoint is bound: \<open>sockets\<close>, \<open>ips\<close> and \<open>urls\<close> are what iroh reports.\<close>

definition bind_async_addrs ::
    "string list \<Rightarrow> socket_addr \<Rightarrow> ip_addr option \<Rightarrow> socket_addr list \<Rightarrow> socket_addr list \<Rightarrow> string list \<Rightarrow>
     socket_addr \<times> socket_addr list \<times> string list" where
  "bind_async_addrs relays bind_addr advertised sockets ips urls =
     (let urls' = foldl (\<lambda>us u. if u \<in> set us then us else us @ [u]) urls relays;
          port = (case sockets of a # _ \<Rightarrow> snd a | [] \<Rightarrow> (case ips of a # _ \<Rightarrow> snd a | [] \<Rightarrow> snd bind_addr));
          primary = (case ips of a # _ \<Rightarrow> fst a | [] \<Rightarrow> default_advertised_ip (fst bind_addr));
          addr = (case advertised of Some a \<Rightarrow> a | None \<Rightarrow> primary, port);
          ips1 = (if addr \<in> set ips then ips else addr # ips);
          lo = (LOCALHOST, port);
          ips2 = (if is_unspecified (fst bind_addr) \<and> lo \<notin> set ips1 then ips1 @ [lo] else ips1)
      in (addr, ips2, urls'))"

definition bind_async ::
    "ticket_codec \<Rightarrow> string list \<Rightarrow> socket_addr \<Rightarrow> ip_addr option \<Rightarrow> bytes \<Rightarrow> socket_addr list \<Rightarrow> socket_addr list \<Rightarrow>
     string list \<Rightarrow> uuid \<Rightarrow> session_credential \<Rightarrow> native_quic_host" where
  "bind_async C relays bind_addr advertised eid sockets ips urls sid expected =
     (case bind_async_addrs relays bind_addr advertised sockets ips urls of
        (addr, ips', urls') \<Rightarrow>
          let it = \<lparr>it_endpoint_id = eid, it_relay_urls = urls', it_ip_addrs = ips'\<rparr>
          in \<lparr>nh_ticket = host_ticket C it sid addr NATIVE_QUIC_ALPN expected, nh_expected = expected, nh_v2 = False\<rparr>)"

subsection \<open>Connecting\<close>

text \<open>Whatever answers at an address: its reply on the authentication stream (\<open>None\<close> when it never
  replies) and the streams it opens.\<close>

record quic_peer =
  answer :: "bytes \<Rightarrow> bytes option"
  opened :: "incoming list"

datatype dial_result = DialFailed | DialHangs | DialUp quic_peer

datatype connect_error =
    TicketExpired
  | NoEndpoint
  | ConnectFailed
  | ConnectTimeout
  | AckRead stream_error
  | AuthRejected string
  | RoutingFailed route_error

record client_json =
  to_auth :: "client_auth \<Rightarrow> bytes"
  of_ack :: "bytes \<Rightarrow> auth_ack option"
  routing :: route_json

definition run_post_quic_handshake ::
    "client_json \<Rightarrow> quic_peer \<Rightarrow> uuid \<Rightarrow> session_credential \<Rightarrow> (connect_error, client_session) result" where
  "run_post_quic_handshake J peer sid cred =
     (case answer peer (client_auth_request (to_auth J) sid cred) of
        None \<Rightarrow> Err ConnectTimeout
      | Some reply \<Rightarrow>
         (case read_json_prefixed (of_ack J) reply of
            Inl e \<Rightarrow> Err (AckRead e)
          | Inr (ack, _) \<Rightarrow>
              if \<not> ack_accepted ack then Err (AuthRejected (ack_message ack))
              else (case route_post_auth_streams (routing J) sid (opened peer) of
                      Inl e \<Rightarrow> Err (RoutingFailed e)
                    | Inr cs \<Rightarrow> Ok cs)))"

text \<open>The result is the address dialled, if the client got that far, and the outcome.\<close>

definition connect_to_native_quic ::
    "ticket_codec \<Rightarrow> client_json \<Rightarrow> env_vars \<Rightarrow> (endpoint_addr \<Rightarrow> string \<Rightarrow> dial_result) \<Rightarrow> u64 \<Rightarrow>
     native_quic_ticket \<Rightarrow> session_credential \<Rightarrow> endpoint_addr list \<times> (connect_error, client_session) result" where
  "connect_to_native_quic C J env net now t cred =
     (if tk_expires t < now \<or> cred_expires cred < now then ([], Err TicketExpired)
      else case ticket_endpoint_addr C env t of
        None \<Rightarrow> ([], Err NoEndpoint)
      | Some addr \<Rightarrow>
          ([addr],
           case net addr (tk_alpn t) of
             DialFailed \<Rightarrow> Err ConnectFailed
           | DialHangs \<Rightarrow> Err ConnectTimeout
           | DialUp peer \<Rightarrow> run_post_quic_handshake J peer (tk_session_id t) cred))"

record turn_config =
  turn_only :: bool
  turn_force :: bool

definition effective_ticket :: "ticket_codec \<Rightarrow> native_quic_ticket \<Rightarrow> turn_config option \<Rightarrow> native_quic_ticket" where
  "effective_ticket C t turn =
     (if (case turn of None \<Rightarrow> False | Some c \<Rightarrow> turn_only c \<or> turn_force c)
      then (case iroh_payload C t of
              None \<Rightarrow> t
            | Some it \<Rightarrow>
                if it_relay_urls it \<noteq> []
                then t\<lparr>tk_cert_der_b64 := b64_encode C (iroh_to_json C (it\<lparr>it_ip_addrs := []\<rparr>))\<rparr>
                else t)
      else t)"

definition connect_with_fallback ::
    "ticket_codec \<Rightarrow> client_json \<Rightarrow> env_vars \<Rightarrow> (endpoint_addr \<Rightarrow> string \<Rightarrow> dial_result) \<Rightarrow> u64 \<Rightarrow>
     native_quic_ticket \<Rightarrow> session_credential \<Rightarrow> turn_config option \<Rightarrow>
     endpoint_addr list \<times> (connect_error, client_session) result" where
  "connect_with_fallback C J env net now t cred turn =
     connect_to_native_quic C J env net now (effective_ticket C t turn) cred"

text \<open>\<open>now2\<close> is the clock at the second attempt.\<close>

definition connect_with_fallback_v2 ::
    "ticket_codec \<Rightarrow> client_json \<Rightarrow> env_vars \<Rightarrow> (endpoint_addr \<Rightarrow> string \<Rightarrow> dial_result) \<Rightarrow> u64 \<Rightarrow> u64 \<Rightarrow>
     native_quic_ticket \<Rightarrow> session_credential \<Rightarrow> turn_config option \<Rightarrow>
     endpoint_addr list \<times> (connect_error, client_session) result" where
  "connect_with_fallback_v2 C J env net now now2 t cred turn =
     (case connect_with_fallback C J env net now (t\<lparr>tk_alpn := NATIVE_QUIC_ALPN_V2\<rparr>) cred turn of
        (dialled, Inr cs) \<Rightarrow> (dialled, Ok cs)
      | (dialled, Inl _) \<Rightarrow>
          (case connect_with_fallback C J env net now2 t cred turn of (again, r) \<Rightarrow> (dialled @ again, r)))"

subsection \<open>Addresses that are dialled\<close>

text \<open>What serde and base64 promise of one value: decoding inverts encoding.\<close>

definition iroh_codes :: "ticket_codec \<Rightarrow> iroh_endpoint_ticket \<Rightarrow> bool" where
  "iroh_codes C it \<longleftrightarrow> Option.bind (b64_decode C (b64_encode C (iroh_to_json C it))) (iroh_of_json C) = Some it"

definition relay_addr :: "iroh_endpoint_ticket \<Rightarrow> endpoint_addr" where
  "relay_addr it = \<lparr>ea_id = it_endpoint_id it, ea_relay_urls = set (it_relay_urls it), ea_ip_addrs = {}\<rparr>"

lemma endpoint_addr_of_payload:
  "iroh_payload C t = Some it \<Longrightarrow> ticket_endpoint_addr C env t = Some (to_endpoint_addr env it (tk_connect_addr t))"
  by (auto simp: iroh_payload_def ticket_endpoint_addr_def split: bind_splits)

lemma iroh_payload_host_ticket:
  "iroh_codes C it \<Longrightarrow> iroh_payload C (host_ticket C it sid addr alpn expected) = Some it"
  by (simp add: iroh_payload_def host_ticket_def iroh_codes_def)

lemma iroh_payload_effective:
  assumes "iroh_payload C t = Some it" "it_relay_urls it \<noteq> []" "iroh_codes C (it\<lparr>it_ip_addrs := []\<rparr>)"
  shows "iroh_payload C (effective_ticket C t turn) =
    Some (if (\<exists>c. turn = Some c \<and> (turn_only c \<or> turn_force c)) then it\<lparr>it_ip_addrs := []\<rparr> else it)"
  using assms by (auto simp: effective_ticket_def iroh_payload_def iroh_codes_def split: option.splits)

lemma relay_only_endpoint:
  assumes "iroh_payload C t = Some it" "it_relay_urls it \<noteq> []" "iroh_codes C (it\<lparr>it_ip_addrs := []\<rparr>)"
    "force_relay_only_from_env env \<or> (\<exists>c. turn = Some c \<and> (turn_only c \<or> turn_force c))"
  shows "ticket_endpoint_addr C env (effective_ticket C t turn) = Some (relay_addr it)"
  using assms(2,4) endpoint_addr_of_payload[OF iroh_payload_effective[OF assms(1-3)], of env turn]
  by (auto simp: to_endpoint_addr_def relay_addr_def Let_def)

lemma connect_with_fallback_dials:
  assumes "ticket_endpoint_addr C env (effective_ticket C t turn) = Some addr"
  shows "set (fst (connect_with_fallback C J env net now t cred turn)) \<subseteq> {addr}"
  using assms by (simp add: connect_with_fallback_def connect_to_native_quic_def)

text \<open>C18: In relay-only mode, whether it is asked for by the environment or by the session's TURN
  settings, both attempts of a client (the newer protocol name, then the older one) dial only the
  relays of the ticket: no direct address of the host, and never the fallback address, is contacted,
  provided the ticket names a relay at all.\<close>

theorem relay_only_no_direct:
  assumes "iroh_payload C t = Some it" "it_relay_urls it \<noteq> []" "iroh_codes C (it\<lparr>it_ip_addrs := []\<rparr>)"
    "force_relay_only_from_env env \<or> (\<exists>c. turn = Some c \<and> (turn_only c \<or> turn_force c))"
  shows "\<forall>addr\<in>set (fst (connect_with_fallback_v2 C J env net now now2 t cred turn)).
    ea_ip_addrs addr = {} \<and> ea_relay_urls addr = set (it_relay_urls it)"
proof -
  let ?t2 = "t\<lparr>tk_alpn := NATIVE_QUIC_ALPN_V2\<rparr>"
  have "iroh_payload C ?t2 = Some it" using assms(1) by (simp add: iroh_payload_def)
  note connect_with_fallback_dials[OF relay_only_endpoint[OF this assms(2-4)], of J net now cred]
    connect_with_fallback_dials[OF relay_only_endpoint[OF assms], of J net now2 cred]
  then show ?thesis
    by (fastforce simp: connect_with_fallback_v2_def relay_addr_def split: prod.splits sum.splits)
qed

definition demo_iroh :: iroh_endpoint_ticket where
  "demo_iroh = \<lparr>it_endpoint_id = [1], it_relay_urls = [''http://r/''], it_ip_addrs = [(LOCALHOST, 7)]\<rparr>"

text \<open>A codec that knows two payloads, under one-letter names.\<close>

definition demo_codec :: ticket_codec where
  "demo_codec = \<lparr>b64_encode = (\<lambda>bs. if bs = [65] then ''A'' else ''B''),
     b64_decode = (\<lambda>s. Some (if s = ''A'' then [65] else [66])),
     iroh_to_json = (\<lambda>it. if it_ip_addrs it = [] then [65] else [66]),
     iroh_of_json = (\<lambda>bs. if bs = [65] then Some (demo_iroh\<lparr>it_ip_addrs := []\<rparr>) else if bs = [66] then Some demo_iroh else None),
     ticket_to_json = (\<lambda>_. []), ticket_of_json = (\<lambda>_. None),
     id_from_bytes = Some, id_text = map (\<lambda>b. char_of (unat b)), id_parse = (\<lambda>s. Some (map of_char s))\<rparr>"

definition demo_ticket :: native_quic_ticket where
  "demo_ticket = host_ticket demo_codec demo_iroh 7 (LOCALHOST, 7) NATIVE_QUIC_ALPN demo_credential"

lemma demo_codec_codes [simp]: "iroh_codes demo_codec demo_iroh" "iroh_codes demo_codec (demo_iroh\<lparr>it_ip_addrs := []\<rparr>)"
  by (simp_all add: iroh_codes_def demo_codec_def demo_iroh_def)

lemma demo_payload [simp]: "iroh_payload demo_codec demo_ticket = Some demo_iroh"
  by (simp add: demo_ticket_def iroh_payload_host_ticket)

theorem relay_only_no_direct_witness:
  "\<forall>J net. set (fst (connect_with_fallback_v2 demo_codec J Map.empty net 10 11 demo_ticket demo_credential
      (Some \<lparr>turn_only = False, turn_force = True\<rparr>))) \<subseteq> {addr. ea_ip_addrs addr = {} \<and> ea_relay_urls addr = {''http://r/''}}"
proof (intro allI)
  fix J net
  show "set (fst (connect_with_fallback_v2 demo_codec J Map.empty net 10 11 demo_ticket demo_credential
      (Some \<lparr>turn_only = False, turn_force = True\<rparr>))) \<subseteq> {addr. ea_ip_addrs addr = {} \<and> ea_relay_urls addr = {''http://r/''}}"
    using relay_only_no_direct[OF demo_payload _ demo_codec_codes(2), of Map.empty "Some \<lparr>turn_only = False, turn_force = True\<rparr>" J net 10 11 demo_credential]
    by (auto simp: demo_iroh_def)
qed

subsection \<open>From the ticket to the session\<close>

text \<open>The host's side of the authentication stream as seen by the client.\<close>

record server_json =
  of_auth :: "bytes \<Rightarrow> client_auth option"
  to_ack :: "auth_ack \<Rightarrow> bytes"

definition host_peer :: "server_json \<Rightarrow> native_quic_host \<Rightarrow> u64 \<Rightarrow> incoming list \<Rightarrow> quic_peer" where
  "host_peer S h now evs =
     \<lparr>answer = (\<lambda>req. map_option (write_json_prefixed (to_ack S))
         (fst (accept_authenticated_connection (of_auth S) (tk_session_id (nh_ticket h)) (nh_expected h) now req))),
      opened = evs\<rparr>"

lemma opened_host_peer [simp]: "opened (host_peer S h now evs) = evs"
  by (simp add: host_peer_def)

lemma host_peer_answer:
  assumes "of_auth S (to_auth J a) = Some a" "length (to_auth J a) \<le> MAX_JSON_FRAME"
    "a = \<lparr>ca_session_id = tk_session_id (nh_ticket h), ca_credential = nh_expected h\<rparr>"
    "now \<le> cred_expires (nh_expected h)"
  shows "answer (host_peer S h now evs) (client_auth_request (to_auth J) (tk_session_id (nh_ticket h)) (nh_expected h)) =
    Some (write_json_prefixed (to_ack S) \<lparr>ack_accepted = True, ack_message = ''ok''\<rparr>)"
proof -
  have "read_json_prefixed (of_auth S) (client_auth_request (to_auth J) (tk_session_id (nh_ticket h)) (nh_expected h)) = Ok (a, [])"
    using read_json_write_end[of "of_auth S" "to_auth J" a] assms(1-3) by (simp add: client_auth_request_def)
  then show ?thesis using assms(3,4) by (auto simp: host_peer_def accept_authenticated_connection_def)
qed

text \<open>A network on which the host is reachable: whatever addresses are dialled for its key, it answers
  both protocol names (\<open>bind_iroh_server_endpoint\<close> offers both).\<close>

definition reaches :: "(endpoint_addr \<Rightarrow> string \<Rightarrow> dial_result) \<Rightarrow> bytes \<Rightarrow> quic_peer \<Rightarrow> bool" where
  "reaches net eid peer \<longleftrightarrow>
     (\<forall>addr alpn. ea_id addr = eid \<longrightarrow>
        net addr alpn = (if alpn \<in> {NATIVE_QUIC_ALPN, NATIVE_QUIC_ALPN_V2} then DialUp peer else DialFailed))"

definition json_agree ::
    "host_json \<Rightarrow> server_json \<Rightarrow> client_json \<Rightarrow> uuid \<Rightarrow> session_credential \<Rightarrow> client_session \<Rightarrow> bool" where
  "json_agree H S J sid cred cs \<longleftrightarrow>
     (let a = \<lparr>ca_session_id = sid, ca_credential = cred\<rparr>; ok = \<lparr>ack_accepted = True, ack_message = ''ok''\<rparr>
      in of_auth S (to_auth J a) = Some a \<and> length (to_auth J a) \<le> MAX_JSON_FRAME \<and>
         of_ack J (to_ack S ok) = Some ok \<and> length (to_ack S ok) \<le> MAX_JSON_FRAME \<and> json_ok H (routing J) sid cs)"

lemma handshake_ok:
  assumes "json_agree H S J sid cred cs" "sid = tk_session_id (nh_ticket h)" "cred = nh_expected h" "now \<le> cred_expires cred"
    "\<forall>ev\<in>set evs. ev \<in> session_streams H sid cs \<or> filesync_stream ev" "session_streams H sid cs \<subseteq> set evs"
  shows "run_post_quic_handshake J (host_peer S h now evs) sid cred = Ok cs"
proof -
  have "route_post_auth_streams (routing J) sid evs = Ok cs"
    using assms(1,5,6) by (intro routed_session[of H]) (auto simp: json_agree_def Let_def)
  moreover have "answer (host_peer S h now evs) (client_auth_request (to_auth J) sid cred) =
      Some (write_json_prefixed (to_ack S) \<lparr>ack_accepted = True, ack_message = ''ok''\<rparr>)"
    unfolding assms(2,3) using assms(1,4) by (intro host_peer_answer[OF _ _ refl]) (auto simp: json_agree_def Let_def assms(2,3))
  ultimately show ?thesis
    using assms(1) read_json_write_end[of "of_ack J" "to_ack S" "\<lparr>ack_accepted = True, ack_message = ''ok''\<rparr>"]
    by (simp add: run_post_quic_handshake_def json_agree_def Let_def)
qed

lemma connect_ok:
  assumes "iroh_payload C t = Some it" "now \<le> tk_expires t" "now \<le> cred_expires cred"
    "reaches net (it_endpoint_id it) peer" "run_post_quic_handshake J peer (tk_session_id t) cred = Ok cs"
    "tk_alpn t \<in> {NATIVE_QUIC_ALPN, NATIVE_QUIC_ALPN_V2}"
  shows "connect_to_native_quic C J env net now t cred = ([to_endpoint_addr env it (tk_connect_addr t)], Ok cs)"
proof -
  have "ea_id (to_endpoint_addr env it a) = it_endpoint_id it" for a
    by (simp add: to_endpoint_addr_def Let_def)
  then show ?thesis
    using assms endpoint_addr_of_payload[OF assms(1), of env]
    by (auto simp: connect_to_native_quic_def reaches_def)
qed


definition demo_host :: native_quic_host where
  "demo_host = \<lparr>nh_ticket = demo_ticket, nh_expected = demo_credential, nh_v2 = False\<rparr>"

definition demo_client_json :: client_json where
  "demo_client_json = \<lparr>to_auth = \<lambda>_. [123, 125], of_ack = \<lambda>_. Some \<lparr>ack_accepted = True, ack_message = ''ok''\<rparr>,
     routing = demo_route_json\<rparr>"

definition demo_server_json :: server_json where
  "demo_server_json = \<lparr>of_auth = \<lambda>_. Some \<lparr>ca_session_id = 7, ca_credential = demo_credential\<rparr>, to_ack = \<lambda>_. [123, 125]\<rparr>"

definition demo_streams :: "incoming list" where
  "demo_streams = [open_control_sender [4], audio_stream demo_host_json 7 demo_cs, open_media_stream [1],
     video_stream demo_host_json demo_cs]"


end
