(* ===== verification/Identity.thy ===== *)
theory Identity
  imports Proto_Types
begin

text \<open>
  The device identity (\<open>qubox-identity/src/lib.rs\<close>, Unix branches): an Ed25519 key sealed on disk
  under a key that comes from a passphrase (Argon2id with the salt of the envelope) or from a
  master-key file beside the identity. The state is the file system, a map from paths to contents
  and permission bits; every operation returns it, since a failure keeps what was written before.
  Argon2, ChaCha20-Poly1305, SHA-256, hex, the key pair and the JSON readers are arguments; random
  values are arguments of the operation that draws them. Wiping key material is not a value.
\<close>

subsection \<open>Files\<close>

record disk_file =
  f_bytes :: bytes
  f_mode :: nat

type_synonym files = "string \<rightharpoonup> disk_file"

text \<open>The process environment: its variables, and the system calls that fail.\<close>

record ident_env =
  vars :: "string \<rightharpoonup> string"
  mkdir_fails :: "string \<Rightarrow> bool"
  open_fails :: "string \<Rightarrow> bool"
  chmod_fails :: "string \<Rightarrow> bool"

definition MODE_600 :: nat where "MODE_600 = 384"

definition IDENTITY_PASSPHRASE_ENV :: string where "IDENTITY_PASSPHRASE_ENV = ''QUBOX_IDENTITY_PASSPHRASE''"
definition IDENTITY_MASTER_KEY_FILENAME :: string where "IDENTITY_MASTER_KEY_FILENAME = ''identity.key''"
definition AT_REST_AEAD_TAG :: string where "AT_REST_AEAD_TAG = ''qubox-identity-v3-cha20p1305''"
definition IDENTITY_SCHEMA_VERSION :: u32 where "IDENTITY_SCHEMA_VERSION = 3"
definition SECRET_KEY_LENGTH :: nat where "SECRET_KEY_LENGTH = 32"

subsection \<open>Data\<close>

record key_envelope =
  ke_tag :: string
  ke_salt_hex :: string
  ke_nonce_hex :: string
  ke_ciphertext_hex :: string
  ke_aad_pk_sha256_hex :: string

record device_identity =
  di_schema_version :: u32
  di_device_id :: uuid
  di_host_peer_id :: uuid
  di_client_peer_id :: uuid
  di_display_name :: string
  di_public_key :: bytes
  di_envelope :: key_envelope

record unlocked_identity =
  ui_device_id :: uuid
  ui_host_peer_id :: uuid
  ui_client_peer_id :: uuid
  ui_display_name :: string
  ui_public_key :: bytes
  ui_private_key :: bytes

record v1_identity =
  v1_device_id :: uuid
  v1_host_peer_id :: uuid
  v1_client_peer_id :: uuid
  v1_display_name :: string

record v2_identity = v1_identity +
  v2_private_key :: bytes
  v2_public_key :: bytes

record entropy =
  e_secret :: bytes
  e_device_id :: uuid
  e_host_peer_id :: uuid
  e_client_peer_id :: uuid
  e_salt :: bytes
  e_nonce :: bytes
  e_master :: bytes

text \<open>The crates the code calls. \<open>json_salt\<close>, \<open>json_v1\<close> and \<open>json_v2\<close> read one part of any JSON text.\<close>

record ident_ext =
  argon2 :: "bytes \<Rightarrow> bytes \<Rightarrow> bytes option"
  aead_encrypt :: "bytes \<Rightarrow> bytes \<Rightarrow> string \<Rightarrow> bytes \<Rightarrow> bytes option"
  aead_decrypt :: "bytes \<Rightarrow> bytes \<Rightarrow> string \<Rightarrow> bytes \<Rightarrow> bytes option"
  sha256 :: "bytes \<Rightarrow> bytes"
  public_of :: "bytes \<Rightarrow> bytes"
  hex_encode :: "bytes \<Rightarrow> string"
  hex_decode :: "string \<Rightarrow> bytes option"
  utf8 :: "bytes \<Rightarrow> bool"
  identity_to_json :: "device_identity \<Rightarrow> bytes"
  identity_of_json :: "bytes \<Rightarrow> device_identity option"
  json_valid :: "bytes \<Rightarrow> bool"
  json_salt :: "bytes \<Rightarrow> string option"
  json_has_private :: "bytes \<Rightarrow> bool"
  json_v1 :: "bytes \<Rightarrow> v1_identity option"
  json_v2 :: "bytes \<Rightarrow> v2_identity option"

datatype identity_error =
    PathRequired
  | IdentityRead
  | NotJson
  | NoSalt
  | BadSaltHex
  | Argon2Failed
  | MissingMasterKey
  | ChmodFailed
  | MasterKeyLength nat
  | CreateMasterKey
  | CreateDirectory
  | WriteIdentity
  | KeyMismatch
  | EncryptFailed
  | UnknownTag string
  | BadNonceHex
  | NonceLength nat
  | BadCiphertextHex
  | DecryptFailed
  | PlaintextLength nat
  | BadV1
  | BadV2
  | UnsupportedSchema u32
  | PublicKeyMismatch
  | SaltLength

subsection \<open>Paths and defaults\<close>

definition path_dir :: "string \<Rightarrow> string" where
  "path_dir p = rev (dropWhile (\<lambda>c. c \<noteq> CHR ''/'') (rev p))"

definition master_key_path :: "string \<Rightarrow> string" where
  "master_key_path p = path_dir p @ IDENTITY_MASTER_KEY_FILENAME"

definition env_passphrase :: "ident_env \<Rightarrow> string option" where
  "env_passphrase env =
     (case vars env IDENTITY_PASSPHRASE_ENV of None \<Rightarrow> None | Some p \<Rightarrow> if p = [] then None else Some p)"

definition path_join :: "string \<Rightarrow> string \<Rightarrow> string" where
  "path_join a b = (if a = [] then b else if last a = CHR ''/'' then a @ b else a @ ''/'' @ b)"

text \<open>The branch for Linux; the other two systems look at one more variable first.\<close>

definition default_identity_path :: "ident_env \<Rightarrow> string" where
  "default_identity_path env =
     (case vars env ''QUBOX_IDENTITY_PATH'' of
        Some p \<Rightarrow> p
      | None \<Rightarrow>
         (case vars env ''XDG_CONFIG_HOME'' of
            Some c \<Rightarrow> path_join (path_join c ''qubox'') ''identity.json''
          | None \<Rightarrow>
             (case vars env ''HOME'' of
                Some h \<Rightarrow> path_join (path_join (path_join h ''.config'') ''qubox'') ''identity.json''
              | None \<Rightarrow> path_join ''.qubox'' ''identity.json'')))"

definition default_device_name :: "ident_env \<Rightarrow> string" where
  "default_device_name env =
     (case vars env ''COMPUTERNAME'' of
        Some n \<Rightarrow> n
      | None \<Rightarrow> (case vars env ''HOSTNAME'' of Some n \<Rightarrow> n | None \<Rightarrow> ''unnamed-device''))"

subsection \<open>Envelopes\<close>

definition build_aad :: "ident_ext \<Rightarrow> bytes \<Rightarrow> string" where
  "build_aad X public_key =
     CHR 0x7B # CHR 0x22 # ''format'' @ [CHR 0x22, CHR 0x3A, CHR 0x22] @ AT_REST_AEAD_TAG @
     [CHR 0x22, CHR 0x2C, CHR 0x22] @ ''pk_sha256_hex'' @ [CHR 0x22, CHR 0x3A, CHR 0x22] @
     hex_encode X (sha256 X public_key) @ [CHR 0x22, CHR 0x7D]"

definition empty_placeholder :: key_envelope where
  "empty_placeholder = \<lparr>ke_tag = [], ke_salt_hex = [], ke_nonce_hex = [], ke_ciphertext_hex = [], ke_aad_pk_sha256_hex = []\<rparr>"

definition encrypt_envelope ::
    "ident_ext \<Rightarrow> bytes \<Rightarrow> bytes \<Rightarrow> bytes \<Rightarrow> bytes \<Rightarrow> bytes \<Rightarrow> (identity_error, key_envelope) result" where
  "encrypt_envelope X nonce kek salt private_key public_key =
     (case aead_encrypt X kek nonce (build_aad X public_key) private_key of
        None \<Rightarrow> Err EncryptFailed
      | Some ct \<Rightarrow>
          Ok \<lparr>ke_tag = AT_REST_AEAD_TAG, ke_salt_hex = hex_encode X salt, ke_nonce_hex = hex_encode X nonce,
              ke_ciphertext_hex = hex_encode X ct, ke_aad_pk_sha256_hex = hex_encode X (sha256 X public_key)\<rparr>)"

definition decrypt_envelope ::
    "ident_ext \<Rightarrow> bytes \<Rightarrow> key_envelope \<Rightarrow> bytes \<Rightarrow> (identity_error, bytes) result" where
  "decrypt_envelope X kek env public_key =
     (if ke_tag env \<noteq> AT_REST_AEAD_TAG then Err (UnknownTag (ke_tag env))
      else case hex_decode X (ke_nonce_hex env) of
        None \<Rightarrow> Err BadNonceHex
      | Some nonce \<Rightarrow>
          if length nonce \<noteq> 12 then Err (NonceLength (length nonce))
          else (case hex_decode X (ke_ciphertext_hex env) of
             None \<Rightarrow> Err BadCiphertextHex
           | Some ct \<Rightarrow>
              (case aead_decrypt X kek nonce (build_aad X public_key) ct of
                 None \<Rightarrow> Err DecryptFailed
               | Some plain \<Rightarrow>
                   if length plain \<noteq> SECRET_KEY_LENGTH then Err (PlaintextLength (length plain)) else Ok plain)))"

definition identity_new :: "ident_ext \<Rightarrow> entropy \<Rightarrow> string \<Rightarrow> device_identity \<times> bytes" where
  "identity_new X e name =
     (\<lparr>di_schema_version = IDENTITY_SCHEMA_VERSION, di_device_id = e_device_id e, di_host_peer_id = e_host_peer_id e,
       di_client_peer_id = e_client_peer_id e, di_display_name = name, di_public_key = public_of X (e_secret e),
       di_envelope = empty_placeholder\<rparr>, e_secret e)"

definition seal_with_kek ::
    "ident_ext \<Rightarrow> bytes \<Rightarrow> device_identity \<Rightarrow> bytes \<Rightarrow> bytes \<Rightarrow> bytes \<Rightarrow> (identity_error, device_identity) result" where
  "seal_with_kek X nonce i kek salt private_key =
     (if public_of X private_key \<noteq> di_public_key i then Err KeyMismatch
      else case encrypt_envelope X nonce kek salt private_key (di_public_key i) of
        Inl e \<Rightarrow> Err e
      | Inr env \<Rightarrow> Ok (i\<lparr>di_envelope := env\<rparr>))"

definition peer_id_for :: "device_identity \<Rightarrow> peer_role \<Rightarrow> uuid" where
  "peer_id_for i r = (case r of Host \<Rightarrow> di_host_peer_id i | Client \<Rightarrow> di_client_peer_id i)"

subsection \<open>Key-encrypting keys\<close>

definition chmod_600 :: "ident_env \<Rightarrow> string \<Rightarrow> files \<Rightarrow> files \<times> (identity_error, unit) result" where
  "chmod_600 env p fs =
     (case fs p of
        None \<Rightarrow> (fs, Err ChmodFailed)
      | Some f \<Rightarrow>
          if f_mode f = MODE_600 then (fs, Ok ())
          else if chmod_fails env p then (fs, Err ChmodFailed)
          else (fs(p \<mapsto> f\<lparr>f_mode := MODE_600\<rparr>), Ok ()))"

definition load_master_key :: "ident_env \<Rightarrow> string \<Rightarrow> files \<Rightarrow> files \<times> (identity_error, bytes) result" where
  "load_master_key env p fs =
     (case fs p of
        None \<Rightarrow> (fs, Err MissingMasterKey)
      | Some f \<Rightarrow>
          bind_st (chmod_600 env p fs) (\<lambda>fs' _.
            if length (f_bytes f) \<noteq> 32 then (fs', Err (MasterKeyLength (length (f_bytes f))))
            else (fs', Ok (f_bytes f))))"

definition ensure_master_key ::
    "ident_env \<Rightarrow> bytes \<Rightarrow> string \<Rightarrow> files \<Rightarrow> files \<times> (identity_error, bytes) result" where
  "ensure_master_key env random p fs =
     (if fs p \<noteq> None then load_master_key env p fs
      else if open_fails env p then (fs, Err CreateMasterKey)
      else (fs(p \<mapsto> \<lparr>f_bytes = random, f_mode = MODE_600\<rparr>), Ok random))"

definition derive_argon2_kek :: "ident_ext \<Rightarrow> string \<Rightarrow> bytes \<Rightarrow> (identity_error, bytes) result" where
  "derive_argon2_kek X passphrase salt =
     (case argon2 X (map of_char passphrase) salt of None \<Rightarrow> Err Argon2Failed | Some k \<Rightarrow> Ok k)"

definition read_envelope_salt :: "ident_ext \<Rightarrow> string \<Rightarrow> files \<Rightarrow> (identity_error, bytes) result" where
  "read_envelope_salt X p fs =
     (case fs p of
        None \<Rightarrow> Err IdentityRead
      | Some f \<Rightarrow>
          if \<not> utf8 X (f_bytes f) then Err IdentityRead
          else if \<not> json_valid X (f_bytes f) then Err NotJson
          else (case json_salt X (f_bytes f) of
             None \<Rightarrow> Err NoSalt
           | Some h \<Rightarrow> (case hex_decode X h of None \<Rightarrow> Err BadSaltHex | Some salt \<Rightarrow> Ok salt)))"

definition derive_kek ::
    "ident_ext \<Rightarrow> ident_env \<Rightarrow> string option \<Rightarrow> files \<Rightarrow> files \<times> (identity_error, bytes) result" where
  "derive_kek X env p fs =
     (case p of
        None \<Rightarrow> (fs, Err PathRequired)
      | Some path \<Rightarrow>
         (case env_passphrase env of
            Some passphrase \<Rightarrow>
              bind_st (fs, read_envelope_salt X path fs) (\<lambda>fs salt. (fs, derive_argon2_kek X passphrase salt))
          | None \<Rightarrow> load_master_key env (master_key_path path) fs))"

definition pick_kek_and_salt_for_first_run ::
    "ident_ext \<Rightarrow> ident_env \<Rightarrow> entropy \<Rightarrow> string \<Rightarrow> files \<Rightarrow> files \<times> (identity_error, bytes \<times> bytes) result" where
  "pick_kek_and_salt_for_first_run X env e path fs =
     (case env_passphrase env of
        Some passphrase \<Rightarrow> (fs, map_sum id (\<lambda>kek. (kek, e_salt e)) (derive_argon2_kek X passphrase (e_salt e)))
      | None \<Rightarrow>
          bind_st (ensure_master_key env (e_master e) (master_key_path path) fs)
            (\<lambda>fs kek. (fs, Ok (kek, replicate 16 0))))"

definition unlock_identity ::
    "ident_ext \<Rightarrow> ident_env \<Rightarrow> device_identity \<Rightarrow> string option \<Rightarrow> files \<Rightarrow>
     files \<times> (identity_error, unlocked_identity) result" where
  "unlock_identity X env i p fs =
     bind_st (derive_kek X env p fs) (\<lambda>fs kek.
       (fs, map_sum id (\<lambda>private. \<lparr>ui_device_id = di_device_id i, ui_host_peer_id = di_host_peer_id i,
              ui_client_peer_id = di_client_peer_id i, ui_display_name = di_display_name i,
              ui_public_key = di_public_key i, ui_private_key = private\<rparr>)
            (decrypt_envelope X kek (di_envelope i) (di_public_key i))))"

definition signing_key ::
    "ident_ext \<Rightarrow> ident_env \<Rightarrow> device_identity \<Rightarrow> string option \<Rightarrow> files \<Rightarrow> files \<times> (identity_error, bytes) result" where
  "signing_key X env i p fs =
     bind_st (derive_kek X env p fs) (\<lambda>fs kek. (fs, decrypt_envelope X kek (di_envelope i) (di_public_key i)))"

subsection \<open>Loading\<close>

definition write_identity_with_mode ::
    "ident_ext \<Rightarrow> ident_env \<Rightarrow> string \<Rightarrow> device_identity \<Rightarrow> files \<Rightarrow> files \<times> (identity_error, unit) result" where
  "write_identity_with_mode X env p i fs =
     (if open_fails env p then (fs, Err WriteIdentity)
      else (fs(p \<mapsto> \<lparr>f_bytes = identity_to_json X i,
                 f_mode = (case fs p of None \<Rightarrow> MODE_600 | Some f \<Rightarrow> f_mode f)\<rparr>), Ok ()))"

definition tighten_files :: "ident_env \<Rightarrow> string \<Rightarrow> files \<Rightarrow> files \<times> (identity_error, unit) result" where
  "tighten_files env p fs =
     bind_st (chmod_600 env p fs) (\<lambda>fs _.
       if fs (master_key_path p) \<noteq> None then (fst (chmod_600 env (master_key_path p) fs), Ok ())
       else (fs, Ok ()))"

text \<open>The common end of the first run and of both migrations: seal, write, tighten.\<close>

definition seal_and_store ::
    "ident_ext \<Rightarrow> ident_env \<Rightarrow> entropy \<Rightarrow> string \<Rightarrow> device_identity \<Rightarrow> bytes \<Rightarrow> files \<Rightarrow>
     files \<times> (identity_error, device_identity) result" where
  "seal_and_store X env e path i private fs =
     bind_st (pick_kek_and_salt_for_first_run X env e path fs) (\<lambda>fs (kek, salt).
     bind_st (fs, seal_with_kek X (e_nonce e) i kek salt private) (\<lambda>fs sealed.
     bind_st (write_identity_with_mode X env path sealed fs) (\<lambda>fs _.
     bind_st (tighten_files env path fs) (\<lambda>fs _. (fs, Ok sealed)))))"

definition migrate_identity ::
    "ident_ext \<Rightarrow> ident_env \<Rightarrow> entropy \<Rightarrow> string \<Rightarrow> bytes \<Rightarrow> files \<Rightarrow> files \<times> (identity_error, device_identity) result" where
  "migrate_identity X env e path text fs =
     (if \<not> json_valid X text then (fs, Err NotJson)
      else if json_has_private X text
      then (case json_v2 X text of
              None \<Rightarrow> (fs, Err BadV2)
            | Some v \<Rightarrow>
                seal_and_store X env e path
                  \<lparr>di_schema_version = IDENTITY_SCHEMA_VERSION, di_device_id = v1_device_id v,
                   di_host_peer_id = v1_host_peer_id v, di_client_peer_id = v1_client_peer_id v,
                   di_display_name = v1_display_name v, di_public_key = v2_public_key v,
                   di_envelope = empty_placeholder\<rparr> (v2_private_key v) fs)
      else (case json_v1 X text of
              None \<Rightarrow> (fs, Err BadV1)
            | Some v \<Rightarrow>
                (case identity_new X e (v1_display_name v) of
                   (fresh, private) \<Rightarrow>
                     seal_and_store X env e path
                       (fresh\<lparr>di_device_id := v1_device_id v, di_host_peer_id := v1_host_peer_id v,
                              di_client_peer_id := v1_client_peer_id v\<rparr>) private fs)))"

definition rename_identity ::
    "ident_ext \<Rightarrow> ident_env \<Rightarrow> bytes \<Rightarrow> string \<Rightarrow> device_identity \<Rightarrow> bytes \<Rightarrow> string \<Rightarrow> files \<Rightarrow>
     files \<times> (identity_error, device_identity) result" where
  "rename_identity X env nonce path i private name fs =
     bind_st (derive_kek X env (Some path) fs) (\<lambda>fs kek.
       case hex_decode X (ke_salt_hex (di_envelope i)) of
         None \<Rightarrow> (fs, Err BadSaltHex)
       | Some salt \<Rightarrow>
           if length salt \<noteq> 16 then (fs, Err SaltLength)
           else bind_st (fs, seal_with_kek X nonce (i\<lparr>di_display_name := name\<rparr>) kek salt private) (\<lambda>fs sealed.
             bind_st (write_identity_with_mode X env path sealed fs) (\<lambda>fs _. (fs, Ok sealed))))"

definition load_identity ::
    "ident_ext \<Rightarrow> ident_env \<Rightarrow> entropy \<Rightarrow> string \<Rightarrow> device_identity \<Rightarrow> string \<Rightarrow> files \<Rightarrow>
     files \<times> (identity_error, device_identity) result" where
  "load_identity X env e path i name fs =
     (if di_schema_version i \<noteq> IDENTITY_SCHEMA_VERSION then (fs, Err (UnsupportedSchema (di_schema_version i)))
      else bind_st (unlock_identity X env i (Some path) fs) (\<lambda>fs unlocked.
        if public_of X (ui_private_key unlocked) \<noteq> di_public_key i then (fs, Err PublicKeyMismatch)
        else bind_st (if di_display_name i \<noteq> name
                      then rename_identity X env (e_nonce e) path i (ui_private_key unlocked) name fs
                      else (fs, Ok i)) (\<lambda>fs i'.
             bind_st (tighten_files env path fs) (\<lambda>fs _. (fs, Ok i')))))"

definition load_or_create_identity ::
    "ident_ext \<Rightarrow> ident_env \<Rightarrow> entropy \<Rightarrow> string option \<Rightarrow> string option \<Rightarrow> files \<Rightarrow>
     files \<times> (identity_error, device_identity \<times> string) result" where
  "load_or_create_identity X env e path_override name_override fs =
     (let path = (case path_override of Some p \<Rightarrow> p | None \<Rightarrow> default_identity_path env);
          name = (case name_override of Some n \<Rightarrow> n | None \<Rightarrow> default_device_name env) in
      if mkdir_fails env (path_dir path) then (fs, Err CreateDirectory)
      else bind_st
        (case fs path of
           None \<Rightarrow> (case identity_new X e name of (i, private) \<Rightarrow> seal_and_store X env e path i private fs)
         | Some f \<Rightarrow>
             if \<not> utf8 X (f_bytes f) then (fs, Err IdentityRead)
             else (case identity_of_json X (f_bytes f) of
                     None \<Rightarrow> migrate_identity X env e path (f_bytes f) fs
                   | Some i \<Rightarrow> load_identity X env e path i name fs))
        (\<lambda>fs i. (fs, Ok (i, path))))"

definition host_seed_for_recovery ::
    "ident_ext \<Rightarrow> ident_env \<Rightarrow> entropy \<Rightarrow> string \<Rightarrow> files \<Rightarrow> files \<times> (identity_error, bytes) result" where
  "host_seed_for_recovery X env e path fs =
     bind_st (load_or_create_identity X env e (Some path) None fs) (\<lambda>fs (i, _).
     bind_st (derive_kek X env (Some path) fs) (\<lambda>fs kek.
       (fs, decrypt_envelope X kek (di_envelope i) (di_public_key i))))"

subsection \<open>Laws and invariant\<close>

text \<open>What the code relies on of the crates: hex and JSON decode what they encoded, the cipher decrypts
  what it encrypted under the same key, nonce and associated data, and neither it nor Argon2 refuses
  well-formed inputs.\<close>

definition ident_laws :: "ident_ext \<Rightarrow> bool" where
  "ident_laws X \<longleftrightarrow>
     (\<forall>b. hex_decode X (hex_encode X b) = Some b) \<and>
     (\<forall>k n a m c. aead_encrypt X k n a m = Some c \<longrightarrow> aead_decrypt X k n a c = Some m) \<and>
     (\<forall>k n a m. length m = SECRET_KEY_LENGTH \<longrightarrow> aead_encrypt X k n a m \<noteq> None) \<and>
     (\<forall>p salt. length salt = 16 \<longrightarrow> argon2 X p salt \<noteq> None) \<and>
     (\<forall>i. identity_of_json X (identity_to_json X i) = Some i \<and> utf8 X (identity_to_json X i) \<and>
        json_valid X (identity_to_json X i) \<and> json_salt X (identity_to_json X i) = Some (ke_salt_hex (di_envelope i)))"

definition no_faults :: "ident_env \<Rightarrow> bool" where
  "no_faults env \<longleftrightarrow> (\<forall>p. \<not> mkdir_fails env p \<and> \<not> open_fails env p \<and> \<not> chmod_fails env p)"

definition entropy_ok :: "entropy \<Rightarrow> bool" where
  "entropy_ok e \<longleftrightarrow> length (e_secret e) = SECRET_KEY_LENGTH \<and> length (e_salt e) = 16 \<and> length (e_nonce e) = 12 \<and>
     length (e_master e) = 32"

definition content :: "files \<Rightarrow> string \<Rightarrow> bytes option" where
  "content fs p = map_option f_bytes (fs p)"

text \<open>A master key, where there is one, is usable.\<close>

definition master_ok :: "files \<Rightarrow> string \<Rightarrow> bool" where
  "master_ok fs path \<longleftrightarrow> (case content fs (master_key_path path) of None \<Rightarrow> True | Some k \<Rightarrow> length k = 32)"

definition kek_of :: "ident_ext \<Rightarrow> ident_env \<Rightarrow> string \<Rightarrow> device_identity \<Rightarrow> files \<Rightarrow> bytes option" where
  "kek_of X env path i fs =
     (case env_passphrase env of
        Some p \<Rightarrow> Option.bind (hex_decode X (ke_salt_hex (di_envelope i))) (argon2 X (map of_char p))
      | None \<Rightarrow> (case content fs (master_key_path path) of
                  Some k \<Rightarrow> if length k = 32 then Some k else None | None \<Rightarrow> None))"

text \<open>The identity \<open>i\<close> with private key \<open>private\<close> is stored at \<open>path\<close> and can be unsealed.\<close>

definition sealed_at :: "ident_ext \<Rightarrow> ident_env \<Rightarrow> string \<Rightarrow> device_identity \<Rightarrow> bytes \<Rightarrow> files \<Rightarrow> bool" where
  "sealed_at X env path i private fs \<longleftrightarrow>
     content fs path = Some (identity_to_json X i) \<and> di_schema_version i = IDENTITY_SCHEMA_VERSION \<and>
     public_of X private = di_public_key i \<and> length private = SECRET_KEY_LENGTH \<and>
     (\<exists>salt. hex_decode X (ke_salt_hex (di_envelope i)) = Some salt \<and> length salt = 16) \<and>
     (\<exists>kek. kek_of X env path i fs = Some kek \<and> decrypt_envelope X kek (di_envelope i) (di_public_key i) = Ok private)"

definition same_device :: "device_identity \<Rightarrow> device_identity \<Rightarrow> bool" where
  "same_device i i' \<longleftrightarrow> di_device_id i' = di_device_id i \<and> di_host_peer_id i' = di_host_peer_id i \<and>
     di_client_peer_id i' = di_client_peer_id i \<and> di_public_key i' = di_public_key i"

lemma same_device_refl [simp]: "same_device i i" by (simp add: same_device_def)
lemma same_device_trans: "same_device i j \<Longrightarrow> same_device j k \<Longrightarrow> same_device i k" by (simp add: same_device_def)

lemma kek_of_cong: "content fs' = content fs \<Longrightarrow> kek_of X env path i fs' = kek_of X env path i fs"
  by (simp add: kek_of_def split: option.split)

lemma sealed_at_cong: "content fs' = content fs \<Longrightarrow> sealed_at X env path i private fs' = sealed_at X env path i private fs"
  by (simp add: sealed_at_def kek_of_cong[of fs' fs])

lemma content_upd [simp]: "content (fs(p \<mapsto> f)) = (content fs)(p \<mapsto> f_bytes f)"
  by (auto simp: content_def)

subsection \<open>Steps that keep contents\<close>

lemma chmod_content: "content (fst (chmod_600 env p fs)) = content fs"
  by (auto simp: chmod_600_def content_def split: option.splits)

lemma chmod_ok:
  assumes "no_faults env" "fs p = Some f"
  shows "chmod_600 env p fs = (fs(p \<mapsto> f\<lparr>f_mode := MODE_600\<rparr>), Ok ())"
proof (cases "f_mode f = MODE_600")
  case True
  then have "f\<lparr>f_mode := MODE_600\<rparr> = f" by (cases f) simp
  with True assms show ?thesis by (simp add: chmod_600_def fun_eq_iff)
qed (use assms in \<open>simp add: chmod_600_def no_faults_def\<close>)

lemma bind_content:
  assumes "content (fst r) = c" "\<And>fs x. content fs = c \<Longrightarrow> content (fst (g fs x)) = c"
  shows "content (fst (bind_st r g)) = c"
  using assms bind_st_inv[of "\<lambda>fs. content fs = c" r g] by blast

lemma load_master_content: "content (fst (load_master_key env p fs)) = content fs"
  by (auto simp: load_master_key_def intro!: bind_content chmod_content split: option.split)

lemma derive_kek_content: "content (fst (derive_kek X env p fs)) = content fs"
  by (auto simp: derive_kek_def load_master_content intro!: bind_content split: option.split)

lemma unlock_content: "content (fst (unlock_identity X env i p fs)) = content fs"
  by (auto simp: unlock_identity_def intro!: bind_content derive_kek_content)

lemma tighten_content: "content (fst (tighten_files env p fs)) = content fs"
  by (auto simp: tighten_files_def chmod_content intro!: bind_content)

lemma tighten_ok:
  assumes "no_faults env" "fs p \<noteq> None"
  shows "\<exists>fs'. tighten_files env p fs = (fs', Ok ()) \<and> content fs' = content fs"
proof -
  obtain f where f: "fs p = Some f" using assms(2) by auto
  then have "snd (tighten_files env p fs) = Ok ()"
    by (simp add: tighten_files_def chmod_ok[of env fs p f] assms(1))
  with tighten_content[of env p fs] show ?thesis by (metis prod.collapse)
qed

lemma load_master_ok:
  assumes "no_faults env" "content fs p = Some k" "length k = 32"
  shows "\<exists>fs'. load_master_key env p fs = (fs', Ok k) \<and> content fs' = content fs"
proof -
  obtain f where f: "fs p = Some f" "f_bytes f = k" using assms(2) by (auto simp: content_def)
  then have "snd (load_master_key env p fs) = Ok k"
    using assms(3) by (simp add: load_master_key_def chmod_ok[of env fs p f] assms(1))
  with load_master_content[of env p fs] show ?thesis by (metis prod.collapse)
qed

subsection \<open>Sealing and unsealing\<close>

lemma content_SomeD: "content fs p = Some b \<Longrightarrow> \<exists>f. fs p = Some f \<and> f_bytes f = b"
  by (auto simp: content_def)

lemma derive_kek_ok:
  assumes "ident_laws X" "no_faults env" "content fs path = Some (identity_to_json X i)" "kek_of X env path i fs = Some kek"
  shows "\<exists>fs'. derive_kek X env (Some path) fs = (fs', Ok kek) \<and> content fs' = content fs"
proof (cases "env_passphrase env")
  case None
  then have "content fs (master_key_path path) = Some kek" "length kek = 32"
    using assms(4) by (auto simp: kek_of_def split: option.splits if_splits)
  with load_master_ok[OF assms(2)] None show ?thesis by (simp add: derive_kek_def)
next
  case (Some p)
  obtain salt where "hex_decode X (ke_salt_hex (di_envelope i)) = Some salt" "argon2 X (map of_char p) salt = Some kek"
    using assms(4) Some by (auto simp: kek_of_def split: bind_splits)
  with Some assms(1) content_SomeD[OF assms(3)] show ?thesis
    by (auto simp: derive_kek_def read_envelope_salt_def derive_argon2_kek_def ident_laws_def)
qed

lemma seal_ok:
  assumes "ident_laws X" "public_of X private = di_public_key i" "length private = SECRET_KEY_LENGTH" "length nonce = 12"
  shows "\<exists>env. seal_with_kek X nonce i kek salt private = Ok (i\<lparr>di_envelope := env\<rparr>) \<and>
    decrypt_envelope X kek env (di_public_key i) = Ok private \<and> hex_decode X (ke_salt_hex env) = Some salt"
proof -
  obtain ct where "aead_encrypt X kek nonce (build_aad X (di_public_key i)) private = Some ct"
    using assms(1,3) by (fastforce simp: ident_laws_def)
  moreover from this have "aead_decrypt X kek nonce (build_aad X (di_public_key i)) ct = Some private"
    using assms(1) by (auto simp: ident_laws_def)
  ultimately show ?thesis
    using assms
    by (intro exI[of _ "\<lparr>ke_tag = AT_REST_AEAD_TAG, ke_salt_hex = hex_encode X salt, ke_nonce_hex = hex_encode X nonce,
        ke_ciphertext_hex = hex_encode X ct, ke_aad_pk_sha256_hex = hex_encode X (sha256 X (di_public_key i))\<rparr>"])
      (simp add: seal_with_kek_def encrypt_envelope_def decrypt_envelope_def ident_laws_def)
qed

lemma write_identity_ok:
  assumes "no_faults env"
  shows "\<exists>fs'. write_identity_with_mode X env p i fs = (fs', Ok ()) \<and> content fs' = (content fs)(p \<mapsto> identity_to_json X i)"
  using assms by (simp add: write_identity_with_mode_def no_faults_def)

lemma pick_kek_ok:
  assumes "ident_laws X" "no_faults env" "entropy_ok e" "master_ok fs path"
  shows "\<exists>fs' kek salt. pick_kek_and_salt_for_first_run X env e path fs = (fs', Ok (kek, salt)) \<and> length salt = 16 \<and>
    (\<forall>q. q \<noteq> master_key_path path \<longrightarrow> content fs' q = content fs q) \<and>
    (case env_passphrase env of Some p \<Rightarrow> argon2 X (map of_char p) salt = Some kek \<and> content fs' = content fs
     | None \<Rightarrow> content fs' (master_key_path path) = Some kek \<and> length kek = 32)"
proof (cases "env_passphrase env")
  case (Some p)
  obtain kek where "argon2 X (map of_char p) (e_salt e) = Some kek"
    using assms(1,3) by (fastforce simp: ident_laws_def entropy_ok_def)
  with Some assms(3) show ?thesis
    by (simp add: pick_kek_and_salt_for_first_run_def derive_argon2_kek_def entropy_ok_def)
next
  case None
  show ?thesis
  proof (cases "fs (master_key_path path)")
    case None2: None
    with None assms(2,3) show ?thesis
      by (simp add: pick_kek_and_salt_for_first_run_def ensure_master_key_def no_faults_def entropy_ok_def)
  next
    case (Some f)
    then have "content fs (master_key_path path) = Some (f_bytes f)" "length (f_bytes f) = 32"
      using assms(4) by (auto simp: master_ok_def content_def)
    with load_master_ok[OF assms(2)] None Some show ?thesis
      by (fastforce simp: pick_kek_and_salt_for_first_run_def ensure_master_key_def)
  qed
qed

lemma seal_and_store_ok:
  assumes "ident_laws X" "no_faults env" "entropy_ok e" "master_ok fs path" "path \<noteq> master_key_path path"
    "public_of X private = di_public_key i" "length private = SECRET_KEY_LENGTH" "di_schema_version i = IDENTITY_SCHEMA_VERSION"
  shows "\<exists>fs' ke. seal_and_store X env e path i private fs = (fs', Ok (i\<lparr>di_envelope := ke\<rparr>)) \<and>
    sealed_at X env path (i\<lparr>di_envelope := ke\<rparr>) private fs'"
proof -
  obtain fs1 kek salt where p: "pick_kek_and_salt_for_first_run X env e path fs = (fs1, Ok (kek, salt))" "length salt = 16"
    and k: "case env_passphrase env of Some p \<Rightarrow> argon2 X (map of_char p) salt = Some kek \<and> content fs1 = content fs
     | None \<Rightarrow> content fs1 (master_key_path path) = Some kek \<and> length kek = 32"
    using pick_kek_ok[OF assms(1-4)] by blast
  obtain ke where ke: "seal_with_kek X (e_nonce e) i kek salt private = Ok (i\<lparr>di_envelope := ke\<rparr>)"
    "decrypt_envelope X kek ke (di_public_key i) = Ok private" "hex_decode X (ke_salt_hex ke) = Some salt"
    using seal_ok[OF assms(1,6,7), of "e_nonce e" kek salt] assms(3) by (auto simp: entropy_ok_def)
  obtain fs2 where w: "write_identity_with_mode X env path (i\<lparr>di_envelope := ke\<rparr>) fs1 = (fs2, Ok ())"
    "content fs2 = (content fs1)(path \<mapsto> identity_to_json X (i\<lparr>di_envelope := ke\<rparr>))"
    using write_identity_ok[OF assms(2)] by blast
  then have "fs2 path \<noteq> None" using content_SomeD[of fs2 path] by fastforce
  then obtain fs3 where t: "tighten_files env path fs2 = (fs3, Ok ())" "content fs3 = content fs2"
    using tighten_ok[of env fs2 path] assms(2) by blast
  have "kek_of X env path (i\<lparr>di_envelope := ke\<rparr>) fs3 = Some kek"
    using k ke(3) t(2) w(2) assms(5) by (auto simp: kek_of_def split: option.splits)
  moreover have "seal_and_store X env e path i private fs = (fs3, Ok (i\<lparr>di_envelope := ke\<rparr>))"
    using p(1) ke(1) w(1) t(1) by (simp add: seal_and_store_def)
  ultimately show ?thesis
    using t(2) w(2) p(2) ke(2,3) assms(6-8) by (auto simp: sealed_at_def)
qed

lemma unlock_ok:
  assumes "ident_laws X" "no_faults env" "sealed_at X env path i private fs"
  shows "\<exists>fs' u. unlock_identity X env i (Some path) fs = (fs', Ok u) \<and> ui_private_key u = private \<and> content fs' = content fs"
proof -
  obtain kek where "kek_of X env path i fs = Some kek" "decrypt_envelope X kek (di_envelope i) (di_public_key i) = Ok private"
      "content fs path = Some (identity_to_json X i)"
    using assms(3) by (auto simp: sealed_at_def)
  with derive_kek_ok[OF assms(1,2)] show ?thesis by (fastforce simp: unlock_identity_def)
qed

lemma signing_key_ok:
  assumes "ident_laws X" "no_faults env" "sealed_at X env path i private fs"
  shows "snd (signing_key X env i (Some path) fs) = Ok private"
proof -
  obtain kek where "kek_of X env path i fs = Some kek" "decrypt_envelope X kek (di_envelope i) (di_public_key i) = Ok private"
      "content fs path = Some (identity_to_json X i)"
    using assms(3) by (auto simp: sealed_at_def)
  with derive_kek_ok[OF assms(1,2)] show ?thesis by (fastforce simp: signing_key_def)
qed

lemma rename_ok:
  assumes "ident_laws X" "no_faults env" "sealed_at X env path i private fs" "length nonce = 12" "path \<noteq> master_key_path path"
  shows "\<exists>fs' ke. rename_identity X env nonce path i private name fs =
      (fs', Ok (i\<lparr>di_display_name := name, di_envelope := ke\<rparr>)) \<and>
    sealed_at X env path (i\<lparr>di_display_name := name, di_envelope := ke\<rparr>) private fs'"
proof -
  obtain kek salt where k: "kek_of X env path i fs = Some kek" "hex_decode X (ke_salt_hex (di_envelope i)) = Some salt"
      "length salt = 16" "content fs path = Some (identity_to_json X i)" "public_of X private = di_public_key i"
      "length private = SECRET_KEY_LENGTH" "di_schema_version i = IDENTITY_SCHEMA_VERSION"
    using assms(3) by (auto simp: sealed_at_def)
  obtain fs1 where d: "derive_kek X env (Some path) fs = (fs1, Ok kek)" "content fs1 = content fs"
    using derive_kek_ok[OF assms(1,2) k(4,1)] by blast
  let ?i = "i\<lparr>di_display_name := name\<rparr>"
  obtain ke where ke: "seal_with_kek X nonce ?i kek salt private = Ok (?i\<lparr>di_envelope := ke\<rparr>)"
    "decrypt_envelope X kek ke (di_public_key i) = Ok private" "hex_decode X (ke_salt_hex ke) = Some salt"
    using seal_ok[OF assms(1), of "private" ?i nonce kek salt] k(5,6) assms(4) by auto
  obtain fs2 where w: "write_identity_with_mode X env path (?i\<lparr>di_envelope := ke\<rparr>) fs1 = (fs2, Ok ())"
    "content fs2 = (content fs1)(path \<mapsto> identity_to_json X (?i\<lparr>di_envelope := ke\<rparr>))"
    using write_identity_ok[OF assms(2)] by blast
  have "kek_of X env path (?i\<lparr>di_envelope := ke\<rparr>) fs2 = Some kek"
    using k(1,2) ke(3) w(2) d(2) assms(5) by (auto simp: kek_of_def split: option.splits)
  with k ke w d(1) show ?thesis
    by (auto simp: rename_identity_def sealed_at_def)
qed

lemma load_identity_ok:
  assumes "ident_laws X" "no_faults env" "sealed_at X env path i private fs" "length (e_nonce e) = 12" "path \<noteq> master_key_path path"
  shows "\<exists>fs' i'. load_identity X env e path i name fs = (fs', Ok i') \<and> sealed_at X env path i' private fs' \<and>
    same_device i i' \<and> di_display_name i' = name \<and> (di_display_name i = name \<longrightarrow> i' = i \<and> content fs' = content fs)"
proof -
  obtain fs1 u where u: "unlock_identity X env i (Some path) fs = (fs1, Ok u)" "ui_private_key u = private" "content fs1 = content fs"
    using unlock_ok[OF assms(1-3)] by blast
  have s1: "sealed_at X env path i private fs1" using assms(3) sealed_at_cong[OF u(3)] by simp
  have "\<exists>fs2 i'. (if di_display_name i \<noteq> name then rename_identity X env (e_nonce e) path i private name fs1 else (fs1, Ok i)) =
      (fs2, Ok i') \<and> sealed_at X env path i' private fs2 \<and> same_device i i' \<and> di_display_name i' = name \<and>
      (di_display_name i = name \<longrightarrow> i' = i \<and> content fs2 = content fs)"
    using rename_ok[OF assms(1,2) s1 assms(4,5), of name] s1 u(3) by (auto simp: same_device_def)
  then obtain fs2 i' where r: "(if di_display_name i \<noteq> name then rename_identity X env (e_nonce e) path i private name fs1 else (fs1, Ok i)) =
      (fs2, Ok i')" "sealed_at X env path i' private fs2" "same_device i i'" "di_display_name i' = name"
      "di_display_name i = name \<longrightarrow> i' = i \<and> content fs2 = content fs" by blast
  have "fs2 path \<noteq> None" using r(2) by (auto simp: sealed_at_def content_def)
  then obtain fs3 where t: "tighten_files env path fs2 = (fs3, Ok ())" "content fs3 = content fs2"
    using tighten_ok[of env fs2 path] assms(2) by blast
  have "public_of X private = di_public_key i" "di_schema_version i = IDENTITY_SCHEMA_VERSION"
    using assms(3) by (auto simp: sealed_at_def)
  then have "load_identity X env e path i name fs = (fs3, Ok i')"
    using u r(1) t(1) by (simp add: load_identity_def split: if_splits)
  with r t(2) show ?thesis using sealed_at_cong[OF t(2)] by auto
qed

subsection \<open>Restarts\<close>

text \<open>Successive starts of the program, each with its own random values and optional name.\<close>

fun restarts ::
    "ident_ext \<Rightarrow> ident_env \<Rightarrow> string \<Rightarrow> (entropy \<times> string option) list \<Rightarrow> files \<Rightarrow>
     files \<times> (identity_error, device_identity \<times> string) result list" where
  "restarts X env path [] fs = (fs, [])"
| "restarts X env path ((e, name) # rs) fs =
     (case load_or_create_identity X env e (Some path) name fs of
        (fs', r) \<Rightarrow> (case restarts X env path rs fs' of (fs'', rest) \<Rightarrow> (fs'', r # rest)))"

definition chosen_name :: "ident_env \<Rightarrow> string option \<Rightarrow> string" where
  "chosen_name env name = (case name of Some n \<Rightarrow> n | None \<Rightarrow> default_device_name env)"

definition answers_as :: "ident_env \<Rightarrow> string \<Rightarrow> device_identity \<Rightarrow> entropy \<times> string option \<Rightarrow>
    (identity_error, device_identity \<times> string) result \<Rightarrow> bool" where
  "answers_as env path i0 r res \<longleftrightarrow>
     (\<exists>i. res = Ok (i, path) \<and> same_device i0 i \<and> di_display_name i = chosen_name env (snd r))"

lemma answers_asI:
  "same_device i0 i \<Longrightarrow> di_display_name i = chosen_name env name \<Longrightarrow> answers_as env path i0 (e, name) (Ok (i, path))"
  by (simp add: answers_as_def)

lemma load_sealed:
  assumes "ident_laws X" "no_faults env" "sealed_at X env path i private fs" "entropy_ok e" "path \<noteq> master_key_path path"
  shows "\<exists>fs' i'. load_or_create_identity X env e (Some path) name fs = (fs', Ok (i', path)) \<and>
    sealed_at X env path i' private fs' \<and> same_device i i' \<and> di_display_name i' = chosen_name env name \<and>
    (di_display_name i = chosen_name env name \<longrightarrow> i' = i \<and> content fs' = content fs)"
proof -
  have "content fs path = Some (identity_to_json X i)" using assms(3) by (simp add: sealed_at_def)
  then obtain f where f: "fs path = Some f" "f_bytes f = identity_to_json X i"
    using content_SomeD by blast
  have "length (e_nonce e) = 12" using assms(4) by (simp add: entropy_ok_def)
  then obtain fs' i' where "load_identity X env e path i (chosen_name env name) fs = (fs', Ok i')"
    "sealed_at X env path i' private fs'" "same_device i i'" "di_display_name i' = chosen_name env name"
    "di_display_name i = chosen_name env name \<longrightarrow> i' = i \<and> content fs' = content fs"
    using load_identity_ok[OF assms(1-3) _ assms(5)] by blast
  with f assms(1,2) show ?thesis
    by (auto simp: load_or_create_identity_def Let_def chosen_name_def no_faults_def ident_laws_def)
qed

lemma restarts_sealed:
  assumes "ident_laws X" "no_faults env" "path \<noteq> master_key_path path"
    "sealed_at X env path i private fs" "same_device i0 i" "\<forall>r\<in>set rs. entropy_ok (fst r)"
  shows "\<exists>fs' res i'. restarts X env path rs fs = (fs', res) \<and> list_all2 (answers_as env path i0) rs res \<and>
    sealed_at X env path i' private fs' \<and> (if rs = [] then i' = i else last res = Ok (i', path))"
  using assms(4-)
proof (induction rs arbitrary: i fs)
  case Nil
  then show ?case by auto
next
  case (Cons r rs)
  obtain e name where r: "r = (e, name)" by fastforce
  obtain fs1 i1 where l: "load_or_create_identity X env e (Some path) name fs = (fs1, Ok (i1, path))"
    "sealed_at X env path i1 private fs1" "same_device i i1" "di_display_name i1 = chosen_name env name"
    using load_sealed[OF assms(1,2) Cons.prems(1) _ assms(3), of e name] Cons.prems(3) r by auto
  have i1: "same_device i0 i1" using Cons.prems(2) l(3) same_device_trans by blast
  obtain fs' res i' where "restarts X env path rs fs1 = (fs', res)" "list_all2 (answers_as env path i0) rs res"
    "sealed_at X env path i' private fs'" "if rs = [] then i' = i1 else last res = Ok (i', path)"
    using Cons.IH[OF l(2) i1] Cons.prems(3) by auto
  with l i1 r answers_asI[OF i1 l(4)] show ?case
    by (intro exI[of _ fs'] exI[of _ "Ok (i1, path) # res"] exI[of _ i']) (cases rs; auto)
qed

text \<open>C10: A device keeps its identity. From an empty path, the first start creates an identity from its
  random values, and every later start, whatever name it is given and whatever randomness it draws,
  succeeds and returns the same device id, peer ids and public key under the name asked for; after
  the last one the private key unseals to the one created first. This holds in passphrase mode and
  in master-key mode, with or without a master key already in place.\<close>

theorem identity_stable:
  assumes "ident_laws X" "no_faults env" "path \<noteq> master_key_path path" "fs path = None" "master_ok fs path"
    "\<forall>r\<in>set ((e, name) # rs). entropy_ok (fst r)"
  shows "\<exists>fs' res i. restarts X env path ((e, name) # rs) fs = (fs', res) \<and>
    list_all2 (answers_as env path (fst (identity_new X e (chosen_name env name)))) ((e, name) # rs) res \<and>
    last res = Ok (i, path) \<and> snd (signing_key X env i (Some path) fs') = Ok (e_secret e)"
proof -
  let ?i0 = "fst (identity_new X e (chosen_name env name))"
  obtain fs1 ke where s: "seal_and_store X env e path ?i0 (e_secret e) fs = (fs1, Ok (?i0\<lparr>di_envelope := ke\<rparr>))"
    "sealed_at X env path (?i0\<lparr>di_envelope := ke\<rparr>) (e_secret e) fs1"
    using seal_and_store_ok[OF assms(1,2) _ assms(5,3), of e "e_secret e" ?i0] assms(6)
    by (auto simp: identity_new_def entropy_ok_def)
  let ?i1 = "?i0\<lparr>di_envelope := ke\<rparr>"
  have l: "load_or_create_identity X env e (Some path) name fs = (fs1, Ok (?i1, path))"
    using s(1) assms(2,4)
    by (auto simp: load_or_create_identity_def Let_def chosen_name_def identity_new_def no_faults_def)
  have i1: "same_device ?i0 ?i1" "di_display_name ?i1 = chosen_name env name"
    by (simp_all add: same_device_def identity_new_def)
  obtain fs' res i where "restarts X env path rs fs1 = (fs', res)" "list_all2 (answers_as env path ?i0) rs res"
    "sealed_at X env path i (e_secret e) fs'" "if rs = [] then i = ?i1 else last res = Ok (i, path)"
    using restarts_sealed[OF assms(1-3) s(2) i1(1), of rs] assms(6) by fastforce
  with l answers_asI[OF i1] signing_key_ok[OF assms(1,2)] show ?thesis
    by (intro exI[of _ fs'] exI[of _ "Ok (?i1, path) # res"] exI[of _ i]) (cases rs; auto)
qed

subsection \<open>A concrete set of primitives\<close>

text \<open>Text is written with a marker before every character; the cipher prefixes its key.\<close>

definition put_text :: "string \<Rightarrow> bytes" where
  "put_text s = concat (map (\<lambda>c. [1, of_char c]) s) @ [0]"

fun get_text :: "bytes \<Rightarrow> string \<times> bytes" where
  "get_text (b # c # r) = (if b = 1 then (case get_text r of (s, r') \<Rightarrow> (char_of (unat c) # s, r')) else ([], c # r))"
| "get_text (b # []) = ([], [])"
| "get_text [] = ([], [])"

lemma of_char_of_byte [simp]: "of_char (char_of (unat (b :: u8))) = b"
proof -
  have "(of_char (char_of (unat b)) :: u8) = of_nat (of_char (char_of (unat b)))" by (simp only: of_nat_of_char)
  also have "\<dots> = b" using unsigned_less[of b, where ?'a = nat] by simp
  finally show ?thesis .
qed

lemma char_of_byte_of_char [simp]: "char_of (unat (of_char c :: u8)) = c"
proof -
  have "(of_char c :: u8) = of_nat (of_char c)" by (simp only: of_nat_of_char)
  moreover have "of_char c < (256 :: nat)" by simp
  ultimately have "unat (of_char c :: u8) = of_char c" by (simp add: unat_of_nat take_bit_nat_eq_self)
  then show ?thesis by simp
qed

lemma get_put_text [simp]: "get_text (put_text s @ r) = (s, r)"
proof (induction s)
  case Nil
  show ?case by (cases r) (simp_all add: put_text_def)
next
  case (Cons c s)
  have "put_text (c # s) @ r = 1 # of_char c # (put_text s @ r)" by (simp add: put_text_def)
  then show ?case using Cons.IH by simp
qed

definition put_identity :: "device_identity \<Rightarrow> bytes" where
  "put_identity i = to_be_bytes 4 (di_schema_version i) @ to_be_bytes 16 (di_device_id i) @ to_be_bytes 16 (di_host_peer_id i) @
     to_be_bytes 16 (di_client_peer_id i) @ put_text (di_display_name i) @
     put_text (map (\<lambda>b. char_of (unat b)) (di_public_key i)) @ put_text (ke_tag (di_envelope i)) @
     put_text (ke_salt_hex (di_envelope i)) @ put_text (ke_nonce_hex (di_envelope i)) @
     put_text (ke_ciphertext_hex (di_envelope i)) @ put_text (ke_aad_pk_sha256_hex (di_envelope i))"

definition get_identity :: "bytes \<Rightarrow> device_identity option" where
  "get_identity b =
     (if length b < 52 then None else
      let (name, r) = get_text (drop 52 b); (pk, r) = get_text r; (tag, r) = get_text r; (salt, r) = get_text r;
          (nonce, r) = get_text r; (ct, r) = get_text r; (aad, _) = get_text r
      in Some \<lparr>di_schema_version = from_be_bytes (take 4 b), di_device_id = from_be_bytes (take 16 (drop 4 b)),
           di_host_peer_id = from_be_bytes (take 16 (drop 20 b)), di_client_peer_id = from_be_bytes (take 16 (drop 36 b)),
           di_display_name = name, di_public_key = map of_char pk,
           di_envelope = \<lparr>ke_tag = tag, ke_salt_hex = salt, ke_nonce_hex = nonce, ke_ciphertext_hex = ct,
             ke_aad_pk_sha256_hex = aad\<rparr>\<rparr>)"

lemma get_put_text_end [simp]: "get_text (put_text s) = (s, [])"
  using get_put_text[of s "[]"] by simp

lemma get_put_identity [simp]: "get_identity (put_identity i) = Some i"
  by (simp add: get_identity_def put_identity_def o_def)

definition demo_ident :: ident_ext where
  "demo_ident = \<lparr>argon2 = (\<lambda>p s. Some (take 32 (s @ p @ replicate 32 0))),
     aead_encrypt = (\<lambda>k n a m. Some (k @ m)),
     aead_decrypt = (\<lambda>k n a c. if take (length k) c = k then Some (drop (length k) c) else None),
     sha256 = take 32, public_of = map (\<lambda>b. b + 1),
     hex_encode = map (\<lambda>b. char_of (unat b)), hex_decode = (\<lambda>s. Some (map of_char s)), utf8 = (\<lambda>_. True),
     identity_to_json = put_identity, identity_of_json = get_identity, json_valid = (\<lambda>_. True),
     json_salt = (\<lambda>b. map_option (\<lambda>i. ke_salt_hex (di_envelope i)) (get_identity b)), json_has_private = (\<lambda>b. b = [2]),
     json_v1 = (\<lambda>b. Some \<lparr>v1_device_id = 5, v1_host_peer_id = 6, v1_client_peer_id = 7, v1_display_name = ''old''\<rparr>),
     json_v2 = (\<lambda>b. Some \<lparr>v1_device_id = 5, v1_host_peer_id = 6, v1_client_peer_id = 7, v1_display_name = ''old'',
       v2_private_key = replicate 32 8, v2_public_key = replicate 32 9\<rparr>)\<rparr>"

lemma demo_ident_laws: "ident_laws demo_ident"
  by (simp add: ident_laws_def demo_ident_def o_def)

definition demo_env :: ident_env where
  "demo_env = \<lparr>vars = [''HOSTNAME'' \<mapsto> ''box''], mkdir_fails = (\<lambda>_. False), open_fails = (\<lambda>_. False), chmod_fails = (\<lambda>_. False)\<rparr>"

definition demo_entropy :: "u8 \<Rightarrow> entropy" where
  "demo_entropy b = \<lparr>e_secret = replicate 32 b, e_device_id = ucast b, e_host_peer_id = 1, e_client_peer_id = 2,
     e_salt = replicate 16 b, e_nonce = replicate 12 b, e_master = replicate 32 (b + 3)\<rparr>"

lemma demo_env_ok: "no_faults demo_env" "entropy_ok (demo_entropy b)" "''/q/id.json'' \<noteq> master_key_path ''/q/id.json''"
  by (simp_all add: no_faults_def demo_env_def entropy_ok_def demo_entropy_def SECRET_KEY_LENGTH_def master_key_path_def
      path_dir_def IDENTITY_MASTER_KEY_FILENAME_def)

theorem identity_stable_witness:
  "\<exists>fs' res i. restarts demo_ident demo_env ''/q/id.json'' [(demo_entropy 4, Some ''a''), (demo_entropy 5, None)] Map.empty = (fs', res) \<and>
     last res = Ok (i, ''/q/id.json'') \<and> snd (signing_key demo_ident demo_env i (Some ''/q/id.json'') fs') = Ok (replicate 32 4)"
  using identity_stable[OF demo_ident_laws demo_env_ok(1,3), of Map.empty "demo_entropy 4" "Some ''a''" "[(demo_entropy 5, None)]"]
  by (auto simp: demo_env_ok master_ok_def content_def) (simp add: demo_entropy_def)

subsection \<open>Older files\<close>

text \<open>What an older file says of the device: the ids, the name, and the key pair to be used.\<close>

definition legacy_identity :: "ident_ext \<Rightarrow> entropy \<Rightarrow> bytes \<Rightarrow> (device_identity \<times> bytes) option" where
  "legacy_identity X e text =
     (let made = (\<lambda>v pk. \<lparr>di_schema_version = IDENTITY_SCHEMA_VERSION, di_device_id = v1_device_id v,
            di_host_peer_id = v1_host_peer_id v, di_client_peer_id = v1_client_peer_id v,
            di_display_name = v1_display_name v, di_public_key = pk, di_envelope = empty_placeholder\<rparr>)
      in if json_has_private X text
         then map_option (\<lambda>v. (made (v1_identity.truncate v) (v2_public_key v), v2_private_key v)) (json_v2 X text)
         else map_option (\<lambda>v. (made v (public_of X (e_secret e)), e_secret e)) (json_v1 X text))"

lemma migrate_legacy:
  assumes "json_valid X text" "legacy_identity X e text = Some (i, private)"
  shows "migrate_identity X env e path text fs = seal_and_store X env e path i private fs"
  using assms
  by (auto simp: migrate_identity_def legacy_identity_def identity_new_def v1_identity.defs Let_def split: if_splits)

text \<open>Files of the two older formats are migrated without changing the device: the ids and the name
  are kept, a key stored in plain text becomes the sealed key (a file without one gets a fresh key),
  the plain-text file is replaced by the sealed one, and every later start returns the same device
  with that private key.\<close>

theorem migration_keeps_device:
  assumes "ident_laws X" "no_faults env" "path \<noteq> master_key_path path" "master_ok fs path"
    "content fs path = Some text" "utf8 X text" "identity_of_json X text = None" "json_valid X text"
    "legacy_identity X e text = Some (i0, private)"
    "public_of X private = di_public_key i0" "length private = SECRET_KEY_LENGTH"
    "entropy_ok e" "\<forall>r\<in>set rs. entropy_ok (fst r)"
  shows "\<exists>fs1 i1 fs' res. load_or_create_identity X env e (Some path) name fs = (fs1, Ok (i1, path)) \<and>
    same_device i0 i1 \<and> di_display_name i1 = di_display_name i0 \<and> content fs1 path = Some (identity_to_json X i1) \<and>
    snd (signing_key X env i1 (Some path) fs1) = Ok private \<and>
    restarts X env path rs fs1 = (fs', res) \<and> list_all2 (answers_as env path i0) rs res"
proof -
  obtain f where f: "fs path = Some f" "f_bytes f = text" using content_SomeD[OF assms(5)] by blast
  have "di_schema_version i0 = IDENTITY_SCHEMA_VERSION"
    using assms(9) by (auto simp: legacy_identity_def Let_def split: if_splits)
  then obtain fs1 ke where s: "seal_and_store X env e path i0 private fs = (fs1, Ok (i0\<lparr>di_envelope := ke\<rparr>))"
    "sealed_at X env path (i0\<lparr>di_envelope := ke\<rparr>) private fs1"
    using seal_and_store_ok[OF assms(1,2,12,4,3,10,11)] by blast
  have "load_or_create_identity X env e (Some path) name fs = (fs1, Ok (i0\<lparr>di_envelope := ke\<rparr>, path))"
    using f assms(2,6,7) migrate_legacy[OF assms(8,9), of env path fs] s(1)
    by (simp add: load_or_create_identity_def Let_def no_faults_def)
  moreover have "same_device i0 (i0\<lparr>di_envelope := ke\<rparr>)" by (simp add: same_device_def)
  moreover have "\<exists>fs' res. restarts X env path rs fs1 = (fs', res) \<and> list_all2 (answers_as env path i0) rs res"
    using restarts_sealed[OF assms(1-3) s(2) \<open>same_device i0 (i0\<lparr>di_envelope := ke\<rparr>)\<close> assms(13)] by blast
  ultimately show ?thesis
    using signing_key_ok[OF assms(1,2) s(2)] s(2) by (fastforce simp: sealed_at_def)
qed

theorem migration_keeps_device_witness:
  "\<exists>fs1 i1. load_or_create_identity demo_ident demo_env (demo_entropy 4) (Some ''/q/id.json'') None
       [''/q/id.json'' \<mapsto> \<lparr>f_bytes = [2], f_mode = 420\<rparr>] = (fs1, Ok (i1, ''/q/id.json'')) \<and>
     di_device_id i1 = 5 \<and> snd (signing_key demo_ident demo_env i1 (Some ''/q/id.json'') fs1) = Ok (replicate 32 8)"
proof -
  let ?fs = "[''/q/id.json'' \<mapsto> \<lparr>f_bytes = [2], f_mode = 420\<rparr>]"
  have l: "legacy_identity demo_ident (demo_entropy 4) [2] =
      Some (\<lparr>di_schema_version = IDENTITY_SCHEMA_VERSION, di_device_id = 5, di_host_peer_id = 6, di_client_peer_id = 7,
        di_display_name = ''old'', di_public_key = replicate 32 9, di_envelope = empty_placeholder\<rparr>, replicate 32 8)"
    by (simp add: legacy_identity_def demo_ident_def v1_identity.defs)
  have "\<exists>fs1 i1 fs' res. load_or_create_identity demo_ident demo_env (demo_entropy 4) (Some ''/q/id.json'') None ?fs =
      (fs1, Ok (i1, ''/q/id.json'')) \<and>
    same_device \<lparr>di_schema_version = IDENTITY_SCHEMA_VERSION, di_device_id = 5, di_host_peer_id = 6, di_client_peer_id = 7,
        di_display_name = ''old'', di_public_key = replicate 32 9, di_envelope = empty_placeholder\<rparr> i1 \<and>
    di_display_name i1 = ''old'' \<and> content fs1 ''/q/id.json'' = Some (identity_to_json demo_ident i1) \<and>
    snd (signing_key demo_ident demo_env i1 (Some ''/q/id.json'') fs1) = Ok (replicate 32 8) \<and>
    restarts demo_ident demo_env ''/q/id.json'' [] fs1 = (fs', res) \<and> list_all2 (answers_as demo_env ''/q/id.json'' undefined) [] res"
    using migration_keeps_device[OF demo_ident_laws demo_env_ok(1,3) _ _ _ _ _ l, of ?fs "[]" None] demo_env_ok(2)
    by (simp add: master_ok_def content_def master_key_path_def path_dir_def IDENTITY_MASTER_KEY_FILENAME_def
        demo_ident_def get_identity_def SECRET_KEY_LENGTH_def)
  then show ?thesis by (auto simp: same_device_def)
qed

subsection \<open>Failures\<close>

lemma pick_kek_content:
  "q \<noteq> master_key_path path \<Longrightarrow> content (fst (pick_kek_and_salt_for_first_run X env e path fs)) q = content fs q"
  using fun_cong[OF load_master_content[of env "master_key_path path" fs], of q]
  by (auto simp: pick_kek_and_salt_for_first_run_def ensure_master_key_def bind_st_def split: option.split prod.splits sum.splits if_splits)

lemma chmod_err: "chmod_600 env p fs = (fs', Err e) \<Longrightarrow> e = ChmodFailed"
  by (auto simp: chmod_600_def split: option.splits if_splits)

lemma tighten_err: "tighten_files env p fs = (fs', Err e) \<Longrightarrow> e = ChmodFailed"
  using chmod_err[of env p fs] by (auto simp: tighten_files_def bind_st_def split: prod.splits sum.splits if_splits)

lemma bind_st_Err:
  "bind_st r f = (s', Err e) \<longleftrightarrow> r = (s', Err e) \<or> (\<exists>s x. r = (s, Ok x) \<and> f s x = (s', Err e))"
  by (auto simp: bind_st_def split: prod.splits sum.splits)

lemma write_identity_err: "write_identity_with_mode X env p i fs = (fs', Err e) \<Longrightarrow> fs' = fs"
  by (auto simp: write_identity_with_mode_def split: if_splits)

lemma seal_and_store_err:
  assumes "seal_and_store X env e path i private fs = (fs', Err err)" "err \<noteq> ChmodFailed" "q \<noteq> master_key_path path"
  shows "content fs' q = content fs q"
  using assms(1,2) pick_kek_content[OF assms(3), of X env e fs]
  by (auto simp: seal_and_store_def bind_st_Err dest!: write_identity_err tighten_err)

lemma migrate_err:
  assumes "migrate_identity X env e path text fs = (fs', Err err)" "err \<noteq> ChmodFailed" "q \<noteq> master_key_path path"
  shows "content fs' q = content fs q"
  using assms seal_and_store_err[OF _ assms(2,3)]
  by (auto simp: migrate_identity_def split: if_splits option.splits prod.splits)

lemma rename_err:
  assumes "rename_identity X env nonce path i private name fs = (fs', Err err)"
  shows "content fs' = content fs"
  using assms derive_kek_content[of X env "Some path" fs]
  by (auto simp: rename_identity_def bind_st_Err split: option.splits if_splits dest!: write_identity_err)

lemma load_identity_err:
  assumes "load_identity X env e path i name fs = (fs', Err err)" "err \<noteq> ChmodFailed"
  shows "content fs' = content fs"
  using assms unlock_content[of X env i "Some path" fs]
  by (auto simp: load_identity_def bind_st_Err split: if_splits dest!: rename_err tighten_err)


text \<open>An identity sealed under one master key, started with another.\<close>

definition demo_locked :: files where
  "demo_locked = [''/q/id.json'' \<mapsto> \<lparr>f_bytes = put_identity \<lparr>di_schema_version = 3, di_device_id = 5, di_host_peer_id = 6,
     di_client_peer_id = 7, di_display_name = ''a'', di_public_key = [1],
     di_envelope = \<lparr>ke_tag = AT_REST_AEAD_TAG, ke_salt_hex = [], ke_nonce_hex = replicate 12 CHR ''n'',
       ke_ciphertext_hex = ''short'', ke_aad_pk_sha256_hex = []\<rparr>\<rparr>, f_mode = 384\<rparr>,
   ''/q/identity.key'' \<mapsto> \<lparr>f_bytes = replicate 32 1, f_mode = 384\<rparr>]"

lemma demo_locked_refused:
  "load_or_create_identity demo_ident demo_env (demo_entropy 4) (Some ''/q/id.json'') (Some ''a'') demo_locked =
     (demo_locked, Err DecryptFailed)"
  by (simp add: load_or_create_identity_def demo_locked_def demo_env_def demo_ident_def load_identity_def
      IDENTITY_SCHEMA_VERSION_def unlock_identity_def derive_kek_def env_passphrase_def IDENTITY_PASSPHRASE_ENV_def
      master_key_path_def path_dir_def IDENTITY_MASTER_KEY_FILENAME_def load_master_key_def chmod_600_def MODE_600_def
      decrypt_envelope_def Let_def SECRET_KEY_LENGTH_def) (simp add: numeral_eq_Suc)


text \<open>Deriving the recovery seed renames the device: the function loads the identity without a
  name, so the stored name is replaced by the host name of the machine and the file is rewritten,
  although the caller only asked for key bytes (which it does get).\<close>

theorem seed_renames_device:
  assumes "ident_laws X" "no_faults env" "path \<noteq> master_key_path path" "sealed_at X env path i private fs" "entropy_ok e"
  shows "\<exists>fs' i'. host_seed_for_recovery X env e path fs = (fs', Ok private) \<and>
    sealed_at X env path i' private fs' \<and> same_device i i' \<and> di_display_name i' = default_device_name env"
proof -
  obtain fs1 i' where l: "load_or_create_identity X env e (Some path) None fs = (fs1, Ok (i', path))"
    "sealed_at X env path i' private fs1" "same_device i i'" "di_display_name i' = chosen_name env None"
    using load_sealed[OF assms(1,2,4,5,3), of None] by blast
  obtain kek where k: "kek_of X env path i' fs1 = Some kek" "decrypt_envelope X kek (di_envelope i') (di_public_key i') = Ok private"
      "content fs1 path = Some (identity_to_json X i')"
    using l(2) by (auto simp: sealed_at_def)
  obtain fs2 where d: "derive_kek X env (Some path) fs1 = (fs2, Ok kek)" "content fs2 = content fs1"
    using derive_kek_ok[OF assms(1,2) k(3,1)] by blast
  have "sealed_at X env path i' private fs2" using l(2) sealed_at_cong[OF d(2)] by simp
  with l d k show ?thesis by (auto simp: host_seed_for_recovery_def chosen_name_def)
qed

theorem seed_renames_device_witness:
  "\<exists>fs i fs' i'. load_or_create_identity demo_ident demo_env (demo_entropy 4) (Some ''/q/id.json'') (Some ''Ann'') Map.empty =
       (fs, Ok (i, ''/q/id.json'')) \<and> di_display_name i = ''Ann'' \<and>
     host_seed_for_recovery demo_ident demo_env (demo_entropy 5) ''/q/id.json'' fs = (fs', Ok (replicate 32 4)) \<and>
     sealed_at demo_ident demo_env ''/q/id.json'' i' (replicate 32 4) fs' \<and> di_display_name i' = ''box''"
proof -
  let ?i = "fst (identity_new demo_ident (demo_entropy 4) ''Ann'')" and ?s = "replicate 32 4 :: bytes"
  have e: "e_secret (demo_entropy 4) = ?s" by (simp add: demo_entropy_def)
  obtain fs ke where s: "seal_and_store demo_ident demo_env (demo_entropy 4) ''/q/id.json'' ?i ?s Map.empty = (fs, Ok (?i\<lparr>di_envelope := ke\<rparr>))"
    "sealed_at demo_ident demo_env ''/q/id.json'' (?i\<lparr>di_envelope := ke\<rparr>) ?s fs"
    using seal_and_store_ok[OF demo_ident_laws demo_env_ok(1,2) _ demo_env_ok(3), of Map.empty ?s ?i 4]
    by (auto simp: master_ok_def content_def identity_new_def e SECRET_KEY_LENGTH_def)
  have "load_or_create_identity demo_ident demo_env (demo_entropy 4) (Some ''/q/id.json'') (Some ''Ann'') Map.empty =
      (fs, Ok (?i\<lparr>di_envelope := ke\<rparr>, ''/q/id.json''))"
    using s(1) by (simp add: load_or_create_identity_def identity_new_def e demo_env_def)
  moreover have "default_device_name demo_env = ''box''" by (simp add: default_device_name_def demo_env_def)
  ultimately show ?thesis
    using seed_renames_device[OF demo_ident_laws demo_env_ok(1,3) s(2) demo_env_ok(2), of 5]
    by (fastforce simp: identity_new_def)
qed

end
