(* ===== verification/Daemon_State.thy ===== *)
theory Daemon_State
  imports Sync_Core "HOL-Library.Char_ord" "HOL-Library.List_Lexorder"
begin

text \<open>
  The daemon's persistent store (\<open>qubox-daemon/src/state.rs\<close>): fifteen tables of an embedded
  database, each an ordered map from keys to records. A table is the list of its rows in key order,
  which is the order the database iterates in. A write transaction is one update of the record of
  tables. Rows hold the records themselves: the bincode encoding around them, and errors of the
  database file, are left out. Ids, the clock and the file system are arguments.
\<close>

subsection \<open>Ordered tables\<close>

type_synonym ('k, 'v) tbl = "('k \<times> 'v) list"

definition tbl_put :: "'k::linorder \<Rightarrow> 'v \<Rightarrow> ('k, 'v) tbl \<Rightarrow> ('k, 'v) tbl" where
  "tbl_put k v t = takeWhile (\<lambda>r. fst r < k) t @ (k, v) # dropWhile (\<lambda>r. fst r \<le> k) t"

definition tbl_del :: "'k \<Rightarrow> ('k, 'v) tbl \<Rightarrow> ('k, 'v) tbl" where
  "tbl_del k t = filter (\<lambda>r. fst r \<noteq> k) t"

definition tbl_ok :: "('k::linorder, 'v) tbl \<Rightarrow> bool" where
  "tbl_ok t \<longleftrightarrow> sorted_wrt (<) (map fst t)"

definition enforce_cap :: "nat \<Rightarrow> ('k, 'v) tbl \<Rightarrow> ('k, 'v) tbl" where
  "enforce_cap cap t = (if length t \<le> cap then t else drop (length t - cap) t)"

subsection \<open>Records\<close>

record pairing_row =
  pr_peer_id :: string
  pr_public_key :: bytes
  pr_paired_at :: u64
  pr_label :: "string option"

record host_state_row =
  hs_last_seen :: u64
  hs_current_session_id :: "string option"
  hs_config_hash :: string
  hs_last_child_pid :: "u32 option"

record client_state_row =
  cl_last_seen :: u64
  cl_current_session_id :: "string option"
  cl_last_child_pid :: "u32 option"

record update_record =
  ur_applied_at :: u64
  ur_binary_path :: string
  ur_prev_version :: "string option"

record session_record =
  se_started_at :: u64
  se_ended_at :: u64
  se_host_id :: string
  se_client_id :: string
  se_bytes_sent :: u64
  se_bytes_received :: u64

record sync_conflict =
  sc_conflict_id :: string
  sc_file_id :: string
  sc_local_path :: string
  sc_remote_path :: string
  sc_peer_id :: string
  sc_local_clock :: vector_clock
  sc_remote_clock :: vector_clock
  sc_created_at :: u64

record state_db =
  t_meta :: "(string, bytes) tbl"
  t_pairings :: "(string, pairing_row) tbl"
  t_host_state :: "(string, host_state_row) tbl"
  t_client_state :: "(string, client_state_row) tbl"
  t_settings :: "(string, string) tbl"
  t_tuf_root :: "(string, bytes) tbl"
  t_tuf_targets :: "(string, bytes) tbl"
  t_tuf_snapshot :: "(string, bytes) tbl"
  t_tuf_timestamp :: "(string, bytes) tbl"
  t_update_history :: "(u64, update_record) tbl"
  t_session_history :: "(u64, session_record) tbl"
  t_sync_rules :: "(string, sync_rule) tbl"
  t_tracked_files :: "(string, tracked_file) tbl"
  t_sync_outbox :: "(string, outbox_job) tbl"
  t_sync_conflicts :: "(string, sync_conflict) tbl"

definition SCHEMA_VERSION_KEY :: string where "SCHEMA_VERSION_KEY = ''schema_version''"
definition LATEST_KEY :: string where "LATEST_KEY = ''latest''"
definition SCHEMA_VERSION :: u32 where "SCHEMA_VERSION = 2"
definition SYNC_GLOBAL_IGNORES_KEY :: string where "SYNC_GLOBAL_IGNORES_KEY = ''sync_global_ignores''"
definition MAX_SESSION_RECORDS :: nat where "MAX_SESSION_RECORDS = 1000"
definition MAX_UPDATE_RECORDS :: nat where "MAX_UPDATE_RECORDS = 100"

definition empty_db :: state_db where
  "empty_db = \<lparr>t_meta = [], t_pairings = [], t_host_state = [], t_client_state = [], t_settings = [], t_tuf_root = [],
     t_tuf_targets = [], t_tuf_snapshot = [], t_tuf_timestamp = [], t_update_history = [], t_session_history = [],
     t_sync_rules = [], t_tracked_files = [], t_sync_outbox = [], t_sync_conflicts = []\<rparr>"

subsection \<open>Opening, pairings, settings, host and client state\<close>

definition set_meta :: "string \<Rightarrow> bytes \<Rightarrow> state_db \<Rightarrow> state_db" where
  "set_meta k v db = db\<lparr>t_meta := tbl_put k v (t_meta db)\<rparr>"

definition get_meta :: "state_db \<Rightarrow> string \<Rightarrow> bytes option" where
  "get_meta db k = map_of (t_meta db) k"

text \<open>\<open>open\<close> on the tables found in the file (all empty for a new one).\<close>

definition open_db :: "state_db \<Rightarrow> state_db" where
  "open_db db =
     (let current = (case get_meta db SCHEMA_VERSION_KEY of
            Some v \<Rightarrow> if length v = 4 then from_le_bytes v else 0 | None \<Rightarrow> 0)
      in if current < SCHEMA_VERSION then set_meta SCHEMA_VERSION_KEY (to_le_bytes 4 SCHEMA_VERSION) db else db)"

definition put_pairing :: "pairing_row \<Rightarrow> state_db \<Rightarrow> state_db" where
  "put_pairing p db = db\<lparr>t_pairings := tbl_put (pr_peer_id p) p (t_pairings db)\<rparr>"

definition get_pairing :: "state_db \<Rightarrow> string \<Rightarrow> pairing_row option" where
  "get_pairing db k = map_of (t_pairings db) k"

definition list_pairings :: "state_db \<Rightarrow> pairing_row list" where
  "list_pairings db = map snd (t_pairings db)"

definition delete_pairing :: "string \<Rightarrow> state_db \<Rightarrow> state_db" where
  "delete_pairing k db = db\<lparr>t_pairings := tbl_del k (t_pairings db)\<rparr>"

definition get_setting :: "state_db \<Rightarrow> string \<Rightarrow> string option" where
  "get_setting db k = map_of (t_settings db) k"

definition set_setting :: "string \<Rightarrow> string \<Rightarrow> state_db \<Rightarrow> state_db" where
  "set_setting k v db = db\<lparr>t_settings := tbl_put k v (t_settings db)\<rparr>"

definition complete_onboarding :: "string \<Rightarrow> string \<Rightarrow> bool \<Rightarrow> string option \<Rightarrow> state_db \<Rightarrow> state_db" where
  "complete_onboarding dev_name server cloud_mode accounts_url db =
     (let t = tbl_put ''cloud_mode'' (if cloud_mode then ''1'' else ''0'')
               (tbl_put ''signaling_server'' server (tbl_put ''device_name'' dev_name (t_settings db)));
          t' = (case accounts_url of
                  Some url \<Rightarrow> if url \<noteq> [] then tbl_put ''accounts_url'' url t else tbl_del ''accounts_url'' t
                | None \<Rightarrow> tbl_del ''accounts_url'' t)
      in db\<lparr>t_settings := tbl_put ''onboarding_complete'' ''1'' t'\<rparr>)"

definition list_settings :: "state_db \<Rightarrow> (string \<times> string) list" where
  "list_settings db = t_settings db"

definition get_host_state :: "state_db \<Rightarrow> string \<Rightarrow> host_state_row option" where
  "get_host_state db k = map_of (t_host_state db) k"

definition put_host_state :: "string \<Rightarrow> host_state_row \<Rightarrow> state_db \<Rightarrow> state_db" where
  "put_host_state k v db = db\<lparr>t_host_state := tbl_put k v (t_host_state db)\<rparr>"

definition get_client_state :: "state_db \<Rightarrow> string \<Rightarrow> client_state_row option" where
  "get_client_state db k = map_of (t_client_state db) k"

definition put_client_state :: "string \<Rightarrow> client_state_row \<Rightarrow> state_db \<Rightarrow> state_db" where
  "put_client_state k v db = db\<lparr>t_client_state := tbl_put k v (t_client_state db)\<rparr>"

subsection \<open>Update metadata and histories\<close>

definition put_tuf_root :: "bytes \<Rightarrow> state_db \<Rightarrow> state_db" where
  "put_tuf_root b db = db\<lparr>t_tuf_root := tbl_put LATEST_KEY b (t_tuf_root db)\<rparr>"
definition get_tuf_root :: "state_db \<Rightarrow> bytes option" where
  "get_tuf_root db = map_of (t_tuf_root db) LATEST_KEY"
definition put_tuf_targets :: "bytes \<Rightarrow> state_db \<Rightarrow> state_db" where
  "put_tuf_targets b db = db\<lparr>t_tuf_targets := tbl_put LATEST_KEY b (t_tuf_targets db)\<rparr>"
definition get_tuf_targets :: "state_db \<Rightarrow> bytes option" where
  "get_tuf_targets db = map_of (t_tuf_targets db) LATEST_KEY"
definition put_tuf_snapshot :: "bytes \<Rightarrow> state_db \<Rightarrow> state_db" where
  "put_tuf_snapshot b db = db\<lparr>t_tuf_snapshot := tbl_put LATEST_KEY b (t_tuf_snapshot db)\<rparr>"
definition get_tuf_snapshot :: "state_db \<Rightarrow> bytes option" where
  "get_tuf_snapshot db = map_of (t_tuf_snapshot db) LATEST_KEY"
definition put_tuf_timestamp :: "bytes \<Rightarrow> state_db \<Rightarrow> state_db" where
  "put_tuf_timestamp b db = db\<lparr>t_tuf_timestamp := tbl_put LATEST_KEY b (t_tuf_timestamp db)\<rparr>"
definition get_tuf_timestamp :: "state_db \<Rightarrow> bytes option" where
  "get_tuf_timestamp db = map_of (t_tuf_timestamp db) LATEST_KEY"

definition record_update :: "update_record \<Rightarrow> state_db \<Rightarrow> state_db" where
  "record_update r db =
     db\<lparr>t_update_history := enforce_cap MAX_UPDATE_RECORDS (tbl_put (ur_applied_at r) r (t_update_history db))\<rparr>"

definition list_updates :: "state_db \<Rightarrow> update_record list" where
  "list_updates db = map snd (t_update_history db)"

definition record_session :: "session_record \<Rightarrow> state_db \<Rightarrow> state_db" where
  "record_session r db =
     db\<lparr>t_session_history := enforce_cap MAX_SESSION_RECORDS (tbl_put (se_ended_at r) r (t_session_history db))\<rparr>"

definition list_sessions :: "state_db \<Rightarrow> session_record list" where
  "list_sessions db = map snd (t_session_history db)"

subsection \<open>File synchronisation\<close>

definition put_sync_rule :: "sync_rule \<Rightarrow> state_db \<Rightarrow> state_db" where
  "put_sync_rule r db = db\<lparr>t_sync_rules := tbl_put (sr_rule_id r) r (t_sync_rules db)\<rparr>"
definition get_sync_rule :: "state_db \<Rightarrow> string \<Rightarrow> sync_rule option" where
  "get_sync_rule db k = map_of (t_sync_rules db) k"
definition list_sync_rules :: "state_db \<Rightarrow> sync_rule list" where
  "list_sync_rules db = map snd (t_sync_rules db)"
definition delete_sync_rule :: "string \<Rightarrow> state_db \<Rightarrow> state_db" where
  "delete_sync_rule k db = db\<lparr>t_sync_rules := tbl_del k (t_sync_rules db)\<rparr>"

definition set_sync_rule_enabled :: "string \<Rightarrow> bool \<Rightarrow> state_db \<Rightarrow> state_db \<times> bool" where
  "set_sync_rule_enabled k enabled db =
     (case get_sync_rule db k of
        None \<Rightarrow> (db, False)
      | Some rule \<Rightarrow> (put_sync_rule (rule\<lparr>sr_enabled := enabled\<rparr>) db, True))"

definition put_tracked_file :: "tracked_file \<Rightarrow> state_db \<Rightarrow> state_db" where
  "put_tracked_file f db = db\<lparr>t_tracked_files := tbl_put (tf_file_id f) f (t_tracked_files db)\<rparr>"
definition get_tracked_file :: "state_db \<Rightarrow> string \<Rightarrow> tracked_file option" where
  "get_tracked_file db k = map_of (t_tracked_files db) k"
definition list_tracked_files :: "state_db \<Rightarrow> tracked_file list" where
  "list_tracked_files db = map snd (t_tracked_files db)"

definition put_outbox_job :: "outbox_job \<Rightarrow> state_db \<Rightarrow> state_db" where
  "put_outbox_job j db = db\<lparr>t_sync_outbox := tbl_put (ob_job_id j) j (t_sync_outbox db)\<rparr>"
definition get_outbox_job :: "state_db \<Rightarrow> string \<Rightarrow> outbox_job option" where
  "get_outbox_job db k = map_of (t_sync_outbox db) k"
definition list_outbox_jobs :: "state_db \<Rightarrow> outbox_job list" where
  "list_outbox_jobs db = map snd (t_sync_outbox db)"
definition list_pending_outbox :: "state_db \<Rightarrow> outbox_job list" where
  "list_pending_outbox db = filter (\<lambda>j. ob_status j \<in> {Queued, OutboxFailed}) (list_outbox_jobs db)"
definition delete_outbox_job :: "string \<Rightarrow> state_db \<Rightarrow> state_db" where
  "delete_outbox_job k db = db\<lparr>t_sync_outbox := tbl_del k (t_sync_outbox db)\<rparr>"

definition retry_outbox_job :: "string \<Rightarrow> state_db \<Rightarrow> state_db \<times> outbox_job option" where
  "retry_outbox_job k db =
     (case get_outbox_job db k of
        None \<Rightarrow> (db, None)
      | Some job \<Rightarrow>
          let job' = job\<lparr>ob_status := Queued, ob_retry_count := saturating_add (ob_retry_count job) 1, ob_last_error := None\<rparr>
          in (put_outbox_job job' db, Some job'))"

definition put_sync_conflict :: "sync_conflict \<Rightarrow> state_db \<Rightarrow> state_db" where
  "put_sync_conflict c db = db\<lparr>t_sync_conflicts := tbl_put (sc_conflict_id c) c (t_sync_conflicts db)\<rparr>"
definition list_sync_conflicts :: "state_db \<Rightarrow> sync_conflict list" where
  "list_sync_conflicts db = map snd (t_sync_conflicts db)"
definition delete_sync_conflict :: "string \<Rightarrow> state_db \<Rightarrow> state_db" where
  "delete_sync_conflict k db = db\<lparr>t_sync_conflicts := tbl_del k (t_sync_conflicts db)\<rparr>"

text \<open>The file operations of a resolution; their errors are ignored by the code.\<close>

type_synonym disk = "string \<rightharpoonup> bytes"

definition resolve_files :: "(string \<Rightarrow> bool) \<Rightarrow> sync_conflict \<Rightarrow> conflict_resolution \<Rightarrow> disk \<Rightarrow> disk" where
  "resolve_files io_fails c resolution fs =
     (if io_fails (sc_remote_path c) then fs
      else case resolution of
        KeepLocal \<Rightarrow> fs(sc_remote_path c := None)
      | KeepRemote \<Rightarrow> (case fs (sc_remote_path c) of
                        None \<Rightarrow> fs
                      | Some b \<Rightarrow> (fs(sc_remote_path c := None))(sc_local_path c \<mapsto> b))
      | KeepBoth \<Rightarrow> fs)"

definition resolve_sync_conflict ::
    "(string \<Rightarrow> bool) \<Rightarrow> string \<Rightarrow> conflict_resolution \<Rightarrow> disk \<times> state_db \<Rightarrow> (disk \<times> state_db) \<times> sync_conflict option" where
  "resolve_sync_conflict io_fails k resolution = (\<lambda>(fs, db).
     case find (\<lambda>c. sc_conflict_id c = k) (list_sync_conflicts db) of
       None \<Rightarrow> ((fs, db), None)
     | Some c \<Rightarrow>
         let db' = (case get_tracked_file db (sc_file_id c) of
               None \<Rightarrow> db
             | Some tf \<Rightarrow> put_tracked_file (tf\<lparr>tf_sync_state := SyncPending\<rparr>) db)
         in ((resolve_files io_fails c resolution fs, delete_sync_conflict k db'), Some c))"

subsection \<open>Ignore patterns and manual pushes\<close>

text \<open>The JSON form of a list of patterns.\<close>

record globs_json =
  globs_to_json :: "string list \<Rightarrow> string"
  globs_of_json :: "string \<Rightarrow> string list option"

definition set_global_ignores :: "globs_json \<Rightarrow> string list \<Rightarrow> state_db \<Rightarrow> state_db" where
  "set_global_ignores G globs db = set_setting SYNC_GLOBAL_IGNORES_KEY (globs_to_json G globs) db"

definition get_global_ignores :: "globs_json \<Rightarrow> state_db \<Rightarrow> state_db \<times> string list" where
  "get_global_ignores G db =
     (case get_setting db SYNC_GLOBAL_IGNORES_KEY of
        Some raw \<Rightarrow> (db, case globs_of_json G raw of Some v \<Rightarrow> v | None \<Rightarrow> default_ignore_globs)
      | None \<Rightarrow> (set_global_ignores G default_ignore_globs db, default_ignore_globs))"

definition add_global_ignore :: "globs_json \<Rightarrow> string \<Rightarrow> state_db \<Rightarrow> state_db \<times> string list" where
  "add_global_ignore G pattern db =
     (case get_global_ignores G db of (db, globs) \<Rightarrow>
        if pattern \<in> set globs then (db, globs)
        else (set_global_ignores G (globs @ [pattern]) db, globs @ [pattern]))"

definition remove_global_ignore :: "globs_json \<Rightarrow> string \<Rightarrow> state_db \<Rightarrow> state_db \<times> string list" where
  "remove_global_ignore G pattern db =
     (case get_global_ignores G db of (db, globs) \<Rightarrow>
        let globs' = filter (\<lambda>g. g \<noteq> pattern) globs in (set_global_ignores G globs' db, globs'))"

definition apply_ignore_preset :: "globs_json \<Rightarrow> string \<Rightarrow> state_db \<Rightarrow> state_db \<times> string list option" where
  "apply_ignore_preset G name db =
     (case ignore_preset name of
        None \<Rightarrow> (db, None)
      | Some preset \<Rightarrow>
         (case get_global_ignores G db of (db, globs) \<Rightarrow>
            let merged = merge_ignore_globs globs preset in (set_global_ignores G merged db, Some merged)))"

definition effective_ignores_for_rule :: "globs_json \<Rightarrow> sync_rule \<Rightarrow> state_db \<Rightarrow> state_db \<times> string list" where
  "effective_ignores_for_rule G rule db =
     (case get_global_ignores G db of (db, globs) \<Rightarrow> (db, merge_ignore_globs globs (sr_ignore_globs rule)))"

text \<open>\<open>hash\<close> is \<open>content_hash_file\<close>: the digest and size of a readable file.\<close>

definition enqueue_manual_push ::
    "(string \<Rightarrow> (string \<times> u64) option) \<Rightarrow> string \<Rightarrow> string \<Rightarrow> u64 \<Rightarrow> string \<Rightarrow> string \<Rightarrow> string \<Rightarrow> state_db \<Rightarrow>
     state_db \<times> outbox_job option" where
  "enqueue_manual_push hash file_id job_id now local_path target_peer node_id db =
     (case hash local_path of
        None \<Rightarrow> (db, None)
      | Some (h, sz) \<Rightarrow>
          let tracked = \<lparr>tf_file_id = file_id, tf_local_path = local_path, tf_vector_clock = clock_bump [] node_id,
                tf_content_hash = h, tf_size_bytes = sz, tf_sync_state = SyncPending, tf_rule_id = None, tf_updated_at = now\<rparr>;
              job = \<lparr>ob_job_id = job_id, ob_file_id = file_id, ob_target_peer = target_peer, ob_status = Queued,
                ob_retry_count = 0, ob_queued_at = now, ob_last_error = None\<rparr>
          in (put_outbox_job job (put_tracked_file tracked db), Some job))"

subsection \<open>The contract of a table\<close>

text \<open>What the operations above rely on of the database: reading after a write and after a removal,
  and iteration in key order.\<close>

locale ordered_store =
  fixes put :: "'k::linorder \<Rightarrow> 'v \<Rightarrow> 't \<Rightarrow> 't"
    and get :: "'t \<Rightarrow> 'k \<Rightarrow> 'v option"
    and del :: "'k \<Rightarrow> 't \<Rightarrow> 't"
    and rows :: "'t \<Rightarrow> ('k \<times> 'v) list"
    and ok :: "'t \<Rightarrow> bool"
  assumes get_put: "ok t \<Longrightarrow> get (put k v t) = (get t)(k \<mapsto> v)"
    and get_del: "ok t \<Longrightarrow> get (del k t) = (get t)(k := None)"
    and ok_put: "ok t \<Longrightarrow> ok (put k v t)"
    and ok_del: "ok t \<Longrightarrow> ok (del k t)"
    and rows_get: "ok t \<Longrightarrow> (k, v) \<in> set (rows t) \<longleftrightarrow> get t k = Some v"
    and rows_sorted: "ok t \<Longrightarrow> sorted_wrt (<) (map fst (rows t))"
begin

lemma rows_put: "ok t \<Longrightarrow> set (rows (put k v t)) = insert (k, v) {r \<in> set (rows t). fst r \<noteq> k}"
  by (auto simp: rows_get ok_put get_put split: if_splits)

lemma rows_del: "ok t \<Longrightarrow> set (rows (del k t)) = {r \<in> set (rows t). fst r \<noteq> k}"
  by (auto simp: rows_get ok_del get_del split: if_splits)

lemma rows_by_key: "ok t \<Longrightarrow> rows t = map (\<lambda>k. (k, the (get t k))) (map fst (rows t))"
proof -
  assume "ok t"
  then have "\<forall>r\<in>set (rows t). (fst r, the (get t (fst r))) = r" using rows_get by auto
  then show ?thesis by (simp add: map_idI)
qed

lemma rows_unique: "ok t \<Longrightarrow> ok t' \<Longrightarrow> get t = get t' \<Longrightarrow> rows t = rows t'"
proof -
  assume ok: "ok t" "ok t'" and eq: "get t = get t'"
  have "set (rows t) = set (rows t')" using rows_get[OF ok(1)] rows_get[OF ok(2)] eq by auto
  then have "map fst (rows t) = map fst (rows t')"
    using rows_sorted ok by (intro strict_sorted_equal) auto
  then show ?thesis using rows_by_key[OF ok(1)] rows_by_key[OF ok(2)] eq by simp
qed

lemma put_put_same: "ok t \<Longrightarrow> rows (put k v' (put k v t)) = rows (put k v' t)"
  by (rule rows_unique) (simp_all add: ok_put get_put)

lemma del_put_same: "ok t \<Longrightarrow> get t k = None \<Longrightarrow> rows (del k (put k v t)) = rows t"
  by (rule rows_unique) (auto simp: ok_put ok_del get_put get_del)

end

lemma tbl_put_fst: "set (tbl_put k v t) \<subseteq> insert (k, v) (set t)"
  by (auto simp: tbl_put_def dest: set_takeWhileD set_dropWhileD)

lemma tbl_ok_simps [simp]: "tbl_ok []" "tbl_ok (r # t) \<longleftrightarrow> (\<forall>r'\<in>set t. fst r < fst r') \<and> tbl_ok t"
  by (auto simp: tbl_ok_def)

lemma tbl_put_Cons:
  "tbl_put k v [] = [(k, v)]"
  "tbl_put k v (r # t) = (if fst r < k then r # tbl_put k v t else if fst r = k then (k, v) # dropWhile (\<lambda>r. fst r \<le> k) t
     else (k, v) # r # t)"
  by (auto simp: tbl_put_def)

lemma dropWhile_greater: "\<forall>r\<in>set t. (k::'k::linorder) < fst r \<Longrightarrow> dropWhile (\<lambda>r. fst r \<le> k) t = t"
  by (cases t) auto

lemma tbl_put_ok: "tbl_ok t \<Longrightarrow> tbl_ok (tbl_put k v t)"
proof (induction t)
  case (Cons r t)
  have "set (tbl_put k v t) \<subseteq> insert (k, v) (set t)" by (rule tbl_put_fst)
  with Cons show ?case
    by (auto simp: tbl_put_Cons dropWhile_greater not_less_iff_gr_or_eq) force+
qed (simp add: tbl_put_Cons)

lemma tbl_get_put: "tbl_ok t \<Longrightarrow> map_of (tbl_put k v t) = (map_of t)(k \<mapsto> v)"
  by (induction t) (auto simp: tbl_put_Cons dropWhile_greater fun_eq_iff)

lemma tbl_distinct: "tbl_ok t \<Longrightarrow> distinct (map fst t)"
  by (induction t) auto

interpretation tbl: ordered_store tbl_put map_of tbl_del "\<lambda>t. t" tbl_ok
proof unfold_locales
  fix t :: "('k::linorder, 'v) tbl" and k v
  show "map_of (tbl_del k t) = (map_of t)(k := None)"
    by (induction t) (auto simp: tbl_del_def fun_eq_iff)
  show "tbl_ok t \<Longrightarrow> tbl_ok (tbl_del k t)"
    by (induction t) (auto simp: tbl_del_def)
  show "((k, v) \<in> set t) = (map_of t k = Some v)" if "tbl_ok t"
    using map_of_eq_Some_iff[OF tbl_distinct[OF that], of k v] by simp
  show "sorted_wrt (<) (map fst t)" if "tbl_ok t" using that by (simp add: tbl_ok_def)
qed (simp_all add: tbl_get_put tbl_put_ok)

subsection \<open>Histories\<close>

lemma tbl_append_ok:
  "tbl_ok (a @ b) \<longleftrightarrow> tbl_ok a \<and> tbl_ok b \<and> (\<forall>x\<in>set a. \<forall>y\<in>set b. fst x < fst y)"
  by (auto simp: tbl_ok_def sorted_wrt_append)

lemma tbl_put_right: "\<forall>r\<in>set a. fst r < k \<Longrightarrow> tbl_put k v (a @ b) = a @ tbl_put k v b"
  by (induction a) (auto simp: tbl_put_Cons)

lemma tbl_put_left:
  assumes "b \<noteq> []" "k < fst (hd b)" shows "tbl_put k v (a @ b) = tbl_put k v a @ b"
  using assms by (induction a) (auto simp: tbl_put_Cons neq_Nil_conv dropWhile_append)

lemma length_tbl_put: "tbl_ok t \<Longrightarrow> length t \<le> length (tbl_put k v t)"
  by (induction t) (auto simp: tbl_put_Cons dropWhile_greater)

lemma enforce_cap_append: "cap \<le> length b \<Longrightarrow> enforce_cap cap (a @ b) = enforce_cap cap b"
  by (auto simp: enforce_cap_def)

lemma enforce_cap_ok: "tbl_ok t \<Longrightarrow> tbl_ok (enforce_cap cap t)"
  by (auto simp: enforce_cap_def tbl_ok_def drop_map[symmetric] sorted_wrt_drop)

lemma length_enforce_cap: "length (enforce_cap cap t) = min cap (length t)"
  by (simp add: enforce_cap_def)

lemma enforce_cap_split:
  assumes "cap < length t"
  shows "t = take (length t - cap) t @ enforce_cap cap t"
  using assms by (simp add: enforce_cap_def)

text \<open>Capping before or after further insertions makes no difference.\<close>

lemma enforce_cap_put:
  assumes "tbl_ok t" "0 < cap"
  shows "enforce_cap cap (tbl_put k v (enforce_cap cap t)) = enforce_cap cap (tbl_put k v t)"
proof (cases "length t \<le> cap")
  case True
  then show ?thesis by (simp add: enforce_cap_def)
next
  case False
  define a where "a = take (length t - cap) t"
  define b where "b = enforce_cap cap t"
  have t: "t = a @ b" using enforce_cap_split[of cap t] False by (simp add: a_def b_def)
  have b: "length b = cap" "b \<noteq> []" using False assms(2) length_enforce_cap[of cap t] by (auto simp: b_def)
  have ok: "tbl_ok a" "tbl_ok b" "\<forall>x\<in>set a. \<forall>y\<in>set b. fst x < fst y" using assms(1) t tbl_append_ok by auto
  show ?thesis
  proof (cases "k < fst (hd b)")
    case True
    then have "tbl_put k v t = tbl_put k v a @ b" using tbl_put_left[OF b(2), of k v a] t by metis
    moreover have "tbl_put k v b = [(k, v)] @ b" using True b(2) by (cases b) (auto simp: tbl_put_Cons)
    ultimately show ?thesis
      unfolding b_def[symmetric] using enforce_cap_append[of cap b "[(k, v)]"] enforce_cap_append[of cap b "tbl_put k v a"] b(1)
      by simp
  next
    case False
    then have "\<forall>r\<in>set a. fst r < k" using ok(3) hd_in_set[OF b(2)] False by (meson less_le_trans not_less)
    then have "tbl_put k v t = a @ tbl_put k v b" using t tbl_put_right[of a k v b] by metis
    then show ?thesis
      unfolding b_def[symmetric] using enforce_cap_append[of cap "tbl_put k v b" a] length_tbl_put[OF ok(2), of k v] b(1)
      by metis
  qed
qed

text \<open>A history as the code keeps it, and its specification: all records, and the newest of them.\<close>

definition history :: "nat \<Rightarrow> ('r \<Rightarrow> u64) \<Rightarrow> 'r list \<Rightarrow> (u64, 'r) tbl" where
  "history cap key rs = foldl (\<lambda>t r. enforce_cap cap (tbl_put (key r) r t)) [] rs"

definition all_records :: "('r \<Rightarrow> u64) \<Rightarrow> 'r list \<Rightarrow> (u64, 'r) tbl" where
  "all_records key rs = foldl (\<lambda>t r. tbl_put (key r) r t) [] rs"

lemma all_records_ok: "tbl_ok (all_records key rs)"
  by (induction rs rule: rev_induct) (simp_all add: all_records_def tbl_put_ok)

lemma all_records_get:
  "map_of (all_records key rs) = (\<lambda>k. List.find (\<lambda>r. key r = k) (rev rs))"
proof (induction rs rule: rev_induct)
  case (snoc r rs)
  have "all_records key (rs @ [r]) = tbl_put (key r) r (all_records key rs)" by (simp add: all_records_def)
  with snoc show ?case by (auto simp: tbl_get_put all_records_ok)
qed (simp add: all_records_def)

lemma history_newest:
  assumes "0 < cap"
  shows "history cap key rs = enforce_cap cap (all_records key rs)"
proof (induction rs rule: rev_induct)
  case (snoc r rs)
  have "history cap key (rs @ [r]) = enforce_cap cap (tbl_put (key r) r (history cap key rs))" by (simp add: history_def)
  also have "\<dots> = enforce_cap cap (tbl_put (key r) r (all_records key rs))"
    using snoc enforce_cap_put[OF all_records_ok assms] by simp
  finally show ?case by (simp add: all_records_def)
qed (simp add: history_def all_records_def enforce_cap_def)

lemma updates_history:
  "t_update_history (foldl (\<lambda>db r. record_update r db) db rs) =
     foldl (\<lambda>t r. enforce_cap MAX_UPDATE_RECORDS (tbl_put (ur_applied_at r) r t)) (t_update_history db) rs"
  by (induction rs arbitrary: db) (simp_all add: record_update_def)

lemma sessions_history:
  "t_session_history (foldl (\<lambda>db r. record_session r db) db rs) =
     foldl (\<lambda>t r. enforce_cap MAX_SESSION_RECORDS (tbl_put (se_ended_at r) r t)) (t_session_history db) rs"
  by (induction rs arbitrary: db) (simp_all add: record_session_def)


subsection \<open>Invariant of the store\<close>

definition keyed :: "('v \<Rightarrow> 'k) \<Rightarrow> ('k, 'v) tbl \<Rightarrow> bool" where
  "keyed f t \<longleftrightarrow> (\<forall>r\<in>set t. fst r = f (snd r))"

definition db_ok :: "state_db \<Rightarrow> bool" where
  "db_ok db \<longleftrightarrow>
     tbl_ok (t_meta db) \<and> tbl_ok (t_pairings db) \<and> tbl_ok (t_host_state db) \<and> tbl_ok (t_client_state db) \<and>
     tbl_ok (t_settings db) \<and> tbl_ok (t_tuf_root db) \<and> tbl_ok (t_tuf_targets db) \<and> tbl_ok (t_tuf_snapshot db) \<and>
     tbl_ok (t_tuf_timestamp db) \<and> tbl_ok (t_update_history db) \<and> tbl_ok (t_session_history db) \<and>
     tbl_ok (t_sync_rules db) \<and> tbl_ok (t_tracked_files db) \<and> tbl_ok (t_sync_outbox db) \<and> tbl_ok (t_sync_conflicts db) \<and>
     keyed pr_peer_id (t_pairings db) \<and> keyed ur_applied_at (t_update_history db) \<and>
     keyed se_ended_at (t_session_history db) \<and> keyed sr_rule_id (t_sync_rules db) \<and>
     keyed tf_file_id (t_tracked_files db) \<and> keyed ob_job_id (t_sync_outbox db) \<and>
     keyed sc_conflict_id (t_sync_conflicts db) \<and>
     length (t_update_history db) \<le> MAX_UPDATE_RECORDS \<and> length (t_session_history db) \<le> MAX_SESSION_RECORDS"

lemma keyed_put: "keyed f t \<Longrightarrow> f v = k \<Longrightarrow> keyed f (tbl_put k v t)"
  using tbl_put_fst[of k v t] by (auto simp: keyed_def)

lemma keyed_del: "keyed f t \<Longrightarrow> keyed f (tbl_del k t)"
  by (auto simp: keyed_def tbl_del_def)

lemma keyed_cap: "keyed f t \<Longrightarrow> keyed f (enforce_cap cap t)"
  by (auto simp: keyed_def enforce_cap_def dest: in_set_dropD)

lemma keyed_get: "keyed f t \<Longrightarrow> map_of t k = Some v \<Longrightarrow> f v = k"
  using map_of_SomeD[of t k v] by (auto simp: keyed_def)

lemmas db_rules = keyed_put keyed_del keyed_cap tbl_put_ok tbl.ok_del enforce_cap_ok length_enforce_cap

lemmas db_op_defs = set_meta_def put_pairing_def delete_pairing_def set_setting_def put_host_state_def put_client_state_def
  put_tuf_root_def put_tuf_targets_def put_tuf_snapshot_def put_tuf_timestamp_def record_update_def record_session_def
  put_sync_rule_def delete_sync_rule_def put_tracked_file_def put_outbox_job_def delete_outbox_job_def
  put_sync_conflict_def delete_sync_conflict_def set_global_ignores_def

lemma db_ok_simple_ops:
  assumes "db_ok db"
  shows "db_ok (set_meta k b db)" "db_ok (put_pairing p db)" "db_ok (delete_pairing k db)" "db_ok (set_setting k x db)"
    "db_ok (put_host_state k h db)" "db_ok (put_client_state k c db)" "db_ok (put_tuf_root b db)" "db_ok (put_tuf_targets b db)"
    "db_ok (put_tuf_snapshot b db)" "db_ok (put_tuf_timestamp b db)" "db_ok (record_update u db)" "db_ok (record_session s db)"
    "db_ok (put_sync_rule r db)" "db_ok (delete_sync_rule k db)" "db_ok (put_tracked_file f db)" "db_ok (put_outbox_job j db)"
    "db_ok (delete_outbox_job k db)" "db_ok (put_sync_conflict sc db)" "db_ok (delete_sync_conflict k db)"
    "db_ok (set_global_ignores G gs db)"
  using assms by (simp_all add: db_ok_def db_op_defs db_rules)

lemma db_ok_onboarding: "db_ok db \<Longrightarrow> db_ok (complete_onboarding n s c u db)"
  by (simp add: complete_onboarding_def Let_def db_ok_def db_rules split: option.split)

lemma db_ok_composed:
  assumes "db_ok db"
  shows "db_ok (open_db db)" "db_ok (fst (set_sync_rule_enabled k e db))" "db_ok (fst (retry_outbox_job k db))"
    "db_ok (fst (get_global_ignores G db))" "db_ok (fst (add_global_ignore G pat db))" "db_ok (fst (remove_global_ignore G pat db))"
    "db_ok (fst (apply_ignore_preset G name db))" "db_ok (fst (enqueue_manual_push hash fid jid now lp tp n db))"
    "db_ok (snd (fst (resolve_sync_conflict io k res (fs, db))))"
  using assms
  by (auto simp: open_db_def set_sync_rule_enabled_def retry_outbox_job_def get_global_ignores_def add_global_ignore_def
      remove_global_ignore_def apply_ignore_preset_def enqueue_manual_push_def resolve_sync_conflict_def Let_def
      db_ok_simple_ops split: option.split prod.split)

text \<open>The requests that change the store.\<close>

datatype db_op =
    PutPairing pairing_row | DeletePairing string | SetSetting string string
  | Onboard string string bool "string option" | PutHostState string host_state_row | PutClientState string client_state_row
  | PutTuf bytes bytes bytes bytes | RecordUpdate update_record | RecordSession session_record
  | PutRule sync_rule | DeleteRule string | EnableRule string bool | PutTracked tracked_file | PutJob outbox_job
  | DeleteJob string | RetryJob string | PutConflict sync_conflict | ResolveConflict string conflict_resolution
  | SetIgnores "string list" | GetIgnores | AddIgnore string | RemoveIgnore string | IgnorePreset string
  | ManualPush string string u64 string string string

fun exec_db :: "globs_json \<Rightarrow> (string \<Rightarrow> bool) \<Rightarrow> (string \<Rightarrow> (string \<times> u64) option) \<Rightarrow> disk \<times> state_db \<Rightarrow> db_op \<Rightarrow> disk \<times> state_db" where
  "exec_db G io hash (fs, db) (PutPairing p) = (fs, put_pairing p db)"
| "exec_db G io hash (fs, db) (DeletePairing k) = (fs, delete_pairing k db)"
| "exec_db G io hash (fs, db) (SetSetting k v) = (fs, set_setting k v db)"
| "exec_db G io hash (fs, db) (Onboard n s c u) = (fs, complete_onboarding n s c u db)"
| "exec_db G io hash (fs, db) (PutHostState k v) = (fs, put_host_state k v db)"
| "exec_db G io hash (fs, db) (PutClientState k v) = (fs, put_client_state k v db)"
| "exec_db G io hash (fs, db) (PutTuf r t s ts) = (fs, put_tuf_timestamp ts (put_tuf_snapshot s (put_tuf_targets t (put_tuf_root r db))))"
| "exec_db G io hash (fs, db) (RecordUpdate u) = (fs, record_update u db)"
| "exec_db G io hash (fs, db) (RecordSession s) = (fs, record_session s db)"
| "exec_db G io hash (fs, db) (PutRule r) = (fs, put_sync_rule r db)"
| "exec_db G io hash (fs, db) (DeleteRule k) = (fs, delete_sync_rule k db)"
| "exec_db G io hash (fs, db) (EnableRule k e) = (fs, fst (set_sync_rule_enabled k e db))"
| "exec_db G io hash (fs, db) (PutTracked f) = (fs, put_tracked_file f db)"
| "exec_db G io hash (fs, db) (PutJob j) = (fs, put_outbox_job j db)"
| "exec_db G io hash (fs, db) (DeleteJob k) = (fs, delete_outbox_job k db)"
| "exec_db G io hash (fs, db) (RetryJob k) = (fs, fst (retry_outbox_job k db))"
| "exec_db G io hash (fs, db) (PutConflict c) = (fs, put_sync_conflict c db)"
| "exec_db G io hash (fs, db) (ResolveConflict k r) = fst (resolve_sync_conflict io k r (fs, db))"
| "exec_db G io hash (fs, db) (SetIgnores gs) = (fs, set_global_ignores G gs db)"
| "exec_db G io hash (fs, db) GetIgnores = (fs, fst (get_global_ignores G db))"
| "exec_db G io hash (fs, db) (AddIgnore p) = (fs, fst (add_global_ignore G p db))"
| "exec_db G io hash (fs, db) (RemoveIgnore p) = (fs, fst (remove_global_ignore G p db))"
| "exec_db G io hash (fs, db) (IgnorePreset n) = (fs, fst (apply_ignore_preset G n db))"
| "exec_db G io hash (fs, db) (ManualPush fid jid now lp tp n) = (fs, fst (enqueue_manual_push hash fid jid now lp tp n db))"

lemma exec_db_ok: "db_ok (snd s) \<Longrightarrow> db_ok (snd (exec_db G io hash s op))"
  by (cases s; cases op) (simp_all add: db_ok_simple_ops db_ok_onboarding db_ok_composed)

lemma exec_dbs_ok: "db_ok (snd s) \<Longrightarrow> db_ok (snd (foldl (exec_db G io hash) s ops))"
  by (induction ops arbitrary: s) (simp_all add: exec_db_ok)

lemma empty_db_ok: "db_ok empty_db"
  by (simp add: db_ok_def empty_db_def keyed_def)

lemma exec_meta: "t_meta (snd (exec_db G io hash s op)) = t_meta (snd s)"
  by (cases s; cases op)
    (auto simp: db_op_defs complete_onboarding_def set_sync_rule_enabled_def retry_outbox_job_def get_global_ignores_def
      add_global_ignore_def remove_global_ignore_def apply_ignore_preset_def enqueue_manual_push_def
      resolve_sync_conflict_def Let_def split: option.split)

text \<open>From a new database file, any sequence of requests leaves every table with distinct keys in
  order, every record stored under its own id or time, and the two histories within their limits;
  the schema version is written before anything else and stays.\<close>

theorem db_invariant:
  "db_ok (snd (foldl (exec_db G io hash) (fs, open_db empty_db) ops)) \<and>
   get_meta (snd (foldl (exec_db G io hash) (fs, open_db empty_db) ops)) SCHEMA_VERSION_KEY = Some (to_le_bytes 4 SCHEMA_VERSION)"
proof
  show "db_ok (snd (foldl (exec_db G io hash) (fs, open_db empty_db) ops))"
    by (rule exec_dbs_ok) (simp add: db_ok_composed(1) empty_db_ok)
  have "t_meta (snd (foldl (exec_db G io hash) s ops)) = t_meta (snd s)" for s
    by (induction ops arbitrary: s) (simp_all add: exec_meta)
  then show "get_meta (snd (foldl (exec_db G io hash) (fs, open_db empty_db) ops)) SCHEMA_VERSION_KEY =
      Some (to_le_bytes 4 SCHEMA_VERSION)"
    by (simp add: get_meta_def open_db_def empty_db_def set_meta_def SCHEMA_VERSION_def tbl_put_Cons)
qed

subsection \<open>Settings and synchronisation state\<close>

lemma get_set_setting: "db_ok db \<Longrightarrow> get_setting (set_setting k v db) = (get_setting db)(k \<mapsto> v)"
  by (simp add: get_setting_def set_setting_def db_ok_def tbl_get_put fun_eq_iff)

lemma get_set_ignores:
  assumes "db_ok db" "globs_of_json G (globs_to_json G gs) = Some gs"
  shows "get_global_ignores G (set_global_ignores G gs db) = (set_global_ignores G gs db, gs)"
  using assms by (simp add: get_global_ignores_def set_global_ignores_def get_set_setting)

lemma get_ignores_twice:
  assumes "db_ok db" "globs_of_json G (globs_to_json G default_ignore_globs) = Some default_ignore_globs"
  shows "get_global_ignores G (fst (get_global_ignores G db)) = get_global_ignores G db"
proof (cases "get_setting db SYNC_GLOBAL_IGNORES_KEY")
  case None
  with get_set_ignores[OF assms] show ?thesis by (simp add: get_global_ignores_def)
qed (simp add: get_global_ignores_def)

lemma merge_ignore_globs_set: "set (merge_ignore_globs a b) = set a \<union> set b"
proof -
  have "set (fst (foldl (\<lambda>(out, seen) g. if g \<in> set seen then (out, seen) else (out @ [g], g # seen)) (o0, s0) gs)) =
      set o0 \<union> (set gs)" if "set o0 = set s0" for o0 s0 :: "string list" and gs
    using that by (induction gs arbitrary: o0 s0) (auto)
  from this[of "[]" "[]" "a @ b"] show ?thesis by (simp add: merge_ignore_globs_def del: foldl_append)
qed

text \<open>The global ignore patterns behave as a set that is saved with every change: what an addition,
  a removal or a preset returns is what the next read returns, an addition keeps the old patterns and
  adds one, a removal drops exactly one, a preset adds its patterns, and a read of a fresh store saves
  and returns the defaults (version-control directories among them).\<close>

theorem ignores_persist:
  assumes "db_ok db" "\<forall>gs. globs_of_json G (globs_to_json G gs) = Some gs"
  shows "snd (get_global_ignores G (fst (add_global_ignore G p db))) = snd (add_global_ignore G p db) \<and>
    set (snd (add_global_ignore G p db)) = insert p (set (snd (get_global_ignores G db))) \<and>
    snd (get_global_ignores G (fst (remove_global_ignore G p db))) = snd (remove_global_ignore G p db) \<and>
    set (snd (remove_global_ignore G p db)) = set (snd (get_global_ignores G db)) - {p} \<and>
    (case ignore_preset name of
       None \<Rightarrow> apply_ignore_preset G name db = (db, None)
     | Some ps \<Rightarrow> snd (apply_ignore_preset G name db) = Some (snd (get_global_ignores G (fst (apply_ignore_preset G name db)))) \<and>
         set (snd (get_global_ignores G (fst (apply_ignore_preset G name db)))) = set (snd (get_global_ignores G db)) \<union> set ps) \<and>
    (get_setting db SYNC_GLOBAL_IGNORES_KEY = None \<longrightarrow> snd (get_global_ignores G db) = default_ignore_globs)"
proof -
  obtain db1 gs where g: "get_global_ignores G db = (db1, gs)" by fastforce
  have ok1: "db_ok db1" using db_ok_composed(4)[OF assms(1), of G] g by simp
  have again: "get_global_ignores G db1 = (db1, gs)" using get_ignores_twice[OF assms(1), of G] assms(2) g by simp
  have set: "get_global_ignores G (set_global_ignores G xs db1) = (set_global_ignores G xs db1, xs)" for xs
    using get_set_ignores[OF ok1] assms(2) by blast
  show ?thesis
    using g again set
    by (auto simp: add_global_ignore_def remove_global_ignore_def apply_ignore_preset_def merge_ignore_globs_set Let_def
        split: option.split) (auto simp: get_global_ignores_def)
qed

text \<open>A text form that marks every character and every end of a pattern.\<close>

definition mark_glob :: "string \<Rightarrow> string" where
  "mark_glob g = concat (map (\<lambda>c. [CHR ''c'', c]) g) @ ''e''"

fun unmark_globs :: "string \<Rightarrow> string \<Rightarrow> string list" where
  "unmark_globs acc (m # c # r) = (if m = CHR ''e'' then rev acc # unmark_globs [] (c # r) else unmark_globs (c # acc) r)"
| "unmark_globs acc (m # []) = [rev acc]"
| "unmark_globs acc [] = []"

lemma unmark_mark: "unmark_globs acc (mark_glob g @ r) = (rev acc @ g) # unmark_globs [] r"
proof (induction g arbitrary: acc)
  case Nil
  then show ?case by (cases r) (simp_all add: mark_glob_def)
next
  case (Cons c g)
  have "mark_glob (c # g) @ r = CHR ''c'' # c # (mark_glob g @ r)" by (simp add: mark_glob_def)
  with Cons show ?case by simp
qed

definition demo_globs :: globs_json where
  "demo_globs = \<lparr>globs_to_json = (\<lambda>gs. concat (map mark_glob gs)), globs_of_json = (\<lambda>s. Some (unmark_globs [] s))\<rparr>"

lemma demo_globs_inverse: "\<forall>gs. globs_of_json demo_globs (globs_to_json demo_globs gs) = Some gs"
proof
  fix gs
  have "unmark_globs [] (concat (map mark_glob gs)) = gs" by (induction gs) (simp_all add: unmark_mark)
  then show "globs_of_json demo_globs (globs_to_json demo_globs gs) = Some gs" by (simp add: demo_globs_def)
qed

theorem ignores_persist_witness:
  "set (snd (get_global_ignores demo_globs (fst (add_global_ignore demo_globs ''*.log'' empty_db)))) =
     insert ''*.log'' (set default_ignore_globs)"
  using ignores_persist[OF empty_db_ok demo_globs_inverse, of "''*.log''" "''git''"]
  by (simp add: get_setting_def empty_db_def)

lemma find_conflict:
  assumes "db_ok db"
  shows "find (\<lambda>c. sc_conflict_id c = k) (list_sync_conflicts db) = map_of (t_sync_conflicts db) k"
proof -
  have "find (\<lambda>c. sc_conflict_id c = k) (map snd t) = map_of t k" if "keyed sc_conflict_id t"
    for t :: "(string, sync_conflict) tbl"
    using that by (induction t) (auto simp: keyed_def)
  with assms show ?thesis by (simp add: list_sync_conflicts_def db_ok_def)
qed

text \<open>Resolving a conflict that is listed removes exactly that conflict, marks its file as pending so
  that it is pushed again, and acts on the two files as chosen: keeping the local version deletes the
  quarantined copy, keeping the remote one moves it over the local file, keeping both touches
  neither. The conflict is removed and the file marked also when the file operation failed, which
  leaves both files as they were. An unknown conflict changes nothing.\<close>

theorem conflict_resolution:
  assumes "db_ok db"
  shows "case map_of (t_sync_conflicts db) k of
      None \<Rightarrow> resolve_sync_conflict io k r (fs, db) = ((fs, db), None)
    | Some c \<Rightarrow>
        (\<exists>fs' db'. resolve_sync_conflict io k r (fs, db) = ((fs', db'), Some c) \<and>
           map_of (t_sync_conflicts db') = (map_of (t_sync_conflicts db))(k := None) \<and>
           map_of (t_tracked_files db') = (\<lambda>f. map_option (\<lambda>tf. if f = sc_file_id c then tf\<lparr>tf_sync_state := SyncPending\<rparr> else tf)
             (map_of (t_tracked_files db) f)) \<and>
           t_sync_outbox db' = t_sync_outbox db \<and>
           (if io (sc_remote_path c) then fs' = fs
            else case r of KeepLocal \<Rightarrow> fs' = fs(sc_remote_path c := None)
              | KeepBoth \<Rightarrow> fs' = fs
              | KeepRemote \<Rightarrow> (case fs (sc_remote_path c) of None \<Rightarrow> fs' = fs
                  | Some b \<Rightarrow> fs' (sc_local_path c) = Some b \<and>
                     (sc_remote_path c \<noteq> sc_local_path c \<longrightarrow> fs' (sc_remote_path c) = None))))"
proof (cases "map_of (t_sync_conflicts db) k")
  case None
  with find_conflict[OF assms, of k] show ?thesis by (simp add: resolve_sync_conflict_def)
next
  case (Some c)
  define db1 where "db1 = (case get_tracked_file db (sc_file_id c) of None \<Rightarrow> db
      | Some tf \<Rightarrow> put_tracked_file (tf\<lparr>tf_sync_state := SyncPending\<rparr>) db)"
  have id: "map_of (t_tracked_files db) f = Some tf \<Longrightarrow> tf_file_id tf = f" for f tf
    using assms keyed_get[of tf_file_id] by (auto simp: db_ok_def)
  have "tbl_ok (t_tracked_files db)" using assms by (simp add: db_ok_def)
  then have "map_of (t_tracked_files db1) = (\<lambda>f. map_option (\<lambda>tf. if f = sc_file_id c then tf\<lparr>tf_sync_state := SyncPending\<rparr> else tf)
       (map_of (t_tracked_files db) f))"
    by (auto simp: db1_def get_tracked_file_def put_tracked_file_def tbl_get_put fun_eq_iff map_option_case id split: option.split)
  moreover have "t_sync_conflicts db1 = t_sync_conflicts db" "t_sync_outbox db1 = t_sync_outbox db"
    by (auto simp: db1_def put_tracked_file_def split: option.split)
  moreover have "resolve_sync_conflict io k r (fs, db) = ((resolve_files io c r fs, delete_sync_conflict k db1), Some c)"
    using find_conflict[OF assms, of k] Some by (simp add: resolve_sync_conflict_def db1_def)
  moreover have "map_of (tbl_del k (t_sync_conflicts db)) = (map_of (t_sync_conflicts db))(k := None)"
    using assms by (simp add: db_ok_def tbl.get_del)
  ultimately show ?thesis
    using Some by (auto simp: delete_sync_conflict_def resolve_files_def split: conflict_resolution.split option.split)
qed

definition demo_conflict :: sync_conflict where
  "demo_conflict = \<lparr>sc_conflict_id = ''c'', sc_file_id = ''f'', sc_local_path = ''/a'', sc_remote_path = ''/a.conflict'',
     sc_peer_id = ''p'', sc_local_clock = [], sc_remote_clock = [], sc_created_at = 1\<rparr>"

theorem conflict_resolution_witness:
  "\<exists>fs' db'. resolve_sync_conflict (\<lambda>_. False) ''c'' KeepRemote ([''/a'' \<mapsto> [1], ''/a.conflict'' \<mapsto> [2]], put_sync_conflict demo_conflict empty_db) =
     ((fs', db'), Some demo_conflict) \<and> fs' ''/a'' = Some [2] \<and> fs' ''/a.conflict'' = None \<and> map_of (t_sync_conflicts db') ''c'' = None"
  using conflict_resolution[OF db_ok_simple_ops(18)[OF empty_db_ok, of demo_conflict], where k = "''c''" and io = "\<lambda>_. False" and
      r = KeepRemote and fs = "[''/a'' \<mapsto> [1], ''/a.conflict'' \<mapsto> [2]]"]
  by (auto simp: put_sync_conflict_def empty_db_def demo_conflict_def tbl_put_Cons)

lemma retry_job:
  assumes "db_ok db" "get_outbox_job db k = Some job"
  shows "\<exists>job'. retry_outbox_job k db = (put_outbox_job job' db, Some job') \<and> job' \<in> set (list_pending_outbox (put_outbox_job job' db)) \<and>
    ob_retry_count job' = saturating_add (ob_retry_count job) 1 \<and> ob_job_id job' = k"
proof -
  let ?j = "job\<lparr>ob_status := Queued, ob_retry_count := saturating_add (ob_retry_count job) 1, ob_last_error := None\<rparr>"
  have "ob_job_id job = k" using assms keyed_get[of ob_job_id] by (auto simp: db_ok_def get_outbox_job_def)
  moreover have "(ob_job_id ?j, ?j) \<in> set (tbl_put (ob_job_id ?j) ?j (t_sync_outbox db))" by (simp add: tbl_put_def)
  ultimately show ?thesis
    using assms(2)
    by (auto simp: retry_outbox_job_def Let_def list_pending_outbox_def list_outbox_jobs_def put_outbox_job_def
        intro!: image_eqI[of _ snd "(k, ?j)"])
qed

end
