(* ===== verification/Updater.thy ===== *)
theory Updater
  imports Daemon_State
begin

text \<open>
  The daemon's update client (\<open>qubox-daemon/src/tuf.rs\<close>) and the IPC request that applies an update
  (\<open>ipc.rs\<close>): the throttled check, the choice of the newest target, the verified download, the swap
  of the binary with its backup, and the rollback at the next start. The file system maps paths to
  contents and modification times (seconds). Verification of the update metadata (the \<open>tough\<close> crate),
  HTTP, SHA-256, hex, version parsing and the platform directories are arguments; versions are any
  linearly ordered type.
\<close>

subsection \<open>Data\<close>

record update_info =
  ui_version :: string
  ui_available :: bool
  ui_size_bytes :: u64
  ui_manifest_url :: string
  ui_sha256 :: string

record update_status =
  us_last_check :: "u64 option"
  us_current_version :: string
  us_available_update :: "update_info option"

datatype update_error =
    FetchFailed string
  | VerifyFailed
  | IoFailed string
  | HashMismatch string string
  | NoUpdate
  | AlreadyOnLatest
  | UpdInternal

definition THROTTLE_SECS :: u64 where "THROTTLE_SECS = 60"
definition RESTART_SENTINEL :: string where "RESTART_SENTINEL = ''restart-requested''"
definition ROLLBACK_GRACE_SECS :: u64 where "ROLLBACK_GRACE_SECS = 60"

record upd_target =
  ut_length :: u64
  ut_custom_sha256 :: "string option"
  ut_hash :: bytes

record tuf_repo =
  rp_root :: bytes
  rp_targets_json :: bytes
  rp_snapshot :: bytes
  rp_timestamp :: bytes
  rp_targets :: "(string \<times> upd_target) list"

record update_checker =
  uc_repo_url :: string
  uc_state :: state_db
  uc_last_check :: "u64 option"
  uc_cached_update :: "update_info option"
  uc_current_version :: string
  uc_update_pending :: bool
  uc_target_prefix :: string

type_synonym disk_files = "string \<rightharpoonup> bytes \<times> u64"

record 'v upd_ext =
  http_get :: "string \<Rightarrow> bytes option"
  load_repo :: "bytes \<Rightarrow> string \<Rightarrow> string \<Rightarrow> tuf_repo option"
  url_ok :: "string \<Rightarrow> bool"
  parse_version :: "string \<Rightarrow> 'v option"
  sha256_hex :: "bytes \<Rightarrow> string"
  hex_of :: "bytes \<Rightarrow> string"
  cache_dir :: string
  data_dir :: "string option"
  rename_fails :: "string \<Rightarrow> string \<Rightarrow> bool"
  write_fails :: "string \<Rightarrow> bool"

subsection \<open>Checking\<close>

definition checker_new :: "string \<Rightarrow> string \<Rightarrow> string \<Rightarrow> state_db \<Rightarrow> string \<Rightarrow> update_checker" where
  "checker_new arch system repo_url db current_version =
     \<lparr>uc_repo_url = repo_url, uc_state = db, uc_last_check = None, uc_cached_update = None,
      uc_current_version = current_version, uc_update_pending = False,
      uc_target_prefix = ''qubox-daemon-'' @ arch @ ''-'' @ system @ ''-''\<rparr>"

definition ensure_root :: "'v upd_ext \<Rightarrow> update_checker \<Rightarrow> update_checker \<times> (update_error, unit) result" where
  "ensure_root X u =
     (if get_tuf_root (uc_state u) \<noteq> None then (u, Ok ())
      else let url = uc_repo_url u @ ''/metadata/root.json'' in
        case http_get X url of
          None \<Rightarrow> (u, Err (FetchFailed url))
        | Some b \<Rightarrow> (u\<lparr>uc_state := put_tuf_root b (uc_state u)\<rparr>, Ok ()))"

definition cache_repo_metadata :: "tuf_repo \<Rightarrow> state_db \<Rightarrow> state_db" where
  "cache_repo_metadata r db =
     put_tuf_timestamp (rp_timestamp r) (put_tuf_snapshot (rp_snapshot r)
       (put_tuf_targets (rp_targets_json r) (put_tuf_root (rp_root r) db)))"

definition strip_prefix :: "string \<Rightarrow> string \<Rightarrow> string" where
  "strip_prefix pre s = (if starts_with s pre then drop (length pre) s else s)"

text \<open>The loop over the candidates, with the best one so far.\<close>

fun best_target ::
    "(string \<Rightarrow> 'v::linorder option) \<Rightarrow> 'v \<Rightarrow> string \<Rightarrow> ('v \<times> string \<times> upd_target) option \<Rightarrow> (string \<times> upd_target) list \<Rightarrow>
     ('v \<times> string \<times> upd_target) option" where
  "best_target parse current pre best [] = best"
| "best_target parse current pre best ((name, target) # ts) =
     best_target parse current pre
       (case parse (strip_prefix pre name) of
          None \<Rightarrow> best
        | Some ver \<Rightarrow>
            if ver > current \<and> (case best of None \<Rightarrow> True | Some (b, _, _) \<Rightarrow> ver > b)
            then Some (ver, strip_prefix pre name, target) else best) ts"

definition trim_slashes :: "string \<Rightarrow> string" where
  "trim_slashes s = rev (dropWhile (\<lambda>c. c = CHR ''/'') (rev s))"

definition find_update ::
    "('v::linorder) upd_ext \<Rightarrow> update_checker \<Rightarrow> tuf_repo \<Rightarrow> string \<Rightarrow> (update_error, update_info) result" where
  "find_update X u repo current_version =
     (case parse_version X current_version of
        None \<Rightarrow> Err UpdInternal
      | Some current \<Rightarrow>
          let candidates = filter (\<lambda>(name, _). starts_with name (uc_target_prefix u)) (rp_targets repo) in
          if candidates = [] then Err NoUpdate
          else (case best_target (parse_version X) current (uc_target_prefix u) None candidates of
             None \<Rightarrow> Err AlreadyOnLatest
           | Some (_, version, target) \<Rightarrow>
               Ok \<lparr>ui_version = version, ui_available = True, ui_size_bytes = ut_length target,
                   ui_manifest_url = trim_slashes (uc_repo_url u) @ ''/targets/'' @ uc_target_prefix u @ version,
                   ui_sha256 = (case ut_custom_sha256 target of Some s \<Rightarrow> s | None \<Rightarrow> hex_of X (ut_hash target))\<rparr>))"

text \<open>The part after the throttle. \<open>now\<close> is the monotonic clock in seconds.\<close>

definition check_fresh ::
    "('v::linorder) upd_ext \<Rightarrow> u64 \<Rightarrow> update_checker \<Rightarrow> update_checker \<times> (update_error, update_info) result" where
  "check_fresh X now u =
     bind_st (ensure_root X (u\<lparr>uc_last_check := Some now\<rparr>)) (\<lambda>u _.
       case get_tuf_root (uc_state u) of
         None \<Rightarrow> (u, Err UpdInternal)
       | Some root \<Rightarrow>
           let murl = uc_repo_url u @ ''/metadata/''; turl = uc_repo_url u @ ''/targets/'' in
           if \<not> url_ok X murl \<or> \<not> url_ok X turl then (u, Err UpdInternal)
           else (case load_repo X root murl turl of
             None \<Rightarrow> (u, Err VerifyFailed)
           | Some repo \<Rightarrow>
               let u' = u\<lparr>uc_state := cache_repo_metadata repo (uc_state u)\<rparr> in
               (case find_update X u' repo (uc_current_version u') of
                  Inl e \<Rightarrow> (u', Err e)
                | Inr info \<Rightarrow> (u'\<lparr>uc_cached_update := Some info\<rparr>, Ok info))))"

definition check_for_update ::
    "('v::linorder) upd_ext \<Rightarrow> u64 \<Rightarrow> update_checker \<Rightarrow> update_checker \<times> (update_error, update_info) result" where
  "check_for_update X now u =
     (case uc_last_check u of
        None \<Rightarrow> check_fresh X now u
      | Some ts \<Rightarrow>
          if saturating_sub now ts < THROTTLE_SECS
          then (case uc_cached_update u of Some info \<Rightarrow> (u, Ok info) | None \<Rightarrow> check_fresh X now u)
          else check_fresh X now u)"

definition get_status :: "update_checker \<Rightarrow> update_status" where
  "get_status u = \<lparr>us_last_check = uc_last_check u, us_current_version = uc_current_version u,
     us_available_update = uc_cached_update u\<rparr>"

subsection \<open>Downloading\<close>

text \<open>\<open>PathBuf::join\<close>: an absolute path replaces the base.\<close>

definition push_path :: "string \<Rightarrow> string \<Rightarrow> string" where
  "push_path a b =
     (if starts_with b ''/'' then b else if a = [] then b
      else if last a = CHR ''/'' then a @ b else a @ ''/'' @ b)"

definition staging_dir :: "'v upd_ext \<Rightarrow> string \<Rightarrow> string" where
  "staging_dir X version = push_path (push_path (cache_dir X) ''staged'') version"

text \<open>The staged directories of other versions are deleted; \<open>p\<close> is below one of them when it continues
  the staging root with another name.\<close>

definition staged_other :: "'v upd_ext \<Rightarrow> string \<Rightarrow> string \<Rightarrow> bool" where
  "staged_other X keep p \<longleftrightarrow>
     (let root = push_path (cache_dir X) ''staged'' @ ''/''
      in starts_with p root \<and> takeWhile (\<lambda>c. c \<noteq> CHR ''/'') (drop (length root) p) \<notin> {[], keep})"

definition cleanup_old_staged :: "'v upd_ext \<Rightarrow> string \<Rightarrow> disk_files \<Rightarrow> disk_files" where
  "cleanup_old_staged X keep fs = (\<lambda>p. if staged_other X keep p then None else fs p)"

definition download_update ::
    "'v upd_ext \<Rightarrow> u64 \<Rightarrow> update_info \<Rightarrow> disk_files \<Rightarrow> disk_files \<times> (update_error, string) result" where
  "download_update X now info fs =
     (let target = push_path (staging_dir X (ui_version info)) ''qubox'' in
      if fs target \<noteq> None then (fs, Ok target)
      else case http_get X (ui_manifest_url info) of
        None \<Rightarrow> (fs, Err (FetchFailed (ui_manifest_url info)))
      | Some b \<Rightarrow>
          if sha256_hex X b \<noteq> ui_sha256 info then (fs, Err (HashMismatch (ui_sha256 info) (sha256_hex X b)))
          else if write_fails X target then (fs, Err (IoFailed target))
          else (cleanup_old_staged X (ui_version info) (fs(target \<mapsto> (b, now))), Ok target))"

subsection \<open>Applying and rolling back\<close>

text \<open>\<open>with_extension\<close> of the old extension followed by a new one appends the new one.\<close>

definition with_suffix :: "string \<Rightarrow> string \<Rightarrow> string" where
  "with_suffix p suf = p @ ''.'' @ suf"

definition rename_file :: "'v upd_ext \<Rightarrow> string \<Rightarrow> string \<Rightarrow> disk_files \<Rightarrow> disk_files option" where
  "rename_file X from dest fs =
     (case fs from of
        None \<Rightarrow> None
      | Some f \<Rightarrow> if rename_fails X from dest then None else Some ((fs(from := None))(dest \<mapsto> f)))"

text \<open>The Linux and macOS branch. \<open>now\<close> is the wall clock in milliseconds.\<close>

definition apply_update ::
    "'v upd_ext \<Rightarrow> u64 \<Rightarrow> string \<Rightarrow> string \<Rightarrow> update_checker \<times> disk_files \<Rightarrow>
     (update_checker \<times> disk_files) \<times> (update_error, unit) result" where
  "apply_update X now staged current = (\<lambda>(u, fs).
     if fs staged = None then ((u, fs), Err (IoFailed staged))
     else let backup = with_suffix current ''prev''; new_path = with_suffix current ''new'' in
       case (if fs current \<noteq> None then rename_file X current backup fs else Some fs) of
         None \<Rightarrow> ((u, fs), Err (IoFailed backup))
       | Some fs1 \<Rightarrow>
          (case rename_file X staged new_path fs1 of
             None \<Rightarrow> ((u, fs1), Err (IoFailed new_path))
           | Some fs2 \<Rightarrow>
              (case rename_file X new_path current fs2 of
                 None \<Rightarrow> ((u, fs2), Err (IoFailed current))
               | Some fs3 \<Rightarrow>
                  (let sentinel = map_option (\<lambda>d. push_path d RESTART_SENTINEL) (data_dir X) in
                   if (case sentinel of None \<Rightarrow> False | Some s \<Rightarrow> write_fails X s)
                   then ((u, fs3), Err (IoFailed (the sentinel)))
                   else let fs4 = (case sentinel of None \<Rightarrow> fs3
                              | Some s \<Rightarrow> fs3(s \<mapsto> (map of_char (uc_current_version u), now div 1000)));
                            rec = \<lparr>ur_applied_at = now, ur_binary_path = current, ur_prev_version = Some (uc_current_version u)\<rparr>
                     in ((u\<lparr>uc_state := record_update rec (uc_state u), uc_update_pending := True\<rparr>, fs4), Ok ())))))"

definition check_rollback ::
    "'v upd_ext \<Rightarrow> u64 \<Rightarrow> string \<Rightarrow> string \<Rightarrow> disk_files \<Rightarrow> disk_files \<times> (update_error, bool) result" where
  "check_rollback X now current dir fs =
     (let sentinel = push_path dir RESTART_SENTINEL; backup = with_suffix current ''prev'' in
      case fs sentinel of
        None \<Rightarrow> (fs, Ok False)
      | Some (_, mtime) \<Rightarrow>
          if fs backup = None then (fs(sentinel := None), Ok False)
          else if saturating_sub now mtime < ROLLBACK_GRACE_SECS
          then (case rename_file X backup current fs of
                  None \<Rightarrow> (fs, Err (IoFailed current))
                | Some fs' \<Rightarrow> (fs'(sentinel := None), Ok True))
          else (fs(sentinel := None, backup := None), Ok False))"

datatype update_reply = ReplyUnit | ReplyError nat

text \<open>The request that applies an update, with the events it emits.\<close>

definition apply_update_request ::
    "'v upd_ext \<Rightarrow> u64 \<Rightarrow> string \<Rightarrow> string \<Rightarrow> update_checker option \<Rightarrow> disk_files \<Rightarrow>
     update_checker option \<times> disk_files \<times> string list \<times> update_reply" where
  "apply_update_request X now current staged_version checker fs =
     (case checker of
        None \<Rightarrow> (None, fs, [], ReplyError 501)
      | Some u \<Rightarrow>
          let info = \<lparr>ui_version = staged_version, ui_available = True, ui_size_bytes = 0, ui_manifest_url = [], ui_sha256 = []\<rparr> in
          (case download_update X (now div 1000) info fs of
             (fs1, Inl _) \<Rightarrow> (Some u, fs1, [], ReplyError 502)
           | (fs1, Inr staged) \<Rightarrow>
              (case apply_update X now staged current (u, fs1) of
                 ((u', fs2), Inl _) \<Rightarrow> (Some u', fs2, [], ReplyError 502)
               | ((u', fs2), Inr _) \<Rightarrow> (Some u', fs2, [staged_version], ReplyUnit))))"

subsection \<open>The newest target\<close>

lemma starts_with_iff: "starts_with s pre \<longleftrightarrow> (\<exists>r. s = pre @ r)"
  by (auto simp: starts_with_def) (metis append_take_drop_id)

lemma strip_prefix_append [simp]: "strip_prefix pre (pre @ s) = s"
  by (simp add: strip_prefix_def starts_with_def)

text \<open>The versions a list of targets offers beyond the current one.\<close>

definition newer :: "(string \<Rightarrow> 'v::linorder option) \<Rightarrow> 'v \<Rightarrow> string \<Rightarrow> (string \<times> upd_target) list \<Rightarrow> ('v \<times> string \<times> upd_target) set" where
  "newer parse current pre ts =
     {(v, s, t). current < v \<and> (\<exists>name. (name, t) \<in> set ts \<and> s = strip_prefix pre name \<and> parse s = Some v)}"

lemma newer_Cons:
  "newer parse current pre ((name, t) # ts) =
     (case parse (strip_prefix pre name) of
        Some v \<Rightarrow> if current < v then {(v, strip_prefix pre name, t)} else {} | None \<Rightarrow> {}) \<union> newer parse current pre ts"
  by (auto simp: newer_def split: option.splits if_splits)

lemma best_target_max:
  fixes current :: "'v::linorder"
  assumes "\<forall>b. best = Some b \<longrightarrow> current < fst b"
  shows "case best_target parse current pre best ts of
      None \<Rightarrow> best = None \<and> newer parse current pre ts = {}
    | Some b \<Rightarrow> b \<in> newer parse current pre ts \<union> set_option best \<and>
        (\<forall>b'\<in>newer parse current pre ts \<union> set_option best. fst b' \<le> fst b)"
  using assms
proof (induction ts arbitrary: best)
  case Nil
  then show ?case by (cases best) (auto simp: newer_def)
next
  case (Cons nt ts)
  obtain name t where nt: "nt = (name, t)" by fastforce
  define best' where "best' = (case parse (strip_prefix pre name) of
      None \<Rightarrow> best
    | Some ver \<Rightarrow> if ver > current \<and> (case best of None \<Rightarrow> True | Some (b, _, _) \<Rightarrow> ver > b)
        then Some (ver, strip_prefix pre name, t) else best)"
  have step: "best_target parse current pre best (nt # ts) = best_target parse current pre best' ts"
    by (simp add: nt best'_def)
  have "\<forall>b. best' = Some b \<longrightarrow> current < fst b"
    using Cons.prems by (auto simp: best'_def split: option.splits if_splits)
  from Cons.IH[OF this] show ?case
    unfolding step nt newer_Cons
    by (auto simp: best'_def ball_Un split: option.splits if_splits prod.splits)
qed

lemma newer_candidates:
  "newer parse current pre (filter (\<lambda>(name, _). starts_with name pre) ts) =
     {(v, s, t). current < v \<and> (pre @ s, t) \<in> set ts \<and> parse s = Some v}"
proof -
  have "starts_with (pre @ s) pre" for s by (auto simp: starts_with_iff)
  then show ?thesis by (auto simp: newer_def starts_with_iff)
qed


definition demo_upd :: "nat upd_ext" where
  "demo_upd = \<lparr>http_get = (\<lambda>_. Some [7]), load_repo = (\<lambda>_ _ _. None), url_ok = (\<lambda>_. True),
     parse_version = (\<lambda>s. case s of [c] \<Rightarrow> Some (of_char c - 48) | _ \<Rightarrow> None), sha256_hex = (\<lambda>b. map (\<lambda>_. CHR ''h'') b),
     hex_of = (\<lambda>b. map (\<lambda>_. CHR ''x'') b), cache_dir = ''/cache'', data_dir = Some ''/data'',
     rename_fails = (\<lambda>_ _. False), write_fails = (\<lambda>_. False)\<rparr>"

definition demo_checker :: update_checker where
  "demo_checker = checker_new ''x86_64'' ''linux'' ''https://u'' empty_db ''1''"

definition demo_repo :: tuf_repo where
  "demo_repo = \<lparr>rp_root = [], rp_targets_json = [], rp_snapshot = [], rp_timestamp = [],
     rp_targets = map (\<lambda>n. (n, \<lparr>ut_length = 9, ut_custom_sha256 = None, ut_hash = [1]\<rparr>))
       [''qubox-daemon-x86_64-linux-2'', ''qubox-daemon-arm-linux-9'', ''qubox-daemon-x86_64-linux-3'']\<rparr>"


subsection \<open>Downloads\<close>

lemma staged_root: "\<exists>r. push_path d ''staged'' = r @ ''staged''"
  by (auto simp: push_path_def starts_with_def)

lemma not_staged_other:
  assumes "version \<noteq> []" "CHR ''/'' \<notin> set version"
  shows "\<not> staged_other X version (push_path (staging_dir X version) ''qubox'')"
proof -
  obtain r where r: "push_path (cache_dir X) ''staged'' = r @ ''staged''" using staged_root by blast
  have "hd version \<noteq> CHR ''/''" "last version \<noteq> CHR ''/''" using assms by (metis hd_in_set, metis last_in_set)
  moreover from this assms(1) have "staging_dir X version = r @ ''staged/'' @ version"
    unfolding staging_dir_def r by (cases version) (auto simp: push_path_def starts_with_def)
  ultimately have "push_path (staging_dir X version) ''qubox'' = r @ ''staged/'' @ version @ ''/qubox''"
    using assms(1) by (auto simp: push_path_def starts_with_def)
  moreover have "takeWhile (\<lambda>c. c \<noteq> CHR ''/'') (version @ ''/qubox'') = version"
    using assms(2) by (subst takeWhile_append2) auto
  ultimately show ?thesis by (simp add: staged_other_def r Let_def)
qed

text \<open>A download that succeeds either finds a file already staged under that version, which it does
  not look into, or has written bytes whose digest is the one of the signed metadata; a digest that
  does not match, or any other failure, leaves every file as it was.\<close>

theorem download_verified:
  assumes "download_update X now info fs = (fs', r)" "ui_version info \<noteq> []" "CHR ''/'' \<notin> set (ui_version info)"
  shows "case r of
      Inr target \<Rightarrow> fs target \<noteq> None \<and> fs' = fs \<or>
        (\<exists>b. http_get X (ui_manifest_url info) = Some b \<and> sha256_hex X b = ui_sha256 info \<and> fs' target = Some (b, now))
    | Inl e \<Rightarrow> fs' = fs"
  using assms(1) not_staged_other[OF assms(2,3), of X]
  by (auto simp: download_update_def cleanup_old_staged_def Let_def split: if_splits option.splits)

theorem download_verified_witness:
  "\<exists>fs'. download_update demo_upd 5 \<lparr>ui_version = ''2'', ui_available = True, ui_size_bytes = 1, ui_manifest_url = ''u'', ui_sha256 = ''h''\<rparr> Map.empty =
     (fs', Ok ''/cache/staged/2/qubox'') \<and> fs' ''/cache/staged/2/qubox'' = Some ([7], 5)"
proof -
  let ?i = "\<lparr>ui_version = ''2'', ui_available = True, ui_size_bytes = 1, ui_manifest_url = ''u'', ui_sha256 = ''h''\<rparr>"
  obtain fs' where "download_update demo_upd 5 ?i Map.empty = (fs', Ok ''/cache/staged/2/qubox'')"
    by (simp add: download_update_def demo_upd_def push_path_def staging_dir_def starts_with_def Let_def)
  with download_verified[OF this] show ?thesis by (auto simp: demo_upd_def)
qed

subsection \<open>Swap and rollback\<close>

definition distinct_paths :: "string \<Rightarrow> string \<Rightarrow> string \<Rightarrow> bool" where
  "distinct_paths staged current dir \<longleftrightarrow>
     distinct [staged, current, with_suffix current ''prev'', with_suffix current ''new'', push_path dir RESTART_SENTINEL]"

lemma apply_ok:
  assumes "fs staged = Some s" "fs current = Some c" "data_dir X = Some dir" "distinct_paths staged current dir"
    "\<forall>a b. \<not> rename_fails X a b" "\<forall>p. \<not> write_fails X p"
  shows "apply_update X now staged current (u, fs) =
    ((u\<lparr>uc_state := record_update \<lparr>ur_applied_at = now, ur_binary_path = current, ur_prev_version = Some (uc_current_version u)\<rparr>
          (uc_state u), uc_update_pending := True\<rparr>,
      fs(staged := None, with_suffix current ''new'' := None, with_suffix current ''prev'' \<mapsto> c, current \<mapsto> s,
         push_path dir RESTART_SENTINEL \<mapsto> (map of_char (uc_current_version u), now div 1000))), Ok ())"
  using assms by (auto simp: apply_update_def rename_file_def distinct_paths_def Let_def fun_eq_iff)

text \<open>Applying a staged update puts the staged file in place of the running binary and keeps the old
  one as a backup. At the next start the rollback check decides by time alone: within 60 seconds of
  the update the old binary is put back, whether or not the new one ever crashed; later the new
  binary stays and the backup is deleted. Both outcomes remove the marker, so that further starts
  change nothing.\<close>

theorem update_then_restart:
  assumes "fs staged = Some s" "fs current = Some c" "data_dir X = Some dir" "distinct_paths staged current dir"
    "\<forall>a b. \<not> rename_fails X a b" "\<forall>p. \<not> write_fails X p"
    "apply_update X now staged current (u, fs) = ((u', fs'), r)"
    "check_rollback X later current dir fs' = (fs'', rolled)"
  shows "r = Ok () \<and> fs' current = Some s \<and> uc_update_pending u' \<and>
    (if saturating_sub later (now div 1000) < 60
     then rolled = Ok True \<and> fs'' current = Some c
     else rolled = Ok False \<and> fs'' current = Some s \<and> fs'' (with_suffix current ''prev'') = None) \<and>
    check_rollback X later2 current dir fs'' = (fs'', Ok False)"
  using assms(4,5,7,8) apply_ok[OF assms(1-6), of now u]
  by (auto simp: check_rollback_def rename_file_def distinct_paths_def ROLLBACK_GRACE_SECS_def Let_def split: if_splits)

theorem update_then_restart_witness:
  "\<exists>u' fs' fs''. apply_update demo_upd 5000000 ''/s'' ''/bin/qubox'' (demo_checker, [''/s'' \<mapsto> ([2], 0), ''/bin/qubox'' \<mapsto> ([1], 0)]) =
       ((u', fs'), Ok ()) \<and> fs' ''/bin/qubox'' = Some ([2], 0) \<and>
     check_rollback demo_upd 5003 ''/bin/qubox'' ''/data'' fs' = (fs'', Ok True) \<and> fs'' ''/bin/qubox'' = Some ([1], 0)"
proof -
  let ?fs = "[''/s'' \<mapsto> ([2], 0), ''/bin/qubox'' \<mapsto> ([1], 0)] :: disk_files"
  have p: "?fs ''/s'' = Some ([2], 0)" "?fs ''/bin/qubox'' = Some ([1], 0)" "data_dir demo_upd = Some ''/data''"
    "distinct_paths ''/s'' ''/bin/qubox'' ''/data''" "\<forall>a b. \<not> rename_fails demo_upd a b" "\<forall>p. \<not> write_fails demo_upd p"
    by (simp_all add: demo_upd_def distinct_paths_def with_suffix_def push_path_def starts_with_def RESTART_SENTINEL_def)
  obtain u' fs' r where a: "apply_update demo_upd 5000000 ''/s'' ''/bin/qubox'' (demo_checker, ?fs) = ((u', fs'), r)" by (metis prod.exhaust)
  obtain fs'' rolled where b: "check_rollback demo_upd 5003 ''/bin/qubox'' ''/data'' fs' = (fs'', rolled)" by fastforce
  have "saturating_sub (5003 :: u64) (5000000 div 1000) < 60" by (simp add: saturating_sub_def)
  with update_then_restart[OF p a b] a b show ?thesis by auto
qed

text \<open>A staged file is installed whatever it holds, wherever the name of the version leads: the request
  passes no digest, and an absolute name leaves the staging directory.\<close>

lemma apply_request_unverified:
  assumes "starts_with v ''/''" "v \<noteq> ''/''" "last v \<noteq> CHR ''/''" "fs (v @ ''/qubox'') = Some s" "fs current = Some c"
    "data_dir X = Some dir" "distinct_paths (v @ ''/qubox'') current dir"
    "\<forall>a b. \<not> rename_fails X a b" "\<forall>p. \<not> write_fails X p"
  shows "\<exists>u' fs'. apply_update_request X now current v (Some u) fs = (u', fs', [v], ReplyUnit) \<and> fs' current = Some s"
proof -
  have "v \<noteq> []" using assms(1) by (auto simp: starts_with_def)
  then have "push_path (staging_dir X v) ''qubox'' = v @ ''/qubox''"
    using assms(1,3) by (simp add: staging_dir_def push_path_def starts_with_def)
  with apply_ok[OF assms(4-9), of now u] assms(4,7) show ?thesis
    by (auto simp: apply_update_request_def download_update_def Let_def distinct_paths_def)
qed

text \<open>When the second rename fails the running binary is gone: it was moved to the backup before.\<close>

lemma failed_swap_loses_binary:
  assumes "fs staged = Some s" "fs current = Some c" "distinct_paths staged current dir"
    "\<not> rename_fails X current (with_suffix current ''prev'')" "rename_fails X staged (with_suffix current ''new'')"
  shows "\<exists>fs'. apply_update X now staged current (u, fs) = ((u, fs'), Err (IoFailed (with_suffix current ''new''))) \<and>
    fs' current = None \<and> fs' (with_suffix current ''prev'') = Some c"
  using assms by (auto simp: apply_update_def rename_file_def distinct_paths_def Let_def)

end
