(* ===== verification/Subprocess.thy ===== *)
theory Subprocess
  imports Qubox_Prelude
begin

text \<open>
  The daemon's supervisor for the host agent and the client (\<open>qubox-daemon/src/subprocess.rs\<close>): one
  managed process with its restarts and back-off, and the registry keyed by label with the operator's
  consent decisions. The lifecycle loop is a step function over what it waits for: the exit of the
  child, the end of a back-off with the outcome of the respawn, and the stop signal. Spawning returns
  the process id or fails; times are milliseconds of a monotonic clock.
\<close>

subsection \<open>One managed process\<close>

record subprocess_config =
  bin_path :: string
  proc_args :: "string list"
  env_override :: "(string \<times> string) list option"
  max_restarts :: nat
  restart_window :: nat

definition default_max_restarts :: nat where "default_max_restarts = 5"
definition default_restart_window :: nat where "default_restart_window = 60 * 1000"

definition default_subprocess_config :: subprocess_config where
  "default_subprocess_config = \<lparr>bin_path = [], proc_args = [], env_override = None, max_restarts = default_max_restarts,
     restart_window = default_restart_window\<rparr>"

datatype subprocess_event =
    Spawned u32
  | Exited "int option"
  | Restarting nat u64
  | GiveUp "int option"
  | Stopped

text \<open>Where the lifecycle loop is: waiting for the child, sleeping before a respawn, or returned.\<close>

datatype sub_phase = Running | BackingOff | Ended

record managed_subprocess =
  ms_label :: string
  ms_config :: subprocess_config
  ms_current_pid :: u32
  ms_stop_flag :: bool
  ms_restart_history :: "nat list"
  ms_phase :: sub_phase

definition managed_spawn :: "string \<Rightarrow> subprocess_config \<Rightarrow> u32 \<Rightarrow> managed_subprocess \<times> subprocess_event list" where
  "managed_spawn label cfg pid =
     (\<lparr>ms_label = label, ms_config = cfg, ms_current_pid = pid, ms_stop_flag = False, ms_restart_history = [],
       ms_phase = Running\<rparr>, [Spawned pid])"

definition prune_history :: "nat \<Rightarrow> nat \<Rightarrow> nat list \<Rightarrow> nat list" where
  "prune_history window now hist = dropWhile (\<lambda>t. now - t > window) hist"

definition backoff_ms :: "nat \<Rightarrow> u64" where
  "backoff_ms attempt = min (push_bit (attempt - 1) 1000) 30000"

text \<open>The child exited with \<open>code\<close>.\<close>

definition on_exit :: "nat \<Rightarrow> int option \<Rightarrow> managed_subprocess \<Rightarrow> managed_subprocess \<times> subprocess_event list" where
  "on_exit now code m =
     (let hist = prune_history (restart_window (ms_config m)) now (ms_restart_history m) @ [now];
          attempt = length hist;
          m' = m\<lparr>ms_current_pid := 0, ms_restart_history := hist\<rparr>
      in if attempt > max_restarts (ms_config m) then (m'\<lparr>ms_phase := Ended\<rparr>, [Exited code, GiveUp code])
         else (m'\<lparr>ms_phase := BackingOff\<rparr>, [Exited code, Restarting attempt (backoff_ms attempt)]))"

text \<open>The stop signal wins over the exit of the child.\<close>

definition take_stop :: "managed_subprocess \<Rightarrow> managed_subprocess \<times> subprocess_event list" where
  "take_stop m = (if ms_stop_flag m \<and> ms_phase m = Running then (m\<lparr>ms_stop_flag := False, ms_phase := Ended\<rparr>, [Stopped]) else (m, []))"

text \<open>The back-off is over: a failed respawn leaves no child, on which the loop returns.\<close>

definition on_wake :: "u32 option \<Rightarrow> managed_subprocess \<Rightarrow> managed_subprocess \<times> subprocess_event list" where
  "on_wake spawned m =
     (case spawned of
        None \<Rightarrow> (m\<lparr>ms_phase := Ended\<rparr>, [])
      | Some pid \<Rightarrow>
          (case take_stop (m\<lparr>ms_current_pid := pid, ms_phase := Running\<rparr>) of (m', evs) \<Rightarrow> (m', Spawned pid # evs)))"

datatype sub_input = ChildExit nat "int option" | Wake "u32 option" | StopSignal

definition sub_step :: "managed_subprocess \<Rightarrow> sub_input \<Rightarrow> managed_subprocess \<times> subprocess_event list" where
  "sub_step m inp =
     (case inp of
        ChildExit now code \<Rightarrow> if ms_phase m = Running then on_exit now code m else (m, [])
      | Wake spawned \<Rightarrow> if ms_phase m = BackingOff then on_wake spawned m else (m, [])
      | StopSignal \<Rightarrow> if ms_phase m = Ended then (m, []) else take_stop (m\<lparr>ms_stop_flag := True\<rparr>))"

fun sub_run :: "managed_subprocess \<Rightarrow> sub_input list \<Rightarrow> managed_subprocess \<times> subprocess_event list" where
  "sub_run m [] = (m, [])"
| "sub_run m (i # is) = (case sub_step m i of (m', evs) \<Rightarrow> (case sub_run m' is of (m'', evs') \<Rightarrow> (m'', evs @ evs')))"

definition current_pid :: "managed_subprocess \<Rightarrow> u32 option" where
  "current_pid m = (if ms_current_pid m = 0 then None else Some (ms_current_pid m))"

subsection \<open>The registry\<close>

datatype consent_decision = Approved | Denied

record subprocess_manager =
  registry :: "(string, managed_subprocess) hmap"
  consent_decisions :: "(string, consent_decision) hmap"

definition manager_new :: subprocess_manager where
  "manager_new = \<lparr>registry = [], consent_decisions = []\<rparr>"

datatype manager_error = AlreadyRunning | SpawnFailed | NotRunning | NoHost

definition set_consent_decision ::
    "string \<Rightarrow> consent_decision \<Rightarrow> subprocess_manager \<Rightarrow> subprocess_manager \<times> (manager_error, unit) result" where
  "set_consent_decision sid d mg =
     (if map_of (registry mg) ''host'' = None then (mg, Err NoHost)
      else (mg\<lparr>consent_decisions := AList.update sid d (consent_decisions mg)\<rparr>, Ok ()))"

definition take_consent_decision :: "string \<Rightarrow> subprocess_manager \<Rightarrow> subprocess_manager \<times> consent_decision option" where
  "take_consent_decision sid mg =
     (mg\<lparr>consent_decisions := AList.delete sid (consent_decisions mg)\<rparr>, map_of (consent_decisions mg) sid)"

definition manager_start ::
    "u32 option \<Rightarrow> string \<Rightarrow> subprocess_config \<Rightarrow> subprocess_manager \<Rightarrow>
     (subprocess_manager \<times> subprocess_event list) \<times> (manager_error, unit) result" where
  "manager_start spawned label cfg mg =
     (if map_of (registry mg) label \<noteq> None then ((mg, []), Err AlreadyRunning)
      else case spawned of
        None \<Rightarrow> ((mg, []), Err SpawnFailed)
      | Some pid \<Rightarrow>
         (case managed_spawn label cfg pid of
            (m, evs) \<Rightarrow> ((mg\<lparr>registry := AList.update label m (registry mg)\<rparr>, evs), Ok ())))"

definition manager_stop ::
    "string \<Rightarrow> subprocess_manager \<Rightarrow> (subprocess_manager \<times> subprocess_event list) \<times> (manager_error, unit) result" where
  "manager_stop label mg =
     (case map_of (registry mg) label of
        None \<Rightarrow> ((mg, []), Err NotRunning)
      | Some m \<Rightarrow> ((mg\<lparr>registry := AList.delete label (registry mg)\<rparr>, snd (sub_step m StopSignal)), Ok ()))"

definition manager_is_running :: "string \<Rightarrow> subprocess_manager \<Rightarrow> bool" where
  "manager_is_running label mg \<longleftrightarrow> map_of (registry mg) label \<noteq> None"

definition manager_current_pid :: "string \<Rightarrow> subprocess_manager \<Rightarrow> u32 option" where
  "manager_current_pid label mg = Option.bind (map_of (registry mg) label) current_pid"

text \<open>A lifecycle event of a registered process.\<close>

definition manager_input :: "string \<Rightarrow> sub_input \<Rightarrow> subprocess_manager \<Rightarrow> subprocess_manager \<times> subprocess_event list" where
  "manager_input label inp mg =
     (case map_of (registry mg) label of
        None \<Rightarrow> (mg, [])
      | Some m \<Rightarrow> (case sub_step m inp of (m', evs) \<Rightarrow> (mg\<lparr>registry := AList.update label m' (registry mg)\<rparr>, evs)))"

subsection \<open>Restarts\<close>

text \<open>A child that keeps exiting: exit times, each followed by a successful respawn.\<close>

definition crash_inputs :: "(nat \<times> int option \<times> u32) list \<Rightarrow> sub_input list" where
  "crash_inputs xs = concat (map (\<lambda>(t, c, p). [ChildExit t c, Wake (Some p)]) xs)"

definition ok_proc :: "managed_subprocess \<Rightarrow> bool" where
  "ok_proc m \<longleftrightarrow> ms_phase m = Running \<and> \<not> ms_stop_flag m"

lemma prune_keeps: "\<forall>t\<in>set hist. now - t \<le> window \<Longrightarrow> prune_history window now hist = hist"
  by (cases hist) (auto simp: prune_history_def)

lemma sub_run_append: "sub_run m (is @ js) = (case sub_run m is of (m', evs) \<Rightarrow> (case sub_run m' js of (m'', evs') \<Rightarrow> (m'', evs @ evs')))"
  by (induction "is" arbitrary: m) (auto split: prod.splits)

lemma sub_run_ended: "ms_phase m = Ended \<Longrightarrow> sub_run m is = (m, [])"
  by (induction "is") (auto simp: sub_step_def split: sub_input.splits)

lemma crash_restart:
  assumes "ok_proc m" "\<forall>t\<in>set (ms_restart_history m). now - t \<le> restart_window (ms_config m)"
    "length (ms_restart_history m) < max_restarts (ms_config m)"
  shows "sub_run m [ChildExit now c, Wake (Some p)] =
    (m\<lparr>ms_current_pid := p, ms_restart_history := ms_restart_history m @ [now], ms_phase := Running\<rparr>,
     [Exited c, Restarting (Suc (length (ms_restart_history m))) (backoff_ms (Suc (length (ms_restart_history m)))), Spawned p])"
  using assms
  by (simp add: sub_step_def ok_proc_def on_exit_def prune_keeps Let_def on_wake_def take_stop_def)

lemma crash_gives_up:
  assumes "ok_proc m" "\<forall>t\<in>set (ms_restart_history m). now - t \<le> restart_window (ms_config m)"
    "length (ms_restart_history m) = max_restarts (ms_config m)"
  shows "sub_step m (ChildExit now c) =
    (m\<lparr>ms_current_pid := 0, ms_restart_history := ms_restart_history m @ [now], ms_phase := Ended\<rparr>, [Exited c, GiveUp c])"
  using assms by (simp add: sub_step_def ok_proc_def on_exit_def prune_keeps Let_def)

definition spawn_count :: "subprocess_event list \<Rightarrow> nat" where
  "spawn_count evs = length (filter (\<lambda>e. case e of Spawned _ \<Rightarrow> True | _ \<Rightarrow> False) evs)"

lemma spawn_count_append [simp]: "spawn_count (a @ b) = spawn_count a + spawn_count b"
  by (simp add: spawn_count_def)

lemma crash_loop:
  assumes "ok_proc m" "\<forall>t\<in>set (ms_restart_history m) \<union> fst ` set xs. \<forall>t'\<in>fst ` set xs. t' - t \<le> restart_window (ms_config m)"
    "length (ms_restart_history m) \<le> max_restarts (ms_config m)"
    "length xs > max_restarts (ms_config m) - length (ms_restart_history m)"
  shows "\<exists>m' evs c. sub_run m (crash_inputs xs) = (m', evs) \<and> ms_phase m' = Ended \<and> current_pid m' = None \<and>
    spawn_count evs = max_restarts (ms_config m) - length (ms_restart_history m) \<and> evs \<noteq> [] \<and> last evs = GiveUp c"
  using assms
proof (induction xs arbitrary: m)
  case (Cons x xs)
  obtain t c p where x: "x = (t, c, p)" by (cases x)
  have w: "\<forall>t'\<in>set (ms_restart_history m). t - t' \<le> restart_window (ms_config m)" using Cons.prems(2) x by auto
  show ?case
  proof (cases "length (ms_restart_history m) < max_restarts (ms_config m)")
    case True
    let ?m = "m\<lparr>ms_current_pid := p, ms_restart_history := ms_restart_history m @ [t], ms_phase := Running\<rparr>"
    have s: "sub_run m (crash_inputs (x # xs)) = (case sub_run ?m (crash_inputs xs) of (m'', evs') \<Rightarrow>
        (m'', [Exited c, Restarting (Suc (length (ms_restart_history m))) (backoff_ms (Suc (length (ms_restart_history m)))), Spawned p] @ evs'))"
      using sub_run_append[of m "[ChildExit t c, Wake (Some p)]" "crash_inputs xs"] crash_restart[OF Cons.prems(1) w True, of c p]
      by (simp add: crash_inputs_def x)
    have "ok_proc ?m" using Cons.prems(1) by (simp add: ok_proc_def)
    moreover have "\<forall>t\<in>set (ms_restart_history ?m) \<union> fst ` set xs. \<forall>t'\<in>fst ` set xs. t' - t \<le> restart_window (ms_config ?m)"
      using Cons.prems(2) x by simp
    moreover have "length (ms_restart_history ?m) \<le> max_restarts (ms_config ?m)" using True by simp
    moreover have "length xs > max_restarts (ms_config ?m) - length (ms_restart_history ?m)" using Cons.prems(4) True by simp
    ultimately have "\<exists>m' evs c. sub_run ?m (crash_inputs xs) = (m', evs) \<and> ms_phase m' = Ended \<and> current_pid m' = None \<and>
        spawn_count evs = max_restarts (ms_config ?m) - length (ms_restart_history ?m) \<and> evs \<noteq> [] \<and> last evs = GiveUp c"
      by (rule Cons.IH)
    then obtain m' evs c' where
      "sub_run ?m (crash_inputs xs) = (m', evs)" "ms_phase m' = Ended" "current_pid m' = None"
      "spawn_count evs = max_restarts (ms_config m) - Suc (length (ms_restart_history m))" "evs \<noteq> []" "last evs = GiveUp c'"
      by auto
    with s True show ?thesis by (auto simp: spawn_count_def)
  next
    case False
    with Cons.prems(3) have l: "length (ms_restart_history m) = max_restarts (ms_config m)" by simp
    let ?m = "m\<lparr>ms_current_pid := 0, ms_restart_history := ms_restart_history m @ [t], ms_phase := Ended\<rparr>"
    have "sub_run m (crash_inputs (x # xs)) = (?m, [Exited c, GiveUp c])"
      using crash_gives_up[OF Cons.prems(1) w l, of c] sub_run_ended[of ?m "Wake (Some p) # crash_inputs xs"]
      by (simp add: crash_inputs_def x del: sub_run.simps(2) add: sub_run.simps(2)[of m])
    with l show ?thesis by (simp add: spawn_count_def current_pid_def)
  qed
qed simp

text \<open>C24: A crash loop ends. A process that exits again and again within the restart window is respawned
  exactly the configured number of times; the next exit ends the supervision with a give-up event
  and leaves no process id, and nothing that happens later starts it again.\<close>

theorem crash_loop_gives_up:
  assumes "length xs > max_restarts cfg" "\<forall>t\<in>fst ` set xs. \<forall>t'\<in>fst ` set xs. t' - t \<le> restart_window cfg"
  shows "\<exists>m evs c. sub_run (fst (managed_spawn label cfg pid)) (crash_inputs xs) = (m, evs) \<and>
    spawn_count evs = max_restarts cfg \<and> last evs = GiveUp c \<and> current_pid m = None \<and>
    (\<forall>later. sub_run m later = (m, []))"
proof -
  let ?m = "fst (managed_spawn label cfg pid)"
  have "ok_proc ?m" "ms_restart_history ?m = []" "ms_config ?m = cfg" by (simp_all add: managed_spawn_def ok_proc_def)
  with crash_loop[of ?m xs] assms show ?thesis by (fastforce dest: sub_run_ended)
qed

theorem crash_loop_gives_up_witness:
  "\<exists>m evs c. sub_run (fst (managed_spawn ''host'' (default_subprocess_config\<lparr>max_restarts := 1\<rparr>) 7))
       (crash_inputs [(1000, Some 1, 8), (3000, None, 9)]) = (m, evs) \<and> spawn_count evs = 1 \<and> last evs = GiveUp c"
  using crash_loop_gives_up[of "default_subprocess_config\<lparr>max_restarts := 1\<rparr>" "[(1000, Some 1, 8), (3000, None, 9)]" "''host''" 7]
  by (auto simp: default_subprocess_config_def default_restart_window_def)

text \<open>The back-off doubles from one second and is capped at thirty.\<close>

lemma backoff_values: "map backoff_ms [1, 2, 3, 4, 5, 6] = [1000, 2000, 4000, 8000, 16000, 30000]"
  by (simp add: backoff_ms_def min_def push_bit_eq_mult)

text \<open>A stop signal ends the supervision: at once when the child runs, and otherwise after the pending
  back-off, when the respawned child is stopped before anything else happens to it; no respawn
  follows.\<close>

theorem stop_ends_supervision:
  assumes "ms_phase m \<noteq> Ended"
  shows "ms_phase (fst (sub_run m [StopSignal, Wake r])) = Ended \<and>
    (\<forall>later. sub_run (fst (sub_run m [StopSignal, Wake r])) later = (fst (sub_run m [StopSignal, Wake r]), []))"
proof -
  have "ms_phase (fst (sub_run m [StopSignal, Wake r])) = Ended"
    using assms
    by (cases "ms_phase m") (auto simp: sub_step_def take_stop_def on_wake_def split: option.splits)
  then show ?thesis using sub_run_ended by blast
qed

theorem stop_ends_supervision_witness:
  "ms_phase (fst (sub_run (fst (managed_spawn ''host'' default_subprocess_config 7)) [StopSignal, Wake None])) = Ended"
  using stop_ends_supervision[of "fst (managed_spawn ''host'' default_subprocess_config 7)" None] by (simp add: managed_spawn_def)

text \<open>A process whose supervision has ended stays in the registry: it is reported as running and cannot
  be started again before it is stopped.\<close>

lemma ended_still_registered:
  assumes "map_of (registry mg) label = Some m" "ms_phase (fst (sub_step m inp)) = Ended"
  shows "manager_is_running label (fst (manager_input label inp mg)) \<and>
    snd (manager_start sp label cfg (fst (manager_input label inp mg))) = Err AlreadyRunning"
  using assms
  by (auto simp: manager_input_def manager_is_running_def manager_start_def update_conv' split: prod.splits)

subsection \<open>Consent\<close>

text \<open>An operator's decision on a session is delivered once: recorded only while a host is
  registered, it is returned by the next poll for that session and by no later one, and polls for
  other sessions do not see or disturb it. The last decision recorded before a poll counts.\<close>

theorem consent_delivered_once:
  assumes "set_consent_decision sid d mg = (mg1, r)"
  shows "(is_ok r \<longleftrightarrow> manager_is_running ''host'' mg) \<and> (\<not> is_ok r \<longrightarrow> mg1 = mg) \<and>
    (is_ok r \<longrightarrow> (case take_consent_decision sid mg1 of (mg2, got) \<Rightarrow>
       got = Some d \<and> snd (take_consent_decision sid mg2) = None \<and>
       (\<forall>other. other \<noteq> sid \<longrightarrow> snd (take_consent_decision other mg2) = snd (take_consent_decision other mg)) \<and>
       registry mg2 = registry mg))"
  using assms
  by (auto simp: set_consent_decision_def take_consent_decision_def manager_is_running_def update_conv' delete_conv'
      split: if_splits)

theorem consent_delivered_once_witness:
  "\<exists>mg mg1. set_consent_decision ''s'' Approved mg = (mg1, Ok ()) \<and> snd (take_consent_decision ''s'' mg1) = Some Approved \<and>
     snd (take_consent_decision ''s'' (fst (take_consent_decision ''s'' mg1))) = None"
proof -
  let ?mg = "manager_new\<lparr>registry := [(''host'', fst (managed_spawn ''host'' default_subprocess_config 7))]\<rparr>"
  obtain mg1 r where s: "set_consent_decision ''s'' Approved ?mg = (mg1, r)" by fastforce
  moreover have "manager_is_running ''host'' ?mg" by (simp add: manager_is_running_def)
  ultimately show ?thesis
    using consent_delivered_once[OF s] by (cases r) (auto split: prod.splits simp: take_consent_decision_def)
qed

end
