(* ===== verification/Daemon_Ipc.thy ===== *)
theory Daemon_Ipc
  imports Updater Subprocess Text_Parse
begin

text \<open>
  The daemon's IPC service (\<open>qubox-daemon/src/ipc.rs\<close>): the frame header, the connection loop with its
  user check, the dispatch of every request onto the store, the supervisor and the update client, and
  the client side of a call. Bincode, SHA-256 of files, the outcome of spawning and of running the
  command-line client, fresh ids and the clocks are arguments. Error responses carry their code; the
  texts are left out. Files of the synchronisation and files of the updater are two maps.
\<close>

subsection \<open>Frames\<close>

definition IPC_MAGIC :: u32 where "IPC_MAGIC = 0x71756278"
definition IPC_VERSION :: u16 where "IPC_VERSION = 1"
definition IPC_HEADER_SIZE :: nat where "IPC_HEADER_SIZE = 20"
definition IPC_MAX_PAYLOAD :: u32 where "IPC_MAX_PAYLOAD = 0x100000"

record ipc_header =
  ih_magic :: u32
  ih_version :: u16
  ih_kind :: u16
  ih_correlation_id :: u64
  ih_payload_len :: u32

definition ipc_header_new :: "u16 \<Rightarrow> u64 \<Rightarrow> u32 \<Rightarrow> ipc_header" where
  "ipc_header_new kind corr len = \<lparr>ih_magic = IPC_MAGIC, ih_version = IPC_VERSION, ih_kind = kind, ih_correlation_id = corr,
     ih_payload_len = len\<rparr>"

definition ipc_header_encode :: "ipc_header \<Rightarrow> bytes" where
  "ipc_header_encode h = to_le_bytes 4 (ih_magic h) @ to_le_bytes 2 (ih_version h) @ to_le_bytes 2 (ih_kind h) @
     to_le_bytes 8 (ih_correlation_id h) @ to_le_bytes 4 (ih_payload_len h)"

datatype ipc_error = BadMagic u32 | BadVersion u16 | TooLarge u32 | IpcConnect | IpcRead | IpcDecode

definition ipc_header_decode :: "bytes \<Rightarrow> (ipc_error, ipc_header) result" where
  "ipc_header_decode buf =
     (let h = \<lparr>ih_magic = from_le_bytes (take 4 buf), ih_version = from_le_bytes (take 2 (drop 4 buf)),
            ih_kind = from_le_bytes (take 2 (drop 6 buf)), ih_correlation_id = from_le_bytes (take 8 (drop 8 buf)),
            ih_payload_len = from_le_bytes (take 4 (drop 16 buf))\<rparr>
      in if ih_magic h \<noteq> IPC_MAGIC then Err (BadMagic (ih_magic h))
         else if ih_version h \<noteq> IPC_VERSION then Err (BadVersion (ih_version h))
         else if ih_payload_len h > IPC_MAX_PAYLOAD then Err (TooLarge (ih_payload_len h))
         else Ok h)"

subsection \<open>Messages\<close>

record host_config =
  hc_identity_path :: "string option"
  hc_auto_approve_pairing :: bool
  hc_socket_path :: string
  hc_server :: "string option"
  hc_privacy_mode :: "string option"
  hc_enable_privacy_on_session_start :: bool
  hc_stream_mode :: "string option"

record client_config =
  cc_identity_path :: "string option"
  cc_host_peer_id :: "string option"
  cc_socket_path :: string
  cc_server :: "string option"

datatype ipc_request =
    ListPairings | ApprovePairing string bytes | RevokePairing string
  | StartHost host_config | StopHost | GetHostStatus | StartClient client_config | StopClient | GetClientStatus
  | CheckUpdate | ApplyUpdate string | GetUpdateStatus | TurnIssueCredentials string | SignalingForward bytes
  | SubscribeEvents | Quit | Ping | CreateShareLink u64 | KickSession string string
  | SendSessionConsent string consent_decision | GetConsentDecision string
  | SyncAddRule sync_rule | SyncRemoveRule string | SyncListRules | SyncSetEnabled string bool | SyncListJobs
  | SyncListConflicts | SyncResolveConflict string conflict_resolution | SyncListTrackedFiles
  | SyncPushNow string string string | SyncSetLock string bool | SyncFileChanged string "string option" string string
  | SyncListIgnores | SyncSetIgnores "string list" | SyncAddIgnore string | SyncRemoveIgnore string | SyncApplyIgnorePreset string
  | GetSetting string | ReqSetSetting string string | ListSettings | GetOnboarding
  | CompleteOnboarding string string bool "string option"
  | SyncDrainReady | SyncUpdateJob string outbox_status "string option" | SyncGetDashboard | SyncRetryJob string | SyncDismissJob string

record turn_credentials =
  tc_urls :: "string list"
  tc_username :: string
  tc_password :: string
  tc_ttl :: u32

record update_info_public =
  up_version :: string
  up_size_bytes :: u64
  up_manifest_url :: string

datatype ipc_response =
    ListPairingsResponse "pairing_row list" | RUnit | HostStatus bool "string option" "u32 option"
  | ClientStatus bool "string option" "u32 option"
  | UpdateAvailable string string | UpdateStatusResponse string "update_info_public option" "u64 option"
  | TurnCredentialsResponse turn_credentials
  | Pong | ShareLink string string u64 | SyncRules "sync_rule list" | SyncJobs "outbox_job list"
  | SyncConflicts "sync_conflict list" | SyncTrackedFiles "tracked_file list" | SyncJob outbox_job | SyncIgnores "string list"
  | SettingValue string "string option" | SettingsMap "(string \<times> string) list"
  | Onboarding bool "string option" "string option"
  | SyncDashboard "string list" "sync_conflict list" "sync_rule list" "outbox_job list" "(string \<times> string) list"
  | ConsentDecisionResult string "consent_decision option" | RError nat

datatype ipc_event =
    EvPairingRequest string bytes
  | EvHostStateChanged bool "string option" "u32 option" "int option" "string option"
  | EvClientStateChanged bool "string option" "u32 option" "int option" "string option"
  | EvUpdateAvailable string
  | EvSubprocess string subprocess_event
  | EvSessionStateChanged string string string string
  | EvSessionConsentRequested string string "string option"
  | EvError u32 string
  | EvSyncJobUpdated outbox_job
  | EvSyncConflict sync_conflict
  | EvSyncLockChanged string bool

subsection \<open>The daemon\<close>

record daemon =
  dm_state :: state_db
  dm_manager :: subprocess_manager
  dm_checker :: "update_checker option"
  dm_files :: disk
  dm_binaries :: disk_files

datatype cli_outcome = CliSuccess string | CliFailed | CliSpawnError

record 'v ipc_ext =
  ix_update :: "'v upd_ext"
  ix_globs :: globs_json
  ix_io_fails :: "string \<Rightarrow> bool"
  ix_hash :: "string \<Rightarrow> (string \<times> u64) option"
  ix_vars :: "string \<rightharpoonup> string"
  ix_current_exe :: "string option"
  ix_is_file :: "string \<Rightarrow> bool"
  ix_run_cli :: "string \<Rightarrow> string list \<Rightarrow> cli_outcome"
  ix_signaling_url :: "string option"

text \<open>What one request draws: clocks (seconds, milliseconds, monotonic seconds), fresh ids and the
  outcome of spawning.\<close>

record request_env =
  rq_now :: u64
  rq_now_ms :: u64
  rq_mono :: u64
  rq_id1 :: string
  rq_id2 :: string
  rq_spawned :: "u32 option"

definition parent_dir :: "string \<Rightarrow> string option" where
  "parent_dir p =
     (let d = rev (dropWhile (\<lambda>c. c \<noteq> CHR ''/'') (rev p))
      in if p = [] \<or> p = ''/'' then None else Some (if d = ''/'' then d else butlast d))"

definition resolve_managed_bin :: "'v ipc_ext \<Rightarrow> string \<Rightarrow> string" where
  "resolve_managed_bin X name =
     (let key = (if name = ''qubox-client-cli'' then Some ''QUBOX_CLIENT_CLI''
            else if name = ''qubox-host-agent'' then Some ''QUBOX_HOST_AGENT'' else None)
      in case Option.bind key (ix_vars X) of
           Some (c # cs) \<Rightarrow> c # cs
         | _ \<Rightarrow>
           (case Option.bind (ix_current_exe X) parent_dir of
              None \<Rightarrow> name
            | Some d \<Rightarrow>
                if ix_is_file X (push_path d name) then push_path d name
                else (case parent_dir d of
                        None \<Rightarrow> name
                      | Some g \<Rightarrow> if ix_is_file X (push_path g name) then push_path g name else name)))"

definition non_empty :: "string option \<Rightarrow> string option" where
  "non_empty s = (case s of Some (c # cs) \<Rightarrow> Some (c # cs) | _ \<Rightarrow> None)"

definition or_else :: "'a option \<Rightarrow> 'a option \<Rightarrow> 'a option" where
  "or_else a b = (case a of None \<Rightarrow> b | Some x \<Rightarrow> Some x)"

subsection \<open>Share links and kicking, through the command-line client\<close>

definition parse_share_part :: "string \<times> string \<times> u64 \<Rightarrow> string \<Rightarrow> string \<times> string \<times> u64" where
  "parse_share_part = (\<lambda>(code, url, expires) part.
     if starts_with part ''code='' then (strip_prefix ''code='' part, url, expires)
     else if starts_with part ''expires_ms=''
     then (code, url, case parse_u64 (strip_prefix ''expires_ms='' part) of Some n \<Rightarrow> n | None \<Rightarrow> 0)
     else if starts_with part ''url='' then (code, strip_prefix ''url='' part, expires)
     else (code, url, expires))"

definition run_client_cli_share_or_kick ::
    "'v ipc_ext \<Rightarrow> string option \<Rightarrow> string list \<Rightarrow> bool \<Rightarrow> ipc_response" where
  "run_client_cli_share_or_kick X url extra_args parse_share =
     (case non_empty url of
        None \<Rightarrow> RError 501
      | Some server \<Rightarrow>
          (case ix_run_cli X (resolve_managed_bin X ''qubox-client-cli'') ([''--server'', server] @ extra_args) of
             CliSuccess stdout \<Rightarrow>
               if parse_share
               then (case foldl parse_share_part ([], [], 0) (split_whitespace stdout) of
                       (code, url, expires) \<Rightarrow> if code = [] then RError 502 else ShareLink code url expires)
               else RUnit
           | CliFailed \<Rightarrow> RError 502
           | CliSpawnError \<Rightarrow> RError 502))"

definition effective_server :: "'v ipc_ext \<Rightarrow> state_db \<Rightarrow> string option" where
  "effective_server X db = or_else (non_empty (ix_signaling_url X)) (non_empty (get_setting db ''signaling_server''))"

subsection \<open>Handlers\<close>

text \<open>A handler returns the daemon's next state, the events it broadcasts and its response.\<close>

type_synonym handled = "daemon \<times> ipc_event list \<times> ipc_response"

abbreviation on_db :: "(state_db \<Rightarrow> state_db) \<Rightarrow> daemon \<Rightarrow> daemon" where
  "on_db f d \<equiv> d\<lparr>dm_state := f (dm_state d)\<rparr>"

definition do_send_consent :: "string \<Rightarrow> consent_decision \<Rightarrow> daemon \<Rightarrow> handled" where
  "do_send_consent sid decision d =
     (case set_consent_decision sid decision (dm_manager d) of
        (mg, Inr _) \<Rightarrow> (d\<lparr>dm_manager := mg\<rparr>, [], RUnit)
      | (mg, Inl _) \<Rightarrow> (d\<lparr>dm_manager := mg\<rparr>, [], RError 404))"

definition do_get_consent :: "string \<Rightarrow> daemon \<Rightarrow> handled" where
  "do_get_consent sid d =
     (case take_consent_decision sid (dm_manager d) of
        (mg, dec) \<Rightarrow> (d\<lparr>dm_manager := mg\<rparr>, [], ConsentDecisionResult sid dec))"

definition do_approve_pairing :: "request_env \<Rightarrow> string \<Rightarrow> bytes \<Rightarrow> daemon \<Rightarrow> handled" where
  "do_approve_pairing E peer key d =
     (on_db (put_pairing \<lparr>pr_peer_id = peer, pr_public_key = key, pr_paired_at = rq_now E, pr_label = None\<rparr>) d, [], RUnit)"

text \<open>The command line of a managed host; \<open>auto_approve_pairing\<close> is never passed on.\<close>

definition host_args :: "state_db \<Rightarrow> host_config \<Rightarrow> string list" where
  "host_args db c =
     [''--allow-standalone'', ''--ipc-socket'', hc_socket_path c]
     @ (case or_else (hc_server c) (non_empty (get_setting db ''signaling_server'')) of
          Some s \<Rightarrow> [''--server'', s] | None \<Rightarrow> [])
     @ (case non_empty (get_setting db ''device_name'') of Some n \<Rightarrow> [''--name'', n] | None \<Rightarrow> [])
     @ (case non_empty (hc_privacy_mode c) of Some m \<Rightarrow> [''--privacy-mode'', m] | None \<Rightarrow> [])
     @ (if hc_enable_privacy_on_session_start c then [''--enable-privacy-on-session-start''] else [])
     @ (case non_empty (hc_stream_mode c) of Some m \<Rightarrow> [''--stream-mode'', m] | None \<Rightarrow> [])"

definition client_args :: "client_config \<Rightarrow> string list" where
  "client_args c = [''--allow-standalone'', ''--ipc-socket'', cc_socket_path c]
     @ (case cc_server c of Some s \<Rightarrow> [''--server'', s] | None \<Rightarrow> [])"

definition managed_config :: "string \<Rightarrow> string list \<Rightarrow> subprocess_config" where
  "managed_config bin args = default_subprocess_config\<lparr>bin_path := bin, proc_args := args, max_restarts := 3,
     restart_window := 30 * 1000\<rparr>"

definition do_start_host :: "'v ipc_ext \<Rightarrow> request_env \<Rightarrow> host_config \<Rightarrow> daemon \<Rightarrow> handled" where
  "do_start_host X E c d =
     (case manager_start (rq_spawned E) ''host''
             (managed_config (resolve_managed_bin X ''qubox-host-agent'') (host_args (dm_state d) c)) (dm_manager d) of
        ((mg, evs), Inl _) \<Rightarrow> (d\<lparr>dm_manager := mg\<rparr>, map (EvSubprocess ''host'') evs, RError 409)
      | ((mg, evs), Inr _) \<Rightarrow>
          let pid = manager_current_pid ''host'' mg;
              hs = \<lparr>hs_last_seen = rq_now E, hs_current_session_id = None, hs_config_hash = [], hs_last_child_pid = pid\<rparr>
          in (on_db (put_host_state ''default'' hs) (d\<lparr>dm_manager := mg\<rparr>),
              map (EvSubprocess ''host'') evs @ [EvHostStateChanged True None pid None None,
                EvSessionStateChanged ''host-starting'' ''host'' ''starting'' ''host_subprocess_started''], RUnit))"

definition do_stop_host :: "daemon \<Rightarrow> handled" where
  "do_stop_host d =
     (case manager_stop ''host'' (dm_manager d) of
        ((mg, evs), Inl _) \<Rightarrow> (d\<lparr>dm_manager := mg\<rparr>, map (EvSubprocess ''host'') evs, RError 404)
      | ((mg, evs), Inr _) \<Rightarrow>
          (d\<lparr>dm_manager := mg\<rparr>,
           map (EvSubprocess ''host'') evs @ [EvHostStateChanged False None None None None,
             EvSessionStateChanged ''host-stopped'' ''host'' ''stopped'' ''host_subprocess_stopped''], RUnit))"

definition do_start_client :: "'v ipc_ext \<Rightarrow> request_env \<Rightarrow> client_config \<Rightarrow> daemon \<Rightarrow> handled" where
  "do_start_client X E c d =
     (case manager_start (rq_spawned E) ''client''
             (managed_config (resolve_managed_bin X ''qubox-client-cli'') (client_args c)) (dm_manager d) of
        ((mg, evs), Inl _) \<Rightarrow> (d\<lparr>dm_manager := mg\<rparr>, map (EvSubprocess ''client'') evs, RError 409)
      | ((mg, evs), Inr _) \<Rightarrow>
          let pid = manager_current_pid ''client'' mg;
              cs = \<lparr>cl_last_seen = rq_now E, cl_current_session_id = None, cl_last_child_pid = pid\<rparr>
          in (on_db (put_client_state ''default'' cs) (d\<lparr>dm_manager := mg\<rparr>),
              map (EvSubprocess ''client'') evs @ [EvClientStateChanged True None pid None None,
                EvSessionStateChanged ''client-starting'' ''client'' ''starting'' ''client_subprocess_started''], RUnit))"

definition do_stop_client :: "daemon \<Rightarrow> handled" where
  "do_stop_client d =
     (case manager_stop ''client'' (dm_manager d) of
        ((mg, evs), Inl _) \<Rightarrow> (d\<lparr>dm_manager := mg\<rparr>, map (EvSubprocess ''client'') evs, RError 404)
      | ((mg, evs), Inr _) \<Rightarrow>
          (d\<lparr>dm_manager := mg\<rparr>,
           map (EvSubprocess ''client'') evs @ [EvClientStateChanged False None None None None,
             EvSessionStateChanged ''client-stopped'' ''client'' ''stopped'' ''client_subprocess_stopped''], RUnit))"

subsection \<open>Updates\<close>

definition update_info_to_response :: "u64 \<Rightarrow> update_info \<Rightarrow> ipc_response" where
  "update_info_to_response now info =
     (if ui_available info then UpdateAvailable (ui_version info) (ui_manifest_url info)
      else UpdateStatusResponse (ui_version info) None (Some now))"

text \<open>The update client holds the same store as the dispatcher.\<close>

definition shared_checker :: "daemon \<Rightarrow> update_checker option" where
  "shared_checker d = map_option (\<lambda>u. u\<lparr>uc_state := dm_state d\<rparr>) (dm_checker d)"

definition put_checker :: "update_checker option \<Rightarrow> daemon \<Rightarrow> daemon" where
  "put_checker c d =
     (case c of None \<Rightarrow> d | Some u \<Rightarrow> d\<lparr>dm_checker := Some u, dm_state := uc_state u\<rparr>)"

definition do_check_update :: "('v::linorder) ipc_ext \<Rightarrow> request_env \<Rightarrow> daemon \<Rightarrow> handled" where
  "do_check_update X E d =
     (case shared_checker d of
        None \<Rightarrow> (d, [], RError 501)
      | Some u \<Rightarrow>
          (case check_for_update (ix_update X) (rq_mono E) u of
             (u', Inr info) \<Rightarrow> (put_checker (Some u') d, [], update_info_to_response (rq_now E) info)
           | (u', Inl _) \<Rightarrow> (put_checker (Some u') d, [], RError 502)))"

definition do_apply_update :: "'v ipc_ext \<Rightarrow> request_env \<Rightarrow> string \<Rightarrow> daemon \<Rightarrow> handled" where
  "do_apply_update X E version d =
     (case apply_update_request (ix_update X) (rq_now_ms E)
             (case ix_current_exe X of Some p \<Rightarrow> p | None \<Rightarrow> ''qubox'') version (shared_checker d) (dm_binaries d) of
        (c, fs, versions, reply) \<Rightarrow>
          ((put_checker c d)\<lparr>dm_binaries := fs\<rparr>, map EvUpdateAvailable versions,
           case reply of ReplyUnit \<Rightarrow> RUnit | ReplyError n \<Rightarrow> RError n))"

definition do_get_update_status :: "request_env \<Rightarrow> daemon \<Rightarrow> handled" where
  "do_get_update_status E d =
     (case shared_checker d of
        None \<Rightarrow> (d, [], RError 501)
      | Some u \<Rightarrow>
          let st = get_status u
          in (d, [], UpdateStatusResponse (us_current_version st)
                (map_option (\<lambda>i. \<lparr>up_version = ui_version i, up_size_bytes = ui_size_bytes i, up_manifest_url = ui_manifest_url i\<rparr>)
                   (us_available_update st))
                (map_option (\<lambda>t. saturating_sub (rq_now E) (saturating_sub (rq_mono E) t)) (us_last_check st))))"

subsection \<open>File synchronisation\<close>

definition do_add_rule :: "request_env \<Rightarrow> sync_rule \<Rightarrow> daemon \<Rightarrow> handled" where
  "do_add_rule E rule d =
     (let rule = (if sr_rule_id rule = [] then rule\<lparr>sr_rule_id := rq_id1 E\<rparr> else rule)
      in (on_db (put_sync_rule rule) d, [], RUnit))"

definition do_set_enabled :: "string \<Rightarrow> bool \<Rightarrow> daemon \<Rightarrow> handled" where
  "do_set_enabled k enabled d =
     (case set_sync_rule_enabled k enabled (dm_state d) of
        (db, True) \<Rightarrow> (d\<lparr>dm_state := db\<rparr>, [], RUnit)
      | (db, False) \<Rightarrow> (d\<lparr>dm_state := db\<rparr>, [], RError 404))"

definition do_resolve_conflict :: "'v ipc_ext \<Rightarrow> string \<Rightarrow> conflict_resolution \<Rightarrow> daemon \<Rightarrow> handled" where
  "do_resolve_conflict X k resolution d =
     (case resolve_sync_conflict (ix_io_fails X) k resolution (dm_files d, dm_state d) of
        ((fs, db), Some _) \<Rightarrow> (d\<lparr>dm_state := db, dm_files := fs\<rparr>, [], RUnit)
      | ((fs, db), None) \<Rightarrow> (d\<lparr>dm_state := db, dm_files := fs\<rparr>, [], RError 404))"

definition do_push_now :: "'v ipc_ext \<Rightarrow> request_env \<Rightarrow> string \<Rightarrow> string \<Rightarrow> string \<Rightarrow> daemon \<Rightarrow> handled" where
  "do_push_now X E local_path target_peer node_id d =
     (case enqueue_manual_push (ix_hash X) (rq_id1 E) (rq_id2 E) (rq_now E) local_path target_peer node_id (dm_state d) of
        (db, Some job) \<Rightarrow> (d\<lparr>dm_state := db\<rparr>, [EvSyncJobUpdated job], SyncJob job)
      | (db, None) \<Rightarrow> (d\<lparr>dm_state := db\<rparr>, [], RError 400))"

definition do_set_lock :: "string \<Rightarrow> bool \<Rightarrow> daemon \<Rightarrow> handled" where
  "do_set_lock file_id locked d =
     (case get_tracked_file (dm_state d) file_id of
        None \<Rightarrow> (d, [], RError 404)
      | Some tf \<Rightarrow>
          (on_db (put_tracked_file (tf\<lparr>tf_sync_state := if locked then LockedByProcess else SyncPending\<rparr>)) d,
           [EvSyncLockChanged file_id locked], RUnit))"

definition do_ignores :: "(state_db \<Rightarrow> state_db \<times> string list) \<Rightarrow> daemon \<Rightarrow> handled" where
  "do_ignores f d = (case f (dm_state d) of (db, globs) \<Rightarrow> (d\<lparr>dm_state := db\<rparr>, [], SyncIgnores globs))"

definition do_apply_preset :: "'v ipc_ext \<Rightarrow> string \<Rightarrow> daemon \<Rightarrow> handled" where
  "do_apply_preset X name d =
     (case apply_ignore_preset (ix_globs X) name (dm_state d) of
        (db, Some globs) \<Rightarrow> (d\<lparr>dm_state := db\<rparr>, [], SyncIgnores globs)
      | (db, None) \<Rightarrow> (d\<lparr>dm_state := db\<rparr>, [], RError 400))"

definition ascii_lower :: "char \<Rightarrow> char" where
  "ascii_lower c = (let n = of_char c :: nat in if 65 \<le> n \<and> n \<le> 90 then char_of (n + 32) else c)"

definition do_get_onboarding :: "daemon \<Rightarrow> handled" where
  "do_get_onboarding d =
     (d, [], Onboarding
        (case get_setting (dm_state d) ''onboarding_complete'' of
           Some v \<Rightarrow> v = ''1'' \<or> map ascii_lower v = ''true'' | None \<Rightarrow> False)
        (get_setting (dm_state d) ''device_name'') (get_setting (dm_state d) ''signaling_server''))"

definition do_complete_onboarding ::
    "'v ipc_ext \<Rightarrow> string \<Rightarrow> string \<Rightarrow> bool \<Rightarrow> string option \<Rightarrow> daemon \<Rightarrow> handled" where
  "do_complete_onboarding X dev_name server cloud_mode accounts_url d =
     (let db = complete_onboarding dev_name server cloud_mode accounts_url (dm_state d)
      in (d\<lparr>dm_state := fst (get_global_ignores (ix_globs X) db)\<rparr>, [], RUnit))"

definition do_update_job :: "string \<Rightarrow> outbox_status \<Rightarrow> string option \<Rightarrow> daemon \<Rightarrow> handled" where
  "do_update_job job_id status last_error d =
     (case get_outbox_job (dm_state d) job_id of
        None \<Rightarrow> (d, [], RError 404)
      | Some job \<Rightarrow>
          let job' = job\<lparr>ob_status := status, ob_last_error := last_error,
                ob_retry_count := if status = OutboxFailed then saturating_add (ob_retry_count job) 1 else ob_retry_count job\<rparr>
          in (on_db (put_outbox_job job') d, [EvSyncJobUpdated job'], SyncJob job'))"

definition do_retry_job :: "string \<Rightarrow> daemon \<Rightarrow> handled" where
  "do_retry_job job_id d =
     (case retry_outbox_job job_id (dm_state d) of
        (db, Some job) \<Rightarrow> (d\<lparr>dm_state := db\<rparr>, [EvSyncJobUpdated job], SyncJob job)
      | (db, None) \<Rightarrow> (d\<lparr>dm_state := db\<rparr>, [], RError 404))"

definition do_get_dashboard :: "'v ipc_ext \<Rightarrow> daemon \<Rightarrow> handled" where
  "do_get_dashboard X d =
     (let db = dm_state d;
          settings = list_settings db; conflicts = list_sync_conflicts db; rules = list_sync_rules db; jobs = list_outbox_jobs db
      in case get_global_ignores (ix_globs X) db of (db', ignores) \<Rightarrow>
           (d\<lparr>dm_state := db'\<rparr>, [], SyncDashboard ignores conflicts rules
              (filter (\<lambda>j. ob_status j \<in> {Queued, OutboxFailed, InFlight}) jobs) settings))"

definition do_file_changed ::
    "'v ipc_ext \<Rightarrow> request_env \<Rightarrow> string \<Rightarrow> string option \<Rightarrow> string \<Rightarrow> string \<Rightarrow> daemon \<Rightarrow> handled" where
  "do_file_changed X E local_path rule_id node_id target_peer d =
     (case get_global_ignores (ix_globs X) (dm_state d) of (db, ignores) \<Rightarrow>
      let d = d\<lparr>dm_state := db\<rparr> in
      if should_ignore_path local_path ignores then (d, [], RUnit)
      else (case ix_hash X local_path of
        None \<Rightarrow> (d, [], RError 400)
      | Some (h, sz) \<Rightarrow>
          let queue = (\<lambda>tf. let job = \<lparr>ob_job_id = rq_id2 E, ob_file_id = tf_file_id tf, ob_target_peer = target_peer,
                      ob_status = Queued, ob_retry_count = 0, ob_queued_at = rq_now E, ob_last_error = None\<rparr>
                in (on_db (\<lambda>db. put_outbox_job job (put_tracked_file tf db)) d, [EvSyncJobUpdated job], SyncJob job))
          in (case find (\<lambda>f. tf_local_path f = local_path) (list_tracked_files db) of
                Some tf \<Rightarrow>
                  if tf_sync_state tf = LockedByProcess \<or> tf_content_hash tf = h then (d, [], RUnit)
                  else queue (tf\<lparr>tf_vector_clock := clock_bump (tf_vector_clock tf) node_id, tf_content_hash := h,
                         tf_size_bytes := sz, tf_sync_state := SyncPending, tf_updated_at := rq_now E\<rparr>)
              | None \<Rightarrow>
                  queue \<lparr>tf_file_id = rq_id1 E, tf_local_path = local_path, tf_vector_clock = clock_bump [] node_id,
                    tf_content_hash = h, tf_size_bytes = sz, tf_sync_state = SyncPending, tf_rule_id = rule_id,
                    tf_updated_at = rq_now E\<rparr>)))"

subsection \<open>Dispatch\<close>

text \<open>\<open>SubscribeEvents\<close> answers with its acknowledgement here; the event stream that follows it is
  written by the connection.\<close>

fun dispatch_request :: "('v::linorder) ipc_ext \<Rightarrow> request_env \<Rightarrow> ipc_request \<Rightarrow> daemon \<Rightarrow> handled" where
  "dispatch_request X E (CreateShareLink ttl) d =
     (d, [], run_client_cli_share_or_kick X (effective_server X (dm_state d)) [''create-share-link'', ''--ttl-secs'', dec_text (unat ttl)] True)"
| "dispatch_request X E (KickSession sid reason) d =
     (d, [], run_client_cli_share_or_kick X (effective_server X (dm_state d))
        [''kick-session'', ''--session'', sid, ''--reason'', reason] False)"
| "dispatch_request X E (SendSessionConsent sid decision) d = do_send_consent sid decision d"
| "dispatch_request X E (GetConsentDecision sid) d = do_get_consent sid d"
| "dispatch_request X E Ping d = (d, [], Pong)"
| "dispatch_request X E Quit d = (d, [], RUnit)"
| "dispatch_request X E ListPairings d = (d, [], ListPairingsResponse (list_pairings (dm_state d)))"
| "dispatch_request X E (ApprovePairing peer key) d = do_approve_pairing E peer key d"
| "dispatch_request X E (RevokePairing peer) d = (on_db (delete_pairing peer) d, [], RUnit)"
| "dispatch_request X E (StartHost c) d = do_start_host X E c d"
| "dispatch_request X E StopHost d = do_stop_host d"
| "dispatch_request X E (StartClient c) d = do_start_client X E c d"
| "dispatch_request X E StopClient d = do_stop_client d"
| "dispatch_request X E GetHostStatus d =
     (d, [], HostStatus (manager_is_running ''host'' (dm_manager d)) None (manager_current_pid ''host'' (dm_manager d)))"
| "dispatch_request X E GetClientStatus d =
     (d, [], ClientStatus (manager_is_running ''client'' (dm_manager d)) None (manager_current_pid ''client'' (dm_manager d)))"
| "dispatch_request X E CheckUpdate d = do_check_update X E d"
| "dispatch_request X E (ApplyUpdate version) d = do_apply_update X E version d"
| "dispatch_request X E GetUpdateStatus d = do_get_update_status E d"
| "dispatch_request X E SubscribeEvents d = (d, [], RUnit)"
| "dispatch_request X E (SyncAddRule rule) d = do_add_rule E rule d"
| "dispatch_request X E (SyncRemoveRule k) d = (on_db (delete_sync_rule k) d, [], RUnit)"
| "dispatch_request X E SyncListRules d = (d, [], SyncRules (list_sync_rules (dm_state d)))"
| "dispatch_request X E (SyncSetEnabled k enabled) d = do_set_enabled k enabled d"
| "dispatch_request X E SyncListJobs d = (d, [], SyncJobs (list_outbox_jobs (dm_state d)))"
| "dispatch_request X E SyncListConflicts d = (d, [], SyncConflicts (list_sync_conflicts (dm_state d)))"
| "dispatch_request X E (SyncResolveConflict k resolution) d = do_resolve_conflict X k resolution d"
| "dispatch_request X E SyncListTrackedFiles d = (d, [], SyncTrackedFiles (list_tracked_files (dm_state d)))"
| "dispatch_request X E (SyncPushNow p peer node) d = do_push_now X E p peer node d"
| "dispatch_request X E (SyncSetLock file_id locked) d = do_set_lock file_id locked d"
| "dispatch_request X E SyncListIgnores d = do_ignores (get_global_ignores (ix_globs X)) d"
| "dispatch_request X E (SyncSetIgnores globs) d = do_ignores (\<lambda>db. (set_global_ignores (ix_globs X) globs db, globs)) d"
| "dispatch_request X E (SyncAddIgnore p) d = do_ignores (add_global_ignore (ix_globs X) p) d"
| "dispatch_request X E (SyncRemoveIgnore p) d = do_ignores (remove_global_ignore (ix_globs X) p) d"
| "dispatch_request X E (SyncApplyIgnorePreset name) d = do_apply_preset X name d"
| "dispatch_request X E (GetSetting k) d = (d, [], SettingValue k (get_setting (dm_state d) k))"
| "dispatch_request X E (ReqSetSetting k v) d = (on_db (set_setting k v) d, [], RUnit)"
| "dispatch_request X E ListSettings d = (d, [], SettingsMap (list_settings (dm_state d)))"
| "dispatch_request X E GetOnboarding d = do_get_onboarding d"
| "dispatch_request X E (CompleteOnboarding n s c u) d = do_complete_onboarding X n s c u d"
| "dispatch_request X E SyncDrainReady d = (d, [], SyncJobs (list_pending_outbox (dm_state d)))"
| "dispatch_request X E (SyncUpdateJob k status err) d = do_update_job k status err d"
| "dispatch_request X E (SyncRetryJob k) d = do_retry_job k d"
| "dispatch_request X E (SyncDismissJob k) d = (on_db (delete_outbox_job k) d, [], RUnit)"
| "dispatch_request X E SyncGetDashboard d = do_get_dashboard X d"
| "dispatch_request X E (SyncFileChanged p rule node peer) d = do_file_changed X E p rule node peer d"
| "dispatch_request X E (TurnIssueCredentials s) d = (d, [], RError 501)"
| "dispatch_request X E (SignalingForward b) d = (d, [], RError 501)"

subsection \<open>Connections\<close>

text \<open>Bincode, as the service uses it.\<close>

record ipc_codec =
  enc_req :: "ipc_request \<Rightarrow> bytes"
  dec_req :: "bytes \<Rightarrow> ipc_request option"
  enc_resp :: "ipc_response \<Rightarrow> bytes"
  dec_resp :: "bytes \<Rightarrow> ipc_response option"
  enc_event :: "ipc_event \<Rightarrow> bytes"

definition ipc_frame :: "u16 \<Rightarrow> u64 \<Rightarrow> bytes \<Rightarrow> bytes" where
  "ipc_frame kind corr payload = ipc_header_encode (ipc_header_new kind corr (of_nat (length payload))) @ payload"

definition send_response :: "ipc_codec \<Rightarrow> u64 \<Rightarrow> ipc_response \<Rightarrow> bytes" where
  "send_response C corr resp = ipc_frame 2 corr (enc_resp C resp)"

text \<open>What a subscriber's receiver yields until the broadcast closes.\<close>

datatype received = RecvEvent ipc_event | RecvLagged nat

definition event_stream :: "ipc_codec \<Rightarrow> u64 \<Rightarrow> received list \<Rightarrow> bytes" where
  "event_stream C corr feed =
     concat (map (\<lambda>r. case r of RecvEvent ev \<Rightarrow> ipc_frame 3 corr (enc_event C ev) | RecvLagged _ \<Rightarrow> []) feed)
     @ send_response C corr RUnit"

text \<open>What a connection meets: the environment of its \<open>n\<close>-th request, and what the receiver yields if
  that request subscribes. Writes to the socket succeed.\<close>

record conn_env =
  cn_env :: "nat \<Rightarrow> request_env"
  cn_feed :: "nat \<Rightarrow> received list"

text \<open>\<open>read_exact\<close> on the bytes still to come.\<close>

definition read_exact :: "nat \<Rightarrow> bytes \<Rightarrow> (bytes \<times> bytes) option" where
  "read_exact n bs = (if length bs < n then None else Some (take n bs, drop n bs))"

text \<open>One frame: the header, then the payload. \<open>None\<close> ends the connection.\<close>

definition read_request_frame :: "bytes \<Rightarrow> (ipc_header \<times> bytes \<times> bytes) option" where
  "read_request_frame bs =
     (case read_exact IPC_HEADER_SIZE bs of
        None \<Rightarrow> None
      | Some (hb, rest) \<Rightarrow>
          (case ipc_header_decode hb of
             Inl _ \<Rightarrow> None
           | Inr h \<Rightarrow>
               (case read_exact (unat (ih_payload_len h)) rest of
                  None \<Rightarrow> None
                | Some (payload, rest') \<Rightarrow> Some (h, payload, rest'))))"

lemma read_request_frame_shorter: "read_request_frame bs = Some (h, payload, rest) \<Longrightarrow> length rest < length bs"
  by (auto simp: read_request_frame_def read_exact_def IPC_HEADER_SIZE_def split: if_splits sum.splits)

function connection_loop ::
    "('v::linorder) ipc_ext \<Rightarrow> ipc_codec \<Rightarrow> conn_env \<Rightarrow> nat \<Rightarrow> daemon \<Rightarrow> bytes \<Rightarrow> daemon \<times> ipc_event list \<times> bytes" where
  "connection_loop X C N n d bs =
     (case read_request_frame bs of
        None \<Rightarrow> (d, [], [])
      | Some (h, payload, rest) \<Rightarrow>
          if ih_kind h = 1
          then (case dec_req C payload of
                  None \<Rightarrow> (d, [], [])
                | Some req \<Rightarrow>
                    (case dispatch_request X (cn_env N n) req d of
                       (d1, evs1, resp) \<Rightarrow>
                         let out1 = send_response C (ih_correlation_id h) resp @
                               (if req = SubscribeEvents then event_stream C (ih_correlation_id h) (cn_feed N n) else [])
                         in (case connection_loop X C N (Suc n) d1 rest of
                               (d2, evs2, out2) \<Rightarrow> (d2, evs1 @ evs2, out1 @ out2))))
          else (d, [], []))"
  by pat_completeness auto
termination
  by (relation "measure (\<lambda>(X, C, N, n, d, bs). length bs)") (auto dest: read_request_frame_shorter)

declare connection_loop.simps [simp del]

text \<open>On Linux the peer's user must be the daemon's (\<open>peer\<close> is \<open>None\<close> when its credentials cannot be read).\<close>

definition handle_connection ::
    "('v::linorder) ipc_ext \<Rightarrow> ipc_codec \<Rightarrow> conn_env \<Rightarrow> u32 \<Rightarrow> u32 option \<Rightarrow> daemon \<Rightarrow> bytes \<Rightarrow> daemon \<times> ipc_event list \<times> bytes" where
  "handle_connection X C N daemon_uid peer d bs =
     (case peer of
        None \<Rightarrow> (d, [], [])
      | Some uid \<Rightarrow>
          if uid \<noteq> daemon_uid then (d, [], ipc_header_encode (ipc_header_new 2 0 0))
          else connection_loop X C N 0 d bs)"

subsection \<open>The client side\<close>

definition request_bytes :: "ipc_codec \<Rightarrow> u64 \<Rightarrow> ipc_request \<Rightarrow> bytes" where
  "request_bytes C corr req = ipc_frame 1 corr (enc_req C req)"

text \<open>Reading the reply; \<open>bs\<close> is what the daemon writes before it closes.\<close>

definition read_reply :: "ipc_codec \<Rightarrow> bytes \<Rightarrow> (ipc_error, ipc_response) result" where
  "read_reply C bs =
     (case read_exact IPC_HEADER_SIZE bs of
        None \<Rightarrow> Err IpcRead
      | Some (hb, rest) \<Rightarrow>
          (case ipc_header_decode hb of
             Inl e \<Rightarrow> Err e
           | Inr h \<Rightarrow>
               (case read_exact (unat (ih_payload_len h)) rest of
                  None \<Rightarrow> Err IpcRead
                | Some (payload, _) \<Rightarrow>
                    (case dec_resp C payload of None \<Rightarrow> Err IpcDecode | Some r \<Rightarrow> Ok r))))"

text \<open>\<open>server\<close> maps what the client writes to what it can read (\<open>None\<close>: no connection).\<close>

definition ipc_request_call :: "ipc_codec \<Rightarrow> (bytes \<Rightarrow> bytes) option \<Rightarrow> u64 \<Rightarrow> ipc_request \<Rightarrow> (ipc_error, ipc_response) result" where
  "ipc_request_call C server corr req =
     (case server of None \<Rightarrow> Err IpcConnect | Some f \<Rightarrow> read_reply C (f (request_bytes C corr req)))"

text \<open>The probe only fails when the connection or the deadline does: \<open>answered\<close> says that the daemon wrote
  or closed within the deadline, and the value the read produced is not looked at.\<close>

definition check_daemon_running :: "ipc_codec \<Rightarrow> (bytes \<Rightarrow> bytes) option \<Rightarrow> bool \<Rightarrow> bool" where
  "check_daemon_running C server answered \<longleftrightarrow> server \<noteq> None \<and> answered"

subsection \<open>Calls\<close>

lemma header_new_sel [simp]:
  "ih_kind (ipc_header_new kind corr len) = kind" "ih_correlation_id (ipc_header_new kind corr len) = corr"
  "ih_payload_len (ipc_header_new kind corr len) = len"
  by (simp_all add: ipc_header_new_def)

lemma ipc_header_roundtrip:
  "length (ipc_header_encode h) = IPC_HEADER_SIZE"
  "ipc_header_decode (ipc_header_encode (ipc_header_new kind corr len)) =
     (if len > IPC_MAX_PAYLOAD then Err (TooLarge len) else Ok (ipc_header_new kind corr len))"
  by (simp_all add: ipc_header_encode_def ipc_header_decode_def ipc_header_new_def IPC_HEADER_SIZE_def Let_def)

lemma read_exact_append [simp]: "read_exact (length a) (a @ b) = Some (a, b)" "n = length a \<Longrightarrow> read_exact n (a @ b) = Some (a, b)"
  by (simp_all add: read_exact_def)

lemma small_len:
  assumes "length p \<le> unat IPC_MAX_PAYLOAD"
  shows "unat (of_nat (length p) :: u32) = length p" "\<not> (of_nat (length p) :: u32) > IPC_MAX_PAYLOAD"
proof -
  have "length p < 2 ^ 32" using assms by (simp add: IPC_MAX_PAYLOAD_def)
  then show eq: "unat (of_nat (length p) :: u32) = length p" by (simp add: unat_of_nat take_bit_nat_eq_self)
  show "\<not> (of_nat (length p) :: u32) > IPC_MAX_PAYLOAD"
    unfolding word_less_nat_alt eq using assms by simp
qed

lemma read_frame:
  assumes "length p \<le> unat IPC_MAX_PAYLOAD"
  shows "read_request_frame (ipc_frame kind corr p @ rest) = Some (ipc_header_new kind corr (of_nat (length p)), p, rest)"
  using small_len[OF assms] by (simp add: read_request_frame_def ipc_frame_def ipc_header_roundtrip)

lemma read_reply_frame:
  assumes "length (enc_resp C r) \<le> unat IPC_MAX_PAYLOAD" "dec_resp C (enc_resp C r) = Some r"
  shows "read_reply C (send_response C corr r @ rest) = Ok r"
  using small_len[OF assms(1)] assms(2)
  by (simp add: read_reply_def send_response_def ipc_frame_def ipc_header_roundtrip)

text \<open>A response above the payload limit is written, and its own reader refuses it.\<close>

lemma oversized_reply_refused:
  assumes "length (enc_resp C r) > unat IPC_MAX_PAYLOAD" "length (enc_resp C r) < 2 ^ 32"
  shows "read_reply C (send_response C corr r) = Err (TooLarge (of_nat (length (enc_resp C r))))"
proof -
  have "unat (of_nat (length (enc_resp C r)) :: u32) = length (enc_resp C r)"
    using assms(2) by (simp add: unat_of_nat take_bit_nat_eq_self)
  then have "(of_nat (length (enc_resp C r)) :: u32) > IPC_MAX_PAYLOAD" using assms(1) by (simp add: word_less_nat_alt)
  then show ?thesis by (simp add: read_reply_def send_response_def ipc_frame_def ipc_header_roundtrip)
qed

text \<open>What a connection should do: its requests in order, each answered under its own id.\<close>

fun run_requests ::
    "('v::linorder) ipc_ext \<Rightarrow> ipc_codec \<Rightarrow> conn_env \<Rightarrow> nat \<Rightarrow> daemon \<Rightarrow> (u64 \<times> ipc_request) list \<Rightarrow> daemon \<times> ipc_event list \<times> bytes" where
  "run_requests X C N n d [] = (d, [], [])"
| "run_requests X C N n d ((corr, req) # rs) =
     (case dispatch_request X (cn_env N n) req d of
        (d1, evs1, resp) \<Rightarrow>
          (case run_requests X C N (Suc n) d1 rs of
             (d2, evs2, out2) \<Rightarrow>
               (d2, evs1 @ evs2,
                send_response C corr resp @ (if req = SubscribeEvents then event_stream C corr (cn_feed N n) else []) @ out2)))"

definition sendable :: "ipc_codec \<Rightarrow> ipc_request \<Rightarrow> bool" where
  "sendable C req \<longleftrightarrow> dec_req C (enc_req C req) = Some req \<and> length (enc_req C req) \<le> unat IPC_MAX_PAYLOAD"

lemma loop_runs:
  assumes "\<forall>(_, req)\<in>set rs. sendable C req" "read_request_frame tail = None"
  shows "connection_loop X C N n d (concat (map (\<lambda>(corr, req). request_bytes C corr req) rs) @ tail) = run_requests X C N n d rs"
  using assms(1)
proof (induction rs arbitrary: n d)
  case Nil
  then show ?case using assms(2) by (simp add: connection_loop.simps)
next
  case (Cons cr rs)
  obtain corr req where cr: "cr = (corr, req)" by fastforce
  with Cons.prems have req: "dec_req C (enc_req C req) = Some req" "length (enc_req C req) \<le> unat IPC_MAX_PAYLOAD"
    by (auto simp: sendable_def)
  define more where "more = concat (map (\<lambda>(corr, req). request_bytes C corr req) rs) @ tail"
  have IH: "connection_loop X C N m d' more = run_requests X C N m d' rs" for m d'
    unfolding more_def using Cons by simp
  have "connection_loop X C N n d (request_bytes C corr req @ more) = run_requests X C N n d (cr # rs)"
    unfolding cr
    by (subst connection_loop.simps)
      (simp add: request_bytes_def read_frame[OF req(2)] req(1) IH Let_def split: prod.split)
  then show ?case by (simp add: cr more_def)
qed

lemma no_frame_Nil: "read_request_frame [] = None"
  by (simp add: read_request_frame_def read_exact_def IPC_HEADER_SIZE_def)




subsection \<open>The store behind the service\<close>

lemma checker_db_ok:
  assumes "db_ok (uc_state u)"
  shows "db_ok (uc_state (fst (check_for_update X now u)))"
proof -
  have root: "db_ok (uc_state (fst (ensure_root X u)))" if "db_ok (uc_state u)" for u
    using that by (simp add: ensure_root_def Let_def db_ok_simple_ops split: option.split)
  have "db_ok (uc_state (fst (check_fresh X now u)))" if "db_ok (uc_state u)" for u
    unfolding check_fresh_def
    by (rule bind_st_inv)
      (use root[of "u\<lparr>uc_last_check := Some now\<rparr>"] that in
        \<open>auto simp: cache_repo_metadata_def Let_def db_ok_simple_ops split: option.split sum.split\<close>)
  then show ?thesis using assms by (auto simp: check_for_update_def split: option.split)
qed

lemma apply_db_ok:
  assumes "db_ok (dm_state d)"
  shows "db_ok (dm_state (fst (do_apply_update X E v d)))"
proof -
  have "db_ok (uc_state (fst (fst (apply_update Y now staged cur (u, fs)))))" if "db_ok (uc_state u)"
    for Y :: "'a upd_ext" and now staged cur u fs
    using that by (auto simp: apply_update_def Let_def db_ok_simple_ops split: option.split if_splits)
  note ap = this
  show ?thesis
  proof (cases "shared_checker d")
    case None
    then show ?thesis using assms by (simp add: do_apply_update_def apply_update_request_def put_checker_def)
  next
    case (Some u)
    then have u: "db_ok (uc_state u)" using assms by (auto simp: shared_checker_def)
    show ?thesis
      using ap[OF u] Some u
      by (auto simp: do_apply_update_def apply_update_request_def Let_def put_checker_def split: prod.splits sum.splits)
        (metis fst_conv)+
  qed
qed

lemma put_checker_ok: "db_ok (uc_state u) \<Longrightarrow> db_ok (dm_state (put_checker (Some u) d))"
  by (simp add: put_checker_def)

lemma check_db_ok:
  assumes "db_ok (dm_state d)"
  shows "db_ok (dm_state (fst (do_check_update X E d)))"
proof (cases "shared_checker d")
  case (Some u)
  then have "db_ok (uc_state u)" using assms by (auto simp: shared_checker_def)
  from checker_db_ok[OF this, of "ix_update X" "rq_mono E"] Some show ?thesis
    by (auto simp: do_check_update_def put_checker_ok split: prod.split sum.split)
qed (use assms in \<open>simp add: do_check_update_def\<close>)

lemma ignores_db_ok:
  "db_ok (fst (f (dm_state d))) \<Longrightarrow> db_ok (dm_state (fst (do_ignores f d)))"
  by (auto simp: do_ignores_def split: prod.split)

lemma sync_db_ok:
  assumes "db_ok (dm_state d)"
  shows "db_ok (dm_state (fst (do_set_enabled k e d)))" "db_ok (dm_state (fst (do_resolve_conflict X k res d)))"
    "db_ok (dm_state (fst (do_push_now X E p tp n d)))" "db_ok (dm_state (fst (do_apply_preset X name d)))"
    "db_ok (dm_state (fst (do_retry_job k d)))" "db_ok (dm_state (fst (do_get_dashboard X d)))"
  using db_ok_composed(2)[OF assms, of k e] db_ok_composed(9)[OF assms, of "ix_io_fails X" k res "dm_files d"]
    db_ok_composed(8)[OF assms, of "ix_hash X" "rq_id1 E" "rq_id2 E" "rq_now E" p tp n]
    db_ok_composed(7)[OF assms, of "ix_globs X" name] db_ok_composed(3)[OF assms, of k]
    db_ok_composed(4)[OF assms, of "ix_globs X"]
  by (auto simp: do_set_enabled_def do_resolve_conflict_def do_push_now_def do_apply_preset_def do_retry_job_def
      do_get_dashboard_def Let_def split: prod.split option.split bool.split)

lemma file_changed_db_ok:
  assumes "db_ok (dm_state d)"
  shows "db_ok (dm_state (fst (do_file_changed X E p rule n tp d)))"
  using db_ok_composed(4)[OF assms, of "ix_globs X"]
  by (auto simp: do_file_changed_def Let_def db_ok_simple_ops split: prod.split option.split)

lemma other_db_ok:
  assumes "db_ok (dm_state d)"
  shows "db_ok (dm_state (fst (do_send_consent s dec d)))" "db_ok (dm_state (fst (do_get_consent s d)))"
    "db_ok (dm_state (fst (do_approve_pairing E p key d)))" "db_ok (dm_state (fst (do_start_host X E hc d)))"
    "db_ok (dm_state (fst (do_stop_host d)))" "db_ok (dm_state (fst (do_start_client X E cc d)))"
    "db_ok (dm_state (fst (do_stop_client d)))" "db_ok (dm_state (fst (do_get_update_status E d)))"
    "db_ok (dm_state (fst (do_add_rule E rule d)))" "db_ok (dm_state (fst (do_set_lock fid lock d)))"
    "db_ok (dm_state (fst (do_get_onboarding d)))" "db_ok (dm_state (fst (do_complete_onboarding X nm srv cm url d)))"
    "db_ok (dm_state (fst (do_update_job k st err d)))"
  using assms
  by (simp_all add: do_send_consent_def do_get_consent_def do_approve_pairing_def do_start_host_def do_stop_host_def
      do_start_client_def do_stop_client_def do_get_update_status_def do_add_rule_def do_set_lock_def do_get_onboarding_def
      do_complete_onboarding_def do_update_job_def Let_def db_ok_simple_ops db_ok_onboarding db_ok_composed
      split: prod.split sum.split option.split)

lemma dispatch_db_ok:
  assumes "db_ok (dm_state d)"
  shows "db_ok (dm_state (fst (dispatch_request X E req d)))"
  using assms
  by (cases req)
    (simp_all add: other_db_ok sync_db_ok file_changed_db_ok apply_db_ok check_db_ok ignores_db_ok db_ok_simple_ops db_ok_composed)

lemma loop_db_ok:
  "db_ok (dm_state d) \<Longrightarrow> db_ok (dm_state (fst (connection_loop X C N n d bs)))"
proof (induction X C N n d bs rule: connection_loop.induct)
  case (1 X C N n d bs)
  show ?case
  proof (cases "\<exists>h payload rest req. read_request_frame bs = Some (h, payload, rest) \<and> ih_kind h = 1 \<and> dec_req C payload = Some req")
    case True
    then obtain h payload rest req where f: "read_request_frame bs = Some (h, payload, rest)" "ih_kind h = 1"
      "dec_req C payload = Some req" by blast
    obtain d1 evs1 resp where dd: "dispatch_request X (cn_env N n) req d = (d1, evs1, resp)" by (cases "dispatch_request X (cn_env N n) req d")
    have "db_ok (dm_state d1)" using dispatch_db_ok[OF 1(2), of X "cn_env N n" req] dd by simp
    with 1(1)[OF f(1) refl refl f(2,3) dd[symmetric] refl refl] show ?thesis
      by (subst connection_loop.simps) (auto simp: f dd Let_def split: prod.split)
  next
    case False
    then have "connection_loop X C N n d bs = (d, [], [])"
      by (subst connection_loop.simps) (auto split: option.split)
    with 1 show ?thesis by simp
  qed
qed

text \<open>C38: However many connections a fresh daemon serves, from whatever users and with whatever bytes on
  them, every table of its store keeps distinct keys in order, every record stands under its own id,
  and the histories stay within their limits.\<close>

theorem service_keeps_store:
  "db_ok (dm_state (foldl (\<lambda>d (N, peer, bs). fst (handle_connection X C N uid peer d bs))
     \<lparr>dm_state = open_db empty_db, dm_manager = manager_new, dm_checker = checker, dm_files = fs, dm_binaries = bins\<rparr> conns))"
proof -
  have step: "db_ok (dm_state (fst (handle_connection X C N uid peer d bs)))" if "db_ok (dm_state d)" for N peer d bs
    using that by (auto simp: handle_connection_def loop_db_ok split: option.split)
  have "db_ok (dm_state (foldl (\<lambda>d (N, peer, bs). fst (handle_connection X C N uid peer d bs)) d conns))" if "db_ok (dm_state d)" for d
    using that by (induction conns arbitrary: d) (auto simp: step)
  then show ?thesis by (simp add: db_ok_composed(1) empty_db_ok)
qed

subsection \<open>Changed files\<close>

lemma find_tbl_put:
  "P v \<Longrightarrow> (\<forall>r. find (\<lambda>r. P (snd r)) t = Some r \<longrightarrow> fst r = k) \<Longrightarrow> find P (map snd (tbl_put k v t)) = Some v"
  by (induction t) (auto simp: tbl_put_Cons split: if_splits)

lemma find_map_snd: "find P (map snd t) = map_option snd (find (\<lambda>r. P (snd r)) t)"
  by (induction t) auto

lemma find_keyed:
  assumes "keyed f t" "find P (map snd t) = Some w" "find (\<lambda>r. P (snd r)) t = Some r"
  shows "fst r = f w"
proof -
  have "r \<in> set t" using assms(3) by (auto simp: find_Some_iff)
  with assms show ?thesis by (auto simp: find_map_snd keyed_def)
qed

text \<open>The record a change of \<open>p\<close> leads to.\<close>

definition changed_record :: "request_env \<Rightarrow> string \<Rightarrow> string option \<Rightarrow> string \<Rightarrow> string \<Rightarrow> u64 \<Rightarrow> state_db \<Rightarrow> tracked_file" where
  "changed_record E p rule node h sz db =
     (case find (\<lambda>f. tf_local_path f = p) (list_tracked_files db) of
        Some tf \<Rightarrow> tf\<lparr>tf_vector_clock := clock_bump (tf_vector_clock tf) node, tf_content_hash := h,
           tf_size_bytes := sz, tf_sync_state := SyncPending, tf_updated_at := rq_now E\<rparr>
      | None \<Rightarrow> \<lparr>tf_file_id = rq_id1 E, tf_local_path = p, tf_vector_clock = clock_bump [] node,
           tf_content_hash = h, tf_size_bytes = sz, tf_sync_state = SyncPending, tf_rule_id = rule, tf_updated_at = rq_now E\<rparr>)"

lemma changed_record_path [simp]:
  "tf_local_path (changed_record E p rule node h sz db) = p" "tf_content_hash (changed_record E p rule node h sz db) = h"
  "tf_sync_state (changed_record E p rule node h sz db) = SyncPending"
  by (auto simp: changed_record_def find_Some_iff split: option.split)

lemma find_changed:
  assumes "db_ok db"
  shows "find (\<lambda>f. tf_local_path f = p) (list_tracked_files (put_tracked_file (changed_record E p rule node h sz db) db)) =
    Some (changed_record E p rule node h sz db)"
  unfolding put_tracked_file_def list_tracked_files_def state_db.select_convs state_db.update_convs
proof (simp, rule find_tbl_put, simp, intro allI impI)
  fix r assume r: "find (\<lambda>r. tf_local_path (snd r) = p) (t_tracked_files db) = Some r"
  have key: "keyed tf_file_id (t_tracked_files db)" using assms by (simp add: db_ok_def)
  have w: "find (\<lambda>f. tf_local_path f = p) (map snd (t_tracked_files db)) = Some (snd r)" using r by (simp add: find_map_snd)
  from find_keyed[OF key w r] w show "fst r = tf_file_id (changed_record E p rule node h sz db)"
    by (simp add: changed_record_def list_tracked_files_def)
qed

lemma file_changed_queues:
  assumes "get_global_ignores (ix_globs X) (dm_state d) = (db, ignores)" "\<not> should_ignore_path p ignores"
    "ix_hash X p = Some (h, sz)"
    "case find (\<lambda>f. tf_local_path f = p) (list_tracked_files db) of
       Some tf \<Rightarrow> tf_sync_state tf \<noteq> LockedByProcess \<and> tf_content_hash tf \<noteq> h | None \<Rightarrow> True"
  shows "\<exists>job. do_file_changed X E p rule node peer d =
      (d\<lparr>dm_state := put_outbox_job job (put_tracked_file (changed_record E p rule node h sz db) db)\<rparr>, [EvSyncJobUpdated job], SyncJob job) \<and>
    ob_file_id job = tf_file_id (changed_record E p rule node h sz db) \<and> ob_target_peer job = peer \<and> ob_status job = Queued \<and>
    ob_job_id job = rq_id2 E"
  using assms by (auto simp: do_file_changed_def changed_record_def Let_def split: option.splits)

lemma file_changed_quiet:
  assumes "get_global_ignores (ix_globs X) (dm_state d) = (dm_state d, ignores)" "ix_hash X p = Some (h, sz)"
    "find (\<lambda>f. tf_local_path f = p) (list_tracked_files (dm_state d)) = Some tf" "tf_content_hash tf = h"
  shows "do_file_changed X E p rule node peer d = (d, [], RUnit)"
  using assms by (simp add: do_file_changed_def)

text \<open>A change of a file that is not ignored, not locked and has new contents puts one job for the
  peer into the outbox, where the next drain finds it, and records the new digest as pending; the same
  notification again, while the contents stay, changes nothing.\<close>

theorem file_change_queued_once:
  assumes ok: "db_ok (dm_state d)" and json: "\<forall>gs. globs_of_json (ix_globs X) (globs_to_json (ix_globs X) gs) = Some gs"
    and ign: "\<not> should_ignore_path p (snd (get_global_ignores (ix_globs X) (dm_state d)))"
    and hash: "ix_hash X p = Some (h, sz)"
    and new: "case find (\<lambda>f. tf_local_path f = p) (list_tracked_files (dm_state d)) of
       Some tf \<Rightarrow> tf_sync_state tf \<noteq> LockedByProcess \<and> tf_content_hash tf \<noteq> h | None \<Rightarrow> True"
    and run: "dispatch_request X E (SyncFileChanged p rule node peer) d = (d', evs, resp)"
  shows "\<exists>job tf. resp = SyncJob job \<and> evs = [EvSyncJobUpdated job] \<and> ob_target_peer job = peer \<and>
    job \<in> set (list_pending_outbox (dm_state d')) \<and> get_tracked_file (dm_state d') (ob_file_id job) = Some tf \<and>
    tf_local_path tf = p \<and> tf_content_hash tf = h \<and> tf_sync_state tf = SyncPending \<and>
    dispatch_request X E' (SyncFileChanged p rule node peer) d' = (d', [], RUnit)"
proof -
  let ?G = "ix_globs X"
  obtain db ignores where g: "get_global_ignores ?G (dm_state d) = (db, ignores)" by fastforce
  have okdb: "db_ok db" using db_ok_composed(4)[OF ok, of ?G] g by simp
  have tracked: "list_tracked_files db = list_tracked_files (dm_state d)"
    using g by (auto simp: get_global_ignores_def set_global_ignores_def set_setting_def list_tracked_files_def split: option.splits)
  define tf where "tf = changed_record E p rule node h sz db"
  obtain job where job: "d' = d\<lparr>dm_state := put_outbox_job job (put_tracked_file tf db)\<rparr>" "evs = [EvSyncJobUpdated job]"
      "resp = SyncJob job" "ob_file_id job = tf_file_id tf" "ob_target_peer job = peer" "ob_status job = Queued"
    using file_changed_queues[OF g _ hash, of E rule node peer] ign new run g tracked unfolding tf_def by auto
  have G: "get_global_ignores ?G (dm_state d') = (dm_state d', ignores)"
  proof -
    have "get_setting (dm_state d') = get_setting db"
      by (simp add: job get_setting_def put_outbox_job_def put_tracked_file_def fun_eq_iff)
    moreover have "get_global_ignores ?G db = (db, ignores)" using get_ignores_twice[OF ok, of ?G] json g by simp
    then have "\<exists>raw. get_setting db SYNC_GLOBAL_IGNORES_KEY = Some raw \<and>
        (case globs_of_json ?G raw of Some v \<Rightarrow> v | None \<Rightarrow> default_ignore_globs) = ignores"
      using g by (auto simp: get_global_ignores_def get_set_setting[OF ok] set_global_ignores_def split: option.splits)
    ultimately show ?thesis by (auto simp: get_global_ignores_def)
  qed
  have F: "find (\<lambda>f. tf_local_path f = p) (list_tracked_files (dm_state d')) = Some tf"
    using find_changed[OF okdb, of p E rule node h sz] by (simp add: tf_def job list_tracked_files_def put_outbox_job_def)
  have again: "dispatch_request X E' (SyncFileChanged p rule node peer) d' = (d', [], RUnit)"
    using file_changed_quiet[OF G hash F] by (simp add: tf_def)
  have "tbl_ok (t_sync_outbox db)" "tbl_ok (t_tracked_files db)" using okdb by (simp_all add: db_ok_def)
  then have "job \<in> set (list_pending_outbox (dm_state d'))" "get_tracked_file (dm_state d') (ob_file_id job) = Some tf"
    by (auto simp: job list_pending_outbox_def list_outbox_jobs_def get_tracked_file_def put_outbox_job_def put_tracked_file_def
        tbl_get_put tbl.rows_put image_iff)
  with job again show ?thesis by (auto simp: tf_def)
qed

subsection \<open>A small service\<close>

definition demo_codec :: ipc_codec where
  "demo_codec = \<lparr>
     enc_req = (\<lambda>r. case r of ReqSetSetting [k] [v] \<Rightarrow> [1, of_char k, of_char v] | GetSetting [k] \<Rightarrow> [2, of_char k] | _ \<Rightarrow> [3]),
     dec_req = (\<lambda>b. if length b = 3 \<and> b ! 0 = 1 then Some (ReqSetSetting [char_of (unat (b ! 1))] [char_of (unat (b ! 2))])
        else if length b = 2 \<and> b ! 0 = 2 then Some (GetSetting [char_of (unat (b ! 1))]) else None),
     enc_resp = (\<lambda>r. case r of RUnit \<Rightarrow> [1] | SettingValue [k] (Some [v]) \<Rightarrow> [2, of_char k, of_char v] | _ \<Rightarrow> [3]),
     dec_resp = (\<lambda>b. if b = [1] then Some RUnit
        else if length b = 3 \<and> b ! 0 = 2 then Some (SettingValue [char_of (unat (b ! 1))] (Some [char_of (unat (b ! 2))])) else None),
     enc_event = (\<lambda>_. [4])\<rparr>"

definition demo_ipc :: "nat ipc_ext" where
  "demo_ipc = \<lparr>ix_update = demo_upd, ix_globs = demo_globs, ix_io_fails = (\<lambda>_. False),
     ix_hash = (\<lambda>p. if p = ''/d/a'' then Some (''h1'', 3) else None), ix_vars = Map.empty, ix_current_exe = Some ''/opt/qubox-daemon'',
     ix_is_file = (\<lambda>_. False), ix_run_cli = (\<lambda>_ _. CliFailed), ix_signaling_url = None\<rparr>"

definition demo_env :: request_env where
  "demo_env = \<lparr>rq_now = 5, rq_now_ms = 5000, rq_mono = 9, rq_id1 = ''f1'', rq_id2 = ''j1'', rq_spawned = Some 77\<rparr>"

definition demo_conn :: conn_env where
  "demo_conn = \<lparr>cn_env = (\<lambda>_. demo_env), cn_feed = (\<lambda>_. [])\<rparr>"

definition demo_daemon :: daemon where
  "demo_daemon = \<lparr>dm_state = open_db empty_db, dm_manager = manager_new, dm_checker = None, dm_files = Map.empty, dm_binaries = Map.empty\<rparr>"

lemma demo_chars: "char_of (107 :: nat) = CHR ''k''" "char_of (118 :: nat) = CHR ''v''"
  by code_simp+

lemma demo_sendable: "sendable demo_codec (ReqSetSetting ''k'' ''v'')" "sendable demo_codec (GetSetting ''k'')"
  by (simp_all add: sendable_def demo_codec_def IPC_MAX_PAYLOAD_def demo_chars)

lemma demo_reply:
  "dec_resp demo_codec (enc_resp demo_codec (SettingValue ''k'' (Some ''v''))) = Some (SettingValue ''k'' (Some ''v''))"
  "length (enc_resp demo_codec (SettingValue ''k'' (Some ''v''))) \<le> unat IPC_MAX_PAYLOAD"
  by (simp_all add: demo_codec_def IPC_MAX_PAYLOAD_def demo_chars)

lemma demo_settings: "t_settings (dm_state demo_daemon) = []"
  by (simp add: demo_daemon_def open_db_def empty_db_def set_meta_def Let_def)




theorem file_change_queued_once_witness:
  "\<exists>job d'. dispatch_request demo_ipc demo_env (SyncFileChanged ''/d/a'' None ''n'' ''peer'') demo_daemon = (d', [EvSyncJobUpdated job], SyncJob job) \<and>
    job \<in> set (list_pending_outbox (dm_state d')) \<and>
    dispatch_request demo_ipc demo_env (SyncFileChanged ''/d/a'' None ''n'' ''peer'') d' = (d', [], RUnit)"
proof -
  obtain d' evs resp where run: "dispatch_request demo_ipc demo_env (SyncFileChanged ''/d/a'' None ''n'' ''peer'') demo_daemon = (d', evs, resp)"
    by (cases "dispatch_request demo_ipc demo_env (SyncFileChanged ''/d/a'' None ''n'' ''peer'') demo_daemon")
  have db: "db_ok (dm_state demo_daemon)" by (simp add: demo_daemon_def db_ok_composed(1) empty_db_ok)
  have json: "\<forall>gs. globs_of_json (ix_globs demo_ipc) (globs_to_json (ix_globs demo_ipc) gs) = Some gs"
    using demo_globs_inverse by (simp add: demo_ipc_def)
  have "snd (get_global_ignores (ix_globs demo_ipc) (dm_state demo_daemon)) = default_ignore_globs"
    by (simp add: get_global_ignores_def get_setting_def demo_settings)
  moreover have "\<not> should_ignore_path ''/d/a'' default_ignore_globs" by code_simp
  ultimately have ign: "\<not> should_ignore_path ''/d/a'' (snd (get_global_ignores (ix_globs demo_ipc) (dm_state demo_daemon)))" by simp
  have hash: "ix_hash demo_ipc ''/d/a'' = Some (''h1'', 3)" by (simp add: demo_ipc_def)
  have none: "list_tracked_files (dm_state demo_daemon) = []"
    by (simp add: list_tracked_files_def demo_daemon_def open_db_def empty_db_def set_meta_def Let_def)
  from file_change_queued_once[OF db json ign hash _ run, of demo_env] none run show ?thesis by auto
qed

end
