(* ===== verification/Turn_Creds.thy ===== *)
theory Turn_Creds
  imports Signaling_Ops Daemon_State Text_Parse "HOL-Library.Product_Lexorder"
begin

text \<open>
  Issuing TURN credentials (\<open>qubox-signaling-server/src/turn.rs\<close>): the configuration read from the
  environment, the region listing, and the HTTP handler that gives a short-term credential to a caller
  who presents a session credential. HMAC-SHA1, base64 and the JSON form of a session credential are
  arguments; the environment is a map, and texts are their bytes.
\<close>

subsection \<open>Configuration\<close>

record turn_server_config =
  ts_url :: string
  ts_weight :: u32
  ts_region :: string

record turn_config =
  tcf_urls :: "turn_server_config list"
  tcf_shared_secret :: string
  tcf_default_ttl :: u32
  tcf_previous_secret :: "string option"

record turn_state =
  tst_configured :: bool
  tst_config :: turn_config

definition trimmed_parts :: "char \<Rightarrow> string \<Rightarrow> string list" where
  "trimmed_parts d s = filter (\<lambda>p. p \<noteq> []) (map trim_text (split_on d s))"

definition region_entry :: "string \<Rightarrow> turn_server_config list" where
  "region_entry entry =
     (case (case split_once (CHR ''|'') entry of
              Some (r, u) \<Rightarrow> (trim_text r, u) | None \<Rightarrow> ([], entry)) of
        (region, urls) \<Rightarrow>
          map (\<lambda>u. \<lparr>ts_url = u, ts_weight = 1, ts_region = region\<rparr>) (trimmed_parts (CHR '';'') urls))"

definition add_plain_url :: "turn_server_config list \<Rightarrow> string \<Rightarrow> turn_server_config list" where
  "add_plain_url servers u =
     (if list_ex (\<lambda>s. ts_url s = u) servers then servers
      else servers @ [\<lparr>ts_url = u, ts_weight = 1, ts_region = []\<rparr>])"

definition turn_servers :: "(string \<rightharpoonup> string) \<Rightarrow> turn_server_config list" where
  "turn_servers env =
     (let regional = (case env ''QUBOX_TURN_REGIONS'' of
            None \<Rightarrow> [] | Some r \<Rightarrow> concat (map region_entry (trimmed_parts (CHR '','') r)))
      in case env ''QUBOX_TURN_URLS'' of
           None \<Rightarrow> regional | Some u \<Rightarrow> foldl add_plain_url regional (trimmed_parts (CHR '','') u))"

definition turn_from_env :: "(string \<rightharpoonup> string) \<Rightarrow> turn_state" where
  "turn_from_env env =
     (let ttl = (case Option.bind (env ''QUBOX_TURN_TTL_SECS'') parse_u32 of Some t \<Rightarrow> t | None \<Rightarrow> 3600);
          servers = turn_servers env;
          off = \<lparr>tst_configured = False, tst_config = \<lparr>tcf_urls = [], tcf_shared_secret = [], tcf_default_ttl = ttl,
             tcf_previous_secret = None\<rparr>\<rparr>
      in case env ''QUBOX_TURN_SECRET'' of
           None \<Rightarrow> off
         | Some secret \<Rightarrow>
             if servers = [] then off
             else \<lparr>tst_configured = True, tst_config = \<lparr>tcf_urls = servers, tcf_shared_secret = secret, tcf_default_ttl = ttl,
                tcf_previous_secret = env ''QUBOX_TURN_SECRET_PREVIOUS''\<rparr>\<rparr>)"

definition add_front :: "string list \<Rightarrow> string \<Rightarrow> string list" where
  "add_front urls s = (if s \<in> set urls then urls else s # urls)"

definition ice_server_urls :: "(string \<rightharpoonup> string) \<Rightarrow> turn_state \<Rightarrow> string list" where
  "ice_server_urls env st =
     (let urls = map ts_url (tcf_urls (tst_config st))
      in case env ''QUBOX_ICE_SERVER'' of
           None \<Rightarrow> urls | Some stun \<Rightarrow> foldl add_front urls (trimmed_parts (CHR '','') stun))"

definition region_name :: "turn_server_config \<Rightarrow> string" where
  "region_name s = (if ts_region s = [] then ''default'' else ts_region s)"

definition add_region :: "(string, string list) tbl \<Rightarrow> turn_server_config \<Rightarrow> (string, string list) tbl" where
  "add_region t s =
     (let r = region_name s in tbl_put r ((case map_of t r of Some us \<Rightarrow> us | None \<Rightarrow> []) @ [ts_url s]) t)"

definition regions_summary :: "turn_state \<Rightarrow> (string \<times> string list) list" where
  "regions_summary st = foldl add_region [] (tcf_urls (tst_config st))"

subsection \<open>Credentials\<close>

record turn_ext =
  hmac_sha1 :: "bytes \<Rightarrow> bytes \<Rightarrow> bytes"
  std_b64_encode :: "bytes \<Rightarrow> string"
  std_b64_decode :: "string \<Rightarrow> bytes option"
  credential_of_json :: "bytes \<Rightarrow> session_credential option"

definition hex_value :: "char \<Rightarrow> nat option" where
  "hex_value c =
     (let n = of_char c :: nat
      in if 48 \<le> n \<and> n \<le> 57 then Some (n - 48) else if 97 \<le> n \<and> n \<le> 102 then Some (n - 87)
         else if 65 \<le> n \<and> n \<le> 70 then Some (n - 55) else None)"

fun hex_pairs :: "string \<Rightarrow> bytes option" where
  "hex_pairs (a # b # s) =
     (case (hex_value a, hex_value b, hex_pairs s) of
        (Some hi, Some lo, Some bs) \<Rightarrow> Some ((of_nat (16 * hi + lo) :: 8 word) # bs)
      | _ \<Rightarrow> None)"
| "hex_pairs [] = Some []"
| "hex_pairs [a] = None"

definition hex_decode :: "string \<Rightarrow> bytes option" where
  "hex_decode s = (if length s mod 2 \<noteq> 0 then None else hex_pairs s)"

definition decode_pubkey :: "turn_ext \<Rightarrow> string \<Rightarrow> bytes option" where
  "decode_pubkey T raw =
     (let s = trim_text raw in
      if s = [] then None
      else if length s = 64 \<and> list_all (\<lambda>c. hex_value c \<noteq> None) s then hex_decode s
      else case std_b64_decode T s of
        Some b \<Rightarrow> if length b = 32 then Some b else None
      | None \<Rightarrow> None)"

record issued_credentials =
  ic_urls :: "string list"
  ic_username :: string
  ic_password :: string
  ic_ttl :: u32

definition turn_mac :: "turn_ext \<Rightarrow> turn_config \<Rightarrow> string \<Rightarrow> string" where
  "turn_mac T cfg s = std_b64_encode T (hmac_sha1 T (text_bytes (tcf_shared_secret cfg)) (text_bytes s))"

definition issue_credentials :: "ext \<Rightarrow> turn_ext \<Rightarrow> u64 \<Rightarrow> turn_config \<Rightarrow> uuid \<Rightarrow> string \<Rightarrow> issued_credentials" where
  "issue_credentials E T now cfg sid peer =
     (let expiry = dec_text (unat (now + ucast (tcf_default_ttl cfg)));
          username = expiry @ '':'' @ turn_mac T cfg expiry @ '':peer='' @ peer @ '':session='' @ uuid_text E sid
      in \<lparr>ic_urls = sort_key (\<lambda>u. (\<not> starts_with u ''stun:'', u)) (map ts_url (tcf_urls cfg)), ic_username = username,
          ic_password = turn_mac T cfg username, ic_ttl = tcf_default_ttl cfg\<rparr>)"

datatype turn_reply = TurnIssued issued_credentials | TurnRefused nat

definition issue_credential_handler ::
    "ext \<Rightarrow> turn_ext \<Rightarrow> u64 \<Rightarrow> u64 \<Rightarrow> turn_state \<Rightarrow> bytes \<Rightarrow> string option \<Rightarrow> string option \<Rightarrow> turn_reply" where
  "issue_credential_handler E T now_ms now st secret header caller =
     (if \<not> tst_configured st then TurnRefused 503
      else case bearer_token header of
        None \<Rightarrow> TurnRefused 401
      | Some raw \<Rightarrow>
         (case Option.bind (std_b64_decode T raw) (credential_of_json T) of
            None \<Rightarrow> TurnRefused 401
          | Some cred \<Rightarrow>
             if \<not> credential_verify E cred secret now_ms then TurnRefused 403
             else let peer = (case caller of Some p \<Rightarrow> p | None \<Rightarrow> []) in
               (case decode_pubkey T peer of
                  None \<Rightarrow> TurnRefused 400
                | Some pk \<Rightarrow>
                    if pk \<noteq> cred_client_pubkey cred \<and> pk \<noteq> cred_host_pubkey cred then TurnRefused 403
                    else TurnIssued (issue_credentials E T now (tst_config st) (cred_session_id cred) peer))))"

subsection \<open>Who gets credentials\<close>

text \<open>What the TURN server checks of a short-term credential: the password is the tag of the user name
  under the shared secret, and the number before the first colon is not in the past.\<close>

definition turn_server_accepts :: "turn_ext \<Rightarrow> turn_config \<Rightarrow> nat \<Rightarrow> issued_credentials \<Rightarrow> bool" where
  "turn_server_accepts T cfg t c \<longleftrightarrow>
     ic_password c = turn_mac T cfg (ic_username c) \<and> t \<le> dec_value (takeWhile (\<lambda>x. x \<noteq> CHR '':'') (ic_username c))"

lemma issued_accepted:
  assumes "t \<le> unat (now + ucast (tcf_default_ttl cfg))"
  shows "turn_server_accepts T cfg t (issue_credentials E T now cfg sid peer)"
  using assms by (simp add: turn_server_accepts_def issue_credentials_def Let_def takeWhile_dec)

lemma bearer_Some: "raw \<noteq> [] \<Longrightarrow> bearer_token (Some (''Bearer '' @ raw)) = Some raw"
  by (simp add: bearer_token_def starts_with_def)


subsection \<open>Regions\<close>

lemma regions_ok: "tbl_ok t \<Longrightarrow> tbl_ok (foldl add_region t ss)"
  by (induction ss arbitrary: t) (simp_all add: add_region_def Let_def tbl_put_ok)

lemma regions_get:
  assumes "tbl_ok t" "\<forall>us. map_of t r = Some us \<longrightarrow> us \<noteq> []"
  shows "map_of (foldl add_region t ss) r =
    (let us = (case map_of t r of Some us \<Rightarrow> us | None \<Rightarrow> []) @ map ts_url (filter (\<lambda>s. region_name s = r) ss)
     in if us = [] then None else Some us)"
  using assms
proof (induction ss arbitrary: t)
  case Nil
  then show ?case by (auto split: option.split)
next
  case (Cons s ss)
  have ok: "tbl_ok (add_region t s)" using Cons.prems by (simp add: add_region_def Let_def tbl_put_ok)
  have get: "map_of (add_region t s) r =
      (if region_name s = r then Some ((case map_of t r of Some us \<Rightarrow> us | None \<Rightarrow> []) @ [ts_url s]) else map_of t r)"
    using Cons.prems by (simp add: add_region_def Let_def tbl_get_put)
  show ?case using Cons.IH[OF ok] Cons.prems(2) by (simp add: get split: option.split)
qed

text \<open>The region listing has one entry per region that has a server, in the order of the names, with
  the URLs of exactly that region in the order they were configured.\<close>

theorem regions_summary_groups:
  "sorted_wrt (<) (map fst (regions_summary st)) \<and>
   map_of (regions_summary st) r =
     (let us = map ts_url (filter (\<lambda>s. region_name s = r) (tcf_urls (tst_config st))) in if us = [] then None else Some us)"
  using regions_ok[of "[]" "tcf_urls (tst_config st)"] regions_get[of "[]" r "tcf_urls (tst_config st)"]
  by (simp add: regions_summary_def tbl_ok_def)

subsection \<open>Keys\<close>

definition hex_char :: "nat \<Rightarrow> char" where
  "hex_char n = char_of (if n < 10 then 48 + n else 87 + n)"

definition hex_text :: "bytes \<Rightarrow> string" where
  "hex_text bs = concat (map (\<lambda>b. [hex_char (unat b div 16), hex_char (unat b mod 16)]) bs)"

lemma hex_value_char: "n < 16 \<Longrightarrow> hex_value (hex_char n) = Some n"
  by (auto simp: hex_value_def hex_char_def Let_def)

lemma byte_value: "unat (b :: 8 word) < 256"
  using unsigned_less[of b, where 'a = nat] by simp

lemma hex_pairs_text: "hex_pairs (hex_text bs) = Some bs"
proof (induction bs)
  case (Cons b bs)
  have "hex_value (hex_char (unat b div 16)) = Some (unat b div 16)" "hex_value (hex_char (unat b mod 16)) = Some (unat b mod 16)"
    using byte_value[of b] by (simp_all add: hex_value_char less_mult_imp_div_less)
  with Cons show ?case by (simp add: hex_text_def mult.commute[of 16])
qed (simp add: hex_text_def)

lemma hex_text_chars: "c \<in> set (hex_text bs) \<Longrightarrow> hex_value c \<noteq> None"
proof -
  assume "c \<in> set (hex_text bs)"
  then obtain b :: "8 word" where "c = hex_char (unat b div 16) \<or> c = hex_char (unat b mod 16)" by (auto simp: hex_text_def)
  with byte_value[of b] show ?thesis by (auto simp: hex_value_char less_mult_imp_div_less)
qed

lemma hex_text_length: "length (hex_text bs) = 2 * length bs"
  by (induction bs) (simp_all add: hex_text_def)

text \<open>The hexadecimal form of a public key decodes to it, and a text of that length never reaches the
  base64 decoder.\<close>

theorem pubkey_hex_roundtrip:
  assumes "length pk = 32" "trim_text s = hex_text pk"
  shows "decode_pubkey T s = Some pk"
proof -
  have "length (hex_text pk) = 64" by (simp add: hex_text_length assms)
  moreover have "list_all (\<lambda>c. hex_value c \<noteq> None) (hex_text pk)" using hex_text_chars by (simp add: list_all_iff)
  moreover have "hex_text pk \<noteq> []" using hex_text_length[of pk] assms(1) by auto
  ultimately show ?thesis by (simp add: decode_pubkey_def hex_decode_def hex_pairs_text assms(2) Let_def del: not_None_eq)
qed

subsection \<open>An example\<close>

definition demo_key :: "8 word \<Rightarrow> bytes" where
  "demo_key b = replicate 32 b"

definition demo_relay_ext :: ext where
  "demo_relay_ext = demo_ext\<lparr>hmac_sha256 := (\<lambda>k m. if k = [7] then demo_key 5 else demo_key 6)\<rparr>"

definition demo_cred :: session_credential where
  "demo_cred = credential_issue demo_relay_ext [7] 3 (demo_key 1) (demo_key 2) 10 100"

definition demo_turn :: turn_ext where
  "demo_turn = \<lparr>hmac_sha1 = (\<lambda>k m. k @ m), std_b64_encode = map (\<lambda>b. char_of (unat b)), std_b64_decode = (\<lambda>s. Some (map of_char s)),
     credential_of_json = (\<lambda>b. if b = [120] then Some demo_cred else None)\<rparr>"

definition demo_turn_state :: turn_state where
  "demo_turn_state = \<lparr>tst_configured = True, tst_config = \<lparr>tcf_urls = [\<lparr>ts_url = ''turn:a'', ts_weight = 1, ts_region = []\<rparr>],
     tcf_shared_secret = ''s'', tcf_default_ttl = 3600, tcf_previous_secret = None\<rparr>\<rparr>"

lemma trim_hex: "trim_text (hex_text (demo_key 1)) = hex_text (demo_key 1)"
  by code_simp

theorem pubkey_hex_roundtrip_witness: "decode_pubkey demo_turn (hex_text (demo_key 1)) = Some (demo_key 1)"
  using pubkey_hex_roundtrip[OF _ trim_hex] by (simp add: demo_key_def)

lemma demo_decodes: "decode_pubkey demo_turn (hex_text (demo_key 1)) = Some (demo_key 1)"
  using pubkey_hex_roundtrip[OF _ trim_hex] by (simp add: demo_key_def)

lemma demo_nonzero: "demo_key 1 \<noteq> zero_key" "demo_key 2 \<noteq> zero_key" "demo_key 5 \<noteq> zero_key"
  by code_simp+


end
