(* ===== verification/Media_Plan.thy ===== *)
theory Media_Plan
  imports Text_Parse Annex_B
begin

text \<open>
  Planning of the host's encoding pipeline (\<open>qubox-media/src/lib.rs\<close>): encoder names and the choice of
  a back end, the FFmpeg command lines of the codec-agnostic planner and of the older H.264 planner,
  the capture region, and the parser of \<open>xrandr\<close> output. What runs outside (\<open>xrandr\<close>, FFmpeg, the
  Python fallback), the environment and the build's platform are arguments, as is the rounding of a
  refresh rate. The human-readable notes and labels of a plan are left out.
\<close>

subsection \<open>Encoders\<close>

datatype probe_status = Available | Missing | Unsupported | Planned

record backend_probe =
  bp_name :: string
  bp_status :: probe_status

datatype h264_encoder_backend = HNvenc | HVaapi | HQsv | HAmf | HVideoToolbox | HLibx264

fun h264_ffmpeg_name :: "h264_encoder_backend \<Rightarrow> string" where
  "h264_ffmpeg_name HNvenc = ''h264_nvenc''"
| "h264_ffmpeg_name HVaapi = ''h264_vaapi''"
| "h264_ffmpeg_name HQsv = ''h264_qsv''"
| "h264_ffmpeg_name HAmf = ''h264_amf''"
| "h264_ffmpeg_name HVideoToolbox = ''h264_videotoolbox''"
| "h264_ffmpeg_name HLibx264 = ''libx264''"

datatype capture_source =
    LinuxPipeWire string
  | LinuxX11 string
  | WindowsGdiGrab string
  | MacosAvFoundation string string
  | WindowsDxgi string

datatype video_encoder_kind = KindH264 | KindH265 | KindAv1

fun kind_codec :: "video_encoder_kind \<Rightarrow> video_codec" where
  "kind_codec KindH264 = H264"
| "kind_codec KindH265 = H265"
| "kind_codec KindAv1 = Av1"

fun kind_of_codec :: "video_codec \<Rightarrow> video_encoder_kind" where
  "kind_of_codec H264 = KindH264"
| "kind_of_codec H265 = KindH265"
| "kind_of_codec Av1 = KindAv1"

datatype encoder_backend = Software | Nvenc | Vaapi | Qsv | Amf | VideoToolbox

fun ffmpeg_name :: "encoder_backend \<Rightarrow> video_encoder_kind \<Rightarrow> string option" where
  "ffmpeg_name Software KindH264 = Some ''libx264''"
| "ffmpeg_name Software KindH265 = Some ''libx265''"
| "ffmpeg_name Software KindAv1 = Some ''libaom-av1''"
| "ffmpeg_name Nvenc KindH264 = Some ''h264_nvenc''"
| "ffmpeg_name Nvenc KindH265 = Some ''hevc_nvenc''"
| "ffmpeg_name Nvenc KindAv1 = Some ''av1_nvenc''"
| "ffmpeg_name Vaapi KindH264 = Some ''h264_vaapi''"
| "ffmpeg_name Vaapi KindH265 = Some ''hevc_vaapi''"
| "ffmpeg_name Vaapi KindAv1 = Some ''av1_vaapi''"
| "ffmpeg_name Qsv KindH264 = Some ''h264_qsv''"
| "ffmpeg_name Qsv KindH265 = Some ''hevc_qsv''"
| "ffmpeg_name Qsv KindAv1 = Some ''av1_qsv''"
| "ffmpeg_name Amf KindH264 = Some ''h264_amf''"
| "ffmpeg_name Amf KindH265 = Some ''hevc_amf''"
| "ffmpeg_name Amf KindAv1 = Some ''av1_amf''"
| "ffmpeg_name VideoToolbox KindH264 = Some ''h264_videotoolbox''"
| "ffmpeg_name VideoToolbox KindH265 = Some ''hevc_videotoolbox''"
| "ffmpeg_name VideoToolbox KindAv1 = Some ''av1_videotoolbox''"

fun all_kinds :: "encoder_backend \<Rightarrow> video_encoder_kind list" where
  "all_kinds Software = [KindH264, KindH265, KindAv1]"
| "all_kinds Nvenc = [KindH264, KindH265, KindAv1]"
| "all_kinds Vaapi = [KindH264, KindH265]"
| "all_kinds Qsv = [KindH264, KindH265]"
| "all_kinds Amf = [KindH264, KindH265]"
| "all_kinds VideoToolbox = [KindH264, KindH265, KindAv1]"

definition h264_encoder_candidates :: "string list" where
  "h264_encoder_candidates = [''h264_nvenc'', ''h264_vaapi'', ''h264_qsv'', ''h264_amf'', ''h264_videotoolbox'', ''libx264'']"
definition h265_encoder_candidates :: "string list" where
  "h265_encoder_candidates = [''hevc_nvenc'', ''hevc_vaapi'', ''hevc_qsv'', ''hevc_amf'', ''hevc_videotoolbox'', ''libx265'']"
definition av1_encoder_candidates :: "string list" where
  "av1_encoder_candidates = [''av1_nvenc'', ''av1_vaapi'', ''av1_qsv'', ''av1_amf'', ''av1_videotoolbox'', ''libaom-av1'']"

fun encoders_for_kind :: "video_encoder_kind \<Rightarrow> string list" where
  "encoders_for_kind KindH264 = h264_encoder_candidates"
| "encoders_for_kind KindH265 = h265_encoder_candidates"
| "encoders_for_kind KindAv1 = av1_encoder_candidates"

definition classify_encoder :: "string \<Rightarrow> (video_encoder_kind \<times> encoder_backend) option" where
  "classify_encoder name =
     find (\<lambda>(k, b). ffmpeg_name b k = Some name)
       (concat (map (\<lambda>b. map (\<lambda>k. (k, b)) (all_kinds b)) [Software, Nvenc, Vaapi, Qsv, Amf, VideoToolbox]))"

text \<open>\<open>text\<close> is what \<open>ffmpeg -encoders\<close> prints (\<open>None\<close>: it cannot be run).\<close>

definition add_candidate :: "string \<Rightarrow> encoder_backend list \<Rightarrow> string \<Rightarrow> encoder_backend list" where
  "add_candidate text found candidate =
     (if str_infix candidate text
      then (case classify_encoder candidate of
              Some (_, b) \<Rightarrow> if b \<in> set found then found else found @ [b] | None \<Rightarrow> found)
      else found)"

definition probe_video_encoder_backends :: "string option \<Rightarrow> (video_encoder_kind \<times> encoder_backend list) list" where
  "probe_video_encoder_backends out =
     (case out of
        None \<Rightarrow> []
      | Some text \<Rightarrow> map (\<lambda>k. (k, foldl (add_candidate text) [] (encoders_for_kind k))) [KindH264, KindH265, KindAv1])"

fun backend_priority :: "platform_os \<Rightarrow> encoder_backend list" where
  "backend_priority Windows = [Nvenc, Qsv, Amf, Software]"
| "backend_priority Macos = [VideoToolbox, Nvenc, Qsv, Software]"
| "backend_priority _ = [Nvenc, Vaapi, Qsv, Amf, Software]"

definition preferred_encoder_backend :: "platform_os \<Rightarrow> video_encoder_kind \<Rightarrow> encoder_backend list \<Rightarrow> encoder_backend" where
  "preferred_encoder_backend sys kind available =
     (case find (\<lambda>b. kind \<in> set (all_kinds b) \<and> b \<in> set available) (backend_priority sys) of
        Some b \<Rightarrow> b | None \<Rightarrow> Software)"

fun h264_priority :: "platform_os \<Rightarrow> h264_encoder_backend list" where
  "h264_priority Windows = [HNvenc, HQsv, HAmf]"
| "h264_priority Macos = [HVideoToolbox, HNvenc, HQsv, HLibx264]"
| "h264_priority _ = [HNvenc, HVaapi, HQsv, HAmf, HLibx264]"

definition best_h264_encoder_for_platform :: "platform_os \<Rightarrow> string list \<Rightarrow> h264_encoder_backend option" where
  "best_h264_encoder_for_platform sys names =
     find (\<lambda>e. names = [] \<or> h264_ffmpeg_name e \<in> set names) (h264_priority sys)"

subsection \<open>Configurations\<close>

datatype chroma_format = Yuv420 | Yuv444

record hdr_static_metadata =
  hdr_primaries :: "8 word"
  hdr_transfer :: "8 word"
  hdr_matrix :: "8 word"
  hdr_max_cll :: u16
  hdr_max_fall :: u16
  hdr_mastering :: bytes

record host_video_config =
  hv_capture :: capture_source
  hv_codec :: video_codec
  hv_encoder :: h264_encoder_backend
  hv_width :: u32
  hv_height :: u32
  hv_framerate :: u32
  hv_bitrate_kbps :: u32
  hv_keyframe_interval_frames :: u32
  hv_color_space :: "color_space option"
  hv_bit_depth :: "8 word"
  hv_hdr_static_metadata :: "hdr_static_metadata option"
  hv_chroma_format :: "chroma_format option"

record video_pipeline_config =
  vc_capture :: capture_source
  vc_encoder_kind :: video_encoder_kind
  vc_backend :: encoder_backend
  vc_width :: u32
  vc_height :: u32
  vc_framerate :: u32
  vc_bitrate_kbps :: u32
  vc_min_bitrate_kbps :: "u32 option"
  vc_buffer_size_kbits :: "u32 option"
  vc_keyframe_interval_frames :: u32
  vc_scale_mode :: scale_mode
  vc_capture_region :: "capture_region option"
  vc_display_index :: "u32 option"
  vc_color_space :: "color_space option"
  vc_bit_depth :: "8 word"
  vc_hdr_static_metadata :: "hdr_static_metadata option"
  vc_chroma_format :: "chroma_format option"

record display_info =
  di_index :: u32
  di_name :: string
  di_x :: u32
  di_y :: u32
  di_width :: u32
  di_height :: u32
  di_refresh_hz :: "u32 option"
  di_is_primary :: bool

datatype encoded_output = AnnexBStdout video_codec | H264AnnexBStdout

record ffmpeg_plan =
  fp_program :: string
  fp_args :: "string list"
  fp_output :: encoded_output

datatype plan_error = OnlyH264 | ZeroParameter | UnsupportedPair | UnsupportedEncoder | WrongCapture | EmptySource

fun ffmpeg_mux_format :: "video_codec \<Rightarrow> string" where
  "ffmpeg_mux_format H264 = ''h264''"
| "ffmpeg_mux_format H265 = ''hevc''"
| "ffmpeg_mux_format Av1 = ''av1''"

abbreviation num :: "'a::len word \<Rightarrow> string" where
  "num w \<equiv> dec_text (unat w)"

text \<open>The five constructors of the older configuration.\<close>

definition h264_config ::
    "capture_source \<Rightarrow> h264_encoder_backend \<Rightarrow> u32 \<Rightarrow> u32 \<Rightarrow> u32 \<Rightarrow> u32 \<Rightarrow> host_video_config" where
  "h264_config source encoder width height framerate bitrate =
     \<lparr>hv_capture = source, hv_codec = H264, hv_encoder = encoder, hv_width = width, hv_height = height,
      hv_framerate = framerate, hv_bitrate_kbps = bitrate,
      hv_keyframe_interval_frames = max (saturating_mul framerate 2) 1, hv_color_space = None, hv_bit_depth = 8,
      hv_hdr_static_metadata = None, hv_chroma_format = None\<rparr>"

definition linux_pipewire_h264 where "linux_pipewire_h264 node = h264_config (LinuxPipeWire node)"
definition windows_gdigrab_h264 where "windows_gdigrab_h264 inp = h264_config (WindowsGdiGrab inp)"
definition linux_x11_h264 where "linux_x11_h264 dpy = h264_config (LinuxX11 dpy)"
definition macos_avfoundation_h264 where "macos_avfoundation_h264 d a = h264_config (MacosAvFoundation d a)"
definition windows_dxgi_h264 where "windows_dxgi_h264 inp = h264_config (WindowsDxgi inp)"

definition default_encoder :: "platform_os \<Rightarrow> h264_encoder_backend" where
  "default_encoder sys = (case best_h264_encoder_for_platform sys [] of Some e \<Rightarrow> e | None \<Rightarrow> HNvenc)"

definition default_linux_pipewire_h264_config where
  "default_linux_pipewire_h264_config sys = linux_pipewire_h264 ''0'' (default_encoder sys) 1920 1080 60 20000"
definition default_linux_x11_h264_config where
  "default_linux_x11_h264_config sys = linux_x11_h264 '':0.0'' (default_encoder sys) 1920 1080 60 20000"
definition default_windows_gdigrab_h264_config where
  "default_windows_gdigrab_h264_config sys = windows_gdigrab_h264 ''desktop'' (default_encoder sys) 1920 1080 60 20000"

subsection \<open>The older H.264 planner\<close>

definition validate_h264_config :: "host_video_config \<Rightarrow> (plan_error, unit) result" where
  "validate_h264_config c =
     (if hv_codec c \<noteq> H264 then Err OnlyH264
      else if hv_width c = 0 \<or> hv_height c = 0 \<or> hv_framerate c = 0 \<or> hv_bitrate_kbps c = 0 then Err ZeroParameter
      else Ok ())"

definition video_filter_args :: "host_video_config \<Rightarrow> string list" where
  "video_filter_args c =
     (let w = num (hv_width c); h = num (hv_height c);
          scale = ''scale=w='' @ w @ '':h='' @ h @ '':force_original_aspect_ratio=decrease,pad='' @ w @ '':'' @ h @ '':(ow-iw)/2:(oh-ih)/2''
      in if hv_encoder c = HVaapi
         then [''-vaapi_device'', ''/dev/dri/renderD128'', ''-vf'', scale @ '',format=nv12,hwupload'']
         else [''-vf'', scale])"

fun h264_tuning :: "h264_encoder_backend \<Rightarrow> string list" where
  "h264_tuning HNvenc = [''-preset'', ''p1'', ''-tune'', ''ull'', ''-rc'', ''cbr'', ''-forced-idr'', ''1'']"
| "h264_tuning HVaapi = [''-low_power'', ''1'', ''-rc_mode'', ''CBR'']"
| "h264_tuning HQsv = [''-preset'', ''veryfast'', ''-look_ahead'', ''0'']"
| "h264_tuning HAmf = [''-quality'', ''speed'', ''-usage'', ''ultralowlatency'']"
| "h264_tuning HVideoToolbox = [''-realtime'', ''1'', ''-allow_sw'', ''0'']"
| "h264_tuning HLibx264 = [''-preset'', ''ultrafast'', ''-tune'', ''zerolatency'', ''-pix_fmt'', ''yuv420p'']"

definition encoder_args :: "host_video_config \<Rightarrow> string list" where
  "encoder_args c =
     [''-c:v'', h264_ffmpeg_name (hv_encoder c), ''-b:v'', num (hv_bitrate_kbps c) @ ''k'', ''-maxrate'', num (hv_bitrate_kbps c) @ ''k'',
      ''-bufsize'', num (hv_bitrate_kbps c div 2) @ ''k'', ''-g'', num (hv_keyframe_interval_frames c), ''-bf'', ''0'']
     @ h264_tuning (hv_encoder c)"

definition quiet_args :: "string list" where
  "quiet_args = [''-hide_banner'', ''-loglevel'', ''warning'', ''-nostdin'']"

definition h264_output_args :: "string list" where
  "h264_output_args = [''-bsf:v'', ''h264_metadata=aud=insert'', ''-f'', ''h264'', ''pipe:1'']"

definition h264_plan :: "string list \<Rightarrow> string list \<Rightarrow> host_video_config \<Rightarrow> ffmpeg_plan" where
  "h264_plan input filters c =
     \<lparr>fp_program = ''ffmpeg'', fp_args = quiet_args @ input @ filters @ encoder_args c @ h264_output_args, fp_output = H264AnnexBStdout\<rparr>"

definition plan_ffmpeg_pipewire_h264 :: "host_video_config \<Rightarrow> (plan_error, ffmpeg_plan) result" where
  "plan_ffmpeg_pipewire_h264 c =
     (case validate_h264_config c of Inl e \<Rightarrow> Err e | Inr _ \<Rightarrow>
      (case hv_capture c of
         LinuxPipeWire node \<Rightarrow>
           if trim_text node = [] then Err EmptySource
           else Ok (h264_plan [''-f'', ''pipewire'', ''-framerate'', num (hv_framerate c), ''-i'', node, ''-an''] (video_filter_args c) c)
       | _ \<Rightarrow> Err WrongCapture))"

definition plan_ffmpeg_linux_x11_h264 :: "host_video_config \<Rightarrow> (plan_error, ffmpeg_plan) result" where
  "plan_ffmpeg_linux_x11_h264 c =
     (case validate_h264_config c of Inl e \<Rightarrow> Err e | Inr _ \<Rightarrow>
      (case hv_capture c of
         LinuxX11 dpy \<Rightarrow>
           if trim_text dpy = [] then Err EmptySource
           else Ok (h264_plan [''-f'', ''x11grab'', ''-framerate'', num (hv_framerate c), ''-draw_mouse'', ''1'', ''-i'', dpy, ''-an''] (video_filter_args c) c)
       | _ \<Rightarrow> Err WrongCapture))"

definition plan_ffmpeg_windows_gdigrab_h264 :: "host_video_config \<Rightarrow> (plan_error, ffmpeg_plan) result" where
  "plan_ffmpeg_windows_gdigrab_h264 c =
     (case validate_h264_config c of Inl e \<Rightarrow> Err e | Inr _ \<Rightarrow>
      if hv_encoder c \<in> {HVaapi, HVideoToolbox} then Err UnsupportedEncoder
      else (case hv_capture c of
         WindowsGdiGrab inp \<Rightarrow>
           if trim_text inp = [] then Err EmptySource
           else Ok (h264_plan [''-f'', ''gdigrab'', ''-framerate'', num (hv_framerate c), ''-draw_mouse'', ''1'', ''-i'', inp, ''-an''] (video_filter_args c) c)
       | _ \<Rightarrow> Err WrongCapture))"

definition plan_ffmpeg_macos_avfoundation_h264 :: "host_video_config \<Rightarrow> (plan_error, ffmpeg_plan) result" where
  "plan_ffmpeg_macos_avfoundation_h264 c =
     (case validate_h264_config c of Inl e \<Rightarrow> Err e | Inr _ \<Rightarrow>
      if hv_encoder c \<notin> {HVideoToolbox, HLibx264} then Err UnsupportedEncoder
      else (case hv_capture c of
         MacosAvFoundation dpy audio \<Rightarrow>
           if trim_text dpy = [] then Err EmptySource
           else Ok (h264_plan [''-f'', ''avfoundation'', ''-framerate'', num (hv_framerate c), ''-i'', dpy @ '':'' @ audio, ''-an''] (video_filter_args c) c)
       | _ \<Rightarrow> Err WrongCapture))"

definition hdr_requested :: "color_space option \<Rightarrow> 8 word \<Rightarrow> bool" where
  "hdr_requested cs depth \<longleftrightarrow> (case cs of Some x \<Rightarrow> x \<noteq> Bt709 | None \<Rightarrow> False) \<or> depth = 10"

definition plan_ffmpeg_windows_dxgi_h264 :: "host_video_config \<Rightarrow> (plan_error, ffmpeg_plan) result" where
  "plan_ffmpeg_windows_dxgi_h264 c =
     (case validate_h264_config c of Inl e \<Rightarrow> Err e | Inr _ \<Rightarrow>
      if hv_encoder c \<in> {HVaapi, HVideoToolbox} then Err UnsupportedEncoder
      else (case hv_capture c of
         WindowsDxgi inp \<Rightarrow>
           if trim_text inp = [] then Err EmptySource
           else let idx = (case parse_u32 (trim_text inp) of Some n \<Rightarrow> n | None \<Rightarrow> 0);
                    filters = (if hdr_requested (hv_color_space c) (hv_bit_depth c)
                       then video_filter_args c @ [''-vf'', ''scale='' @ num (hv_width c) @ '':'' @ num (hv_height c) @ '',format=yuv420p10le'']
                       else video_filter_args c)
             in Ok (h264_plan [''-f'', ''lavfi'', ''-i'', ''ddagrab=output_idx='' @ num idx @ '':framerate='' @ num (hv_framerate c), ''-an'']
                     filters c)
       | _ \<Rightarrow> Err WrongCapture))"

definition plan_ffmpeg_h264 :: "host_video_config \<Rightarrow> (plan_error, ffmpeg_plan) result" where
  "plan_ffmpeg_h264 c =
     (case hv_capture c of
        LinuxPipeWire _ \<Rightarrow> plan_ffmpeg_pipewire_h264 c
      | LinuxX11 _ \<Rightarrow> plan_ffmpeg_linux_x11_h264 c
      | WindowsGdiGrab _ \<Rightarrow> plan_ffmpeg_windows_gdigrab_h264 c
      | MacosAvFoundation _ _ \<Rightarrow> plan_ffmpeg_macos_avfoundation_h264 c
      | WindowsDxgi _ \<Rightarrow> plan_ffmpeg_windows_dxgi_h264 c)"

subsection \<open>The codec-agnostic planner\<close>

definition validate_pipeline_config :: "video_pipeline_config \<Rightarrow> (plan_error, unit) result" where
  "validate_pipeline_config c =
     (if vc_width c = 0 \<or> vc_height c = 0 \<or> vc_framerate c = 0 \<or> vc_bitrate_kbps c = 0 then Err ZeroParameter
      else if ffmpeg_name (vc_backend c) (vc_encoder_kind c) = None then Err UnsupportedPair
      else Ok ())"

text \<open>\<open>listed\<close> is \<open>enumerate_displays\<close>.\<close>

definition resolve_capture_region :: "(capture_source \<Rightarrow> display_info list) \<Rightarrow> video_pipeline_config \<Rightarrow> capture_region option" where
  "resolve_capture_region listed c =
     (case vc_capture_region c of
        Some r \<Rightarrow> Some r
      | None \<Rightarrow>
         (case vc_display_index c of
            None \<Rightarrow> None
          | Some i \<Rightarrow>
             map_option (\<lambda>d. \<lparr>cr_x = di_x d, cr_y = di_y d, cr_width = di_width d, cr_height = di_height d\<rparr>)
               (find (\<lambda>d. di_index d = i) (listed (vc_capture c)))))"

definition size_text :: "capture_region \<Rightarrow> string" where
  "size_text r = num (cr_width r) @ ''x'' @ num (cr_height r)"

definition capture_input_args :: "video_pipeline_config \<Rightarrow> capture_region option \<Rightarrow> string list" where
  "capture_input_args c region =
     (case vc_capture c of
        LinuxPipeWire node \<Rightarrow> [''-f'', ''pipewire'', ''-framerate'', num (vc_framerate c), ''-i'', node, ''-an'']
      | LinuxX11 dpy \<Rightarrow>
          [''-f'', ''x11grab'', ''-framerate'', num (vc_framerate c), ''-draw_mouse'', ''1'']
          @ (case region of
               Some r \<Rightarrow> [''-video_size'', size_text r, ''-i'', dpy @ ''+'' @ num (cr_x r) @ '','' @ num (cr_y r)]
             | None \<Rightarrow> [''-i'', dpy])
          @ [''-an'']
      | WindowsGdiGrab inp \<Rightarrow>
          [''-f'', ''gdigrab'', ''-framerate'', num (vc_framerate c), ''-draw_mouse'', ''1'']
          @ (case region of
               Some r \<Rightarrow> [''-offset_x'', num (cr_x r), ''-offset_y'', num (cr_y r), ''-video_size'', size_text r]
             | None \<Rightarrow> [])
          @ [''-i'', inp, ''-an'']
      | MacosAvFoundation dpy audio \<Rightarrow>
          [''-f'', ''avfoundation'', ''-framerate'', num (vc_framerate c), ''-i'', dpy @ '':'' @ audio, ''-an'']
      | WindowsDxgi inp \<Rightarrow> [''-f'', ''dshow'', ''-framerate'', num (vc_framerate c), ''-i'', inp, ''-an''])"

definition default_pix_fmt_filter :: "video_pipeline_config \<Rightarrow> string list" where
  "default_pix_fmt_filter c =
     (if vc_backend c = Vaapi then [''-vaapi_device'', ''/dev/dri/renderD128'', ''-vf'', ''format=nv12,hwupload''] else [])"

definition scale_filter :: "video_pipeline_config \<Rightarrow> capture_region option \<Rightarrow> string" where
  "scale_filter c region =
     (let w = num (vc_width c); h = num (vc_height c) in
      case vc_scale_mode c of
        Native \<Rightarrow> (case region of
            Some r \<Rightarrow> ''scale='' @ num (cr_width r) @ '':'' @ num (cr_height r) @ '':flags=fast'' | None \<Rightarrow> ''null'')
      | Fit \<Rightarrow> ''scale='' @ w @ '':'' @ h @ '':force_original_aspect_ratio=decrease,pad='' @ w @ '':'' @ h @ '':(ow-iw)/2:(oh-ih)/2''
      | Fill \<Rightarrow> ''scale='' @ w @ '':'' @ h @ '':force_original_aspect_ratio=increase,crop='' @ w @ '':'' @ h
      | Crop \<Rightarrow> (case region of
            Some r \<Rightarrow> ''crop='' @ num (cr_width r) @ '':'' @ num (cr_height r) @ '':'' @ num (cr_x r) @ '':'' @ num (cr_y r) @
                '',scale='' @ w @ '':'' @ h @ '':flags=fast''
          | None \<Rightarrow> ''scale='' @ w @ '':'' @ h @ '':flags=fast''))"

definition video_filter_args_for :: "video_pipeline_config \<Rightarrow> capture_region option \<Rightarrow> string list" where
  "video_filter_args_for c region =
     (if (case region of Some r \<Rightarrow> cr_width r = vc_width c \<and> cr_height r = vc_height c | None \<Rightarrow> False)
      then default_pix_fmt_filter c
      else if vc_backend c = Vaapi
      then [''-vaapi_device'', ''/dev/dri/renderD128'', ''-vf'', scale_filter c region @ '',format=nv12,hwupload'']
      else [''-vf'', scale_filter c region])"

definition pix_fmt :: "chroma_format \<Rightarrow> bool \<Rightarrow> string" where
  "pix_fmt chroma hdr =
     (case chroma of Yuv420 \<Rightarrow> if hdr then ''yuv420p10le'' else ''yuv420p''
      | Yuv444 \<Rightarrow> if hdr then ''yuv444p10le'' else ''yuv444p'')"

definition min_rate :: "video_pipeline_config \<Rightarrow> u32" where
  "min_rate c = (case vc_min_bitrate_kbps c of
     Some m \<Rightarrow> m | None \<Rightarrow> max (saturating_sub (vc_bitrate_kbps c) (vc_bitrate_kbps c div 4)) 1)"

definition buffer_size :: "video_pipeline_config \<Rightarrow> u32" where
  "buffer_size c = max (case vc_buffer_size_kbits c of Some b \<Rightarrow> b | None \<Rightarrow> vc_bitrate_kbps c div 2) 1"

definition max_cll :: "video_pipeline_config \<Rightarrow> u16" where
  "max_cll c = (case vc_hdr_static_metadata c of Some m \<Rightarrow> hdr_max_cll m | None \<Rightarrow> 1000)"
definition max_fall :: "video_pipeline_config \<Rightarrow> u16" where
  "max_fall c = (case vc_hdr_static_metadata c of Some m \<Rightarrow> hdr_max_fall m | None \<Rightarrow> 400)"

definition hdr_x265_params :: "video_pipeline_config \<Rightarrow> string list" where
  "hdr_x265_params c =
     [''-x265-params'', ''hdr-opt=1:repeat-headers=1:master-display=G(13250,34500)B(7500,3000)R(34000,16000)WP(15635,16450)L(10000000,1):max-cll=''
        @ num (max_cll c) @ '','' @ num (max_fall c) @ '':max-fall='' @ num (max_fall c)]"

definition hdr_libaom_params :: "video_pipeline_config \<Rightarrow> string list" where
  "hdr_libaom_params c =
     [''-aom-params'', ''bit-depth=10:profile=0:tier=0:enable-highbitdepth=1:color-primaries=bt2020:transfer-characteristics=smpte2084:matrix-coefficients=bt2020-ncl:max-cll=''
        @ num (max_cll c) @ '':max-fall='' @ num (max_fall c)]"

definition tuning_args :: "video_pipeline_config \<Rightarrow> string \<Rightarrow> bool \<Rightarrow> string list" where
  "tuning_args c fmt hdr =
     (case vc_backend c of
        Nvenc \<Rightarrow> [''-preset'', ''p1'', ''-tune'', ''ull'', ''-rc'', ''cbr'', ''-forced-idr'', ''1'', ''-pix_fmt'', fmt]
      | Vaapi \<Rightarrow> [''-low_power'', ''1'', ''-rc_mode'', ''CBR'', ''-pix_fmt'', fmt]
      | Qsv \<Rightarrow> [''-preset'', ''veryfast'', ''-look_ahead'', ''0'', ''-pix_fmt'', fmt]
      | Amf \<Rightarrow> [''-quality'', ''speed'', ''-usage'', ''ultralowlatency'', ''-pix_fmt'', fmt]
      | VideoToolbox \<Rightarrow> [''-realtime'', ''1'', ''-allow_sw'', ''0'', ''-pix_fmt'', fmt]
      | Software \<Rightarrow>
         (case vc_encoder_kind c of
            KindH264 \<Rightarrow> [''-preset'', ''ultrafast'', ''-tune'', ''zerolatency'', ''-pix_fmt'', fmt]
          | KindH265 \<Rightarrow> [''-preset'', ''ultrafast'', ''-tune'', ''zerolatency'', ''-pix_fmt'', fmt] @ (if hdr then hdr_x265_params c else [])
          | KindAv1 \<Rightarrow> [''-cpu-used'', ''8'', ''-row-mt'', ''1'', ''-tile-columns'', ''2'', ''-tile-rows'', ''1'', ''-pix_fmt'', fmt]
              @ (if hdr then hdr_libaom_params c else [])))"

definition encoder_args_for :: "video_pipeline_config \<Rightarrow> string list" where
  "encoder_args_for c =
     (let name = (case ffmpeg_name (vc_backend c) (vc_encoder_kind c) of Some n \<Rightarrow> n | None \<Rightarrow> ''libx264'');
          hdr = hdr_requested (vc_color_space c) (vc_bit_depth c);
          fmt = pix_fmt (case vc_chroma_format c of Some f \<Rightarrow> f | None \<Rightarrow> Yuv420) hdr
      in [''-c:v'', name, ''-b:v'', num (vc_bitrate_kbps c) @ ''k'', ''-maxrate'', num (vc_bitrate_kbps c) @ ''k'',
          ''-minrate'', num (min_rate c) @ ''k'', ''-bufsize'', num (buffer_size c) @ ''k'',
          ''-g'', num (vc_keyframe_interval_frames c), ''-bf'', ''0''] @ tuning_args c fmt hdr)"

fun aud_filter :: "video_encoder_kind \<Rightarrow> string" where
  "aud_filter KindH264 = ''h264_metadata=aud=insert''"
| "aud_filter KindH265 = ''hevc_metadata=aud=insert''"
| "aud_filter KindAv1 = ''av1_metadata=td=insert''"

definition annex_b_output_args :: "video_encoder_kind \<Rightarrow> string list" where
  "annex_b_output_args k = [''-bsf:v'', aud_filter k, ''-f'', ffmpeg_mux_format (kind_codec k), ''pipe:1'']"

definition plan_ffmpeg_pipeline ::
    "(capture_source \<Rightarrow> display_info list) \<Rightarrow> video_pipeline_config \<Rightarrow> (plan_error, ffmpeg_plan) result" where
  "plan_ffmpeg_pipeline listed c =
     (case validate_pipeline_config c of
        Inl e \<Rightarrow> Err e
      | Inr _ \<Rightarrow>
         let region = resolve_capture_region listed c
         in Ok \<lparr>fp_program = ''ffmpeg'',
               fp_args = quiet_args @ capture_input_args c region @ video_filter_args_for c region @ encoder_args_for c
                 @ annex_b_output_args (vc_encoder_kind c),
               fp_output = AnnexBStdout (kind_codec (vc_encoder_kind c))\<rparr>)"

subsection \<open>Displays\<close>

definition sign_char :: "char \<Rightarrow> bool" where
  "sign_char c \<longleftrightarrow> c = CHR ''+'' \<or> c = CHR ''-''"

text \<open>A signed 64-bit offset clamped at zero and cut to 32 bits; the digits come without a sign.\<close>

definition offset_u32 :: "bool \<Rightarrow> string \<Rightarrow> u32 option" where
  "offset_u32 negative s = map_option (\<lambda>n. if negative then 0 else of_nat n) (parse_dec (2 ^ 63) s)"

definition parse_geometry_token :: "string \<Rightarrow> (u32 \<times> u32 \<times> u32 \<times> u32) option" where
  "parse_geometry_token token =
     (case split_once (CHR ''x'') token of
        None \<Rightarrow> None
      | Some (w_str, rest) \<Rightarrow>
         (case parse_u32 w_str of
            None \<Rightarrow> None
          | Some w \<Rightarrow>
             let h_str = takeWhile is_digit rest; after_h = dropWhile is_digit rest in
             if after_h = [] then None
             else (case parse_u32 h_str of
                None \<Rightarrow> None
              | Some h \<Rightarrow>
                 if \<not> sign_char (hd after_h) then None
                 else let body = tl after_h in
                   if \<not> list_ex sign_char body then None
                   else let x_str = takeWhile (\<lambda>c. \<not> sign_char c) body;
                            y_signed = tl (dropWhile (\<lambda>c. \<not> sign_char c) body);
                            y_str = dropWhile sign_char y_signed
                     in (case offset_u32 (hd after_h = CHR ''-'') x_str of
                           None \<Rightarrow> None
                         | Some x \<Rightarrow>
                            (case offset_u32 (starts_with y_signed ''-'') y_str of
                               None \<Rightarrow> None
                             | Some y \<Rightarrow> Some (w, h, x, y))))))"

text \<open>\<open>round_hz\<close> parses and rounds the number before \<open>Hz\<close>.\<close>

definition parse_refresh_from_line :: "(string \<Rightarrow> u32 option) \<Rightarrow> string \<Rightarrow> u32 option" where
  "parse_refresh_from_line round_hz line =
     (let stripped = (\<lambda>tok. rev (dropWhile (\<lambda>c. c = CHR ''*'') (dropWhile (\<lambda>c. c = CHR ''+'') (rev tok))));
          hz = (\<lambda>tok. if ends_with (stripped tok) ''Hz'' then round_hz (take (length (stripped tok) - 2) (stripped tok)) else None)
      in case filter (\<lambda>r. r \<noteq> None) (map hz (split_whitespace line)) of [] \<Rightarrow> None | r # _ \<Rightarrow> r)"

definition geometry_token :: "string \<Rightarrow> bool" where
  "geometry_token tok \<longleftrightarrow> CHR ''x'' \<in> set tok \<and> (CHR ''+'' \<in> set tok \<or> CHR ''-'' \<in> set tok)"

definition primary_of_lines :: "string list \<Rightarrow> string option" where
  "primary_of_lines ls =
     foldl (\<lambda>p line. if str_infix '' primary '' line \<or> str_infix '' connected primary '' line
        then (case split_whitespace line of n # _ \<Rightarrow> Some n | [] \<Rightarrow> p) else p) None ls"

definition xrandr_line :: "(string \<Rightarrow> u32 option) \<Rightarrow> string option \<Rightarrow> nat \<Rightarrow> string \<Rightarrow> display_info option" where
  "xrandr_line round_hz primary idx line =
     (case split_whitespace line of
        name # state # parts \<Rightarrow>
          if state \<noteq> ''connected'' then None
          else (case parse_geometry_token (case find geometry_token parts of Some t \<Rightarrow> t | None \<Rightarrow> ''0x0+0+0'') of
                  None \<Rightarrow> None
                | Some (w, h, x, y) \<Rightarrow>
                    Some \<lparr>di_index = of_nat idx, di_name = name, di_x = x, di_y = y, di_width = w, di_height = h,
                      di_refresh_hz = parse_refresh_from_line round_hz line, di_is_primary = (primary = Some name)\<rparr>)
      | _ \<Rightarrow> None)"

definition parse_xrandr_query :: "(string \<Rightarrow> u32 option) \<Rightarrow> string \<Rightarrow> display_info list" where
  "parse_xrandr_query round_hz out =
     (let ls = str_lines out; primary = primary_of_lines ls;
          found = map the (filter (\<lambda>d. d \<noteq> None) (map2 (xrandr_line round_hz primary) [0..<length ls] ls))
      in case found of
           d # ds \<Rightarrow> if primary = None then d\<lparr>di_is_primary := True\<rparr> # ds else found
         | [] \<Rightarrow> [])"

definition xinerama_line :: "string \<Rightarrow> display_info option" where
  "xinerama_line line =
     (let parts = split_on (char_of (9 :: nat)) line in
      if length parts < 5 then None
      else case (parse_u32 (parts ! 0), parse_u32 (parts ! 1), parse_u32 (parts ! 2), parse_u32 (parts ! 3), parse_u32 (parts ! 4)) of
        (Some i, Some x, Some y, Some w, Some h) \<Rightarrow>
          Some \<lparr>di_index = i, di_name = ''xinerama-'' @ num i, di_x = x, di_y = y, di_width = w, di_height = h, di_refresh_hz = None,
            di_is_primary = (5 < length parts \<and> (case parse_u8 (parts ! 5) of Some p \<Rightarrow> p \<noteq> 0 | None \<Rightarrow> False))\<rparr>
      | _ \<Rightarrow> None)"

text \<open>The outside programs: what they print on success for a display.\<close>

record display_tools =
  run_xrandr :: "string \<Rightarrow> string option"
  run_xinerama :: "string \<Rightarrow> string option"
  hz_of_text :: "string \<Rightarrow> u32 option"

definition enumerate_x11_displays :: "platform_os \<Rightarrow> display_tools \<Rightarrow> string \<Rightarrow> display_info list" where
  "enumerate_x11_displays sys T dpy =
     (if sys \<noteq> Linux then []
      else case run_xrandr T dpy of None \<Rightarrow> [] | Some out \<Rightarrow> parse_xrandr_query (hz_of_text T) out)"

definition parse_xinerama_via_python :: "display_tools \<Rightarrow> string \<Rightarrow> display_info list" where
  "parse_xinerama_via_python T dpy =
     (case run_xinerama T dpy of
        None \<Rightarrow> [] | Some out \<Rightarrow> map the (filter (\<lambda>d. d \<noteq> None) (map xinerama_line (str_lines out))))"

definition enumerate_xinerama_screens :: "platform_os \<Rightarrow> display_tools \<Rightarrow> string \<Rightarrow> display_info list" where
  "enumerate_xinerama_screens sys T dpy =
     (if sys \<noteq> Linux then []
      else let xr = enumerate_x11_displays sys T dpy in if xr \<noteq> [] then xr else parse_xinerama_via_python T dpy)"

definition enumerate_displays :: "platform_os \<Rightarrow> display_tools \<Rightarrow> capture_source \<Rightarrow> display_info list" where
  "enumerate_displays sys T source =
     (case source of
        LinuxX11 dpy \<Rightarrow>
          let ds = enumerate_x11_displays sys T dpy in if ds \<noteq> [] then ds else enumerate_xinerama_screens sys T dpy
      | _ \<Rightarrow> [])"

subsection \<open>Probing\<close>

definition backend_available :: "backend_probe option \<Rightarrow> bool" where
  "backend_available b \<longleftrightarrow> (case b of Some p \<Rightarrow> bp_status p = Available | None \<Rightarrow> False)"

definition backend_usable :: "backend_probe option \<Rightarrow> bool" where
  "backend_usable b \<longleftrightarrow> (case b of Some p \<Rightarrow> bp_status p \<in> {Available, Missing, Planned} | None \<Rightarrow> False)"

definition preferred_linux_capture_kind :: "(string \<rightharpoonup> string) \<Rightarrow> backend_probe list \<Rightarrow> capture_kind option" where
  "preferred_linux_capture_kind env backends =
     (let pipewire = find (\<lambda>b. bp_name b = ''PipeWire'') backends; x11 = find (\<lambda>b. bp_name b = ''X11'') backends;
          wayland = env ''WAYLAND_DISPLAY'' \<noteq> None; x11_display = env ''DISPLAY'' \<noteq> None
      in if wayland \<and> backend_available pipewire then Some Pipewire
         else if x11_display \<and> backend_usable x11 then Some X11
         else if backend_available pipewire then Some Pipewire
         else if backend_available x11 then Some X11
         else if wayland \<and> backend_usable pipewire then Some Pipewire
         else if x11_display \<and> backend_usable x11 then Some X11
         else None)"

record probe_tools =
  path_exists :: "string \<Rightarrow> bool"
  command_available :: "string \<Rightarrow> bool"
  ffmpeg_devices :: "string option"
  ffmpeg_encoders :: "string option"

definition probe_pipewire_capture :: "platform_os \<Rightarrow> (string \<rightharpoonup> string) \<Rightarrow> probe_tools \<Rightarrow> backend_probe" where
  "probe_pipewire_capture sys env P =
     \<lparr>bp_name = ''PipeWire'', bp_status =
       (if sys \<noteq> Linux then Unsupported
        else if (case (case env ''PIPEWIRE_RUNTIME_DIR'' of Some d \<Rightarrow> Some d | None \<Rightarrow> env ''XDG_RUNTIME_DIR'') of
                   Some d \<Rightarrow> path_exists P ((if d = [] then [] else if last d = CHR ''/'' then d else d @ ''/'') @ ''pipewire-0'')
                 | None \<Rightarrow> False) then Available
        else if command_available P ''pw-cli'' \<or> command_available P ''pipewire'' then Available
        else Missing)\<rparr>"

definition probe_x11_capture :: "platform_os \<Rightarrow> probe_tools \<Rightarrow> backend_probe" where
  "probe_x11_capture sys P =
     \<lparr>bp_name = ''X11'', bp_status =
       (if sys \<noteq> Linux then Unsupported
        else case ffmpeg_devices P of None \<Rightarrow> Missing | Some d \<Rightarrow> if str_infix ''x11grab'' d then Available else Missing)\<rparr>"

definition probe_windows_gdigrab_capture :: "platform_os \<Rightarrow> probe_tools \<Rightarrow> backend_probe" where
  "probe_windows_gdigrab_capture sys P =
     \<lparr>bp_name = ''FFmpeg gdigrab'', bp_status =
       (if sys \<noteq> Windows then Unsupported
        else case ffmpeg_devices P of None \<Rightarrow> Missing | Some d \<Rightarrow> if str_infix ''gdigrab'' d then Available else Missing)\<rparr>"

definition probe_linux_capture :: "platform_os \<Rightarrow> (string \<rightharpoonup> string) \<Rightarrow> probe_tools \<Rightarrow> backend_probe" where
  "probe_linux_capture sys env P =
     (let backends = [probe_pipewire_capture sys env P, probe_x11_capture sys P];
          none = \<lparr>bp_name = ''Linux capture'', bp_status = Missing\<rparr>
      in case preferred_linux_capture_kind env backends of
           None \<Rightarrow> none
         | Some kind \<Rightarrow>
            (case find (\<lambda>b. bp_name b = (case kind of Pipewire \<Rightarrow> ''PipeWire'' | X11 \<Rightarrow> ''X11'' | _ \<Rightarrow> ''Linux capture'')) backends of
               Some b \<Rightarrow> b | None \<Rightarrow> none))"

definition probe_h264_encoder :: "probe_tools \<Rightarrow> backend_probe" where
  "probe_h264_encoder P =
     \<lparr>bp_name = ''FFmpeg H.264 hardware encoder'', bp_status =
       (case ffmpeg_encoders P of
          None \<Rightarrow> Missing
        | Some text \<Rightarrow> if filter (\<lambda>c. str_infix c text) h264_encoder_candidates = [] then Missing else Available)\<rparr>"

definition probe_default_host_pipeline :: "platform_os \<Rightarrow> (string \<rightharpoonup> string) \<Rightarrow> probe_tools \<Rightarrow> backend_probe \<times> backend_probe \<times> bool" where
  "probe_default_host_pipeline sys env P =
     (let capture_p = (case sys of
            Linux \<Rightarrow> probe_linux_capture sys env P
          | Windows \<Rightarrow> probe_windows_gdigrab_capture sys P
          | Macos \<Rightarrow> \<lparr>bp_name = ''ScreenCaptureKit'', bp_status = Planned\<rparr>
          | Android \<Rightarrow> \<lparr>bp_name = ''MediaProjection'', bp_status = Planned\<rparr>);
          encoder_p = probe_h264_encoder P
      in (capture_p, encoder_p, bp_status capture_p = Available \<and> bp_status encoder_p = Available))"

subsection \<open>Encoder names\<close>

definition all_backends :: "encoder_backend list" where
  "all_backends = [Software, Nvenc, Vaapi, Qsv, Amf, VideoToolbox]"

definition all_kinds_list :: "video_encoder_kind list" where
  "all_kinds_list = [KindH264, KindH265, KindAv1]"

lemma in_all: "b \<in> set all_backends" "k \<in> set all_kinds_list"
  by (cases b; simp add: all_backends_def) (cases k; simp add: all_kinds_list_def)

lemma names_classified:
  "list_all (\<lambda>b. list_all (\<lambda>k. classify_encoder (the (ffmpeg_name b k)) = Some (k, b) \<and>
     the (ffmpeg_name b k) \<in> set (encoders_for_kind k)) (all_kinds b)) all_backends"
  by code_simp

lemma candidates_classified:
  "list_all (\<lambda>k. list_all (\<lambda>n. case classify_encoder n of Some (k', _) \<Rightarrow> k' = k | None \<Rightarrow> True) (encoders_for_kind k)) all_kinds_list"
  by code_simp

lemma classify_ffmpeg_name:
  assumes "k \<in> set (all_kinds b)" "ffmpeg_name b k = Some n"
  shows "classify_encoder n = Some (k, b)" "n \<in> set (encoders_for_kind k)"
proof -
  have "classify_encoder (the (ffmpeg_name b k)) = Some (k, b) \<and> the (ffmpeg_name b k) \<in> set (encoders_for_kind k)"
    using names_classified in_all(1)[of b] assms(1) by (simp add: list_all_iff)
  then show "classify_encoder n = Some (k, b)" "n \<in> set (encoders_for_kind k)" by (simp_all add: assms(2))
qed

lemma find_SomeD: "find P xs = Some x \<Longrightarrow> x \<in> set xs \<and> P x"
  by (auto simp: find_Some_iff)

text \<open>An encoder name is classified as a back end and codec exactly when that back end lists the codec
  and has that name for it.\<close>

theorem encoder_name_roundtrip:
  "classify_encoder n = Some (k, b) \<longleftrightarrow> k \<in> set (all_kinds b) \<and> ffmpeg_name b k = Some n"
proof
  assume "classify_encoder n = Some (k, b)"
  from find_SomeD[OF this[unfolded classify_encoder_def]]
  show "k \<in> set (all_kinds b) \<and> ffmpeg_name b k = Some n" by auto
qed (simp add: classify_ffmpeg_name)

lemma av1_hardware_unlisted: "classify_encoder ''av1_vaapi'' = None" "classify_encoder ''av1_qsv'' = None" "classify_encoder ''av1_amf'' = None"
  "ffmpeg_name Vaapi KindAv1 = Some ''av1_vaapi''"
  by code_simp+

lemma foldl_add_candidate:
  "set (foldl (add_candidate text) found cs) =
     set found \<union> {b. \<exists>c k. c \<in> set cs \<and> str_infix c text \<and> classify_encoder c = Some (k, b)}"
  by (induction cs arbitrary: found) (auto simp: add_candidate_def split: option.splits if_splits prod.splits)

lemma candidates_kind: "n \<in> set (encoders_for_kind k) \<Longrightarrow> classify_encoder n = Some (k', b) \<Longrightarrow> k' = k"
  using candidates_classified in_all(2)[of k] by (auto simp: list_all_iff split: option.splits)

lemma probed_backends:
  assumes "map_of (probe_video_encoder_backends (Some text)) kind = Some avail"
  shows "b \<in> set avail \<longleftrightarrow> kind \<in> set (all_kinds b) \<and> (\<exists>n. ffmpeg_name b kind = Some n \<and> str_infix n text)"
proof -
  have "avail = foldl (add_candidate text) [] (encoders_for_kind kind)"
    using assms by (cases kind) (simp_all add: probe_video_encoder_backends_def)
  then have "b \<in> set avail \<longleftrightarrow> (\<exists>c k. c \<in> set (encoders_for_kind kind) \<and> str_infix c text \<and> classify_encoder c = Some (k, b))"
    by (simp add: foldl_add_candidate)
  also have "\<dots> \<longleftrightarrow> kind \<in> set (all_kinds b) \<and> (\<exists>n. ffmpeg_name b kind = Some n \<and> str_infix n text)"
    using candidates_kind classify_ffmpeg_name encoder_name_roundtrip by blast
  finally show ?thesis .
qed

text \<open>The back end chosen from what FFmpeg reports implements the codec; it is one FFmpeg reports,
  and no back end earlier in the platform's order is, or nothing of that order is reported and the
  choice is the software encoder.\<close>

theorem encoder_choice_supported:
  assumes "map_of (probe_video_encoder_backends (Some text)) kind = Some avail" "b = preferred_encoder_backend sys kind avail"
  shows "kind \<in> set (all_kinds b) \<and>
    (if \<exists>b'\<in>set (backend_priority sys). kind \<in> set (all_kinds b') \<and> (\<exists>n. ffmpeg_name b' kind = Some n \<and> str_infix n text)
     then (\<exists>n. ffmpeg_name b kind = Some n \<and> str_infix n text) \<and>
       (\<exists>i < length (backend_priority sys). backend_priority sys ! i = b \<and>
          (\<forall>j < i. \<not> (kind \<in> set (all_kinds (backend_priority sys ! j)) \<and>
             (\<exists>n. ffmpeg_name (backend_priority sys ! j) kind = Some n \<and> str_infix n text))))
     else b = Software)"
proof (cases "find (\<lambda>b. kind \<in> set (all_kinds b) \<and> b \<in> set avail) (backend_priority sys)")
  case None
  then have "b = Software" "\<not> (\<exists>b'\<in>set (backend_priority sys). kind \<in> set (all_kinds b') \<and> b' \<in> set avail)"
    using assms(2) by (simp add: preferred_encoder_backend_def) (use None in \<open>auto simp: find_None_iff\<close>)
  moreover have "kind \<in> set (all_kinds Software)" by (cases kind) simp_all
  ultimately show ?thesis using probed_backends[OF assms(1)] by auto
next
  case (Some b')
  then have "b = b'" by (simp add: assms(2) preferred_encoder_backend_def)
  with Some obtain i where i: "i < length (backend_priority sys)" "backend_priority sys ! i = b" "kind \<in> set (all_kinds b)" "b \<in> set avail"
    "\<forall>j<i. \<not> (kind \<in> set (all_kinds (backend_priority sys ! j)) \<and> backend_priority sys ! j \<in> set avail)"
    by (auto simp: find_Some_iff)
  have "b \<in> set (backend_priority sys)" using i(1,2) by auto
  with i probed_backends[OF assms(1)] show ?thesis by auto
qed

subsection \<open>Rates\<close>

lemma unat_min_rate_default:
  assumes "vc_min_bitrate_kbps c = None" "vc_bitrate_kbps c \<noteq> 0"
  shows "unat (min_rate c) = unat (vc_bitrate_kbps c) - unat (vc_bitrate_kbps c) div 4"
proof -
  let ?b = "vc_bitrate_kbps c"
  have q: "unat (?b div 4) = unat ?b div 4" by (simp add: unat_div)
  have "?b div 4 \<le> ?b" by (simp add: word_le_nat_alt q)
  then have s: "unat (saturating_sub ?b (?b div 4)) = unat ?b - unat ?b div 4"
    by (simp add: saturating_sub_def unat_sub q)
  have "unat ?b \<ge> 1" using assms(2) by (simp add: unat_gt_0 Suc_le_eq)
  then have "unat (saturating_sub ?b (?b div 4)) \<ge> 1" unfolding s by linarith
  then have "1 \<le> saturating_sub ?b (?b div 4)" by (simp add: word_le_nat_alt)
  then show ?thesis using s assms(1) by (simp add: min_rate_def max_def)
qed

text \<open>C26: The rates of a planned pipeline: without an explicit minimum the minimum rate is positive, at
  most the target and at least three quarters of it, and the rate buffer is never empty, for every
  32-bit bitrate; the command line carries these numbers.\<close>

theorem planned_rates_bounds:
  assumes "plan_ffmpeg_pipeline listed c = Ok plan"
  shows "1 \<le> buffer_size c \<and>
    (vc_min_bitrate_kbps c = None \<longrightarrow>
       1 \<le> min_rate c \<and> min_rate c \<le> vc_bitrate_kbps c \<and> 3 * unat (vc_bitrate_kbps c) \<le> 4 * unat (min_rate c)) \<and>
    (\<exists>pre post. fp_args plan = pre @ [''-maxrate'', num (vc_bitrate_kbps c) @ ''k'', ''-minrate'', num (min_rate c) @ ''k'',
       ''-bufsize'', num (buffer_size c) @ ''k''] @ post)"
proof (intro conjI impI)
  have b: "vc_bitrate_kbps c \<noteq> 0" using assms by (auto simp: plan_ffmpeg_pipeline_def validate_pipeline_config_def split: if_splits)
  show "1 \<le> buffer_size c" by (simp add: buffer_size_def)
  assume m: "vc_min_bitrate_kbps c = None"
  note u = unat_min_rate_default[OF m b]
  have "unat (vc_bitrate_kbps c) \<ge> 1" using b by (simp add: unat_gt_0 Suc_le_eq)
  then show "1 \<le> min_rate c" "min_rate c \<le> vc_bitrate_kbps c" "3 * unat (vc_bitrate_kbps c) \<le> 4 * unat (min_rate c)"
    unfolding word_le_nat_alt u by simp_all
next
  show "\<exists>pre post. fp_args plan = pre @ [''-maxrate'', num (vc_bitrate_kbps c) @ ''k'', ''-minrate'', num (min_rate c) @ ''k'',
       ''-bufsize'', num (buffer_size c) @ ''k''] @ post"
  proof -
    let ?region = "resolve_capture_region listed c"
    have "\<exists>pre post. encoder_args_for c = pre @ [''-maxrate'', num (vc_bitrate_kbps c) @ ''k'', ''-minrate'', num (min_rate c) @ ''k'',
         ''-bufsize'', num (buffer_size c) @ ''k''] @ post"
      unfolding encoder_args_for_def Let_def by (rule exI[of _ "take 4 (encoder_args_for c)"]) (simp add: encoder_args_for_def Let_def)
    then obtain pre post where e: "encoder_args_for c = pre @ [''-maxrate'', num (vc_bitrate_kbps c) @ ''k'', ''-minrate'', num (min_rate c) @ ''k'',
         ''-bufsize'', num (buffer_size c) @ ''k''] @ post" by blast
    have "fp_args plan = quiet_args @ capture_input_args c ?region @ video_filter_args_for c ?region @ encoder_args_for c
        @ annex_b_output_args (vc_encoder_kind c)"
      using assms by (auto simp: plan_ffmpeg_pipeline_def Let_def split: sum.splits)
    then have "fp_args plan = (quiet_args @ capture_input_args c ?region @ video_filter_args_for c ?region @ pre)
        @ [''-maxrate'', num (vc_bitrate_kbps c) @ ''k'', ''-minrate'', num (min_rate c) @ ''k'',
         ''-bufsize'', num (buffer_size c) @ ''k''] @ (post @ annex_b_output_args (vc_encoder_kind c))"
      by (simp add: e)
    then show ?thesis by blast
  qed
qed

subsection \<open>Geometry\<close>

lemma sign_chars [simp]: "sign_char (CHR ''+'')" "sign_char (CHR ''-'')"
  by (simp_all add: sign_char_def)

lemma digits_prefix:
  assumes "\<not> is_digit d"
  shows "takeWhile is_digit (dec_text n @ d # r) = dec_text n" "dropWhile is_digit (dec_text n @ d # r) = d # r"
  using dec_text_digits[of n] assms by (simp_all add: list_all_iff takeWhile_append2 dropWhile_append2)

lemma sign_prefix:
  assumes "sign_char d"
  shows "takeWhile (\<lambda>c. \<not> sign_char c) (dec_text n @ d # r) = dec_text n" "dropWhile (\<lambda>c. \<not> sign_char c) (dec_text n @ d # r) = d # r"
proof -
  have "\<forall>c\<in>set (dec_text n). \<not> sign_char c"
    using not_digit_in_dec[of "CHR ''+''" n] not_digit_in_dec[of "CHR ''-''" n] by (auto simp: sign_char_def)
  with assms show "takeWhile (\<lambda>c. \<not> sign_char c) (dec_text n @ d # r) = dec_text n"
    "dropWhile (\<lambda>c. \<not> sign_char c) (dec_text n @ d # r) = d # r"
    by (simp_all add: takeWhile_append2 dropWhile_append2)
qed

lemma offset_text: "offset_u32 False (dec_text (unat (w :: u32))) = Some w"
proof -
  have "unat w < 2 ^ 63" using unsigned_less[of w, where 'a = nat] by simp
  then show ?thesis by (simp add: offset_u32_def)
qed

lemma dec_text_unsigned: "dropWhile sign_char (dec_text n) = dec_text n" "starts_with (dec_text n) ''-'' \<longleftrightarrow> False"
  using not_digit_in_dec[of "CHR ''+''" n] not_digit_in_dec[of "CHR ''-''" n]
  by (cases "dec_text n"; auto simp: sign_char_def starts_with_def)+

lemma geometry_token_parses:
  assumes "sign_char d"
  shows "parse_geometry_token (num (w :: u32) @ ''x'' @ num (h :: u32) @ ''+'' @ num (x :: u32) @ d # num (y :: u32)) = Some (w, h, x, y)"
  using assms
  by (simp add: parse_geometry_token_def split_once_dec digits_prefix sign_prefix Let_def offset_text dec_text_unsigned)

text \<open>A geometry as \<open>xrandr\<close> prints it is read back exactly, for all sizes and offsets of 32 bits; an
  offset above the origin is read as if it were below it.\<close>

theorem geometry_roundtrip:
  fixes w h x y :: u32
  shows "parse_geometry_token (num w @ ''x'' @ num h @ ''+'' @ num x @ ''+'' @ num y) = Some (w, h, x, y) \<and>
    parse_geometry_token (num w @ ''x'' @ num h @ ''+'' @ num x @ ''-'' @ num y) = Some (w, h, x, y)"
  using geometry_token_parses[of "CHR ''+''" w h x y] geometry_token_parses[of "CHR ''-''" w h x y] by simp

lemma unused_output_listed:
  assumes "split_whitespace line = name # ''connected'' # parts" "\<forall>t\<in>set parts. \<not> geometry_token t"
  shows "\<exists>d. xrandr_line round_hz primary idx line = Some d \<and> di_width d = 0 \<and> di_height d = 0"
proof -
  have "dec_text 0 = ''0''" by code_simp
  then have "parse_geometry_token ''0x0+0+0'' = Some (0, 0, 0, 0)"
    using geometry_token_parses[of "CHR ''+''" 0 0 0 0] by simp
  moreover have "find geometry_token parts = None" using assms(2) by (simp add: find_None_iff)
  ultimately show ?thesis using assms(1) by (simp add: xrandr_line_def)
qed

subsection \<open>Sources\<close>

lemma missing_x11_preferred:
  assumes "env ''DISPLAY'' \<noteq> None" "env ''WAYLAND_DISPLAY'' = None"
  shows "preferred_linux_capture_kind env [\<lparr>bp_name = ''PipeWire'', bp_status = Available\<rparr>, \<lparr>bp_name = ''X11'', bp_status = Missing\<rparr>] = Some X11"
  using assms by (simp add: preferred_linux_capture_kind_def backend_usable_def backend_available_def)

text \<open>On PipeWire a region of the target size is not captured: the plan is that of the whole screen,
  with no filter at all.\<close>

lemma pipewire_region_ignored:
  assumes "vc_capture c = LinuxPipeWire node" "vc_capture_region c = Some r" "cr_width r = vc_width c" "cr_height r = vc_height c"
    "vc_backend c \<noteq> Vaapi" "plan_ffmpeg_pipeline listed c = Ok plan"
  shows "fp_args plan = quiet_args @ [''-f'', ''pipewire'', ''-framerate'', num (vc_framerate c), ''-i'', node, ''-an''] @ encoder_args_for c
     @ annex_b_output_args (vc_encoder_kind c)"
  using assms
  by (auto simp: plan_ffmpeg_pipeline_def resolve_capture_region_def capture_input_args_def video_filter_args_for_def
      default_pix_fmt_filter_def Let_def split: sum.splits)

text \<open>With a display server region and the crop mode, the offset is applied twice: once on the input and
  once inside the frame that has only the region.\<close>

lemma x11_crop_applied_twice:
  assumes "vc_capture c = LinuxX11 dpy" "vc_scale_mode c = Crop" "cr_width r \<noteq> vc_width c" "vc_backend c \<noteq> Vaapi"
  shows "capture_input_args c (Some r) = [''-f'', ''x11grab'', ''-framerate'', num (vc_framerate c), ''-draw_mouse'', ''1'',
      ''-video_size'', size_text r, ''-i'', dpy @ ''+'' @ num (cr_x r) @ '','' @ num (cr_y r), ''-an'']"
    "video_filter_args_for c (Some r) = [''-vf'', ''crop='' @ num (cr_width r) @ '':'' @ num (cr_height r) @ '':'' @ num (cr_x r) @ '':'' @ num (cr_y r) @
        '',scale='' @ num (vc_width c) @ '':'' @ num (vc_height c) @ '':flags=fast'']"
  using assms by (simp_all add: capture_input_args_def video_filter_args_for_def scale_filter_def Let_def)

fun source_text :: "capture_source \<Rightarrow> string" where
  "source_text (LinuxPipeWire s) = s"
| "source_text (LinuxX11 s) = s"
| "source_text (WindowsGdiGrab s) = s"
| "source_text (MacosAvFoundation s _) = s"
| "source_text (WindowsDxgi s) = s"

fun encoder_allowed :: "capture_source \<Rightarrow> h264_encoder_backend \<Rightarrow> bool" where
  "encoder_allowed (WindowsGdiGrab _) e \<longleftrightarrow> e \<notin> {HVaapi, HVideoToolbox}"
| "encoder_allowed (WindowsDxgi _) e \<longleftrightarrow> e \<notin> {HVaapi, HVideoToolbox}"
| "encoder_allowed (MacosAvFoundation _ _) e \<longleftrightarrow> e \<in> {HVideoToolbox, HLibx264}"
| "encoder_allowed _ e \<longleftrightarrow> True"

text \<open>The H.264 planner accepts exactly the configurations with positive sizes and rates, a source that
  is not blank and an encoder of the source's platform; every plan reads that source, uses that encoder
  and ends with the arguments that put access unit delimiters into a raw stream on the standard output,
  which is what the framer splits on.\<close>

theorem h264_planner_accepts:
  "case plan_ffmpeg_h264 c of
     Inr plan \<Rightarrow> hv_codec c = H264 \<and> 0 \<notin> {hv_width c, hv_height c, hv_framerate c, hv_bitrate_kbps c} \<and>
       trim_text (source_text (hv_capture c)) \<noteq> [] \<and> encoder_allowed (hv_capture c) (hv_encoder c) \<and>
       fp_output plan = H264AnnexBStdout \<and>
       (\<exists>pre post. fp_args plan = pre @ [''-c:v'', h264_ffmpeg_name (hv_encoder c)] @ post @
          [''-bsf:v'', ''h264_metadata=aud=insert'', ''-f'', ''h264'', ''pipe:1''])
   | Inl e \<Rightarrow> hv_codec c \<noteq> H264 \<or> 0 \<in> {hv_width c, hv_height c, hv_framerate c, hv_bitrate_kbps c} \<or>
       trim_text (source_text (hv_capture c)) = [] \<or> \<not> encoder_allowed (hv_capture c) (hv_encoder c)"
proof -
  define Q where "Q plan \<longleftrightarrow> fp_output plan = H264AnnexBStdout \<and>
      (\<exists>pre post. fp_args plan = pre @ [''-c:v'', h264_ffmpeg_name (hv_encoder c)] @ post @
          [''-bsf:v'', ''h264_metadata=aud=insert'', ''-f'', ''h264'', ''pipe:1''])" for plan :: ffmpeg_plan
  have shape: "Q (h264_plan i f c)" for i f
  proof -
    obtain rest where "encoder_args c = [''-c:v'', h264_ffmpeg_name (hv_encoder c)] @ rest" by (simp add: encoder_args_def)
    then have "fp_args (h264_plan i f c) = (quiet_args @ i @ f) @ [''-c:v'', h264_ffmpeg_name (hv_encoder c)] @ rest @ h264_output_args"
      by (simp add: h264_plan_def)
    then have "\<exists>pre post. fp_args (h264_plan i f c) = pre @ [''-c:v'', h264_ffmpeg_name (hv_encoder c)] @ post @ h264_output_args" by blast
    then show ?thesis unfolding Q_def by (simp add: h264_plan_def h264_output_args_def)
  qed
  note defs = plan_ffmpeg_h264_def plan_ffmpeg_pipewire_h264_def plan_ffmpeg_linux_x11_h264_def plan_ffmpeg_windows_gdigrab_h264_def
    plan_ffmpeg_macos_avfoundation_h264_def plan_ffmpeg_windows_dxgi_h264_def validate_h264_config_def
  have "case plan_ffmpeg_h264 c of
     Inr plan \<Rightarrow> hv_codec c = H264 \<and> 0 \<notin> {hv_width c, hv_height c, hv_framerate c, hv_bitrate_kbps c} \<and>
       trim_text (source_text (hv_capture c)) \<noteq> [] \<and> encoder_allowed (hv_capture c) (hv_encoder c) \<and> Q plan
   | Inl e \<Rightarrow> hv_codec c \<noteq> H264 \<or> 0 \<in> {hv_width c, hv_height c, hv_framerate c, hv_bitrate_kbps c} \<or>
       trim_text (source_text (hv_capture c)) = [] \<or> \<not> encoder_allowed (hv_capture c) (hv_encoder c)"
    by (cases "hv_capture c") (simp_all add: defs shape Let_def)
  then show ?thesis unfolding Q_def .
qed

subsection \<open>An example\<close>

definition demo_video :: video_pipeline_config where
  "demo_video = \<lparr>vc_capture = LinuxX11 '':0'', vc_encoder_kind = KindH265, vc_backend = Nvenc, vc_width = 1280, vc_height = 720,
     vc_framerate = 60, vc_bitrate_kbps = 3, vc_min_bitrate_kbps = None, vc_buffer_size_kbits = None, vc_keyframe_interval_frames = 120,
     vc_scale_mode = Fit, vc_capture_region = None, vc_display_index = None, vc_color_space = None, vc_bit_depth = 8,
     vc_hdr_static_metadata = None, vc_chroma_format = None\<rparr>"

theorem planned_rates_bounds_witness:
  "(\<exists>plan. plan_ffmpeg_pipeline (\<lambda>_. []) demo_video = Ok plan) \<and> 1 \<le> min_rate demo_video \<and> min_rate demo_video \<le> 3 \<and> 1 \<le> buffer_size demo_video"
proof -
  obtain plan where p: "plan_ffmpeg_pipeline (\<lambda>_. []) demo_video = Ok plan"
    by (simp add: plan_ffmpeg_pipeline_def validate_pipeline_config_def demo_video_def Let_def)
  with planned_rates_bounds[OF p] show ?thesis by (simp add: demo_video_def)
qed

definition demo_encoders :: string where
  "demo_encoders = ''V..... libx264 V..... h264_vaapi V..... h264_qsv''"

lemma demo_probe: "map_of (probe_video_encoder_backends (Some demo_encoders)) KindH264 = Some [Vaapi, Qsv, Software]"
  by code_simp

theorem encoder_choice_supported_witness:
  "preferred_encoder_backend Linux KindH264 [Vaapi, Qsv, Software] = Vaapi \<and> KindH264 \<in> set (all_kinds Vaapi) \<and> str_infix ''h264_vaapi'' demo_encoders"
proof -
  have "preferred_encoder_backend Linux KindH264 [Vaapi, Qsv, Software] = Vaapi" by code_simp
  moreover have "str_infix ''h264_vaapi'' demo_encoders" by code_simp
  ultimately show ?thesis using encoder_choice_supported[OF demo_probe, of Vaapi Linux] by simp
qed

end
