(* ===== verification/Clipboard_Sync.thy ===== *)
theory Clipboard_Sync
  imports Media_Plan Wire_Codecs
begin

text \<open>
  Clipboard synchronisation (\<open>qubox-clipboard\<close>): the watcher that polls the local clipboard and announces
  changes, the applier that writes announced contents to the clipboard of the other side, and the
  snapshot of the Linux back end. The clipboard library and the PNG encoder are arguments; a failed
  write is an argument of the step in which it happens. The control messages of the session
  (\<open>ControlMsg\<close> of \<open>qubox-proto\<close>) are declared here; floating-point fields are bit patterns.
\<close>

subsection \<open>Control messages\<close>

datatype clipboard_payload = ClipText string | ClipImagePng u32 u32 bytes | ClipClear

record rate_feedback =
  rf_rtt_ms :: u16
  rf_loss_x1000 :: u16
  rf_jitter_ms :: u16
  rf_one_way_delay_ms :: u32
  rf_one_way_delay_min_ms :: u32

datatype gamepad_kind = Xbox | DualShock4 | DualSense | SwitchPro | GenericPad

record mic_stream_config =
  mc_sample_rate_hz :: u32
  mc_channels :: u8
  mc_frame_ms :: u8
  mc_bitrate_bps :: u32
  mc_aec_enabled :: bool
  mc_ns_enabled :: bool
  mc_agc_enabled :: bool

record pen_device_descriptor =
  pdv_device_id :: u16
  pdv_name :: string
  pdv_tools :: "pen_tool list"
  pdv_max_pressure :: u16
  pdv_max_tilt_degrees :: u8
  pdv_rotation_supported :: bool

datatype control_msg =
    Nack u16 u32 "u16 list"
  | RateFeedback rate_feedback
  | KeyframeRequest u16
  | StreamStats u16 u32 u32 u32
  | GamepadConnect u8 string gamepad_kind
  | GamepadDisconnect u8
  | GamepadRumble u8 u16 u16
  | StreamSubscribe "u32 list"
  | StreamUnsubscribe "u32 list"
  | BlankOverlay bool "u32 option"
  | DisplayStateChanged u32 u8 u8
  | ClipboardChanged u64 clipboard_payload
  | MicStart mic_stream_config
  | MicStop
  | MicConfigAck mic_stream_config bool
  | DisplayCapabilities "hdr_static_metadata option" u16 u16 u32
  | PenDeviceList "pen_device_descriptor list"
  | PenEventMsg u16 pen_tool bool

definition display_capabilities :: "control_msg \<Rightarrow> (hdr_static_metadata option \<times> u16 \<times> u16 \<times> u32) option" where
  "display_capabilities m = (case m of DisplayCapabilities hdr w h hz \<Rightarrow> Some (hdr, w, h, hz) | _ \<Rightarrow> None)"

subsection \<open>Reading the clipboard\<close>

record clipboard_image =
  ci_width :: u32
  ci_height :: u32
  ci_png :: bytes

record clipboard_snapshot =
  sn_text :: "string option"
  sn_image :: "clipboard_image option"

text \<open>A payload that cannot be written, for whatever reason, is \<open>ClipWrite\<close>.\<close>

datatype clipboard_error = ClipHandle | ClipRead | ClipWrite | ClipPngDecode | ClipPngEncode | ClipEmpty

text \<open>What the clipboard library answers: the handle, and for each format a value, that the format is
  not available, or an error. \<open>raw_image\<close> holds width, height and RGBA bytes.\<close>

datatype 'a fetched = Fetched 'a | ContentNotAvailable | FetchFailed

record clipboard_library =
  lib_opens :: bool
  lib_text :: "string fetched"
  lib_image :: "(nat \<times> nat \<times> bytes) fetched"
  lib_encode_png :: "u32 \<Rightarrow> u32 \<Rightarrow> bytes \<Rightarrow> bytes option"

definition MAX_IMAGE_PIXELS :: nat where "MAX_IMAGE_PIXELS = 4096 * 4096"

definition snapshot_text :: "bool \<Rightarrow> clipboard_library \<Rightarrow> (clipboard_error, string option) result" where
  "snapshot_text enabled L =
     (if \<not> enabled then Ok None
      else case lib_text L of
        Fetched t \<Rightarrow> Ok (if t = [] then None else Some t)
      | ContentNotAvailable \<Rightarrow> Ok None
      | FetchFailed \<Rightarrow> Err ClipRead)"

definition snapshot_image :: "bool \<Rightarrow> clipboard_library \<Rightarrow> (clipboard_error, clipboard_image option) result" where
  "snapshot_image enabled L =
     (if \<not> enabled then Ok None
      else case lib_image L of
        Fetched (w, h, rgba) \<Rightarrow>
          Ok (if rgba = [] \<or> w * h > MAX_IMAGE_PIXELS then None
              else map_option (\<lambda>png. \<lparr>ci_width = of_nat w, ci_height = of_nat h, ci_png = png\<rparr>)
                     (lib_encode_png L (of_nat w) (of_nat h) rgba))
      | ContentNotAvailable \<Rightarrow> Ok None
      | FetchFailed \<Rightarrow> Err ClipRead)"

definition read_snapshot_inner :: "bool \<Rightarrow> bool \<Rightarrow> clipboard_library \<Rightarrow> (clipboard_error, clipboard_snapshot) result" where
  "read_snapshot_inner text_enabled image_enabled L =
     (if \<not> lib_opens L then Err ClipHandle
      else case snapshot_text text_enabled L of
        Inl e \<Rightarrow> Err e
      | Inr t \<Rightarrow>
         (case snapshot_image image_enabled L of
            Inl e \<Rightarrow> Err e
          | Inr i \<Rightarrow> Ok \<lparr>sn_text = t, sn_image = i\<rparr>))"

definition snapshot_to_payload :: "clipboard_snapshot \<Rightarrow> clipboard_payload" where
  "snapshot_to_payload s =
     (case sn_image s of
        Some i \<Rightarrow> ClipImagePng (ci_width i) (ci_height i) (ci_png i)
      | None \<Rightarrow> (case sn_text s of Some t \<Rightarrow> ClipText t | None \<Rightarrow> ClipClear))"

subsection \<open>The watcher\<close>

text \<open>The bytes that are hashed.\<close>

fun hash_input :: "clipboard_payload \<Rightarrow> bytes" where
  "hash_input (ClipText t) = text_bytes t"
| "hash_input (ClipImagePng w h png) = to_le_bytes 4 w @ to_le_bytes 4 h @ png"
| "hash_input ClipClear = []"

definition hash_payload :: "(bytes \<Rightarrow> 'h) \<Rightarrow> clipboard_payload \<Rightarrow> 'h" where
  "hash_payload blake3 p = blake3 (hash_input p)"

definition seq_advances :: "u64 \<Rightarrow> u64 \<Rightarrow> bool" where
  "seq_advances last_seen incoming \<longleftrightarrow> incoming > last_seen"

record 'h clipboard_watcher =
  cw_text_enabled :: bool
  cw_image_enabled :: bool
  cw_next_seq :: u64
  cw_last_hash :: "'h option"
  cw_last_was_clear :: bool

definition watcher_new :: "bool \<Rightarrow> bool \<Rightarrow> 'h clipboard_watcher" where
  "watcher_new text img = \<lparr>cw_text_enabled = text, cw_image_enabled = img, cw_next_seq = 0, cw_last_hash = None, cw_last_was_clear = False\<rparr>"

text \<open>One poll; the second component is the message sent, if any.\<close>

definition poll_once ::
    "(bytes \<Rightarrow> 'h) \<Rightarrow> clipboard_library \<Rightarrow> 'h clipboard_watcher \<Rightarrow> 'h clipboard_watcher \<times> control_msg option" where
  "poll_once blake3 L w =
     (case read_snapshot_inner (cw_text_enabled w) (cw_image_enabled w) L of
        Inl _ \<Rightarrow> (w, None)
      | Inr snapshot \<Rightarrow>
         let payload = snapshot_to_payload snapshot;
             hash = hash_payload blake3 payload;
             is_clear = (payload = ClipClear)
         in if Some hash = cw_last_hash w then (w, None)
            else if is_clear \<and> cw_last_was_clear w then (w, None)
            else let seq = cw_next_seq w + 1
                 in (w\<lparr>cw_last_hash := Some hash, cw_last_was_clear := is_clear, cw_next_seq := seq\<rparr>,
                     Some (ClipboardChanged seq payload)))"

text \<open>The polling loop until the channel is closed, over what the clipboard holds at each tick.\<close>

fun watcher_run ::
    "(bytes \<Rightarrow> 'h) \<Rightarrow> clipboard_library list \<Rightarrow> 'h clipboard_watcher \<Rightarrow> control_msg list" where
  "watcher_run blake3 [] w = []"
| "watcher_run blake3 (L # Ls) w =
     (case poll_once blake3 L w of
        (w', None) \<Rightarrow> watcher_run blake3 Ls w'
      | (w', Some m) \<Rightarrow> m # watcher_run blake3 Ls w')"

subsection \<open>The applier\<close>

record clipboard_side =
  sd_last_seq :: u64
  sd_clipboard :: clipboard_payload

text \<open>\<open>writes\<close>: whether the clipboard library accepts the payload.\<close>

definition apply_clipboard ::
    "(clipboard_payload \<Rightarrow> bool) \<Rightarrow> control_msg \<Rightarrow> clipboard_side \<Rightarrow> clipboard_side \<times> (clipboard_error, unit) result" where
  "apply_clipboard writes msg s =
     (case msg of
        ClipboardChanged seq payload \<Rightarrow>
          if \<not> seq_advances (sd_last_seq s) seq then (s, Ok ())
          else if \<not> writes payload then (s, Err ClipWrite)
          else (s\<lparr>sd_clipboard := payload, sd_last_seq := seq\<rparr>, Ok ())
      | _ \<Rightarrow> (s, Ok ()))"

text \<open>The messages of a stream in order, each with the outcome of its write.\<close>

definition apply_all :: "(clipboard_payload \<Rightarrow> bool) list \<Rightarrow> control_msg list \<Rightarrow> clipboard_side \<Rightarrow> clipboard_side" where
  "apply_all oks msgs s = foldl (\<lambda>s (ok, m). fst (apply_clipboard ok m s)) s (zip oks msgs)"

subsection \<open>What the watcher sends\<close>

text \<open>The contents the watcher sees, failed reads left out.\<close>

definition contents_seen :: "bool \<Rightarrow> bool \<Rightarrow> clipboard_library list \<Rightarrow> clipboard_payload list" where
  "contents_seen text img Ls =
     concat (map (\<lambda>L. case read_snapshot_inner text img L of Inl _ \<Rightarrow> [] | Inr s \<Rightarrow> [snapshot_to_payload s]) Ls)"

fun payload_of :: "control_msg \<Rightarrow> clipboard_payload" where
  "payload_of (ClipboardChanged seq p) = p"
| "payload_of _ = ClipClear"

text \<open>The announcements numbered from \<open>k + 1\<close>.\<close>

fun numbered :: "u64 \<Rightarrow> clipboard_payload list \<Rightarrow> control_msg list" where
  "numbered k [] = []"
| "numbered k (p # ps) = ClipboardChanged (k + 1) p # numbered (k + 1) ps"

text \<open>The first of every run of contents with the same hashed bytes; \<open>prev\<close> are those announced before.\<close>

fun changes :: "bytes option \<Rightarrow> clipboard_payload list \<Rightarrow> clipboard_payload list" where
  "changes prev [] = []"
| "changes prev (p # ps) = (if prev = Some (hash_input p) then changes prev ps else p # changes (Some (hash_input p)) ps)"

lemma length_numbered [simp]: "length (numbered k ps) = length ps"
  by (induction ps arbitrary: k) simp_all

lemma map_payload_numbered [simp]: "map payload_of (numbered k ps) = ps"
  by (induction ps arbitrary: k) simp_all

lemma changes_last:
  "ps \<noteq> [] \<Longrightarrow> (if changes l ps = [] then l else Some (hash_input (last (changes l ps)))) = Some (hash_input (last ps))"
proof (induction ps arbitrary: l)
  case (Cons p ps)
  show ?case
  proof (cases "ps = []")
    case False
    then show ?thesis using Cons.IH[of l] Cons.IH[of "Some (hash_input p)"] by (auto split: if_splits)
  qed simp
qed simp

lemma changes_remdups: "map hash_input (changes None ps) = remdups_adj (map hash_input ps)"
proof -
  have *: "b # map hash_input (changes (Some b) qs) = remdups_adj (b # map hash_input qs)" for b qs
    by (induction qs arbitrary: b) auto
  show ?thesis by (cases ps) (simp_all add: *)
qed

text \<open>The state of the watcher between polls: the hash is that of the last announced bytes, and the flag
  says that they were those of the empty clipboard.\<close>

definition watcher_ok :: "(bytes \<Rightarrow> 'h) \<Rightarrow> 'h clipboard_watcher \<Rightarrow> bytes option \<Rightarrow> bool" where
  "watcher_ok blake3 w l \<longleftrightarrow> cw_last_hash w = map_option blake3 l \<and> (cw_last_was_clear w \<longrightarrow> l = Some [])"

lemma watcher_run_changes:
  assumes "watcher_ok blake3 w l" "inj_on blake3 (set_option l \<union> hash_input ` set (contents_seen (cw_text_enabled w) (cw_image_enabled w) Ls))"
  shows "watcher_run blake3 Ls w =
    numbered (cw_next_seq w) (changes l (contents_seen (cw_text_enabled w) (cw_image_enabled w) Ls))"
  using assms
proof (induction Ls arbitrary: w l)
  case Nil
  then show ?case by (simp add: contents_seen_def)
next
  case (Cons L Ls)
  let ?seen = "contents_seen (cw_text_enabled w) (cw_image_enabled w)"
  show ?case
  proof (cases "read_snapshot_inner (cw_text_enabled w) (cw_image_enabled w) L")
    case (Inl e)
    then have "?seen (L # Ls) = ?seen Ls" "poll_once blake3 L w = (w, None)"
      by (simp_all add: contents_seen_def poll_once_def)
    with Cons show ?thesis by simp
  next
    case (Inr s)
    let ?p = "snapshot_to_payload s"
    have seen: "?seen (L # Ls) = ?p # ?seen Ls" using Inr by (simp add: contents_seen_def)
    have eq: "Some (hash_payload blake3 ?p) = cw_last_hash w \<longleftrightarrow> l = Some (hash_input ?p)"
    proof (cases l)
      case (Some b)
      have inj: "inj_on blake3 ({b} \<union> hash_input ` set (?p # ?seen Ls))"
        using Cons.prems(2) by (simp only: seen Some option.set)
      have "blake3 (hash_input ?p) = blake3 b \<longleftrightarrow> hash_input ?p = b" by (rule inj_on_eq_iff[OF inj]) auto
      with Some Cons.prems(1) show ?thesis by (auto simp: watcher_ok_def hash_payload_def)
    qed (use Cons.prems(1) in \<open>simp add: watcher_ok_def\<close>)
    show ?thesis
    proof (cases "l = Some (hash_input ?p)")
      case True
      then have "poll_once blake3 L w = (w, None)" using Inr eq by (simp add: poll_once_def Let_def)
      with Cons.IH[OF Cons.prems(1)] Cons.prems(2) True seen show ?thesis by (simp add: insert_absorb)
    next
      case False
      let ?w = "w\<lparr>cw_last_hash := Some (hash_payload blake3 ?p), cw_last_was_clear := (?p = ClipClear), cw_next_seq := cw_next_seq w + 1\<rparr>"
      have "\<not> (?p = ClipClear \<and> cw_last_was_clear w)" using False Cons.prems(1) by (auto simp: watcher_ok_def)
      then have poll: "poll_once blake3 L w = (?w, Some (ClipboardChanged (cw_next_seq w + 1) ?p))"
        using False eq Inr by (simp add: poll_once_def Let_def)
      have "watcher_ok blake3 ?w (Some (hash_input ?p))" by (auto simp: watcher_ok_def hash_payload_def)
      moreover have "inj_on blake3 (set_option (Some (hash_input ?p)) \<union> hash_input ` set (contents_seen (cw_text_enabled ?w) (cw_image_enabled ?w) Ls))"
        using Cons.prems(2) unfolding seen by (rule inj_on_subset) auto
      ultimately show ?thesis using Cons.IH[of ?w] False poll seen by simp
    qed
  qed
qed

subsection \<open>Mirroring\<close>

lemma no_wrap: "unat (k :: u64) + n < 2 ^ 64 \<Longrightarrow> 0 < n \<Longrightarrow> unat (k + 1) = unat k + 1"
  by (simp add: unat_word_ariths)

lemma apply_all_numbered:
  assumes "unat k + length ps < 2 ^ 64" "sd_last_seq s \<le> k" "length oks = length ps" "ps \<noteq> []" "last oks (last ps)"
  shows "apply_all oks (numbered k ps) s = \<lparr>sd_last_seq = k + of_nat (length ps), sd_clipboard = last ps\<rparr>"
  using assms
proof (induction ps arbitrary: k s oks)
  case (Cons p ps)
  obtain ok oks' where o: "oks = ok # oks'" using Cons.prems(3) by (cases oks) auto
  have k1: "unat (k + 1) = unat k + 1" using no_wrap[of k "length (p # ps)"] Cons.prems(1) by simp
  then have adv: "seq_advances (sd_last_seq s) (k + 1)"
    using Cons.prems(2) by (simp add: seq_advances_def word_less_nat_alt word_le_nat_alt)
  let ?s = "fst (apply_clipboard ok (ClipboardChanged (k + 1) p) s)"
  have le: "sd_last_seq ?s \<le> k + 1"
    using adv Cons.prems(2) k1 by (auto simp: apply_clipboard_def word_le_nat_alt)
  show ?case
  proof (cases "ps = []")
    case True
    with Cons.prems o adv show ?thesis by (simp add: apply_all_def apply_clipboard_def)
  next
    case False
    have "apply_all oks' (numbered (k + 1) ps) ?s = \<lparr>sd_last_seq = k + 1 + of_nat (length ps), sd_clipboard = last ps\<rparr>"
      by (rule Cons.IH) (use Cons.prems o False k1 le in \<open>auto split: if_splits\<close>)
    with o False show ?thesis by (simp add: apply_all_def add.assoc)
  qed
qed simp

lemma stale_ignored:
  assumes "m \<in> set (numbered k ps)" "unat k + length ps < 2 ^ 64" "sd_last_seq s = k + of_nat (length ps)"
  shows "fst (apply_clipboard ok m s) = s"
proof -
  have "\<exists>j p. m = ClipboardChanged j p \<and> j \<le> k + of_nat (length ps)" using assms(1,2)
  proof (induction ps arbitrary: k)
    case (Cons p ps)
    have k1: "unat (k + 1) = unat k + 1" using no_wrap[of k "length (p # ps)"] Cons.prems(2) by simp
    have sum: "k + of_nat (length (p # ps)) = k + 1 + of_nat (length ps)" by (simp add: add.assoc)
    have "unat (k + 1 + of_nat (length ps)) = unat (k + 1) + length ps"
      using k1 Cons.prems(2) by (subst unat_add_lem[THEN iffD1]) (auto simp: unat_of_nat)
    then have "k + 1 \<le> k + 1 + of_nat (length ps)" by (simp add: word_le_nat_alt)
    then have first: "k + 1 \<le> k + of_nat (length (p # ps))" unfolding sum .
    have small: "unat (k + 1) + length ps < 2 ^ 64" using k1 Cons.prems(2) by simp
    show ?case
    proof (cases "m = ClipboardChanged (k + 1) p")
      case True
      with first show ?thesis by blast
    next
      case False
      with Cons.prems(1) have "m \<in> set (numbered (k + 1) ps)" by simp
      from Cons.IH[OF this small] show ?thesis unfolding sum .
    qed
  qed simp
  then show ?thesis using assms(3) by (auto simp: apply_clipboard_def seq_advances_def)
qed


definition demo_library :: "string \<Rightarrow> clipboard_library" where
  "demo_library t = \<lparr>lib_opens = True, lib_text = Fetched t, lib_image = ContentNotAvailable, lib_encode_png = (\<lambda>_ _ _. None)\<rparr>"

definition demo_polls :: "clipboard_library list" where
  "demo_polls = [demo_library ''a'', demo_library ''a'', demo_library ''b'', (demo_library ''b'')\<lparr>lib_opens := False\<rparr>, demo_library []]"


text \<open>An image over the limit is read as an empty clipboard, so the watcher announces that the clipboard
  was cleared and the receiver loses its contents.\<close>

lemma oversized_image_clears:
  assumes "lib_opens L" "lib_text L = ContentNotAvailable" "lib_image L = Fetched (w, h, rgba)" "w * h > MAX_IMAGE_PIXELS"
    and "cw_text_enabled W" "cw_image_enabled W" "cw_last_hash W \<noteq> Some (blake3 [])" "\<not> cw_last_was_clear W"
  shows "snd (poll_once blake3 L W) = Some (ClipboardChanged (cw_next_seq W + 1) ClipClear)"
  using assms
  by (simp add: poll_once_def read_snapshot_inner_def snapshot_text_def snapshot_image_def snapshot_to_payload_def hash_payload_def Let_def)

text \<open>A text and an image with the same hashed bytes are not told apart: the change from one to the
  other is not announced.\<close>

lemma text_for_image_unannounced:
  "changes None [ClipImagePng 0 0 [65], ClipText (replicate 8 (CHR 0x00) @ ''A'')] = [ClipImagePng 0 0 [65]]"
  by (simp add: text_bytes_def to_le_bytes_def numeral_eq_Suc)

end
