(* ===== verification/Client_View.thy ===== *)
theory Client_View
  imports Clipboard_Sync Host_Input "HOL-Library.Multiset"
begin

text \<open>
  The viewer side of the command line client (\<open>apps/qubox-client-cli\<close>): the registry of display streams
  (\<open>stream_registry.rs\<close>), the tiled view that draws all of them into one window (\<open>tiled_view.rs\<close>), the
  conversion of decoded frames (\<open>main.rs\<close>, \<open>frame_pipeline.rs\<close>) and the input events taken from the
  window. Locks are not represented: every operation is one critical section in the code. 32-bit
  arithmetic wraps, as in a release build. The running average of the frame rate and the scaling of
  coordinates are computed in floating point and are arguments; times are arguments.
\<close>

unbundle bit_operations_syntax

subsection \<open>Stream registry\<close>

datatype display_state = DisplayActive | DisplayPrivacy | DisplayBlanked

record stream_entry =
  se_display_id :: u32
  se_width :: u32
  se_height :: u32
  se_refresh_hz :: u32
  se_fps :: u32
  se_privacy_state :: display_state
  se_first_frame_at :: nat
  se_last_frame_at :: nat
  se_frame_count :: u64

record stream_registry =
  sr_streams :: "(u32, stream_entry) hmap"
  sr_selected :: "u32 option"
  sr_tile_mode :: bool
  sr_show_privacy :: bool

definition registry_new :: stream_registry where
  "registry_new = \<lparr>sr_streams = [], sr_selected = None, sr_tile_mode = False, sr_show_privacy = True\<rparr>"

definition add_stream :: "stream_entry \<Rightarrow> stream_registry \<Rightarrow> stream_registry" where
  "add_stream e r = r\<lparr>sr_streams := AList.update (se_display_id e) e (sr_streams r)\<rparr>"

definition remove_stream :: "u32 \<Rightarrow> stream_registry \<Rightarrow> stream_registry \<times> stream_entry option" where
  "remove_stream d r = (r\<lparr>sr_streams := AList.delete d (sr_streams r)\<rparr>, map_of (sr_streams r) d)"

definition get_stream :: "u32 \<Rightarrow> stream_registry \<Rightarrow> stream_entry option" where
  "get_stream d r = map_of (sr_streams r) d"

definition list_streams :: "stream_registry \<Rightarrow> stream_entry list" where
  "list_streams r = sort_key se_display_id (map snd (sr_streams r))"

definition change_entry :: "u32 \<Rightarrow> (stream_entry \<Rightarrow> stream_entry) \<Rightarrow> stream_registry \<Rightarrow> stream_registry" where
  "change_entry d f r = r\<lparr>sr_streams := map (\<lambda>(k, e). (k, if k = d then f e else e)) (sr_streams r)\<rparr>"

definition update_fps :: "(u32 \<Rightarrow> u32 \<Rightarrow> u32) \<Rightarrow> nat \<Rightarrow> u32 \<Rightarrow> u32 \<Rightarrow> stream_registry \<Rightarrow> stream_registry" where
  "update_fps ema now d measured r =
     change_entry d (\<lambda>e. e\<lparr>se_fps := ema (se_fps e) measured, se_last_frame_at := now, se_frame_count := se_frame_count e + 1\<rparr>) r"

definition update_privacy_state :: "u32 \<Rightarrow> display_state \<Rightarrow> stream_registry \<Rightarrow> stream_registry" where
  "update_privacy_state d st r = change_entry d (\<lambda>e. e\<lparr>se_privacy_state := st\<rparr>) r"

definition set_selected_stream :: "u32 option \<Rightarrow> stream_registry \<Rightarrow> stream_registry" where
  "set_selected_stream d r = r\<lparr>sr_selected := d\<rparr>"

definition set_tile_mode :: "bool \<Rightarrow> stream_registry \<Rightarrow> stream_registry" where
  "set_tile_mode b r = r\<lparr>sr_tile_mode := b\<rparr>"

definition set_show_privacy_indicator :: "bool \<Rightarrow> stream_registry \<Rightarrow> stream_registry" where
  "set_show_privacy_indicator b r = r\<lparr>sr_show_privacy := b\<rparr>"

definition has_stream :: "u32 \<Rightarrow> stream_registry \<Rightarrow> bool" where
  "has_stream d r \<longleftrightarrow> d \<in> fst ` set (sr_streams r)"

definition stream_count :: "stream_registry \<Rightarrow> nat" where
  "stream_count r = length (sr_streams r)"

text \<open>\<open>position\<close>, or 0 when the key is absent.\<close>

definition position_or_zero :: "u32 \<Rightarrow> u32 list \<Rightarrow> nat" where
  "position_or_zero k keys = (if k \<in> set keys then length (takeWhile (\<lambda>x. x \<noteq> k) keys) else 0)"

definition cycle_selected_stream :: "stream_registry \<Rightarrow> stream_registry" where
  "cycle_selected_stream r =
     (if sr_streams r = [] then r
      else let keys = sort (map fst (sr_streams r));
               next = (case sr_selected r of
                         Some cur \<Rightarrow> keys ! ((position_or_zero cur keys + 1) mod length keys)
                       | None \<Rightarrow> keys ! 0)
           in set_selected_stream (Some next) r)"

text \<open>The invariant: one entry for each key, filed under its own display.\<close>

definition registry_ok :: "stream_registry \<Rightarrow> bool" where
  "registry_ok r \<longleftrightarrow> wf_map (sr_streams r) \<and> list_all (\<lambda>(k, e). se_display_id e = k) (sr_streams r)"

lemma change_entry_keys [simp]: "map fst (sr_streams (change_entry d f r)) = map fst (sr_streams r)"
  by (simp add: change_entry_def comp_def case_prod_beta)

lemma registry_ok_change:
  "registry_ok r \<Longrightarrow> (\<And>e. se_display_id (f e) = se_display_id e) \<Longrightarrow> registry_ok (change_entry d f r)"
  by (auto simp: registry_ok_def wf_map_def change_entry_def comp_def case_prod_beta list_all_iff)

lemma registry_ok_ops:
  "registry_ok registry_new"
  "registry_ok r \<Longrightarrow> registry_ok (add_stream e r)"
  "registry_ok r \<Longrightarrow> registry_ok (fst (remove_stream d r))"
  "registry_ok r \<Longrightarrow> registry_ok (update_fps ema now d m r)"
  "registry_ok r \<Longrightarrow> registry_ok (update_privacy_state d st r)"
  "registry_ok r \<Longrightarrow> registry_ok (cycle_selected_stream r)"
  by (auto simp: registry_new_def registry_ok_def add_stream_def remove_stream_def list_all_iff cycle_selected_stream_def
      set_selected_stream_def Let_def in_set_delete dest: in_set_update
      intro!: registry_ok_change[unfolded registry_ok_def list_all_iff] simp: update_fps_def update_privacy_state_def)

lemma map_sort_key: "map f (sort_key f xs) = sort (map f xs)"
  by (rule sym, rule properties_for_sort) (simp_all add: mset_map)

lemma position_nth: "distinct keys \<Longrightarrow> p < length keys \<Longrightarrow> position_or_zero (keys ! p) keys = p"
proof (induction keys arbitrary: p)
  case (Cons k ks)
  then show ?case by (cases p) (auto simp: position_or_zero_def)
qed simp

lemma cycle_step:
  assumes "sr_streams r \<noteq> []" "sr_selected r = Some cur"
  shows "sr_selected (cycle_selected_stream r) =
      Some (sort (map fst (sr_streams r)) ! ((position_or_zero cur (sort (map fst (sr_streams r))) + 1) mod length (sr_streams r)))"
    and "sr_streams (cycle_selected_stream r) = sr_streams r"
  using assms by (simp_all add: cycle_selected_stream_def set_selected_stream_def Let_def)

text \<open>Round-robin selection: from the stream at position \<open>p\<close> of the sorted list, \<open>j\<close> steps select the
  one at \<open>p + j\<close> modulo the number of streams, so every stream is reached within one round, in the order
  in which the streams are listed.\<close>

theorem cycle_round_robin:
  assumes "registry_ok r" "p < stream_count r" "sr_selected r = Some (se_display_id (list_streams r ! p))"
  shows "sr_selected ((cycle_selected_stream ^^ j) r) = Some (se_display_id (list_streams r ! ((p + j) mod stream_count r))) \<and>
    (\<lambda>i. sr_selected ((cycle_selected_stream ^^ i) r)) ` {..< stream_count r} = Some ` fst ` set (sr_streams r)"
proof -
  let ?keys = "sort (map fst (sr_streams r))" and ?n = "stream_count r"
  have "map fst (sr_streams r) = map se_display_id (map snd (sr_streams r))"
    using assms(1) by (auto simp: registry_ok_def list_all_iff)
  then have ids: "map se_display_id (list_streams r) = ?keys"
    by (metis list_streams_def map_sort_key)
  have len: "length ?keys = ?n" "length (list_streams r) = ?n" by (simp_all add: stream_count_def list_streams_def)
  have nth: "se_display_id (list_streams r ! i) = ?keys ! i" if "i < ?n" for i
    using that len ids by (metis nth_map)
  have d: "distinct ?keys" using assms(1) by (simp add: registry_ok_def wf_map_def)
  have n: "?n \<noteq> 0" using assms(2) by simp
  have step: "sr_streams ((cycle_selected_stream ^^ j) r) = sr_streams r \<and>
      sr_selected ((cycle_selected_stream ^^ j) r) = Some (?keys ! ((p + j) mod ?n))" for j
  proof (induction j)
    case 0
    then show ?case using assms(2,3) nth by simp
  next
    case (Suc j)
    let ?r = "(cycle_selected_stream ^^ j) r"
    have "position_or_zero (?keys ! ((p + j) mod ?n)) ?keys = (p + j) mod ?n"
      using d n len by (intro position_nth) auto
    moreover have "sr_streams ?r \<noteq> []" using n Suc by (auto simp: stream_count_def)
    ultimately have "sr_selected (cycle_selected_stream ?r) = Some (?keys ! (((p + j) mod ?n + 1) mod ?n))"
      "sr_streams (cycle_selected_stream ?r) = sr_streams r"
      using cycle_step[of ?r "?keys ! ((p + j) mod ?n)"] Suc by (simp_all add: stream_count_def)
    then show ?case by (simp add: mod_Suc_eq)
  qed
  have "(\<lambda>i. (p + i) mod ?n) ` {..< ?n} = {..< ?n}"
  proof (intro subset_antisym subsetI)
    fix t assume t: "t \<in> {..< ?n}"
    let ?i = "if p \<le> t then t - p else t + ?n - p"
    have "?i < ?n" "(p + ?i) mod ?n = t" using t assms(2) by auto
    then show "t \<in> (\<lambda>i. (p + i) mod ?n) ` {..< ?n}" by (intro image_eqI[of _ _ ?i]) auto
  qed (use n in auto)
  then have "(!) ?keys ` (\<lambda>i. (p + i) mod ?n) ` {..< ?n} = (!) ?keys ` {..< ?n}" by (rule arg_cong)
  also have "\<dots> = set ?keys" using len(1) by (auto simp: set_conv_nth simp del: set_sort)
  finally have all: "(\<lambda>i. ?keys ! ((p + i) mod ?n)) ` {..< ?n} = set ?keys" by (simp only: image_image)
  have "(\<lambda>i. sr_selected ((cycle_selected_stream ^^ i) r)) ` {..< ?n} = (\<lambda>i. Some (?keys ! ((p + i) mod ?n))) ` {..< ?n}"
    by (rule image_cong[OF refl]) (use step in blast)
  also have "\<dots> = Some ` (\<lambda>i. ?keys ! ((p + i) mod ?n)) ` {..< ?n}" by (simp only: image_image)
  also have "\<dots> = Some ` fst ` set (sr_streams r)" unfolding all by simp
  finally have "(\<lambda>i. sr_selected ((cycle_selected_stream ^^ i) r)) ` {..< ?n} = Some ` fst ` set (sr_streams r)" .
  with step[of j] nth[of "(p + j) mod ?n"] n show ?thesis by simp
qed

subsection \<open>Grid layout\<close>

record grid_layout =
  gl_rows :: u32
  gl_cols :: u32
  gl_cell_width :: u32
  gl_cell_height :: u32
  gl_padding :: u32

text \<open>The ceiling of the square root; the \<open>f64\<close> computation of the code is exact for every number of
  streams below 2^50.\<close>

definition ceil_sqrt :: "nat \<Rightarrow> nat" where
  "ceil_sqrt n = length (takeWhile (\<lambda>c. c * c < n) [0..<n])"

definition cols_rows :: "nat \<Rightarrow> nat \<times> nat" where
  "cols_rows n =
     (if n = 1 then (1, 1) else if n = 2 then (2, 1) else if n \<le> 4 then (2, 2) else if n \<le> 6 then (3, 2)
      else if n \<le> 9 then (3, 3) else if n \<le> 12 then (4, 3)
      else let c = ceil_sqrt n in (c, (n + c - 1) div c))"

definition grid_compute :: "nat \<Rightarrow> u32 \<Rightarrow> u32 \<Rightarrow> u32 \<Rightarrow> grid_layout" where
  "grid_compute n tw th padding =
     (if n = 0 then \<lparr>gl_rows = 1, gl_cols = 1, gl_cell_width = tw, gl_cell_height = th, gl_padding = padding\<rparr>
      else let cols = of_nat (fst (cols_rows n)) :: u32; rows = of_nat (snd (cols_rows n)) :: u32
           in \<lparr>gl_rows = rows, gl_cols = cols, gl_cell_width = (tw - padding * (cols + 1)) div cols,
               gl_cell_height = (th - padding * (rows + 1)) div rows, gl_padding = padding\<rparr>)"

record tile_rect =
  cell_x :: "32 word"
  cell_y :: "32 word"
  cell_w :: u32
  cell_h :: u32

definition cell_rect :: "grid_layout \<Rightarrow> u32 \<Rightarrow> u32 \<Rightarrow> tile_rect" where
  "cell_rect g row col =
     \<lparr>cell_x = gl_padding g + col * (gl_cell_width g + gl_padding g),
      cell_y = gl_padding g + row * (gl_cell_height g + gl_padding g),
      cell_w = gl_cell_width g, cell_h = gl_cell_height g\<rparr>"

subsection \<open>Drawing the tiles\<close>

text \<open>Writes into the back buffer; one out of range is skipped.\<close>

definition paint :: "u32 list \<Rightarrow> (nat \<times> u32) list \<Rightarrow> u32 list" where
  "paint b ps = foldl (\<lambda>b (i, p). b[i := p]) b ps"

record tiled_view =
  tv_registry :: stream_registry
  tv_buffers :: "(u32, u32 list) hmap"
  tv_sizes :: "(u32, nat \<times> nat) hmap"

text \<open>\<open>scale c n m\<close> is the position \<open>c\<close> of \<open>n\<close> taken to a length of \<open>m\<close>, rounded down.\<close>

definition source_pixel :: "(nat \<Rightarrow> nat \<Rightarrow> nat \<Rightarrow> nat) \<Rightarrow> tiled_view \<Rightarrow> u32 \<Rightarrow> nat \<Rightarrow> nat \<Rightarrow> nat \<Rightarrow> nat \<Rightarrow> u32" where
  "source_pixel scale v d cw ch cx cy =
     (let src = (case map_of (tv_buffers v) d of Some f \<Rightarrow> f | None \<Rightarrow> []);
          sz = (case map_of (tv_sizes v) d of Some s \<Rightarrow> s | None \<Rightarrow> (cw, ch));
          i = (if src = [] then 0 else scale cy ch (snd sz) * fst sz + scale cx cw (fst sz))
      in if i < length src then src ! i else 0)"

definition usize_of :: "32 word \<Rightarrow> u64" where
  "usize_of x = scast x"

definition tile_writes :: "(nat \<Rightarrow> nat \<Rightarrow> nat \<Rightarrow> nat) \<Rightarrow> tiled_view \<Rightarrow> u32 \<Rightarrow> tile_rect \<Rightarrow> u32 \<Rightarrow> (nat \<times> u32) list" where
  "tile_writes scale v win_w cell d =
     (let cw = unat (cell_w cell); ch = unat (cell_h cell)
      in concat (map (\<lambda>cy. map (\<lambda>cx.
           (unat ((usize_of (cell_y cell) + of_nat cy) * ucast win_w + (usize_of (cell_x cell) + of_nat cx)),
            source_pixel scale v d cw ch cx cy)) [0..<cw]) [0..<ch]))"

definition RED :: u32 where "RED = 0x00FF0000"

definition border_writes :: "nat \<Rightarrow> tile_rect \<Rightarrow> nat \<Rightarrow> (nat \<times> u32) list" where
  "border_writes stride cell t =
     (let x0 = nat (max 0 (sint (cell_x cell))); y0 = nat (max 0 (sint (cell_y cell)));
          x1 = nat (max 0 (sint (cell_x cell + cell_w cell))); y1 = nat (max 0 (sint (cell_y cell + cell_h cell)));
          area = (\<lambda>ys xs. concat (map (\<lambda>y. map (\<lambda>x. (y * stride + x, RED)) xs) ys))
      in area [y0..<min (y0 + t) y1] [x0..<x1] @ area [y1 - t..<y1] [x0..<x1]
         @ area [y0..<y1] [x0..<min (x0 + t) x1] @ area [y0..<y1] [x1 - t..<x1])"

definition draw_red_border :: "u32 list \<Rightarrow> nat \<Rightarrow> tile_rect \<Rightarrow> nat \<Rightarrow> u32 list" where
  "draw_red_border b stride cell t = paint b (border_writes stride cell t)"

definition draw_tile ::
    "(nat \<Rightarrow> nat \<Rightarrow> nat \<Rightarrow> nat) \<Rightarrow> tiled_view \<Rightarrow> u32 \<Rightarrow> grid_layout \<Rightarrow> nat \<times> stream_entry \<Rightarrow> u32 list \<Rightarrow> u32 list" where
  "draw_tile scale v win_w g ie b =
     (let (idx, entry) = ie;
          cell = cell_rect g (of_nat idx div gl_cols g) (of_nat idx mod gl_cols g);
          b1 = paint b (tile_writes scale v win_w cell (se_display_id entry))
      in if sr_show_privacy (tv_registry v) \<and> se_privacy_state entry = DisplayPrivacy
         then draw_red_border b1 (unat win_w) cell 4 else b1)"

definition redraw :: "(nat \<Rightarrow> nat \<Rightarrow> nat \<Rightarrow> nat) \<Rightarrow> tiled_view \<Rightarrow> u32 \<Rightarrow> u32 \<Rightarrow> u32 list" where
  "redraw scale v win_w win_h =
     (let streams = list_streams (tv_registry v);
          g = grid_compute (length streams) win_w win_h 4
      in fold (draw_tile scale v win_w g) (zip [0..<length streams] streams) (replicate (unat (win_w * win_h)) 0))"

definition render_frame ::
    "(nat \<Rightarrow> nat \<Rightarrow> nat \<Rightarrow> nat) \<Rightarrow> u32 \<Rightarrow> u32 \<Rightarrow> u32 \<Rightarrow> u32 list \<Rightarrow> u32 \<Rightarrow> u32 \<Rightarrow> tiled_view \<Rightarrow> tiled_view \<times> u32 list" where
  "render_frame scale win_w win_h d frame width height v =
     (let v' = v\<lparr>tv_buffers := AList.update d frame (tv_buffers v), tv_sizes := AList.update d (unat width, unat height) (tv_sizes v)\<rparr>
      in (v', redraw scale v' win_w win_h))"

subsection \<open>What the window shows\<close>

lemma ceil_sqrt_bounds: "0 < n \<Longrightarrow> 0 < ceil_sqrt n \<and> n \<le> ceil_sqrt n * ceil_sqrt n"
proof -
  assume n: "0 < n"
  let ?P = "\<lambda>c :: nat. c * c < n"
  have "ceil_sqrt n \<le> n" unfolding ceil_sqrt_def by (metis diff_zero length_takeWhile_le length_upt)
  moreover have "\<not> ?P (ceil_sqrt n)"
  proof (cases "ceil_sqrt n < n")
    case True
    then show ?thesis using nth_length_takeWhile[of ?P "[0..<n]"] by (simp add: ceil_sqrt_def)
  next
    case False
    with \<open>ceil_sqrt n \<le> n\<close> have "ceil_sqrt n = n" by simp
    with n show ?thesis by (simp add: Suc_leI)
  qed
  ultimately show ?thesis using n by (cases "ceil_sqrt n") auto
qed

lemma cols_rows_cover:
  assumes "0 < n" "cols_rows n = (c, r)"
  shows "0 < c \<and> 0 < r \<and> n \<le> c * r"
proof (cases "n \<le> 12")
  case True
  with assms show ?thesis by (auto simp: cols_rows_def split: if_splits)
next
  case False
  let ?c = "ceil_sqrt n"
  have cr: "c = ?c" "r = (n + ?c - 1) div ?c" using False assms by (auto simp: cols_rows_def Let_def)
  have c: "0 < ?c" using ceil_sqrt_bounds[OF assms(1)] by blast
  have "n + ?c - 1 = ?c * r + (n + ?c - 1) mod ?c" by (simp add: cr)
  moreover have "(n + ?c - 1) mod ?c \<le> ?c - 1" using c by (metis One_nat_def Suc_pred less_Suc_eq_le mod_less_divisor)
  ultimately have "n \<le> ?c * r" using assms(1) c by linarith
  with assms(1) c cr show ?thesis by (cases r) auto
qed

text \<open>The geometry in natural numbers: origin and extent of a cell along one axis of length \<open>len\<close> with \<open>k\<close> cells.\<close>

definition cell_size :: "nat \<Rightarrow> nat \<Rightarrow> nat" where
  "cell_size k len = (len - 4 * (k + 1)) div k"

definition cell_start :: "nat \<Rightarrow> nat \<Rightarrow> nat \<Rightarrow> nat" where
  "cell_start k len i = 4 + i * (cell_size k len + 4)"

definition in_span :: "nat \<Rightarrow> nat \<Rightarrow> nat \<Rightarrow> nat \<Rightarrow> bool" where
  "in_span k len i x \<longleftrightarrow> cell_start k len i \<le> x \<and> x < cell_start k len i + cell_size k len"

lemma cell_end:
  assumes "i < k" "4 * (k + 1) \<le> len"
  shows "cell_start k len i + cell_size k len + 4 \<le> len"
proof -
  let ?s = "cell_size k len"
  have "Suc i * (?s + 4) \<le> k * (?s + 4)" using assms(1) by (intro mult_le_mono1) simp
  moreover have "k * ?s \<le> len - 4 * (k + 1)" by (simp add: cell_size_def)
  ultimately show ?thesis using assms(2) by (simp add: cell_start_def algebra_simps)
qed

lemma in_span_unique: "in_span k len i x \<Longrightarrow> in_span k len j x \<Longrightarrow> i = j"
proof (induction i j rule: linorder_wlog)
  case (le i j)
  show ?case
  proof (rule ccontr)
    assume "i \<noteq> j"
    with le(1) have "Suc i * (cell_size k len + 4) \<le> j * (cell_size k len + 4)" by (intro mult_le_mono1) simp
    with le(2,3) show False by (simp add: in_span_def cell_start_def)
  qed
qed metis

lemma sint_small: "x < 2 ^ 31 \<Longrightarrow> sint (of_nat x :: 32 word) = int x"
  by (subst signed_of_nat) (simp add: signed_take_bit_int_eq_self)

lemma usize_small: "x < 2 ^ 31 \<Longrightarrow> usize_of (of_nat x) = of_nat x"
  unfolding usize_of_def by (subst scast_eq) (simp add: sint_small)

lemma cell_words:
  fixes len :: u32
  assumes "0 < k" "4 * (k + 1) \<le> unat len"
  shows "(len - 4 * (of_nat k + 1)) div of_nat k = of_nat (cell_size k (unat len))"
proof -
  have k: "unat (of_nat k :: u32) = k" using assms unsigned_less[of len, where 'a = nat] by (simp add: unat_of_nat)
  have "len - 4 * (of_nat k + 1) = of_nat (unat len) - of_nat (4 * (k + 1))" by simp
  also have "\<dots> = of_nat (unat len - 4 * (k + 1))" using assms(2) by (simp add: of_nat_diff)
  finally have d: "len - 4 * (of_nat k + 1) = of_nat (unat len - 4 * (k + 1))" .
  have "unat (of_nat (unat len - 4 * (k + 1)) :: u32) = unat len - 4 * (k + 1)"
    using unsigned_less[of len, where 'a = nat] by (simp add: unat_of_nat)
  then show ?thesis unfolding d word_arith_nat_div k by (simp add: cell_size_def)
qed

lemma paint_nth:
  assumes "k < length b" "\<And>i p. (i, p) \<in> set ps \<Longrightarrow> p = f i"
  shows "length (paint b ps) = length b" "paint b ps ! k = (if k \<in> fst ` set ps then f k else b ! k)"
  using assms
proof (induction ps arbitrary: b)
  case (Cons ip ps)
  obtain i p where ip: "ip = (i, p)" by (cases ip)
  have step: "paint b (ip # ps) = paint (b[i := p]) ps" for b by (simp add: paint_def ip)
  {
    case (1 b)
    show ?case unfolding step by (rule trans[OF Cons.IH(1)]) (use 1 in \<open>simp_all\<close>)
  next
    case (2 b)
    have pf: "p = f i" by (rule 2(2)) (simp add: ip)
    have "paint (b[i := p]) ps ! k = (if k \<in> fst ` set ps then f k else b[i := p] ! k)"
      by (rule Cons.IH(2)) (simp add: 2(1), rule 2(2), simp)
    with 2(1) pf show ?case unfolding step by (cases "k = i") (simp_all add: ip)
  }
qed (simp_all add: paint_def)

lemma grid_index: "x < w \<Longrightarrow> (y * w + x = k) = (x = k mod w \<and> y = k div w)" for w x y k :: nat
  by auto

lemma area_set:
  assumes "x0 + cw \<le> w"
  shows "(k, p) \<in> set (concat (map (\<lambda>cy. map (\<lambda>cx. ((y0 + cy) * w + (x0 + cx), g cx cy)) [0..<cw]) [0..<ch])) \<longleftrightarrow>
    x0 \<le> k mod w \<and> k mod w < x0 + cw \<and> y0 \<le> k div w \<and> k div w < y0 + ch \<and> p = g (k mod w - x0) (k div w - y0)"
    (is "?l \<longleftrightarrow> ?r")
proof
  assume ?l
  then obtain cx cy where c: "cx < cw" "cy < ch" "k = (y0 + cy) * w + (x0 + cx)" "p = g cx cy" by auto
  then have "x0 + cx = k mod w \<and> y0 + cy = k div w" using assms by (subst grid_index[symmetric]) auto
  with c show ?r by (metis add_diff_cancel_left' le_add1 nat_add_left_cancel_less)
next
  assume r: ?r
  then have "k = (y0 + (k div w - y0)) * w + (x0 + (k mod w - x0))" by simp
  moreover have "k mod w - x0 \<in> {0..<cw}" "k div w - y0 \<in> {0..<ch}" using r by auto
  ultimately have "\<exists>cy\<in>{0..<ch}. (k, p) \<in> (\<lambda>cx. ((y0 + cy) * w + (x0 + cx), g cx cy)) ` {0..<cw}"
    using r by (intro bexI[of _ "k div w - y0"] image_eqI[of _ _ "k mod w - x0"]) auto
  then show ?l by simp
qed

lemma border_area_set:
  assumes "b \<le> w"
  shows "(k, p) \<in> set (concat (map (\<lambda>y. map (\<lambda>x. (y * w + x, q)) [a..<b]) [c..<d])) \<longleftrightarrow>
    a \<le> k mod w \<and> k mod w < b \<and> c \<le> k div w \<and> k div w < d \<and> p = q"
proof -
  have "(\<exists>y x. c \<le> y \<and> y < d \<and> a \<le> x \<and> x < b \<and> k = y * w + x) \<longleftrightarrow> a \<le> k mod w \<and> k mod w < b \<and> c \<le> k div w \<and> k div w < d"
    (is "?l \<longleftrightarrow> ?r")
  proof
    assume ?l
    then obtain y x where c: "c \<le> y" "y < d" "a \<le> x" "x < b" and k: "y * w + x = k" by blast
    have xy: "x = k mod w \<and> y = k div w"
      by (rule grid_index[THEN iffD1, OF _ k]) (use c assms in simp)
    show ?r using c unfolding xy[THEN conjunct1] xy[THEN conjunct2] by blast
  next
    assume ?r
    then show ?l by (intro exI[of _ "k div w"] exI[of _ "k mod w"]) simp
  qed
  moreover have "(k, p) \<in> set (concat (map (\<lambda>y. map (\<lambda>x. (y * w + x, q)) [a..<b]) [c..<d])) \<longleftrightarrow>
      (\<exists>y x. c \<le> y \<and> y < d \<and> a \<le> x \<and> x < b \<and> k = y * w + x) \<and> p = q"
    by (simp only: set_concat set_map set_upt image_image UN_iff image_iff atLeastLessThan_iff prod.inject Bex_def) blast
  ultimately show ?thesis by blast
qed

text \<open>The window fits the grid of \<open>n\<close> streams with cells of at least four pixels each way, and its pixel
  count fits a \<open>u32\<close>.\<close>

definition window_fits :: "nat \<Rightarrow> u32 \<Rightarrow> u32 \<Rightarrow> bool" where
  "window_fits n win_w win_h \<longleftrightarrow> 8 * fst (cols_rows n) + 4 \<le> unat win_w \<and> 8 * snd (cols_rows n) + 4 \<le> unat win_h \<and>
     unat win_w * unat win_h < 2 ^ 32"

text \<open>Point \<open>(x, y)\<close> is in the cell of the \<open>i\<close>-th of \<open>n\<close> streams.\<close>

definition in_cell :: "nat \<Rightarrow> nat \<Rightarrow> nat \<Rightarrow> nat \<Rightarrow> nat \<Rightarrow> nat \<Rightarrow> bool" where
  "in_cell n w h i x y \<longleftrightarrow>
     (let (c, r) = cols_rows n in in_span c w (i mod c) x \<and> in_span r h (i div c) y)"

definition near_edge :: "nat \<Rightarrow> nat \<Rightarrow> nat \<Rightarrow> nat \<Rightarrow> bool" where
  "near_edge k len i x \<longleftrightarrow> x < cell_start k len i + 4 \<or> cell_start k len i + cell_size k len \<le> x + 4"

definition tile_pixel ::
    "(nat \<Rightarrow> nat \<Rightarrow> nat \<Rightarrow> nat) \<Rightarrow> tiled_view \<Rightarrow> nat \<Rightarrow> nat \<Rightarrow> nat \<Rightarrow> nat \<Rightarrow> stream_entry \<Rightarrow> nat \<Rightarrow> nat \<Rightarrow> u32" where
  "tile_pixel scale v n w h i e x y =
     (let (c, r) = cols_rows n in
      if sr_show_privacy (tv_registry v) \<and> se_privacy_state e = DisplayPrivacy \<and> (near_edge c w (i mod c) x \<or> near_edge r h (i div c) y)
      then RED
      else source_pixel scale v (se_display_id e) (cell_size c w) (cell_size r h) (x - cell_start c w (i mod c)) (y - cell_start r h (i div c)))"

lemma in_cell_unique:
  assumes "in_cell n w h i x y" "in_cell n w h j x y"
  shows "i = j"
proof -
  obtain c r where cr: "cols_rows n = (c, r)" by (cases "cols_rows n")
  have "i mod c = j mod c" "i div c = j div c"
    using assms in_span_unique[of c w _ x] in_span_unique[of r h _ y] by (auto simp: in_cell_def cr)
  then show ?thesis by (metis div_mult_mod_eq)
qed

lemma window_fits_small:
  assumes "0 < n" "window_fits n win_w win_h"
  shows "unat win_w < 2 ^ 31" "unat win_h < 2 ^ 31"
proof -
  let ?w = "unat win_w" and ?h = "unat win_h"
  have b: "4 \<le> ?w" "4 \<le> ?h" "?w * ?h < 2 ^ 32" using assms by (simp_all add: window_fits_def)
  have "?w * 4 < 2 ^ 32" by (rule le_less_trans[OF mult_le_mono2[OF b(2)] b(3)])
  moreover have "4 * ?h < 2 ^ 32" by (rule le_less_trans[OF mult_le_mono1[OF b(1)] b(3)])
  ultimately show "?w < 2 ^ 31" "?h < 2 ^ 31" by simp_all
qed

lemma cell_rect_grid:
  assumes "i < n" "cols_rows n = (c, r)" "window_fits n win_w win_h" "g = grid_compute n win_w win_h 4"
  shows "cell_rect g (of_nat i div gl_cols g) (of_nat i mod gl_cols g) =
    \<lparr>cell_x = of_nat (cell_start c (unat win_w) (i mod c)), cell_y = of_nat (cell_start r (unat win_h) (i div c)),
     cell_w = of_nat (cell_size c (unat win_w)), cell_h = of_nat (cell_size r (unat win_h))\<rparr>"
proof -
  have n: "0 < n" using assms(1) by simp
  note cr = cols_rows_cover[OF n assms(2)]
  have fit: "4 * (c + 1) \<le> unat win_w" "4 * (r + 1) \<le> unat win_h" "unat win_w * unat win_h < 2 ^ 32"
    using assms(2,3) by (simp_all add: window_fits_def)
  have "c * r \<le> unat win_w * unat win_h" using fit(1,2) by (intro mult_le_mono) simp_all
  then have i: "i < 2 ^ 32" using cr assms(1) fit(3) by linarith
  have c: "c < 2 ^ 32" using fit(1) unsigned_less[of win_w, where 'a = nat] by simp
  have "(of_nat i :: u32) div of_nat c = of_nat (i div c)" "(of_nat i :: u32) mod of_nat c = of_nat (i mod c)"
    using i c by (simp_all add: word_arith_nat_div word_arith_nat_mod unat_of_nat)
  moreover have "gl_cell_width g = of_nat (cell_size c (unat win_w))" "gl_cell_height g = of_nat (cell_size r (unat win_h))"
    "gl_cols g = of_nat c" "gl_padding g = 4"
    using n assms(2,4) cr fit cell_words[of c win_w] cell_words[of r win_h] by (simp_all add: grid_compute_def Let_def)
  ultimately show ?thesis by (simp add: cell_rect_def cell_start_def)
qed

lemma tile_writes_grid:
  assumes "x0 + cw \<le> unat w" "unat w < 2 ^ 31" "(y0 + ch) * unat w < 2 ^ 32" "y0 < 2 ^ 31" "ch < 2 ^ 31"
  shows "tile_writes scale v w \<lparr>cell_x = of_nat x0, cell_y = of_nat y0, cell_w = of_nat cw, cell_h = of_nat ch\<rparr> d =
    concat (map (\<lambda>cy. map (\<lambda>cx. ((y0 + cy) * unat w + (x0 + cx), source_pixel scale v d cw ch cx cy)) [0..<cw]) [0..<ch])"
proof -
  have u: "unat (of_nat cw :: u32) = cw" "unat (of_nat ch :: u32) = ch" using assms by (simp_all add: unat_of_nat)
  have "unat ((usize_of (of_nat y0) + of_nat cy) * ucast w + (usize_of (of_nat x0) + of_nat cx)) = (y0 + cy) * unat w + (x0 + cx)"
    if "cx < cw" "cy < ch" for cx cy
  proof -
    have "(y0 + cy) * unat w + (x0 + cx) < (y0 + cy) * unat w + unat w" using that assms(1) by simp
    also have "\<dots> = (y0 + cy + 1) * unat w" by simp
    also have "\<dots> \<le> (y0 + ch) * unat w" using that by (intro mult_le_mono1) simp
    finally have "(y0 + cy) * unat w + (x0 + cx) < 2 ^ 32" using assms(3) by (rule order.strict_trans)
    then have small: "(y0 + cy) * unat w + (x0 + cx) < 2 ^ 64" by (rule order.strict_trans) simp
    have "(ucast w :: u64) = of_nat (unat w)" by simp
    then have "(usize_of (of_nat y0) + of_nat cy) * ucast w + (usize_of (of_nat x0) + of_nat cx) =
        (of_nat ((y0 + cy) * unat w + (x0 + cx)) :: u64)"
      using assms by (simp add: usize_small)
    with small show ?thesis by (simp only: unat_of_nat) simp
  qed
  then show ?thesis
    unfolding tile_writes_def Let_def tile_rect.simps u by (intro arg_cong[where f = concat] map_cong refl) auto
qed

lemma border_writes_grid:
  assumes "x0 + cw \<le> w" "x0 + cw < 2 ^ 31" "y0 + ch < 2 ^ 31" "4 \<le> cw" "4 \<le> ch"
  shows "(k, p) \<in> set (border_writes w \<lparr>cell_x = of_nat x0, cell_y = of_nat y0, cell_w = of_nat cw, cell_h = of_nat ch\<rparr> 4) \<longleftrightarrow>
    p = RED \<and> x0 \<le> k mod w \<and> k mod w < x0 + cw \<and> y0 \<le> k div w \<and> k div w < y0 + ch \<and>
    (k mod w < x0 + 4 \<or> x0 + cw \<le> k mod w + 4 \<or> k div w < y0 + 4 \<or> y0 + ch \<le> k div w + 4)"
proof -
  have s: "sint (of_nat x0 :: 32 word) = int x0" "sint (of_nat y0 :: 32 word) = int y0"
    "sint (of_nat x0 + of_nat cw :: 32 word) = int (x0 + cw)" "sint (of_nat y0 + of_nat ch :: 32 word) = int (y0 + ch)"
    using assms sint_small[of x0] sint_small[of y0] sint_small[of "x0 + cw"] sint_small[of "y0 + ch"] by simp_all
  let ?area = "\<lambda>ys xs. concat (map (\<lambda>y. map (\<lambda>x. (y * w + x, RED)) xs) ys)"
  have "border_writes w \<lparr>cell_x = of_nat x0, cell_y = of_nat y0, cell_w = of_nat cw, cell_h = of_nat ch\<rparr> 4 =
      ?area [y0..<y0 + 4] [x0..<x0 + cw] @ ?area [y0 + ch - 4..<y0 + ch] [x0..<x0 + cw]
      @ ?area [y0..<y0 + ch] [x0..<x0 + 4] @ ?area [y0..<y0 + ch] [x0 + cw - 4..<x0 + cw]"
    using assms(4,5) by (simp add: border_writes_def Let_def s nat_add_distrib)
  moreover have b: "x0 + 4 \<le> w" using assms(1,4) by simp
  ultimately have "(k, p) \<in> set (border_writes w \<lparr>cell_x = of_nat x0, cell_y = of_nat y0, cell_w = of_nat cw, cell_h = of_nat ch\<rparr> 4) \<longleftrightarrow>
      x0 \<le> k mod w \<and> k mod w < x0 + cw \<and> y0 \<le> k div w \<and> k div w < y0 + 4 \<and> p = RED \<or>
      x0 \<le> k mod w \<and> k mod w < x0 + cw \<and> y0 + ch - 4 \<le> k div w \<and> k div w < y0 + ch \<and> p = RED \<or>
      x0 \<le> k mod w \<and> k mod w < x0 + 4 \<and> y0 \<le> k div w \<and> k div w < y0 + ch \<and> p = RED \<or>
      x0 + cw - 4 \<le> k mod w \<and> k mod w < x0 + cw \<and> y0 \<le> k div w \<and> k div w < y0 + ch \<and> p = RED"
    by (simp only: set_append Un_iff border_area_set[OF assms(1)] border_area_set[OF b])
  also have "\<dots> \<longleftrightarrow> p = RED \<and> x0 \<le> k mod w \<and> k mod w < x0 + cw \<and> y0 \<le> k div w \<and> k div w < y0 + ch \<and>
      (k mod w < x0 + 4 \<or> x0 + cw \<le> k mod w + 4 \<or> k div w < y0 + 4 \<or> y0 + ch \<le> k div w + 4)"
    using assms(4,5) by linarith
  finally show ?thesis .
qed

lemma draw_tile_nth:
  fixes win_w win_h :: u32
  assumes "i < n" "window_fits n win_w win_h" "g = grid_compute n win_w win_h 4"
    and b: "length b = unat win_w * unat win_h" "k < length b"
  shows "length (draw_tile scale v win_w g (i, e) b) = length b"
    and "draw_tile scale v win_w g (i, e) b ! k =
      (if in_cell n (unat win_w) (unat win_h) i (k mod unat win_w) (k div unat win_w)
       then tile_pixel scale v n (unat win_w) (unat win_h) i e (k mod unat win_w) (k div unat win_w) else b ! k)"
proof -
  let ?w = "unat win_w" and ?h = "unat win_h"
  obtain c r where cr: "cols_rows n = (c, r)" by (cases "cols_rows n")
  have n: "0 < n" using assms(1) by simp
  note pos = cols_rows_cover[OF n cr]
  let ?x = "cell_start c ?w (i mod c)" and ?y = "cell_start r ?h (i div c)" and ?cw = "cell_size c ?w" and ?ch = "cell_size r ?h"
  let ?cell = "\<lparr>cell_x = of_nat ?x, cell_y = of_nat ?y, cell_w = of_nat ?cw, cell_h = of_nat ?ch\<rparr> :: tile_rect"
  have fit: "4 * (c + 1) \<le> ?w" "4 * (r + 1) \<le> ?h" "?w * ?h < 2 ^ 32" using assms(2) cr by (simp_all add: window_fits_def)
  note small = window_fits_small[OF n assms(2)]
  have "i div c < r" using pos assms(1) by (simp add: less_mult_imp_div_less mult.commute)
  then have ends: "?x + ?cw \<le> ?w" "?y + ?ch \<le> ?h" using cell_end[OF _ fit(1), of "i mod c"] cell_end[OF _ fit(2)] pos by fastforce+
  have "(?y + ?ch) * ?w \<le> ?h * ?w" using ends(2) by (rule mult_le_mono1)
  then have "(?y + ?ch) * ?w < 2 ^ 32" using fit(3)[unfolded mult.commute[of ?w]] by (rule le_less_trans)
  moreover have four: "4 \<le> ?cw" "4 \<le> ?ch"
    using assms(2) cr pos by (auto simp: window_fits_def cell_size_def less_eq_div_iff_mult_less_eq)
  ultimately have tw: "tile_writes scale v win_w ?cell d =
      concat (map (\<lambda>cy. map (\<lambda>cx. ((?y + cy) * ?w + (?x + cx), source_pixel scale v d ?cw ?ch cx cy)) [0..<?cw]) [0..<?ch])" for d
    using ends small by (intro tile_writes_grid) simp_all
  let ?fill = "\<lambda>k. source_pixel scale v (se_display_id e) ?cw ?ch (k mod ?w - ?x) (k div ?w - ?y)"
  let ?b1 = "paint b (tile_writes scale v win_w ?cell (se_display_id e))"
  have mem: "k \<in> fst ` set (tile_writes scale v win_w ?cell (se_display_id e)) \<longleftrightarrow> in_cell n ?w ?h i (k mod ?w) (k div ?w)"
    using area_set[OF ends(1), of k _ ?y "\<lambda>cx cy. source_pixel scale v (se_display_id e) ?cw ?ch cx cy" ?ch]
    by (auto simp: tw image_iff in_cell_def cr in_span_def Bex_def simp del: set_concat set_map)
  have val: "p = ?fill j" if "(j, p) \<in> set (tile_writes scale v win_w ?cell (se_display_id e))" for j p
    using that[unfolded tw area_set[OF ends(1)]] by simp
  have b1: "length ?b1 = length b" "?b1 ! k = (if in_cell n ?w ?h i (k mod ?w) (k div ?w) then ?fill k else b ! k)"
    unfolding mem[symmetric] by (rule paint_nth[OF b(2), where f = ?fill], erule val)+
  have bord: "(k, p) \<in> set (border_writes ?w ?cell 4) \<longleftrightarrow>
      p = RED \<and> in_cell n ?w ?h i (k mod ?w) (k div ?w) \<and> (near_edge c ?w (i mod c) (k mod ?w) \<or> near_edge r ?h (i div c) (k div ?w))" for p
    using border_writes_grid[of ?x ?cw ?w ?y ?ch k p] ends small four
    by (auto simp: in_cell_def cr in_span_def near_edge_def)
  have red: "p = RED" if "(j, p) \<in> set (border_writes ?w ?cell 4)" for j p
    using that border_writes_grid[of ?x ?cw ?w ?y ?ch j p] ends small four by simp
  have k1: "k < length ?b1" using b1(1) b(2) by simp
  have memb: "k \<in> fst ` set (border_writes ?w ?cell 4) \<longleftrightarrow>
      in_cell n ?w ?h i (k mod ?w) (k div ?w) \<and> (near_edge c ?w (i mod c) (k mod ?w) \<or> near_edge r ?h (i div c) (k div ?w))"
    using bord by (auto simp: image_iff Bex_def)
  have b2: "length (paint ?b1 (border_writes ?w ?cell 4)) = length ?b1"
    "paint ?b1 (border_writes ?w ?cell 4) ! k = (if k \<in> fst ` set (border_writes ?w ?cell 4) then RED else ?b1 ! k)"
    by (rule paint_nth[OF k1, where f = "\<lambda>_. RED"], erule red)+
  have dt: "draw_tile scale v win_w g (i, e) b =
      (if sr_show_privacy (tv_registry v) \<and> se_privacy_state e = DisplayPrivacy then paint ?b1 (border_writes ?w ?cell 4) else ?b1)"
    unfolding draw_tile_def Let_def prod.case cell_rect_grid[OF assms(1) cr assms(2,3)] draw_red_border_def ..
  show "length (draw_tile scale v win_w g (i, e) b) = length b" unfolding dt using b1(1) b2(1) by simp
  show "draw_tile scale v win_w g (i, e) b ! k =
      (if in_cell n ?w ?h i (k mod ?w) (k div ?w) then tile_pixel scale v n ?w ?h i e (k mod ?w) (k div ?w) else b ! k)"
    unfolding dt tile_pixel_def cr Let_def prod.case by (simp add: b1(2) b2(2) memb)
qed

lemma fold_tiles_nth:
  fixes win_w win_h :: u32
  assumes "window_fits n win_w win_h" "g = grid_compute n win_w win_h 4" "k < unat win_w * unat win_h"
  defines "at \<equiv> \<lambda>i. in_cell n (unat win_w) (unat win_h) i (k mod unat win_w) (k div unat win_w)"
  assumes "\<forall>(i, e) \<in> set ies. i < n" "distinct (map fst ies)" "length b = unat win_w * unat win_h"
  shows "length (fold (draw_tile scale v win_w g) ies b) = unat win_w * unat win_h \<and>
    (\<forall>(i, e) \<in> set ies. at i \<longrightarrow>
      fold (draw_tile scale v win_w g) ies b ! k = tile_pixel scale v n (unat win_w) (unat win_h) i e (k mod unat win_w) (k div unat win_w)) \<and>
    ((\<forall>i \<in> fst ` set ies. \<not> at i) \<longrightarrow> fold (draw_tile scale v win_w g) ies b ! k = b ! k)"
  using assms(5-7)
proof (induction ies rule: rev_induct)
  case (snoc ie ies)
  obtain j f where ie: "ie = (j, f)" by (cases ie)
  let ?b = "fold (draw_tile scale v win_w g) ies b"
  have j: "j < n" "\<forall>(i, e) \<in> set ies. i < n" "distinct (map fst ies)" "j \<notin> fst ` set ies"
    using snoc.prems ie by auto
  have len: "length ?b = unat win_w * unat win_h"
    and tile: "\<And>i e. (i, e) \<in> set ies \<Longrightarrow> at i \<Longrightarrow>
      ?b ! k = tile_pixel scale v n (unat win_w) (unat win_h) i e (k mod unat win_w) (k div unat win_w)"
    and rest: "(\<forall>i \<in> fst ` set ies. \<not> at i) \<Longrightarrow> ?b ! k = b ! k"
    using snoc.IH[OF j(2,3) snoc.prems(3)] by blast+
  have k: "k < length ?b" using len assms(3) by simp
  note d1 = draw_tile_nth(1)[OF j(1) assms(1,2) len k, of scale v f]
  have d2: "draw_tile scale v win_w g (j, f) ?b ! k =
      (if at j then tile_pixel scale v n (unat win_w) (unat win_h) j f (k mod unat win_w) (k div unat win_w) else ?b ! k)"
    using draw_tile_nth(2)[OF j(1) assms(1,2) len k, of scale v f] by (simp only: at_def)
  have other: "\<not> at j" if "(i, e) \<in> set ies" "at i" for i e
    using that j(4) in_cell_unique[of n "unat win_w" "unat win_h" i _ _ j] by (force simp: at_def)
  have step: "fold (draw_tile scale v win_w g) (ies @ [ie]) b = draw_tile scale v win_w g (j, f) ?b" by (simp add: ie)
  have "\<forall>(i, e) \<in> set (ies @ [ie]). at i \<longrightarrow>
      draw_tile scale v win_w g (j, f) ?b ! k = tile_pixel scale v n (unat win_w) (unat win_h) i e (k mod unat win_w) (k div unat win_w)"
    using d2 tile other by (auto simp: ie)
  then show ?case unfolding step using d1 d2 len rest by (simp add: ie)
qed simp


definition demo_entry :: stream_entry where
  "demo_entry = \<lparr>se_display_id = 3, se_width = 1, se_height = 1, se_refresh_hz = 0, se_fps = 0, se_privacy_state = DisplayActive,
     se_first_frame_at = 0, se_last_frame_at = 0, se_frame_count = 0\<rparr>"

definition demo_registry :: stream_registry where
  "demo_registry = set_selected_stream (Some 5) (add_stream demo_entry (add_stream (demo_entry\<lparr>se_display_id := 5\<rparr>) registry_new))"

definition demo_view :: tiled_view where
  "demo_view = \<lparr>tv_registry = add_stream demo_entry registry_new, tv_buffers = [(3, [7])], tv_sizes = [(3, (1, 1))]\<rparr>"

theorem cycle_round_robin_witness:
  "sr_selected ((cycle_selected_stream ^^ 1) demo_registry) = Some 3 \<and> sr_selected ((cycle_selected_stream ^^ 2) demo_registry) = Some 5"
proof -
  have d: "registry_ok demo_registry" "1 < stream_count demo_registry" "sr_selected demo_registry = Some (se_display_id (list_streams demo_registry ! 1))"
    "stream_count demo_registry = 2" "se_display_id (list_streams demo_registry ! 0) = 3" "se_display_id (list_streams demo_registry ! 1) = 5"
    by (simp_all add: registry_ok_def wf_map_def demo_registry_def demo_entry_def set_selected_stream_def add_stream_def registry_new_def
        stream_count_def list_streams_def)
  then show ?thesis using cycle_round_robin[OF d(1-3), of 1] cycle_round_robin[OF d(1-3), of 2] by simp
qed


text \<open>A window smaller than the padding wraps the cell size around, and a cell of fewer than four rows has
  its border drawn above its own area.\<close>

lemma small_window_wraps: "gl_cell_width (grid_compute 1 7 100 4) = 2 ^ 32 - 1"
  by (simp add: grid_compute_def cols_rows_def)

lemma thin_cell_border_leaks: "(3 * 100 + 4, RED) \<in> set (border_writes 100 (cell_rect (grid_compute 1 100 11 4) 0 0) 4)"
proof -
  have "cell_rect (grid_compute 1 100 11 4) 0 0 = \<lparr>cell_x = 4, cell_y = 4, cell_w = 92, cell_h = 3\<rparr>"
    by (simp add: grid_compute_def cols_rows_def cell_rect_def)
  then show ?thesis by (simp add: border_writes_def)
qed

text \<open>After the selected stream has been removed the next one selected is the second, not the first, of
  those left.\<close>

lemma cycle_after_removal_skips:
  "sr_selected (cycle_selected_stream (set_selected_stream (Some 9) demo_registry)) = Some 5"
  by (simp add: cycle_selected_stream_def set_selected_stream_def demo_registry_def demo_entry_def add_stream_def registry_new_def
      position_or_zero_def)

end
