(* ===== verification/Client_Session.thy ===== *)
theory Client_Session
  imports Client_View Quic_Endpoint
begin

text \<open>
  The session side of the command line client (\<open>apps/qubox-client-cli/src/main.rs\<close>): choosing a host from
  the inventory, waiting for the ticket of the host, receiving the media and control streams into the
  stream registry, and sending input. Frames of the signaling socket are a list; frames that do not arrive
  before the deadline are absent from it. Channels to the decoder are functions that say which sends
  succeed. Frame counters are natural numbers. Telemetry and log output are left out.
\<close>

subsection \<open>Signaling\<close>

datatype client_frame = TextFrame string | CloseFrame | OtherFrame | BrokenFrame | StreamEnded

datatype 'err client_error =
    SocketFailed
  | BadMessage
  | ServerRefused string 'err
  | SignalingClosed
  | TimedOut
  | BadTicket
  | NoHostsOnline
  | HostOffline uuid
  | NoHostNamed string
  | ManyHostsNamed string "peer_descriptor list"

definition resolve_host_in_inventory ::
    "(string \<Rightarrow> uuid option) \<Rightarrow> peer_descriptor list \<Rightarrow> string \<Rightarrow> ('err client_error, peer_descriptor) result" where
  "resolve_host_in_inventory parse_uuid hosts host =
     (if hosts = [] then Err NoHostsOnline
      else case parse_uuid host of
        Some i \<Rightarrow> (case find (\<lambda>h. peer_id h = i) hosts of Some h \<Rightarrow> Ok h | None \<Rightarrow> Err (HostOffline i))
      | None \<Rightarrow>
         (case filter (\<lambda>h. to_ascii_lowercase (device_name h) = to_ascii_lowercase host) hosts of
            [] \<Rightarrow> Err (NoHostNamed host)
          | [h] \<Rightarrow> Ok h
          | hs \<Rightarrow> Err (ManyHostsNamed host hs)))"

text \<open>The second component are the frames not yet read.\<close>

fun await_hosts ::
    "(string \<Rightarrow> 'err server_message option) \<Rightarrow> client_frame list \<Rightarrow> ('err client_error, peer_descriptor list) result \<times> client_frame list" where
  "await_hosts of_json [] = (Err SignalingClosed, [])"
| "await_hosts of_json (BrokenFrame # fs) = (Err SocketFailed, fs)"
| "await_hosts of_json (StreamEnded # fs) = (Err SignalingClosed, fs)"
| "await_hosts of_json (CloseFrame # fs) = (Err SignalingClosed, fs)"
| "await_hosts of_json (OtherFrame # fs) = await_hosts of_json fs"
| "await_hosts of_json (TextFrame t # fs) =
     (case of_json t of
        None \<Rightarrow> (Err BadMessage, fs)
      | Some (Hosts hs) \<Rightarrow> (Ok hs, fs)
      | Some (Error code m) \<Rightarrow> (Err (ServerRefused code m), fs)
      | Some _ \<Rightarrow> await_hosts of_json fs)"

text \<open>\<open>sent\<close>: whether the request for the host list was written.\<close>

definition fetch_hosts ::
    "(string \<Rightarrow> 'err server_message option) \<Rightarrow> bool \<Rightarrow> client_frame list \<Rightarrow> ('err client_error, peer_descriptor list) result \<times> client_frame list" where
  "fetch_hosts of_json sent fs = (if sent then await_hosts of_json fs else (Err SocketFailed, fs))"

definition resolve_host_argument ::
    "(string \<Rightarrow> 'err server_message option) \<Rightarrow> (string \<Rightarrow> uuid option) \<Rightarrow> bool \<Rightarrow> client_frame list \<Rightarrow> string \<Rightarrow>
     ('err client_error, peer_descriptor) result \<times> client_frame list" where
  "resolve_host_argument of_json parse_uuid sent fs host =
     (case fetch_hosts of_json sent fs of
        (Inl e, rest) \<Rightarrow> (Err e, rest)
      | (Inr hosts, rest) \<Rightarrow> (resolve_host_in_inventory parse_uuid hosts host, rest))"

definition ticket_text :: "uuid \<Rightarrow> uuid \<Rightarrow> relay_signal \<Rightarrow> string option" where
  "ticket_text sid host sg =
     (if rs_session_id sg = sid \<and> rs_from sg = host
      then (case rs_signal sg of NativeQuicTicket alpn ticket_b64 \<Rightarrow> Some ticket_b64 | _ \<Rightarrow> None)
      else None)"

fun wait_for_native_quic_ticket ::
    "(string \<Rightarrow> 'err server_message option) \<Rightarrow> ticket_codec \<Rightarrow> uuid \<Rightarrow> uuid \<Rightarrow> client_frame list \<Rightarrow>
     ('err client_error, native_quic_ticket) result" where
  "wait_for_native_quic_ticket of_json C sid host [] = Err TimedOut"
| "wait_for_native_quic_ticket of_json C sid host (BrokenFrame # fs) = Err SocketFailed"
| "wait_for_native_quic_ticket of_json C sid host (StreamEnded # fs) = Err SignalingClosed"
| "wait_for_native_quic_ticket of_json C sid host (CloseFrame # fs) = Err SignalingClosed"
| "wait_for_native_quic_ticket of_json C sid host (OtherFrame # fs) = wait_for_native_quic_ticket of_json C sid host fs"
| "wait_for_native_quic_ticket of_json C sid host (TextFrame t # fs) =
     (case of_json t of
        None \<Rightarrow> Err BadMessage
      | Some (Signal sg) \<Rightarrow>
         (case ticket_text sid host sg of
            Some b64 \<Rightarrow> (case decode_ticket_b64 C b64 of Some k \<Rightarrow> Ok k | None \<Rightarrow> Err BadTicket)
          | None \<Rightarrow> wait_for_native_quic_ticket of_json C sid host fs)
      | Some (Error code m) \<Rightarrow> Err (ServerRefused code m)
      | Some _ \<Rightarrow> wait_for_native_quic_ticket of_json C sid host fs)"

text \<open>A frame the wait passes over.\<close>

fun passed_over :: "(string \<Rightarrow> 'err server_message option) \<Rightarrow> uuid \<Rightarrow> uuid \<Rightarrow> client_frame \<Rightarrow> bool" where
  "passed_over of_json sid host OtherFrame = True"
| "passed_over of_json sid host (TextFrame t) =
     (case of_json t of
        None \<Rightarrow> False
      | Some (Signal sg) \<Rightarrow> ticket_text sid host sg = None
      | Some (Error _ _) \<Rightarrow> False
      | Some _ \<Rightarrow> True)"
| "passed_over of_json sid host _ = False"

text \<open>The frame carries the ticket \<open>k\<close> of the host for this session.\<close>

definition carries_ticket :: "(string \<Rightarrow> 'err server_message option) \<Rightarrow> ticket_codec \<Rightarrow> uuid \<Rightarrow> uuid \<Rightarrow> native_quic_ticket \<Rightarrow> client_frame \<Rightarrow> bool" where
  "carries_ticket of_json C sid host k f \<longleftrightarrow>
     (\<exists>t sg alpn b64. f = TextFrame t \<and> of_json t = Some (Signal sg) \<and> rs_session_id sg = sid \<and> rs_from sg = host \<and>
        rs_signal sg = NativeQuicTicket alpn b64 \<and> decode_ticket_b64 C b64 = Some k)"

lemma wait_passes_over:
  assumes "passed_over of_json sid host f"
  shows "wait_for_native_quic_ticket of_json C sid host (f # fs) = wait_for_native_quic_ticket of_json C sid host fs"
proof (cases f)
  case (TextFrame u)
  with assms obtain m where "of_json u = Some m" by (auto split: option.splits)
  with TextFrame assms show ?thesis by (cases m) auto
qed (use assms in auto)

lemma wait_decides:
  assumes "\<not> passed_over of_json sid host f"
  shows "wait_for_native_quic_ticket of_json C sid host (f # fs) = Ok k \<longleftrightarrow> carries_ticket of_json C sid host k f"
proof (cases f)
  case (TextFrame u)
  with assms show ?thesis
    by (cases "of_json u")
      (auto simp: carries_ticket_def ticket_text_def split: server_message.splits option.splits if_splits session_signal.splits)
qed (use assms in \<open>auto simp: carries_ticket_def\<close>)

lemma carried_not_passed: "carries_ticket of_json C sid host k f \<Longrightarrow> \<not> passed_over of_json sid host f"
  by (auto simp: carries_ticket_def ticket_text_def)

definition ticket_found ::
    "(string \<Rightarrow> 'err server_message option) \<Rightarrow> ticket_codec \<Rightarrow> uuid \<Rightarrow> uuid \<Rightarrow> native_quic_ticket \<Rightarrow> client_frame list \<Rightarrow> bool" where
  "ticket_found of_json C sid host k fs \<longleftrightarrow>
     (\<exists>pre f post. fs = pre @ f # post \<and> list_all (passed_over of_json sid host) pre \<and> carries_ticket of_json C sid host k f)"

lemma ticket_found_Cons:
  "ticket_found of_json C sid host k (f # fs) \<longleftrightarrow>
    (if passed_over of_json sid host f then ticket_found of_json C sid host k fs else carries_ticket of_json C sid host k f)"
    (is "?l \<longleftrightarrow> ?r")
proof
  assume ?l
  then obtain pre g post where g: "f # fs = pre @ g # post" "list_all (passed_over of_json sid host) pre"
    "carries_ticket of_json C sid host k g" by (auto simp: ticket_found_def)
  with carried_not_passed[OF g(3)] show ?r by (cases pre) (auto simp: ticket_found_def)
next
  assume r: ?r
  show ?l
  proof (cases "passed_over of_json sid host f")
    case True
    with r obtain pre g post where "fs = pre @ g # post" "list_all (passed_over of_json sid host) pre"
      "carries_ticket of_json C sid host k g" by (auto simp: ticket_found_def)
    with True show ?l unfolding ticket_found_def by (intro exI[of _ "f # pre"] exI[of _ g] exI[of _ post]) simp
  next
    case False
    with r show ?l unfolding ticket_found_def by (intro exI[of _ "[]"] exI[of _ f] exI[of _ fs]) simp
  qed
qed

text \<open>C31: The client accepts a ticket exactly when it comes in a signal of this session from the host it asked
  for, before anything that ends the wait, and can be decoded; the first such signal decides. Signals of
  other sessions and other peers are passed over.\<close>

theorem ticket_from_session_host:
  "wait_for_native_quic_ticket of_json C sid host fs = Ok k \<longleftrightarrow>
    (\<exists>pre t sg b64 post. fs = pre @ TextFrame t # post \<and> list_all (passed_over of_json sid host) pre \<and>
       of_json t = Some (Signal sg) \<and> rs_session_id sg = sid \<and> rs_from sg = host \<and>
       (\<exists>alpn. rs_signal sg = NativeQuicTicket alpn b64) \<and> decode_ticket_b64 C b64 = Some k)"
proof -
  have "wait_for_native_quic_ticket of_json C sid host fs = Ok k \<longleftrightarrow> ticket_found of_json C sid host k fs"
  proof (induction fs)
    case (Cons f fs)
    then show ?case
      by (cases "passed_over of_json sid host f") (simp_all add: wait_passes_over wait_decides ticket_found_Cons del: wait_for_native_quic_ticket.simps)
  qed (simp add: ticket_found_def)
  then show ?thesis unfolding ticket_found_def carries_ticket_def by (auto 4 4)
qed

text \<open>A host named by its id is the one with that id; one named by its display name is the only one of
  that name.\<close>

lemma resolved_host:
  assumes "resolve_host_in_inventory parse_uuid hosts host = Ok h"
  shows "h \<in> set hosts \<and>
    (case parse_uuid host of
       Some i \<Rightarrow> peer_id h = i
     | None \<Rightarrow> \<forall>h' \<in> set hosts. to_ascii_lowercase (device_name h') = to_ascii_lowercase host \<longrightarrow> h' = h)"
proof (cases "parse_uuid host")
  case None
  then have "filter (\<lambda>h. to_ascii_lowercase (device_name h) = to_ascii_lowercase host) hosts = [h]"
    using assms by (auto simp: resolve_host_in_inventory_def split: if_splits list.splits)
  from arg_cong[OF this, of set] None show ?thesis by auto
next
  case (Some i)
  then show ?thesis using assms by (auto simp: resolve_host_in_inventory_def find_Some_iff split: if_splits option.splits)
qed

subsection \<open>Framed streams\<close>

text \<open>The contract of a stream of framed items: reading what was sent yields the item as the reader sees it
  and the rest of the stream, an empty stream is at its end, and every read makes progress.\<close>

locale framed_stream =
  fixes read :: "bytes \<Rightarrow> (stream_error, ('y \<times> bytes) option) result"
    and send :: "'x \<Rightarrow> bytes"
    and view :: "'x \<Rightarrow> 'y"
    and sendable :: "'x \<Rightarrow> bool"
  assumes read_sent: "sendable x \<Longrightarrow> read (send x @ rest) = Ok (Some (view x, rest))"
    and read_end: "read [] = Ok None"
    and read_shorter: "read s = Ok (Some (y, s')) \<Longrightarrow> length s' < length s"
begin

lemma read_next: "sendable x \<Longrightarrow> read (concat (map send (x # xs))) = Ok (Some (view x, concat (map send xs)))"
  by (simp add: read_sent)

lemma send_not_Nil: "sendable x \<Longrightarrow> send x @ rest \<noteq> []"
  using read_sent[of x rest] read_end by auto

lemma decodes_uniquely:
  "list_all sendable xs \<Longrightarrow> list_all sendable ys \<Longrightarrow> concat (map send xs) = concat (map send ys) \<Longrightarrow> map view xs = map view ys"
proof (induction xs arbitrary: ys)
  case Nil
  then show ?case using send_not_Nil by (cases ys) fastforce+
next
  case (Cons x xs)
  then obtain y zs where ys: "ys = y # zs" using send_not_Nil[of x] by (cases ys) auto
  have "Ok (Some (view x, concat (map send xs))) = Ok (Some (view y, concat (map send zs)))"
    using Cons.prems read_next[of x xs] read_next[of y zs] by (simp add: ys)
  with Cons ys show ?case by simp
qed

end

subsection \<open>Media stream\<close>

lemma maybe_read_shorter:
  assumes "maybe_read_json_prefixed of_json s = Ok (Some (x, s'))"
  shows "length s' < length s"
  using assms
  by (auto simp: maybe_read_json_prefixed_def read_u32_def read_json_body_def map_sum_def split: if_splits option.splits sum.splits)

lemma read_access_unit_shorter:
  assumes "read_access_unit of_json sid s = Ok (Some (au, s'))"
  shows "length s' < length s"
proof -
  obtain h s1 where h: "maybe_read_json_prefixed of_json s = Ok (Some (h, s1))" "s' = drop (wh_byte_len h) s1"
    using assms by (auto simp: read_access_unit_def read_access_unit_header_def Let_def split: sum.splits option.splits if_splits)
  then show ?thesis using maybe_read_shorter[OF h(1)] by simp
qed

text \<open>\<open>n\<close> frames were received so far; the result is the registry, the access units handed to the decoder
  and the outcome.\<close>

function receive_media_stream ::
    "(bytes \<Rightarrow> wire_access_unit_header option) \<Rightarrow> uuid \<Rightarrow> (nat \<Rightarrow> bool) \<Rightarrow> nat \<Rightarrow> nat \<Rightarrow> bytes \<Rightarrow>
     bytes list \<times> (stream_error, nat) result" where
  "receive_media_stream of_json sid accepts limit n s =
     (case read_access_unit of_json sid s of
        Inl e \<Rightarrow> ([], Err e)
      | Inr None \<Rightarrow> ([], Ok n)
      | Inr (Some (au, s')) \<Rightarrow>
          if \<not> accepts n then ([], Ok n)
          else if limit > 0 \<and> n + 1 \<ge> limit then ([au_bytes au], Ok (n + 1))
          else (case receive_media_stream of_json sid accepts limit (n + 1) s' of (out, r) \<Rightarrow> (au_bytes au # out, r)))"
  by pat_completeness auto
termination by (relation "measure (\<lambda>(_, _, _, _, _, s). length s)") (auto dest: read_access_unit_shorter)

declare receive_media_stream.simps [simp del]

text \<open>The bit pattern of \<open>60.0\<close>.\<close>

definition FPS_60 :: u32 where "FPS_60 = 0x42700000"

definition note_frame :: "(u32 \<Rightarrow> u32 \<Rightarrow> u32) \<Rightarrow> nat \<Rightarrow> access_unit \<Rightarrow> stream_registry \<Rightarrow> stream_registry" where
  "note_frame ema now au r =
     update_fps ema now (au_display_id au) FPS_60
       (if has_stream (au_display_id au) r then r
        else add_stream \<lparr>se_display_id = au_display_id au, se_width = au_width au, se_height = au_height au, se_refresh_hz = 0, se_fps = 0,
               se_privacy_state = DisplayActive, se_first_frame_at = now, se_last_frame_at = now, se_frame_count = 0\<rparr> r)"

function receive_media_stream_registry ::
    "(bytes \<Rightarrow> wire_access_unit_header option) \<Rightarrow> uuid \<Rightarrow> (u32 \<Rightarrow> u32 \<Rightarrow> u32) \<Rightarrow> (nat \<Rightarrow> nat) \<Rightarrow> (nat \<Rightarrow> bool) \<Rightarrow> nat \<Rightarrow> nat \<Rightarrow> bytes \<Rightarrow>
     stream_registry \<Rightarrow> stream_registry \<times> bytes list \<times> (stream_error, nat) result" where
  "receive_media_stream_registry of_json sid ema clock accepts limit n s r =
     (case read_access_unit of_json sid s of
        Inl e \<Rightarrow> (r, [], Err e)
      | Inr None \<Rightarrow> (r, [], Ok n)
      | Inr (Some (au, s')) \<Rightarrow>
          let r' = note_frame ema (clock n) au r in
          if \<not> accepts n then (r', [], Ok n)
          else if limit > 0 \<and> n + 1 \<ge> limit then (r', [au_bytes au], Ok (n + 1))
          else (case receive_media_stream_registry of_json sid ema clock accepts limit (n + 1) s' r' of
                  (r2, out, res) \<Rightarrow> (r2, au_bytes au # out, res)))"
  by pat_completeness auto
termination by (relation "measure (\<lambda>(_, _, _, _, _, _, _, s, _). length s)") (auto dest: read_access_unit_shorter)

declare receive_media_stream_registry.simps [simp del]

lemma has_stream_ops [simp]:
  "has_stream d (update_fps ema now d' m r) = has_stream d r"
  "has_stream d (add_stream e r) \<longleftrightarrow> d = se_display_id e \<or> has_stream d r"
  by (force simp: has_stream_def update_fps_def change_entry_def add_stream_def dom_update)+

lemma map_of_change: "map_of (map (\<lambda>(k, e). (k, if k = d then f e else e)) xs) k = (if k = d then map_option f (map_of xs k) else map_of xs k)"
  by (induction xs) auto

lemma get_stream_ops [simp]:
  "get_stream d (add_stream e r) = (if d = se_display_id e then Some e else get_stream d r)"
  "get_stream d (update_fps ema now d' m r) =
    (if d = d' then map_option (\<lambda>e. e\<lparr>se_fps := ema (se_fps e) m, se_last_frame_at := now, se_frame_count := se_frame_count e + 1\<rparr>) (get_stream d r)
     else get_stream d r)"
  by (simp_all add: get_stream_def add_stream_def update_fps_def change_entry_def map_of_change)

lemma has_stream_get: "has_stream d r \<longleftrightarrow> get_stream d r \<noteq> None"
  by (simp add: has_stream_def get_stream_def map_of_eq_None_iff)

definition frames_counted :: "u32 \<Rightarrow> stream_registry \<Rightarrow> u64" where
  "frames_counted d r = (case get_stream d r of Some e \<Rightarrow> se_frame_count e | None \<Rightarrow> 0)"

lemma frames_counted_note: "frames_counted (au_display_id au) (note_frame ema now au r) = frames_counted (au_display_id au) r + 1"
  by (auto simp: frames_counted_def note_frame_def has_stream_get)

lemma has_stream_note: "has_stream d (note_frame ema now au r) \<longleftrightarrow> d = au_display_id au \<or> has_stream d r"
  by (auto simp: note_frame_def)

text \<open>The header of a unit survives JSON and fits the frame limit, and the unit is within the receiver's limit.\<close>

definition sendable_unit :: "(wire_access_unit_header \<Rightarrow> bytes) \<Rightarrow> (bytes \<Rightarrow> wire_access_unit_header option) \<Rightarrow> uuid \<Rightarrow> access_unit \<Rightarrow> bool" where
  "sendable_unit to_json of_json sid u \<longleftrightarrow>
     (let h = access_unit_header sid u 0 0 0 0 0 0 None
      in of_json (to_json h) = Some h \<and> length (to_json h) \<le> MAX_JSON_FRAME \<and> length (au_bytes u) \<le> MAX_VIDEO_AU_BYTES)"

lemma read_sent_unit:
  "sendable_unit to_json of_json sid u \<Longrightarrow>
   read_access_unit of_json sid (send_access_unit to_json sid u @ rest) = Ok (Some (received_unit u, rest))"
  using access_unit_roundtrip[of of_json to_json sid u rest] by (simp add: sendable_unit_def Let_def)

lemma received_display [simp]: "au_display_id (received_unit u) = 0" "au_bytes (received_unit u) = au_bytes u"
  by (simp_all add: received_unit_def)

lemma read_empty [simp]: "read_access_unit of_json sid [] = Ok None"
  by (simp add: read_access_unit_def read_access_unit_header_def maybe_read_json_prefixed_def read_u32_def)

interpretation media_stream: framed_stream "read_access_unit of_json sid" "send_access_unit to_json sid" received_unit
    "sendable_unit to_json of_json sid" for of_json to_json sid
  by unfold_locales (simp_all add: read_sent_unit read_access_unit_shorter)

lemma receive_units:
  assumes "list_all (sendable_unit to_json of_json sid) us" "limit = 0 \<or> n < limit"
    and "m = (if limit = 0 then length us else min (limit - n) (length us))"
  shows "\<exists>r'. receive_media_stream_registry of_json sid ema clock (\<lambda>_. True) limit n (concat (map (send_access_unit to_json sid) us)) r =
      (r', map au_bytes (take m us), Ok (n + m)) \<and>
    frames_counted 0 r' = frames_counted 0 r + of_nat m \<and> (\<forall>d. has_stream d r' \<longleftrightarrow> (d = 0 \<and> 0 < m) \<or> has_stream d r)"
  using assms
proof (induction us arbitrary: n r m)
  case Nil
  then show ?case by (simp add: receive_media_stream_registry.simps)
next
  case (Cons u us)
  let ?r = "note_frame ema (clock n) (received_unit u) r"
  have read: "read_access_unit of_json sid (concat (map (send_access_unit to_json sid) (u # us))) =
      Ok (Some (received_unit u, concat (map (send_access_unit to_json sid) us)))"
    using Cons.prems(1) by (intro media_stream.read_next) simp
  have noted: "frames_counted 0 ?r = frames_counted 0 r + 1" "\<And>d. has_stream d ?r \<longleftrightarrow> d = 0 \<or> has_stream d r"
    using frames_counted_note[of "received_unit u"] has_stream_note[of _ _ _ "received_unit u"] by simp_all
  show ?case
  proof (cases "limit > 0 \<and> n + 1 \<ge> limit")
    case True
    then have "m = 1" using Cons.prems(2,3) by auto
    then show ?thesis using True noted by (subst receive_media_stream_registry.simps) (auto simp only: read, auto)
  next
    case False
    let ?m = "if limit = 0 then length us else min (limit - (n + 1)) (length us)"
    have m: "m = Suc ?m" using False Cons.prems(3) by auto
    have lim: "limit = 0 \<or> n + 1 < limit" using False by auto
    obtain r' where r': "receive_media_stream_registry of_json sid ema clock (\<lambda>_. True) limit (n + 1)
          (concat (map (send_access_unit to_json sid) us)) ?r = (r', map au_bytes (take ?m us), Ok (n + 1 + ?m))"
        "frames_counted 0 r' = frames_counted 0 ?r + of_nat ?m" "\<forall>d. has_stream d r' \<longleftrightarrow> (d = 0 \<and> 0 < ?m) \<or> has_stream d ?r"
      using Cons.IH[OF _ lim refl, of ?r] Cons.prems(1) by auto
    have "receive_media_stream_registry of_json sid ema clock (\<lambda>_. True) limit n (concat (map (send_access_unit to_json sid) (u # us))) r =
        (r', map au_bytes (take (Suc ?m) (u # us)), Ok (n + Suc ?m))"
      by (subst receive_media_stream_registry.simps) (simp add: read[unfolded list.map concat.simps] r'(1) False Let_def del: One_nat_def)
    moreover have "frames_counted 0 r' = frames_counted 0 r + of_nat (Suc ?m)" using r'(2) noted(1) by simp
    moreover have "\<forall>d. has_stream d r' \<longleftrightarrow> (d = 0 \<and> 0 < Suc ?m) \<or> has_stream d r" using r'(3) noted(2) by auto
    ultimately show ?thesis unfolding m by blast
  qed
qed



subsection \<open>Control stream\<close>

datatype stats_sample = LinkSample u16 u16 u16 u32 | FrameSample u32 u32 u32

record client_control =
  cl_registry :: stream_registry
  cl_clipboard :: clipboard_side
  cl_overlay :: "(bool \<times> u32 option) list"
  cl_stats :: "stats_sample list"

definition state_of_byte :: "u8 \<Rightarrow> display_state" where
  "state_of_byte b = (if b = 0 then DisplayActive else if b = 1 then DisplayPrivacy else DisplayBlanked)"

text \<open>One message; \<open>writes\<close> is the clipboard of the client.\<close>

definition control_step :: "(clipboard_payload \<Rightarrow> bool) \<Rightarrow> control_msg \<Rightarrow> client_control \<Rightarrow> client_control" where
  "control_step writes msg s =
     (case msg of
        DisplayStateChanged d _ new_state \<Rightarrow> s\<lparr>cl_registry := update_privacy_state d (state_of_byte new_state) (cl_registry s)\<rparr>
      | StreamUnsubscribe ds \<Rightarrow> s\<lparr>cl_registry := foldl (\<lambda>r d. fst (remove_stream d r)) (cl_registry s) ds\<rparr>
      | BlankOverlay show_it d \<Rightarrow> s\<lparr>cl_overlay := cl_overlay s @ [(show_it, d)]\<rparr>
      | RateFeedback rf \<Rightarrow>
          s\<lparr>cl_stats := cl_stats s @ [LinkSample (rf_rtt_ms rf) (rf_loss_x1000 rf) (rf_jitter_ms rf) (rf_one_way_delay_ms rf)]\<rparr>
      | StreamStats _ decoded dropped recovered \<Rightarrow> s\<lparr>cl_stats := cl_stats s @ [FrameSample decoded dropped recovered]\<rparr>
      | ClipboardChanged _ _ \<Rightarrow> s\<lparr>cl_clipboard := fst (apply_clipboard writes msg (cl_clipboard s))\<rparr>
      | _ \<Rightarrow> s)"

function receive_control_stream ::
    "(bytes \<Rightarrow> control_msg option) \<Rightarrow> (nat \<Rightarrow> clipboard_payload \<Rightarrow> bool) \<Rightarrow> nat \<Rightarrow> bytes \<Rightarrow> client_control \<Rightarrow>
     client_control \<times> (stream_error, unit) result" where
  "receive_control_stream of_json writes n s c =
     (case read_control_msg of_json s of
        Inl e \<Rightarrow> (c, Err e)
      | Inr None \<Rightarrow> (c, Ok ())
      | Inr (Some (msg, s')) \<Rightarrow> receive_control_stream of_json writes (Suc n) s' (control_step (writes n) msg c))"
  by pat_completeness auto
termination by (relation "measure (\<lambda>(_, _, _, s, _). length s)") (auto simp: read_control_msg_def dest: maybe_read_shorter)

declare receive_control_stream.simps [simp del]

definition sendable_msg :: "(control_msg \<Rightarrow> bytes) \<Rightarrow> (bytes \<Rightarrow> control_msg option) \<Rightarrow> control_msg \<Rightarrow> bool" where
  "sendable_msg to_json of_json m \<longleftrightarrow> of_json (to_json m) = Some m \<and> length (to_json m) \<le> MAX_JSON_FRAME"

interpretation control_stream: framed_stream "read_control_msg of_json" "send_control_msg to_json" "\<lambda>m. m"
    "sendable_msg to_json of_json" for of_json to_json
  by unfold_locales
    (auto simp: sendable_msg_def read_control_msg_def send_control_msg_def read_json_write(2) maybe_read_json_prefixed_def[of _ "[]"] read_u32_def
      dest: maybe_read_shorter)

lemma control_stream_steps:
  assumes "list_all (sendable_msg to_json of_json) ms"
  shows "receive_control_stream of_json writes n (concat (map (send_control_msg to_json) ms)) c =
    (foldl (\<lambda>c (w, m). control_step w m c) c (zip (map writes [n..<n + length ms]) ms), Ok ())"
  using assms
proof (induction ms arbitrary: n c)
  case Nil
  then show ?case by (subst receive_control_stream.simps) (simp add: control_stream.read_end)
next
  case (Cons m ms)
  have "read_control_msg of_json (concat (map (send_control_msg to_json) (m # ms))) = Ok (Some (m, concat (map (send_control_msg to_json) ms)))"
    using Cons.prems by (intro control_stream.read_next) simp
  moreover have "[n..<n + length (m # ms)] = n # [Suc n..<Suc n + length ms]" by (subst upt_conv_Cons) simp_all
  ultimately show ?case using Cons by (subst receive_control_stream.simps) simp
qed

lemma control_clipboard:
  assumes "length oks = length ms"
  shows "cl_clipboard (foldl (\<lambda>c (w, m). control_step w m c) c (zip oks ms)) = apply_all oks ms (cl_clipboard c)"
  using assms
proof (induction ms arbitrary: oks c)
  case (Cons m ms)
  obtain w ws where w: "oks = w # ws" using Cons.prems by (cases oks) auto
  have "cl_clipboard (control_step w m c) = fst (apply_clipboard w m (cl_clipboard c))"
    by (cases m) (simp_all add: control_step_def apply_clipboard_def)
  then show ?case using Cons w by (simp add: apply_all_def)
qed (simp add: apply_all_def)

text \<open>The last state announced for a display, if any.\<close>

definition announced_state :: "u32 \<Rightarrow> control_msg list \<Rightarrow> display_state option" where
  "announced_state d ms = foldl (\<lambda>st m. case m of DisplayStateChanged d' _ b \<Rightarrow> if d' = d then Some (state_of_byte b) else st | _ \<Rightarrow> st) None ms"

definition unsubscribed :: "u32 \<Rightarrow> control_msg list \<Rightarrow> bool" where
  "unsubscribed d ms \<longleftrightarrow> list_ex (\<lambda>m. case m of StreamUnsubscribe ds \<Rightarrow> d \<in> set ds | _ \<Rightarrow> False) ms"

lemma get_stream_removed [simp]: "get_stream d (fst (remove_stream d' r)) = (if d = d' then None else get_stream d r)"
  by (simp add: get_stream_def remove_stream_def)

lemma get_stream_removed_all:
  "get_stream d (foldl (\<lambda>r d. fst (remove_stream d r)) r ds) = (if d \<in> set ds then None else get_stream d r)"
  by (induction ds arbitrary: r) auto

lemma get_stream_privacy [simp]:
  "get_stream d (update_privacy_state d' st r) =
    (if d = d' then map_option (\<lambda>e. e\<lparr>se_privacy_state := st\<rparr>) (get_stream d r) else get_stream d r)"
  by (simp add: get_stream_def update_privacy_state_def change_entry_def map_of_change)

lemma announced_snoc:
  "announced_state d (ms @ [m]) =
    (case m of DisplayStateChanged d' _ b \<Rightarrow> if d' = d then Some (state_of_byte b) else announced_state d ms | _ \<Rightarrow> announced_state d ms)"
  by (cases m) (simp_all add: announced_state_def)

lemma control_privacy:
  assumes "length oks = length ms" "get_stream d (cl_registry c) = Some e" "\<not> unsubscribed d ms"
  shows "get_stream d (cl_registry (foldl (\<lambda>c (w, m). control_step w m c) c (zip oks ms))) =
    Some (case announced_state d ms of None \<Rightarrow> e | Some st \<Rightarrow> e\<lparr>se_privacy_state := st\<rparr>)"
  using assms(1,3)
proof (induction ms arbitrary: oks rule: rev_induct)
  case Nil
  then show ?case using assms(2) by (simp add: announced_state_def)
next
  case (snoc m ms)
  obtain ws w where w: "oks = ws @ [w]" "length ws = length ms" using snoc.prems(1) by (cases oks rule: rev_cases) auto
  let ?c = "foldl (\<lambda>c (w, m). control_step w m c) c (zip ws ms)"
  have "\<not> unsubscribed d ms" using snoc.prems(2) by (simp add: unsubscribed_def)
  note IH = snoc.IH[OF w(2) this]
  have "get_stream d (cl_registry (control_step w m ?c)) =
      Some (case announced_state d (ms @ [m]) of None \<Rightarrow> e | Some st \<Rightarrow> e\<lparr>se_privacy_state := st\<rparr>)"
    using IH snoc.prems(2)
    by (cases m) (auto simp: control_step_def announced_snoc unsubscribed_def get_stream_removed_all split: option.splits)
  then show ?case using w by simp
qed

text \<open>The control stream from the host: every message sent is applied in order; a stream that was not
  unsubscribed ends in the privacy state announced last for its display, its other data untouched, and the
  clipboard receives exactly the clipboard messages.\<close>

theorem control_stream_applied:
  assumes "list_all (sendable_msg to_json of_json) ms"
    and "get_stream d (cl_registry c) = Some e" "\<not> unsubscribed d ms"
  shows "\<exists>c'. receive_control_stream of_json writes 0 (concat (map (send_control_msg to_json) ms)) c = (c', Ok ()) \<and>
      get_stream d (cl_registry c') = Some (case announced_state d ms of None \<Rightarrow> e | Some st \<Rightarrow> e\<lparr>se_privacy_state := st\<rparr>) \<and>
      cl_clipboard c' = apply_all (map writes [0..<length ms]) ms (cl_clipboard c)"
  using control_stream_steps[OF assms(1), of writes 0 c] control_privacy[OF _ assms(2,3), of "map writes [0..<length ms]"]
    control_clipboard[of "map writes [0..<length ms]" ms c]
  by simp

theorem control_stream_applied_witness:
  "\<exists>c'. receive_control_stream (\<lambda>b. if b = [1] then Some (DisplayStateChanged 3 0 1) else Some (ClipboardChanged 1 (ClipText ''x''))) (\<lambda>_ _. True) 0
      (concat (map (send_control_msg (\<lambda>m. case m of DisplayStateChanged _ _ _ \<Rightarrow> [1] | _ \<Rightarrow> [2]))
        [DisplayStateChanged 3 0 1, ClipboardChanged 1 (ClipText ''x'')]))
      \<lparr>cl_registry = demo_registry, cl_clipboard = \<lparr>sd_last_seq = 0, sd_clipboard = ClipClear\<rparr>, cl_overlay = [], cl_stats = []\<rparr> = (c', Ok ()) \<and>
    map_option se_privacy_state (get_stream 3 (cl_registry c')) = Some DisplayPrivacy \<and> sd_clipboard (cl_clipboard c') = ClipText ''x''"
proof -
  let ?c = "\<lparr>cl_registry = demo_registry, cl_clipboard = \<lparr>sd_last_seq = 0, sd_clipboard = ClipClear\<rparr>, cl_overlay = [], cl_stats = []\<rparr> :: client_control"
  let ?ms = "[DisplayStateChanged 3 0 1, ClipboardChanged 1 (ClipText ''x'')]"
  have "get_stream 3 (cl_registry ?c) = Some demo_entry"
    by (simp add: demo_registry_def set_selected_stream_def get_stream_def add_stream_def demo_entry_def registry_new_def)
  moreover have "list_all (sendable_msg (\<lambda>m. case m of DisplayStateChanged _ _ _ \<Rightarrow> [1] | _ \<Rightarrow> [2])
      (\<lambda>b. if b = [1] then Some (DisplayStateChanged 3 0 1) else Some (ClipboardChanged 1 (ClipText ''x'')))) ?ms"
    by (simp add: sendable_msg_def MAX_JSON_FRAME_def)
  moreover have "\<not> unsubscribed 3 ?ms" by (simp add: unsubscribed_def)
  moreover have "announced_state 3 ?ms = Some DisplayPrivacy" by (simp add: announced_state_def state_of_byte_def)
  moreover have "sd_clipboard (apply_all (map (\<lambda>_ _. True) [0..<length ?ms]) ?ms (cl_clipboard ?c)) = ClipText ''x''"
    by (simp add: apply_all_def apply_clipboard_def seq_advances_def upt_rec)
  ultimately show ?thesis
    using control_stream_applied[where ms = ?ms and c = ?c and d = 3 and e = demo_entry and writes = "\<lambda>_ _. True"] by fastforce
qed

subsection \<open>Input\<close>

text \<open>What the window reports at one tick: focus, mouse position, the three buttons, keys pressed and released.\<close>

record window_sample =
  wn_active :: bool
  wn_mouse :: "(u32 \<times> u32) option"
  wn_buttons :: "input_mouse_button \<Rightarrow> bool"
  wn_pressed :: "string list"
  wn_released :: "string list"

record pump_state =
  pm_last_mouse :: "(u32 \<times> u32) option"
  pm_buttons :: "input_mouse_button \<Rightarrow> bool"

definition pump_new :: pump_state where
  "pump_new = \<lparr>pm_last_mouse = None, pm_buttons = (\<lambda>_. False)\<rparr>"

definition button_events :: "window_sample \<Rightarrow> pump_state \<Rightarrow> remote_input_event list" where
  "button_events win st =
     map (\<lambda>b. MouseButton b (wn_buttons win b) None None)
       (filter (\<lambda>b. wn_buttons win b \<noteq> pm_buttons st b) [LeftButton, RightButton, MiddleButton])"

definition pump_window_input :: "bool \<Rightarrow> window_sample \<Rightarrow> pump_state \<Rightarrow> pump_state \<times> remote_input_event list" where
  "pump_window_input allow_unfocused win st =
     (if \<not> allow_unfocused \<and> \<not> wn_active win then (st\<lparr>pm_last_mouse := None\<rparr>, [])
      else let moves = (case wn_mouse win of
                          Some (x, y) \<Rightarrow> if Some (x, y) \<noteq> pm_last_mouse st then [MouseMove x y] else []
                        | None \<Rightarrow> [])
           in (\<lparr>pm_last_mouse = (case wn_mouse win of Some p \<Rightarrow> Some p | None \<Rightarrow> pm_last_mouse st), pm_buttons = wn_buttons win\<rparr>,
               moves @ button_events win st @ map (\<lambda>k. Keyboard k True) (wn_pressed win) @ map (\<lambda>k. Keyboard k False) (wn_released win)))"

fun pump_run :: "bool \<Rightarrow> window_sample list \<Rightarrow> pump_state \<Rightarrow> pump_state \<times> remote_input_event list" where
  "pump_run u [] st = (st, [])"
| "pump_run u (win # wins) st =
     (case pump_window_input u win st of (st1, evs) \<Rightarrow> case pump_run u wins st1 of (st2, evs2) \<Rightarrow> (st2, evs @ evs2))"

definition next_outbound_input_event ::
    "nat \<Rightarrow> remote_input_event option \<Rightarrow> remote_input_event list \<Rightarrow>
     (remote_input_event \<times> remote_input_event option \<times> remote_input_event list) option" where
  "next_outbound_input_event k pending queue =
     (case (case pending of Some e \<Rightarrow> Some (e, queue) | None \<Rightarrow> (case queue of [] \<Rightarrow> None | e # q \<Rightarrow> Some (e, q))) of
        None \<Rightarrow> None
      | Some (e, q) \<Rightarrow>
         if is_mouse_move e
         then (case drain_moves e (take k q) of (e', p', rest) \<Rightarrow> Some (e', p', rest @ drop k q))
         else Some (e, None, q))"

lemma next_outbound_eq: "next_outbound_input_event = next_injected_input_event"
  by (intro ext) (simp add: next_outbound_input_event_def next_injected_input_event_def)

text \<open>The sending loop until the queue is closed and empty: the bytes written to the input stream.\<close>

function send_input_events ::
    "(quic_control_message \<Rightarrow> bytes) \<Rightarrow> (nat \<Rightarrow> nat) \<Rightarrow> nat \<Rightarrow> remote_input_event option \<Rightarrow> remote_input_event list \<Rightarrow> bytes" where
  "send_input_events to_json sched i pending queue =
     (case next_outbound_input_event (sched i) pending queue of
        None \<Rightarrow> []
      | Some (e, p', q') \<Rightarrow> send_input_event to_json e @ send_input_events to_json sched (Suc i) p' q')"
  by pat_completeness auto
termination
  by (relation "measure (\<lambda>(to_json, sched, i, pending, queue). length queue + (if pending = None then 0 else 1))")
    (auto simp: next_outbound_eq dest: next_injected_decreases)

declare send_input_events.simps [simp del]

lemma send_input_worker:
  "send_input_events to_json sched i pending queue = concat (map (send_input_event to_json) (worker_run sched i pending queue))"
  by (induction sched i pending queue rule: worker_run.induct)
    (subst send_input_events.simps, subst worker_run.simps, auto simp: next_outbound_eq split: option.splits)

text \<open>The reading loop of the host.\<close>

function input_stream_events :: "(bytes \<Rightarrow> quic_control_message option) \<Rightarrow> bytes \<Rightarrow> remote_input_event list" where
  "input_stream_events of_json s =
     (case read_input_event of_json s of
        Inl e \<Rightarrow> []
      | Inr None \<Rightarrow> []
      | Inr (Some (ev, s')) \<Rightarrow> ev # input_stream_events of_json s')"
  by pat_completeness auto
termination
  by (relation "measure (\<lambda>(_, s). length s)")
    (auto simp: read_input_event_def dest: maybe_read_shorter split: sum.splits option.splits quic_control_message.splits)

declare input_stream_events.simps [simp del]

definition sendable_event :: "(quic_control_message \<Rightarrow> bytes) \<Rightarrow> (bytes \<Rightarrow> quic_control_message option) \<Rightarrow> remote_input_event \<Rightarrow> bool" where
  "sendable_event to_json of_json e \<longleftrightarrow> of_json (to_json (InputMsg e)) = Some (InputMsg e) \<and> length (to_json (InputMsg e)) \<le> MAX_JSON_FRAME"

lemma read_input_shorter: "read_input_event of_json s = Ok (Some (ev, s')) \<Longrightarrow> length s' < length s"
  by (auto simp: read_input_event_def dest: maybe_read_shorter split: sum.splits option.splits quic_control_message.splits)

interpretation input_stream: framed_stream "read_input_event of_json" "send_input_event to_json" "\<lambda>e. e"
    "sendable_event to_json of_json" for of_json to_json
  by unfold_locales
    (auto simp: sendable_event_def read_input_event_def[of _ "_ @ _"] read_input_event_def[of _ "[]"] send_input_event_def read_json_write(2)
      maybe_read_json_prefixed_def[of _ "[]"] read_u32_def dest: read_input_shorter)

lemma input_stream_roundtrip:
  "list_all (sendable_event to_json of_json) es \<Longrightarrow> input_stream_events of_json (concat (map (send_input_event to_json) es)) = es"
proof (induction es)
  case Nil
  then show ?case by (subst input_stream_events.simps) (simp add: input_stream.read_end)
next
  case (Cons e es)
  have "read_input_event of_json (concat (map (send_input_event to_json) (e # es))) = Ok (Some (e, concat (map (send_input_event to_json) es)))"
    using Cons.prems by (intro input_stream.read_next) simp
  with Cons show ?case by (subst input_stream_events.simps) simp
qed

lemma drain_moves_set: "drain_moves e xs = (e', p', rest) \<Longrightarrow> insert e' (set_option p' \<union> set rest) \<subseteq> insert e (set xs)"
  by (induction e xs rule: drain_moves.induct) (auto split: if_splits)

lemma next_injected_set:
  assumes "next_injected_input_event k pending queue = Some (e, p', q')"
  shows "insert e (set_option p' \<union> set q') \<subseteq> set_option pending \<union> set queue"
proof -
  obtain e0 q where q: "set_option pending \<union> set queue = insert e0 (set q)"
    and r: "(if is_mouse_move e0 then (case drain_moves e0 (take k q) of (e', p', rest) \<Rightarrow> Some (e', p', rest @ drop k q)) else Some (e0, None, q)) = Some (e, p', q')"
    using assms by (auto simp: next_injected_input_event_def split: option.splits list.splits)
  show ?thesis
  proof (cases "is_mouse_move e0")
    case True
    then obtain rest where "drain_moves e0 (take k q) = (e, p', rest)" "q' = rest @ drop k q" using r by (auto split: prod.splits)
    then show ?thesis unfolding q using drain_moves_set[of e0 "take k q" e p' rest] by (auto dest: in_set_takeD in_set_dropD)
  qed (use r q in auto)
qed

lemma worker_run_set: "set (worker_run sched i pending queue) \<subseteq> set_option pending \<union> set queue"
proof (induction sched i pending queue rule: worker_run.induct)
  case (1 sched i pending queue)
  show ?case
  proof (cases "next_injected_input_event (sched i) pending queue")
    case (Some r)
    obtain e p' q' where r: "r = (e, p', q')" by (cases r)
    with next_injected_set[of "sched i" pending queue e p' q'] "1.IH"[OF Some r[symmetric] refl] Some
    show ?thesis by (subst worker_run.simps) auto
  qed (simp add: worker_run.simps)
qed

lemma worker_run_length: "length (worker_run sched i pending queue) \<le> length queue + (if pending = None then 0 else 1)"
proof (induction sched i pending queue rule: worker_run.induct)
  case (1 sched i pending queue)
  show ?case
  proof (cases "next_injected_input_event (sched i) pending queue")
    case (Some r)
    obtain e p' q' where r: "r = (e, p', q')" by (cases r)
    with next_injected_decreases[of "sched i" pending queue e p' q'] "1.IH"[OF Some r[symmetric] refl] Some
    show ?thesis by (subst worker_run.simps) auto
  qed (simp add: worker_run.simps)
qed

text \<open>Keyboard and mouse events.\<close>

fun for_worker :: "remote_input_event \<Rightarrow> bool" where
  "for_worker (Gamepad _) = False"
| "for_worker _ = True"

lemma input_loop_all:
  assumes "allow_keyboard p" "allow_mouse p" "list_all for_worker evs" "length evs \<le> k"
  shows "input_loop p slot (Some k) evs = ([], evs)"
  using assms(3,4)
proof (induction evs arbitrary: k)
  case (Cons e evs)
  have "route_event p slot e = ToWorker" using Cons.prems(1) assms(1,2) by (cases e) (simp_all add: route_event_def)
  then show ?case using Cons by simp
qed simp


definition demo_event_bytes :: "quic_control_message \<Rightarrow> bytes" where
  "demo_event_bytes m = (case m of InputMsg (MouseMove x y) \<Rightarrow> [ucast x, ucast y] | InputMsg (Keyboard k d) \<Rightarrow> [if d then 1 else 0] | _ \<Rightarrow> [])"

definition demo_event_of :: "bytes \<Rightarrow> quic_control_message option" where
  "demo_event_of b = (case b of [x, y] \<Rightarrow> Some (InputMsg (MouseMove (ucast x) (ucast y))) | [d] \<Rightarrow> Some (InputMsg (Keyboard ''A'' (d = 1))) | _ \<Rightarrow> None)"

definition demo_queue :: "remote_input_event list" where
  "demo_queue = [MouseMove 1 1, MouseMove 2 2, Keyboard ''A'' True, Keyboard ''A'' False]"


text \<open>The state of a button after a sequence of events.\<close>

definition button_after :: "input_mouse_button \<Rightarrow> bool \<Rightarrow> remote_input_event list \<Rightarrow> bool" where
  "button_after b down evs = foldl (\<lambda>d e. case e of MouseButton b' pressed _ _ \<Rightarrow> if b' = b then pressed else d | _ \<Rightarrow> d) down evs"

lemma button_after_append: "button_after b d (xs @ ys) = button_after b (button_after b d xs) ys"
  by (simp add: button_after_def)

lemma button_after_keys: "button_after b d (map (\<lambda>k. Keyboard k u) ks) = d"
  by (induction ks) (simp_all add: button_after_def)

lemma button_after_events: "button_after b (pm_buttons st b) (button_events win st) = wn_buttons win b"
  by (cases b) (auto simp: button_after_def button_events_def)

lemma pump_buttons:
  assumes "pump_window_input u win st = (st', evs)"
  shows "pm_buttons st' b = button_after b (pm_buttons st b) evs"
    and "u \<or> wn_active win \<Longrightarrow> pm_buttons st' b = wn_buttons win b"
  using assms
  by (auto simp: pump_window_input_def Let_def button_after_append button_after_keys button_after_events
      split: if_splits option.splits) (simp_all add: button_after_def button_after_events[unfolded button_after_def])

lemma pump_run_buttons:
  "pump_run u wins st = (st', evs) \<Longrightarrow> pm_buttons st' b = button_after b (pm_buttons st b) evs"
proof (induction wins arbitrary: st evs)
  case Nil
  then show ?case by (simp add: button_after_def)
next
  case (Cons win wins)
  obtain st1 e1 where 1: "pump_window_input u win st = (st1, e1)" by (cases "pump_window_input u win st")
  obtain st2 e2 where 2: "pump_run u wins st1 = (st2, e2)" by (cases "pump_run u wins st1")
  with Cons 1 pump_buttons(1)[OF 1, of b] show ?case by (auto simp: button_after_append)
qed

text \<open>The mouse buttons the host sees after any number of ticks are those of the window at the last tick,
  when that one had the focus: no button stays pressed on the host that is released in the window, also
  after the focus was lost in between.\<close>

theorem pumped_buttons_in_step:
  assumes "u \<or> wn_active win"
  shows "button_after b False (snd (pump_run u (wins @ [win]) pump_new)) = wn_buttons win b"
proof -
  have app: "pump_run u (wins @ [win]) st =
      (let (st1, e1) = pump_run u wins st; (st2, e2) = pump_window_input u win st1 in (st2, e1 @ e2))" for st
    by (induction wins arbitrary: st) (auto simp: Let_def split: prod.splits)
  obtain st1 e1 where 1: "pump_run u wins pump_new = (st1, e1)" by (cases "pump_run u wins pump_new")
  obtain st2 e2 where 2: "pump_window_input u win st1 = (st2, e2)" by (cases "pump_window_input u win st1")
  have "button_after b False (e1 @ e2) = pm_buttons st2 b"
    using pump_run_buttons[OF 1, of b] pump_buttons(1)[OF 2, of b] by (simp add: pump_new_def button_after_append)
  with pump_buttons(2)[OF 2 assms, of b] show ?thesis by (simp add: app 1 2)
qed

theorem pumped_buttons_in_step_witness:
  "let up = \<lparr>wn_active = True, wn_mouse = Some (1, 1), wn_buttons = (\<lambda>_. False), wn_pressed = [], wn_released = []\<rparr>;
       down = up\<lparr>wn_buttons := (\<lambda>b. b = LeftButton)\<rparr>; away = up\<lparr>wn_active := False\<rparr>
   in \<not> button_after LeftButton False (snd (pump_run False ([up, down, away] @ [up]) pump_new))"
  by (simp add: Let_def pumped_buttons_in_step del: append_Cons append_Nil)

text \<open>A key released while the window has no focus is never reported as released.\<close>

lemma unfocused_release_lost:
  "\<not> wn_active win \<Longrightarrow> snd (pump_window_input False win st) = []"
  by (simp add: pump_window_input_def)

subsection \<open>Decoded frames\<close>

fun bgra_to_window_frame :: "bytes \<Rightarrow> u32 list" where
  "bgra_to_window_frame (b # g # r # a # rest) =
     (push_bit 16 (ucast r) OR push_bit 8 (ucast g) OR ucast b) # bgra_to_window_frame rest"
| "bgra_to_window_frame _ = []"

datatype pixel_format = Bgra8Unorm | Rgba8Unorm | Rgba16Float

definition bytes_per_pixel :: "pixel_format \<Rightarrow> u32" where
  "bytes_per_pixel f = (case f of Rgba16Float \<Rightarrow> 8 | _ \<Rightarrow> 4)"

datatype pixel_data = Owned bytes | GpuHandle

record decoded_frame =
  df_width :: u32
  df_height :: u32
  df_bytes_per_row :: u32
  df_pixel_format :: pixel_format
  df_data :: pixel_data

datatype frame_error = OnGpu | UnderSized | WrongFormat | PaddedRows

definition packed_bytes_per_row :: "decoded_frame \<Rightarrow> u32" where
  "packed_bytes_per_row f = df_width f * bytes_per_pixel (df_pixel_format f)"

definition frame_validate :: "decoded_frame \<Rightarrow> (frame_error, unit) result" where
  "frame_validate f =
     (case df_data f of
        GpuHandle \<Rightarrow> Err OnGpu
      | Owned bs \<Rightarrow> if length bs < unat (df_bytes_per_row f) * unat (df_height f) then Err UnderSized else Ok ())"

definition to_minifb_pixels :: "decoded_frame \<Rightarrow> (frame_error, u32 list) result" where
  "to_minifb_pixels f =
     (case df_data f of
        GpuHandle \<Rightarrow> Err OnGpu
      | Owned bs \<Rightarrow>
          if df_pixel_format f \<noteq> Bgra8Unorm then Err WrongFormat
          else if df_bytes_per_row f \<noteq> packed_bytes_per_row f then Err PaddedRows
          else Ok (bgra_to_window_frame bs))"

lemma bgra_length: "length (bgra_to_window_frame bs) = length bs div 4"
  by (induction bs rule: bgra_to_window_frame.induct) simp_all

lemma valid_frame_pixels:
  assumes "frame_validate f = Ok ()" "to_minifb_pixels f = Ok px" "unat (df_width f) * 4 < 2 ^ 32"
  shows "unat (df_width f) * unat (df_height f) \<le> length px"
proof -
  obtain bs where bs: "df_data f = Owned bs" "px = bgra_to_window_frame bs" "df_bytes_per_row f = df_width f * 4"
      "unat (df_bytes_per_row f) * unat (df_height f) \<le> length bs"
    using assms(1,2)
    by (auto simp: frame_validate_def to_minifb_pixels_def packed_bytes_per_row_def bytes_per_pixel_def split: pixel_data.splits if_splits)
  have "unat (df_width f * 4) = unat (df_width f) * 4" using assms(3) by (simp add: unat_word_ariths)
  then have "4 * (unat (df_width f) * unat (df_height f)) \<le> length bs" using bs(3,4) by (simp add: ac_simps)
  then show ?thesis by (simp add: bs(2) bgra_length)
qed

end
